(* ===== verification/Prelude.thy ===== *)
theory Prelude
  imports Main "HOL-Library.Word" "HOL-Library.Multiset"
begin

text \<open>
  Shared vocabulary of the development: the machine integer types, the C++ integer
  promotions the code relies on, the FIFO interface that the reorder buffer, the free list
  and the streams implement, and generic lemmas on words, lists and ring buffers.
\<close>

unbundle bit_operations_syntax

named_theorems field_defs \<open>definitions of instruction field extractors and encoders\<close>
named_theorems core_frame \<open>what a stage leaves unchanged\<close>

section \<open>Machine integers\<close>

type_synonym u8 = "8 word"
type_synonym u16 = "16 word"
type_synonym u32 = "32 word"
type_synonym u64 = "64 word"

text \<open>
  \<open>(x + 1) % n\<close> on a \<open>uint8_t\<close>: the operand is promoted to \<open>int\<close>, so the sum
  does not wrap before the remainder is taken; the result is converted back.
\<close>

definition inc_mod :: "nat \<Rightarrow> u8 \<Rightarrow> u8" where
  "inc_mod n x = word_of_nat ((unat x + 1) mod n)"

lemma unat_inc_mod [simp]: "0 < n \<Longrightarrow> n \<le> 256 \<Longrightarrow> unat (inc_mod n x) = (unat x + 1) mod n"
proof -
  assume n: "0 < n" "n \<le> 256"
  then have "(unat x + 1) mod n < 256"
    using mod_less_divisor [of n "unat x + 1"] by linarith
  then show ?thesis
    by (simp add: inc_mod_def unat_of_nat take_bit_nat_eq_self)
qed

lemma unat_eq_word_of_nat: "unat (x :: 'a::len word) = n \<Longrightarrow> x = word_of_nat n"
  by auto

lemma unat_eq_nat_iff: "unat (x :: 'a::len word) = unat y \<longleftrightarrow> x = y"
  by (auto simp: word_unat_eq_iff)

lemma unat_plus_one:
  "unat (x :: 'a::len word) + 1 < 2 ^ LENGTH('a) \<Longrightarrow> unat (x + 1) = unat x + 1"
  by (simp add: unat_word_ariths)

lemma unat_inc_below: "(x :: 'a::len word) < y \<Longrightarrow> unat (x + 1) = unat x + 1"
proof (rule unat_plus_one)
  assume "x < y"
  then have "unat x < unat y"
    by (simp add: word_less_nat_alt)
  moreover have "unat y < 2 ^ LENGTH('a)"
    using unsigned_less [of y] by simp
  ultimately show "unat x + 1 < 2 ^ LENGTH('a)"
    by linarith
qed

lemma unat_minus_one_pos: "unat (x :: 'a::len word) > 0 \<Longrightarrow> unat (x - 1) = unat x - 1"
  by (rule unat_minus_one) auto

text \<open>Bit masks of the source, as \<open>take_bit\<close> and single-bit tests, for bitwise proofs.\<close>

lemma and_masks32:
  "x AND 7 = take_bit 3 (x :: u32)" "x AND 0xF = take_bit 4 x" "x AND 0x1F = take_bit 5 x"
  "x AND 0x3F = take_bit 6 x" "x AND 0x7F = take_bit 7 x" "x AND 0xFF = take_bit 8 x"
  "x AND 0x3FF = take_bit 10 x" "x AND 0xFFF = take_bit 12 x"
  by (simp_all add: take_bit_eq_mask mask_numeral)

lemma and_bit32:
  "(x AND 0x800 \<noteq> 0) = bit (x :: u32) 11" "(x AND 0x1000 \<noteq> 0) = bit x 12"
  "(x AND 0x100000 \<noteq> 0) = bit x 20"
  using and_exp_eq_0_iff_not_bit [of x 11] and_exp_eq_0_iff_not_bit [of x 12]
    and_exp_eq_0_iff_not_bit [of x 20] by auto

lemma high_masks32:
  "(0xFFFFF000 :: u32) = push_bit 12 (mask 20)" "(0xFFFFE000 :: u32) = push_bit 13 (mask 19)"
  "(0xFFE00000 :: u32) = push_bit 21 (mask 11)" "(0xFFFFFE0 :: u32) = push_bit 5 (mask 23)"
  by (simp_all add: mask_numeral push_bit_eq_mult)

lemma not_bit_ge_length: "LENGTH('a) \<le> n \<Longrightarrow> \<not> bit (w :: 'a::len word) n"
  by (meson bit_imp_le_length not_le)

text \<open>Equality of 32-bit words bit by bit, for terms whose shifts are numerals.\<close>

lemma word32_eqI_bits:
  fixes a b :: u32
  assumes "bit a 0 = bit b 0" "bit a 1 = bit b 1" "bit a 2 = bit b 2" "bit a 3 = bit b 3"
    "bit a 4 = bit b 4" "bit a 5 = bit b 5" "bit a 6 = bit b 6" "bit a 7 = bit b 7"
    "bit a 8 = bit b 8" "bit a 9 = bit b 9" "bit a 10 = bit b 10" "bit a 11 = bit b 11"
    "bit a 12 = bit b 12" "bit a 13 = bit b 13" "bit a 14 = bit b 14" "bit a 15 = bit b 15"
    "bit a 16 = bit b 16" "bit a 17 = bit b 17" "bit a 18 = bit b 18" "bit a 19 = bit b 19"
    "bit a 20 = bit b 20" "bit a 21 = bit b 21" "bit a 22 = bit b 22" "bit a 23 = bit b 23"
    "bit a 24 = bit b 24" "bit a 25 = bit b 25" "bit a 26 = bit b 26" "bit a 27 = bit b 27"
    "bit a 28 = bit b 28" "bit a 29 = bit b 29" "bit a 30 = bit b 30" "bit a 31 = bit b 31"
  shows "a = b"
proof (rule bit_word_eqI)
  fix n assume "n < LENGTH(32)"
  then have "n \<in> {..<32}"
    by simp
  then show "bit a n = bit b n"
    unfolding lessThan_nat_numeral pred_numeral_simps lessThan_Suc numeral_nat lessThan_0
    using assms by (auto simp: numeral_eq_Suc)
qed

text \<open>Small values of a byte as narrower words.\<close>

lemma u8_as_word5: "(x :: u8) < 32 \<Longrightarrow> \<exists>y :: 5 word. x = ucast y"
  by (rule exI [of _ "ucast x"])
    (simp add: word_less_nat_alt unsigned_ucast_eq unsigned_take_bit_eq word_unat_eq_iff take_bit_nat_eq_self)

lemma u8_as_word3: "(x :: u8) < 8 \<Longrightarrow> \<exists>y :: 3 word. x = ucast y"
  by (rule exI [of _ "ucast x"])
    (simp add: word_less_nat_alt unsigned_ucast_eq unsigned_take_bit_eq word_unat_eq_iff take_bit_nat_eq_self)

lemma u8_as_word7: "(x :: u8) < 128 \<Longrightarrow> \<exists>y :: 7 word. x = ucast y"
  by (rule exI [of _ "ucast x"])
    (simp add: word_less_nat_alt unsigned_ucast_eq unsigned_take_bit_eq word_unat_eq_iff take_bit_nat_eq_self)

lemma ucast5_less [simp]: "(ucast (x :: 5 word) :: u8) < 32"
  using unsigned_less [of x, where ?'a = nat] by (simp add: word_less_nat_alt unsigned_ucast_eq take_bit_nat_eq_self)

lemma unat_ucast5 [simp]: "unat (ucast (x :: 5 word) :: u8) = unat x"
  using unsigned_less [of x, where ?'a = nat] by (simp add: unsigned_ucast_eq take_bit_nat_eq_self)

lemma unat5_less [simp]: "unat (x :: 5 word) < 32"
  using unsigned_less [of x, where ?'a = nat] by simp

lemma ucast5_eq_0 [simp]: "(ucast (x :: 5 word) :: u8) = 0 \<longleftrightarrow> x = 0"
  by (metis unat_ucast5 unat_0 unat_eq_zero)

text \<open>Shifts, masks and immediates as arithmetic.\<close>

lemma push_bit_spec: "push_bit n (a :: 'a::len word) = word_of_nat (unat a * 2 ^ n)"
  by (simp add: push_bit_eq_mult)

lemma drop_bit_spec: "drop_bit n (a :: 'a::len word) = word_of_nat (unat a div 2 ^ n)"
proof -
  have "unat a div 2 ^ n = unat (drop_bit n a)" by (simp add: unsigned_drop_bit_eq take_bit_nat_eq_self flip: drop_bit_eq_div)
  then show ?thesis by simp
qed

lemma signed_drop_bit_spec: "signed_drop_bit n (a :: 'a::len word) = word_of_int (sint a div 2 ^ n)"
proof -
  have "sint a div 2 ^ n = sint (signed_drop_bit n a)" by (simp add: sint_signed_drop_bit_eq flip: drop_bit_eq_div)
  then show ?thesis by simp
qed

lemma amount64: "unat ((b :: u64) AND 0x3F) = unat b mod 64"
proof -
  have "b AND 0x3F = take_bit 6 b" by (simp add: take_bit_eq_mask mask_numeral)
  moreover have "take_bit 6 (unat b) = unat b mod 64" by (simp add: take_bit_eq_mod)
  ultimately show ?thesis by (simp only: unsigned_take_bit_eq)
qed

lemma amount32: "unat ((b :: u32) AND 0x1F) = unat b mod 32"
proof -
  have "take_bit 5 (unat b) = unat b mod 32" by (simp add: take_bit_eq_mod)
  then show ?thesis by (simp only: and_masks32 unsigned_take_bit_eq)
qed

lemma numeral_mask_bits: "(0x3F :: u64) = mask 6" "(0x1F :: u32) = mask 5" "(0x7F :: u32) = mask 7"
  by (simp_all add: mask_numeral)

text \<open>Sign extension by exclusive or and subtraction.\<close>

lemma xor_sub_sign:
  fixes v :: "'a::len word"
  assumes "Suc k < LENGTH('a)"
  shows "(take_bit (Suc k) v XOR push_bit k 1) - push_bit k 1 = word_of_int (signed_take_bit k (uint v))"
proof -
  have b: "bit (take_bit (Suc k) v) k = bit v k" "bit (uint v) k = bit v k"
    using assms by (simp_all add: bit_simps)
  have t: "word_of_int (take_bit (Suc k) (uint v)) = take_bit (Suc k) v"
    by (simp add: unsigned_take_bit_eq [symmetric])
  have x: "take_bit (Suc k) v XOR push_bit k 1 = take_bit (Suc k) v + (if bit v k then - push_bit k 1 else push_bit k 1)"
    unfolding flip_bit_eq_xor [symmetric]
    using b by (cases "bit v k") (simp_all add: set_bit_eq unset_bit_eq flip_bit_eq_if push_bit_eq_mult)
  have "word_of_int (signed_take_bit k (uint v)) = take_bit (Suc k) v - 2 ^ Suc k * of_bool (bit v k)"
    unfolding signed_take_bit_eq_take_bit_minus b by (simp add: t)
  then show ?thesis unfolding x by (simp add: push_bit_eq_mult)
qed

lemma bit_0x400: "bit (0x400 :: u32) n \<longleftrightarrow> n = 10"
proof -
  have "(0x400 :: u32) = 2 ^ 10" by simp
  then show ?thesis by (simp only: bit_exp_iff) (auto simp: possible_bit_def)
qed

lemma sint_nonneg_word: "\<not> bit (w :: 'a::len word) (LENGTH('a) - 1) \<Longrightarrow> sint w = uint w"
proof (rule bit_eqI)
  fix n assume msb: "\<not> bit w (LENGTH('a) - 1)"
  then have "\<not> bit w n" if "LENGTH('a) - 1 \<le> n" for n
    using that by (cases "n = LENGTH('a) - 1") (auto dest: bit_imp_le_length)
  then show "bit (sint w) n = bit (uint w) n"
    by (cases "n < LENGTH('a) - 1") (auto simp: bit_simps min_def)
qed

lemma offset_imm: "(scast (push_bit 1 (scast (imm :: 'a::len word)) :: u32) :: u64) = word_of_int (sint imm * 2)" if "LENGTH('a) < 32"
proof -
  have "(scast (push_bit 1 (scast (imm :: 'a::len word)) :: u32) :: u64) = push_bit 1 (scast imm)"
    using that by (intro bit_word_eqI) (auto simp: bit_simps min_def simp del: push_bit_Suc One_nat_def)
  then show ?thesis by (simp add: push_bit_eq_mult mult.commute)
qed

lemma even_mask: "(v :: u64) AND NOT 1 = v div 2 * 2"
proof -
  have "v AND NOT 1 = push_bit 1 (drop_bit 1 v)"
    by (rule bit_word_eqI) (auto simp: bit_simps bit_1_iff simp del: push_bit_Suc drop_bit_Suc One_nat_def)
  then show ?thesis by (simp add: push_bit_eq_mult drop_bit_eq_div mult.commute)
qed

lemma unat_ucast_shift [simp]:
  "unat (ucast (x :: 6 word) :: u64) = unat x" "unat (ucast (y :: 5 word) :: u32) = unat y"
  "unat (ucast y :: u64) = unat y" "unat x mod 64 = unat x"
  by (simp_all add: unsigned_ucast_eq take_bit_nat_eq_self
      unsigned_less [of x, where ?'a = nat, THEN order_less_trans]
      unsigned_less [of y, where ?'a = nat, THEN order_less_trans]
      unsigned_less [of x, where ?'a = nat, simplified])

lemma ucast2_less [simp]: "(ucast (x :: 2 word) :: u8) < 8"
  using unsigned_less [of x, where ?'a = nat] by (simp add: word_less_nat_alt unsigned_ucast_eq take_bit_nat_eq_self)

lemma word2_cases: "(sz :: 2 word) = 0 \<or> sz = 1 \<or> sz = 2 \<or> sz = 3"
proof -
  have "unat sz < 4" using unsigned_less [of sz, where ?'a = nat] by simp
  then have "unat sz = 0 \<or> unat sz = 1 \<or> unat sz = 2 \<or> unat sz = 3" by arith
  then show ?thesis by (auto simp: word_unat_eq_iff)
qed

section \<open>Ring buffers\<close>

text \<open>The \<open>c\<close> elements of a ring of size \<open>n\<close> from index \<open>h\<close> on.\<close>

definition ring_list :: "nat \<Rightarrow> nat \<Rightarrow> nat \<Rightarrow> 'a list \<Rightarrow> 'a list" where
  "ring_list n h c xs = map (\<lambda>k. xs ! ((h + k) mod n)) [0..<c]"

lemma length_ring_list [simp]: "length (ring_list n h c xs) = c"
  by (simp add: ring_list_def)

lemma nth_ring_list: "k < c \<Longrightarrow> ring_list n h c xs ! k = xs ! ((h + k) mod n)"
  by (simp add: ring_list_def)

lemma ring_list_0 [simp]: "ring_list n h 0 xs = []"
  by (simp add: ring_list_def)

lemma mod_add_inj:
  assumes "j < n" "k < (n::nat)" "(h + j) mod n = (h + k) mod n"
  shows "j = k"
proof -
  have aux: "a = b" if "a \<le> b" "b < n" "(h + b) mod n = (h + a) mod n" for a b
  proof -
    from that have "n dvd b - a"
      using mod_eq_dvd_iff_nat [of "h + a" "h + b" n] by simp
    with that(2) have "b - a = 0" by (meson dvd_imp_le less_imp_diff_less not_le zero_less_iff_neq_zero)
    with that(1) show ?thesis by simp
  qed
  show ?thesis
    using aux [of j k] aux [of k j] assms by (cases "j \<le> k") auto
qed

lemma ring_list_push:
  assumes "c < n" "length xs = n"
  shows "ring_list n h (Suc c) (xs[(h + c) mod n := x]) = ring_list n h c xs @ [x]"
proof (rule nth_equalityI)
  fix k assume "k < length (ring_list n h (Suc c) (xs[(h + c) mod n := x]))"
  then have k: "k < Suc c" by simp
  have "(h + k) mod n = (h + c) mod n \<longleftrightarrow> k = c"
    using mod_add_inj [of k n c h] k assms(1) by auto
  then show "ring_list n h (Suc c) (xs[(h + c) mod n := x]) ! k = (ring_list n h c xs @ [x]) ! k"
    using k assms by (auto simp: nth_ring_list nth_append nth_list_update less_Suc_eq)
qed simp

lemma ring_list_pop: "0 < c \<Longrightarrow> ring_list n ((h + 1) mod n) (c - 1) xs = tl (ring_list n h c xs)"
proof (rule nth_equalityI)
  fix k assume c: "0 < c" and k: "k < length (ring_list n ((h + 1) mod n) (c - 1) xs)"
  then show "ring_list n ((h + 1) mod n) (c - 1) xs ! k = tl (ring_list n h c xs) ! k"
    by (simp add: nth_ring_list nth_tl mod_simps)
qed simp

lemma ring_list_update_outside:
  assumes "\<And>k. k < c \<Longrightarrow> (h + k) mod n \<noteq> i"
  shows "ring_list n h c (xs[i := x]) = ring_list n h c xs"
  using assms by (intro nth_equalityI) (simp_all add: nth_ring_list, metis nth_list_update_neq)

lemma ring_list_update_old_head:
  assumes "c < n" "h < n"
  shows "ring_list n ((h + 1) mod n) c (xs[h := x]) = ring_list n ((h + 1) mod n) c xs"
proof (rule ring_list_update_outside)
  fix k assume k: "k < c"
  have "((h + 1) mod n + k) mod n = (h + Suc k) mod n" by (simp add: mod_simps)
  moreover have "(h + Suc k) mod n \<noteq> (h + 0) mod n"
    using mod_add_inj [of "Suc k" n 0 h] k assms(1) by auto
  ultimately show "((h + 1) mod n + k) mod n \<noteq> h" using assms(2) by simp
qed

lemma hd_ring_list: "0 < c \<Longrightarrow> h < n \<Longrightarrow> hd (ring_list n h c xs) = xs ! h"
  by (simp add: hd_conv_nth nth_ring_list flip: length_greater_0_conv)

lemma ring_list_eq_Nil [simp]: "ring_list n h c xs = [] \<longleftrightarrow> c = 0"
  by (simp add: ring_list_def)

lemma set_ring_list_subset: "length xs = n \<Longrightarrow> 0 < n \<Longrightarrow> set (ring_list n h c xs) \<subseteq> set xs"
  by (auto simp: ring_list_def)

lemma ring_diff:
  fixes n :: nat
  assumes "h < n" "t < n"
  shows "(t + n - h) mod n = (if h \<le> t then t - h else t + n - h)"
proof (cases "h \<le> t")
  case True
  then have "t + n - h = (t - h) + n" by simp
  also have "\<dots> mod n = t - h" using assms by simp
  finally show ?thesis using True by simp
qed (use assms in simp)

lemma mod_succ: "t < n \<Longrightarrow> (t + 1) mod n = (if t + 1 = n then 0 else t + 1)" for n :: nat
  by auto

lemma unat_inc_mod_cases: "unat x < n \<Longrightarrow> n \<le> 256 \<Longrightarrow> unat (inc_mod n x) = (if unat x + 1 = n then 0 else unat x + 1)"
  by (subst unat_inc_mod) (auto simp: mod_succ)

section \<open>The FIFO interface\<close>

text \<open>
  What the clients of a bounded queue rely on. \<open>stored q x\<close> is the element that
  enqueueing \<open>x\<close> puts into \<open>q\<close> (the reorder buffer tags it with its index);
  \<open>room\<close> and \<open>items q \<noteq> []\<close> are the guards the code checks first.
\<close>

locale fifo =
  fixes enq :: "'x \<Rightarrow> 'q \<Rightarrow> 'q"
    and deq :: "'q \<Rightarrow> 'q"
    and front :: "'q \<Rightarrow> 'a"
    and items :: "'q \<Rightarrow> 'a list"
    and stored :: "'q \<Rightarrow> 'x \<Rightarrow> 'a"
    and room :: "'q \<Rightarrow> bool"
    and invar :: "'q \<Rightarrow> bool"
  assumes items_enq: "invar q \<Longrightarrow> room q \<Longrightarrow> items (enq x q) = items q @ [stored q x]"
    and items_deq: "invar q \<Longrightarrow> items q \<noteq> [] \<Longrightarrow> items (deq q) = tl (items q)"
    and front_items: "invar q \<Longrightarrow> items q \<noteq> [] \<Longrightarrow> front q = hd (items q)"
    and invar_enq: "invar q \<Longrightarrow> room q \<Longrightarrow> invar (enq x q)"
    and invar_deq: "invar q \<Longrightarrow> items q \<noteq> [] \<Longrightarrow> invar (deq q)"
begin

lemma deq_conserves: "invar q \<Longrightarrow> items q \<noteq> [] \<Longrightarrow> front q # items (deq q) = items q"
  by (simp add: front_items items_deq)

lemma length_enq: "invar q \<Longrightarrow> room q \<Longrightarrow> length (items (enq x q)) = Suc (length (items q))"
  by (simp add: items_enq)

lemma length_deq: "invar q \<Longrightarrow> items q \<noteq> [] \<Longrightarrow> Suc (length (items (deq q))) = length (items q)"
  using deq_conserves [of q] by (metis length_Cons)

lemma front_enq_nonempty:
  "invar q \<Longrightarrow> room q \<Longrightarrow> items q \<noteq> [] \<Longrightarrow> front (enq x q) = front q"
  by (simp add: front_items items_enq invar_enq)

lemma front_enq_empty: "invar q \<Longrightarrow> room q \<Longrightarrow> items q = [] \<Longrightarrow> front (enq x q) = stored q x"
  by (simp add: front_items items_enq invar_enq)

lemma deq_enq_empty: "invar q \<Longrightarrow> room q \<Longrightarrow> items q = [] \<Longrightarrow> items (deq (enq x q)) = []"
  by (simp add: items_deq items_enq invar_enq)

lemma mset_deq: "invar q \<Longrightarrow> items q \<noteq> [] \<Longrightarrow> add_mset (front q) (mset (items (deq q))) = mset (items q)"
  by (metis deq_conserves mset.simps(2))

lemma drain_order:
  "invar q \<Longrightarrow> n \<le> length (items q) \<Longrightarrow> items ((deq ^^ n) q) = drop n (items q) \<and> invar ((deq ^^ n) q)"
proof (induction n)
  case (Suc n)
  then have "items ((deq ^^ n) q) = drop n (items q)" "invar ((deq ^^ n) q)" by simp_all
  moreover from this Suc.prems(2) have "items ((deq ^^ n) q) \<noteq> []" by simp
  ultimately show ?case by (simp add: items_deq invar_deq drop_Suc tl_drop)
qed simp

end

section \<open>Lists\<close>

lemma list_length_one: "length xs = 1 \<Longrightarrow> xs = [xs ! 0]"
  by (cases xs) auto

lemma upt_single [simp]: "[0..<Suc 0] = [0]"
  by (simp add: upt_rec)

lemma mset_list_update_add:
  "i < length xs \<Longrightarrow> add_mset (xs ! i) (mset (xs[i := x])) = add_mset x (mset xs)"
  by (simp add: mset_update)

lemma map_idem_on: "(\<And>x. x \<in> set xs \<Longrightarrow> f x = x) \<Longrightarrow> map f xs = xs"
  by (induction xs) auto

text \<open>A fact about every branch of a conditional, without unfolding the branches.\<close>

lemma if_field: "f a = z \<Longrightarrow> f b = z \<Longrightarrow> f (if c then a else b) = z"
  by simp

end
