(* ===== verification/BoomTypes.thy ===== *)
theory BoomTypes
  imports Prelude
begin

text \<open>
  The data model of the core, from \<open>include/boom_config.hpp\<close>,
  \<open>include/boom_types.hpp\<close> and \<open>include/boom_state.hpp\<close>. Every C++ struct is a
  record with the fields in the source's order, prefixed by a short tag of the struct;
  an enumeration is a datatype with the source's enumerators; \<open>uint8_t\<close> to
  \<open>uint64_t\<close> are words of that width. A \<open>uint8_t\<close> field whose only writers are the
  enumerators of one enumeration has that enumeration as its type. A fixed-size array is
  a list, whose length the well-formedness predicate of \<open>CoreStep\<close> records.
  The default constructor of struct \<open>T\<close> is the constant \<open>T0\<close>.
\<close>

section \<open>Configuration (\<open>boom_config.hpp\<close>)\<close>

abbreviation (input) DISPATCH_WIDTH :: nat where "DISPATCH_WIDTH \<equiv> 1"
abbreviation (input) ISSUE_WIDTH :: nat where "ISSUE_WIDTH \<equiv> 3"
abbreviation (input) ROB_DEPTH :: nat where "ROB_DEPTH \<equiv> 32"
abbreviation (input) INT_PHYS_REGS :: nat where "INT_PHYS_REGS \<equiv> 52"
abbreviation (input) FP_PHYS_REGS :: nat where "FP_PHYS_REGS \<equiv> 48"
abbreviation (input) LOGICAL_REG_COUNT :: nat where "LOGICAL_REG_COUNT \<equiv> 32"
abbreviation (input) ISSUE_QUEUE_ALU_DEPTH :: nat where "ISSUE_QUEUE_ALU_DEPTH \<equiv> 8"
abbreviation (input) LDQ_DEPTH :: nat where "LDQ_DEPTH \<equiv> 8"
abbreviation (input) STQ_DEPTH :: nat where "STQ_DEPTH \<equiv> 8"
abbreviation (input) MAX_BRANCH_COUNT :: nat where "MAX_BRANCH_COUNT \<equiv> 8"
abbreviation (input) RESET_VECTOR :: u64 where "RESET_VECTOR \<equiv> 0x10040"

section \<open>Enumerations (\<open>boom_types.hpp\<close>)\<close>

datatype FuCode = FU_ALU | FU_MUL | FU_DIV | FU_CSR | FU_FPU | FU_MEM | FU_I2F | FU_F2I | FU_FDV
datatype IqType = IQ_MEM | IQ_ALU | IQ_FPU
datatype BrType = BR_N | BR_NE | BR_EQ | BR_GE | BR_GEU | BR_LT | BR_LTU | BR_J | BR_JR
datatype Op1Sel = OP1_RS1 | OP1_IMU | OP1_PC | OP1_X0
datatype Op2Sel = OP2_RS2 | OP2_IMM | OP2_IMU | OP2_IMZ | OP2_X0
datatype ImmSel = IMM_I | IMM_S | IMM_B | IMM_U | IMM_J | IMM_Z
datatype CsrCmd = CSR_N | CSR_R | CSR_W | CSR_S | CSR_C | CSR_P
datatype DstRType = DST_INT | DST_FP | DST_X0 | DST_N
datatype RobState = ROB_INIT | ROB_NORMAL | ROB_FLUSH | ROB_EXCEPTION
datatype PrivilegeMode = PRV_U | PRV_S | PRV_H | PRV_M
datatype DmemCommand = DMEM_LOAD | DMEM_STORE

primrec privilege_code :: "PrivilegeMode \<Rightarrow> u8" where
  "privilege_code PRV_U = 0"
| "privilege_code PRV_S = 1"
| "privilege_code PRV_H = 2"
| "privilege_code PRV_M = 3"

text \<open>Privilege modes are ordered by their numeric code, as in the RISC-V manuals.\<close>

instantiation PrivilegeMode :: linorder
begin

definition less_eq_PrivilegeMode :: "PrivilegeMode \<Rightarrow> PrivilegeMode \<Rightarrow> bool" where
  "less_eq_PrivilegeMode a b = (privilege_code a \<le> privilege_code b)"

definition less_PrivilegeMode :: "PrivilegeMode \<Rightarrow> PrivilegeMode \<Rightarrow> bool" where
  "less_PrivilegeMode a b = (privilege_code a < privilege_code b)"

lemma privilege_code_inj: "privilege_code a = privilege_code b \<Longrightarrow> a = b"
  by (cases a; cases b) simp_all

instance
  by standard
    (auto simp: less_eq_PrivilegeMode_def less_PrivilegeMode_def intro: privilege_code_inj)

end

section \<open>Micro-operations\<close>

record DecodeControl =
  dc_br_type :: BrType
  dc_op1_sel :: Op1Sel
  dc_op2_sel :: Op2Sel
  dc_imm_sel :: ImmSel
  dc_op_fcn :: u8
  dc_fcn_dw :: u8
  dc_csr_cmd :: CsrCmd
  dc_is_load :: bool
  dc_is_sta :: bool
  dc_is_std :: bool

record BranchInfo =
  bi_br_mask :: u8
  bi_br_tag :: u8
  bi_ftq_idx :: u8
  bi_pc_lob :: u8
  bi_edge_inst :: bool
  bi_taken :: bool
  bi_is_br :: bool
  bi_is_jalr :: bool
  bi_is_jal :: bool
  bi_is_sfb :: bool

record RenameInfo =
  ri_ldst :: u8
  ri_lrs1 :: u8
  ri_lrs2 :: u8
  ri_lrs3 :: u8
  ri_pdst :: u8
  ri_prs1 :: u8
  ri_prs2 :: u8
  ri_prs3 :: u8
  ri_ppred :: u8
  ri_prs1_busy :: bool
  ri_prs2_busy :: bool
  ri_prs3_busy :: bool
  ri_ppred_busy :: bool
  ri_stale_pdst :: u8
  ri_dst_rtype :: DstRType
  ri_lrs1_rtype :: u8
  ri_lrs2_rtype :: u8
  ri_frs3_en :: bool
  ri_fp_val :: bool
  ri_fp_single :: bool

record QueueInfo =
  qi_rob_idx :: u8
  qi_ldq_idx :: u8
  qi_stq_idx :: u8
  qi_rxq_idx :: u8

record MemoryInfo =
  mi_mem_cmd :: u8
  mi_mem_size :: u8
  mi_mem_signed :: bool
  mi_is_fence :: bool
  mi_is_fencei :: bool
  mi_is_amo :: bool
  mi_uses_ldq :: bool
  mi_uses_stq :: bool
  mi_ldst_is_rs1 :: bool
  mi_ldst_val :: bool

record ExceptionInfo =
  ei_exception :: bool
  ei_exc_cause :: u64
  ei_xcpt_pf_if :: bool
  ei_xcpt_ae_if :: bool
  ei_xcpt_ma_if :: bool
  ei_bp_debug_if :: bool
  ei_bp_xcpt_if :: bool

record DebugInfo =
  di_debug_fsrc :: u8
  di_debug_tsrc :: u8
  di_debug_inst :: u32
  di_debug_pc :: u64

record MicroOp =
  uop_uopc :: u8
  uop_inst :: u32
  uop_debug_inst :: u32
  uop_is_rvc :: bool
  uop_debug_pc :: u64
  uop_iq_type :: IqType
  uop_fu_code :: FuCode
  uop_ctrl :: DecodeControl
  uop_iw_state :: u8
  uop_iw_p1_poisoned :: bool
  uop_iw_p2_poisoned :: bool
  uop_branch :: BranchInfo
  uop_imm_packed :: u32
  uop_csr_addr :: u16
  uop_queue :: QueueInfo
  uop_rename :: RenameInfo
  uop_exception :: bool
  uop_exc_cause :: u64
  uop_bypassable :: bool
  uop_mem :: MemoryInfo
  uop_is_sys_pc2epc :: bool
  uop_is_unique :: bool
  uop_flush_on_commit :: bool
  uop_exc :: ExceptionInfo
  uop_debug :: DebugInfo

definition DecodeControl0 :: DecodeControl where
  "DecodeControl0 = \<lparr>dc_br_type = BR_N, dc_op1_sel = OP1_RS1, dc_op2_sel = OP2_RS2,
     dc_imm_sel = IMM_I, dc_op_fcn = 0, dc_fcn_dw = 0, dc_csr_cmd = CSR_N,
     dc_is_load = False, dc_is_sta = False, dc_is_std = False\<rparr>"

definition BranchInfo0 :: BranchInfo where
  "BranchInfo0 = \<lparr>bi_br_mask = 0, bi_br_tag = 0, bi_ftq_idx = 0, bi_pc_lob = 0,
     bi_edge_inst = False, bi_taken = False, bi_is_br = False, bi_is_jalr = False,
     bi_is_jal = False, bi_is_sfb = False\<rparr>"

definition RenameInfo0 :: RenameInfo where
  "RenameInfo0 = \<lparr>ri_ldst = 0, ri_lrs1 = 0, ri_lrs2 = 0, ri_lrs3 = 0, ri_pdst = 0,
     ri_prs1 = 0, ri_prs2 = 0, ri_prs3 = 0, ri_ppred = 0, ri_prs1_busy = False,
     ri_prs2_busy = False, ri_prs3_busy = False, ri_ppred_busy = False, ri_stale_pdst = 0,
     ri_dst_rtype = DST_INT, ri_lrs1_rtype = 0, ri_lrs2_rtype = 0, ri_frs3_en = False,
     ri_fp_val = False, ri_fp_single = False\<rparr>"

definition QueueInfo0 :: QueueInfo where
  "QueueInfo0 = \<lparr>qi_rob_idx = 0, qi_ldq_idx = 0, qi_stq_idx = 0, qi_rxq_idx = 0\<rparr>"

definition MemoryInfo0 :: MemoryInfo where
  "MemoryInfo0 = \<lparr>mi_mem_cmd = 0, mi_mem_size = 0, mi_mem_signed = False, mi_is_fence = False,
     mi_is_fencei = False, mi_is_amo = False, mi_uses_ldq = False, mi_uses_stq = False,
     mi_ldst_is_rs1 = False, mi_ldst_val = False\<rparr>"

definition ExceptionInfo0 :: ExceptionInfo where
  "ExceptionInfo0 = \<lparr>ei_exception = False, ei_exc_cause = 0, ei_xcpt_pf_if = False,
     ei_xcpt_ae_if = False, ei_xcpt_ma_if = False, ei_bp_debug_if = False, ei_bp_xcpt_if = False\<rparr>"

definition DebugInfo0 :: DebugInfo where
  "DebugInfo0 = \<lparr>di_debug_fsrc = 0, di_debug_tsrc = 0, di_debug_inst = 0, di_debug_pc = 0\<rparr>"

definition MicroOp0 :: MicroOp where
  "MicroOp0 = \<lparr>uop_uopc = 0, uop_inst = 0, uop_debug_inst = 0, uop_is_rvc = False,
     uop_debug_pc = 0, uop_iq_type = IQ_MEM, uop_fu_code = FU_ALU, uop_ctrl = DecodeControl0,
     uop_iw_state = 0, uop_iw_p1_poisoned = False, uop_iw_p2_poisoned = False,
     uop_branch = BranchInfo0, uop_imm_packed = 0, uop_csr_addr = 0, uop_queue = QueueInfo0,
     uop_rename = RenameInfo0, uop_exception = False, uop_exc_cause = 0,
     uop_bypassable = False, uop_mem = MemoryInfo0, uop_is_sys_pc2epc = False,
     uop_is_unique = False, uop_flush_on_commit = False, uop_exc = ExceptionInfo0,
     uop_debug = DebugInfo0\<rparr>"

section \<open>Queue entries and messages\<close>

record RobEntry =
  re_valid :: bool
  re_busy :: bool
  re_unsafe :: bool
  re_exception :: bool
  re_uop :: MicroOp
  re_memory_valid :: bool
  re_is_load :: bool
  re_is_store :: bool
  re_signed_load :: bool
  re_memory_request_sent :: bool
  re_memory_completed :: bool
  re_memory_address :: u64
  re_memory_data :: u64
  re_memory_mask :: u8
  re_memory_size :: u8
  re_memory_transaction_id :: u32

definition RobEntry0 :: RobEntry where
  "RobEntry0 = \<lparr>re_valid = False, re_busy = False, re_unsafe = False, re_exception = False,
     re_uop = MicroOp0, re_memory_valid = False, re_is_load = False, re_is_store = False,
     re_signed_load = False, re_memory_request_sent = False, re_memory_completed = False,
     re_memory_address = 0, re_memory_data = 0, re_memory_mask = 0, re_memory_size = 0,
     re_memory_transaction_id = 0\<rparr>"

record IssueSlotEntry =
  is_valid :: bool
  is_request :: bool
  is_granted :: bool
  is_killed :: bool
  is_pdst_busy :: bool
  is_prs1_busy :: bool
  is_prs2_busy :: bool
  is_prs3_busy :: bool
  is_uop :: MicroOp
  is_prs1_data :: u64
  is_prs2_data :: u64
  is_prs3_data :: u64

definition IssueSlotEntry0 :: IssueSlotEntry where
  "IssueSlotEntry0 = \<lparr>is_valid = False, is_request = False, is_granted = False,
     is_killed = False, is_pdst_busy = False, is_prs1_busy = False, is_prs2_busy = False,
     is_prs3_busy = False, is_uop = MicroOp0, is_prs1_data = 0, is_prs2_data = 0,
     is_prs3_data = 0\<rparr>"

record BranchUpdate =
  bu_resolve_mask :: u8
  bu_mispredict_mask :: u8
  bu_cfi_type :: u8
  bu_pc_sel :: u8
  bu_br_tag :: u8
  bu_valid :: bool
  bu_mispredict :: bool
  bu_taken :: bool
  bu_jalr_target :: u64
  bu_target_offset :: u64
  bu_uop :: MicroOp

definition BranchUpdate0 :: BranchUpdate where
  "BranchUpdate0 = \<lparr>bu_resolve_mask = 0, bu_mispredict_mask = 0, bu_cfi_type = 0, bu_pc_sel = 0,
     bu_br_tag = 0, bu_valid = False, bu_mispredict = False, bu_taken = False,
     bu_jalr_target = 0, bu_target_offset = 0, bu_uop = MicroOp0\<rparr>"

record CommitEntry =
  ce_valid :: bool
  ce_pc :: u64
  ce_inst :: u32
  ce_rd :: u8
  ce_priv :: u8
  ce_rd_value :: u64
  ce_exception :: bool
  ce_rd_valid :: bool
  ce_exc_cause :: u64
  ce_branch_mispredict :: bool
  ce_memory_valid :: bool
  ce_is_store :: bool
  ce_memory_address :: u64
  ce_memory_data :: u64
  ce_store_addr :: u64
  ce_store_data :: u64
  ce_memory_mask :: u8
  ce_store_mask :: u8

definition CommitEntry0 :: CommitEntry where
  "CommitEntry0 = \<lparr>ce_valid = False, ce_pc = 0, ce_inst = 0, ce_rd = 0, ce_priv = 0,
     ce_rd_value = 0, ce_exception = False, ce_rd_valid = False, ce_exc_cause = 0,
     ce_branch_mispredict = False, ce_memory_valid = False, ce_is_store = False,
     ce_memory_address = 0, ce_memory_data = 0, ce_store_addr = 0, ce_store_data = 0,
     ce_memory_mask = 0, ce_store_mask = 0\<rparr>"

record ImemRequest =
  irq_address :: u64
  irq_fetch_id :: u32
  irq_kill :: bool

record ImemResponse =
  irs_address :: u64
  irs_fetch_id :: u32
  irs_instruction :: u32
  irs_exception :: bool
  irs_exc_cause :: u64

record DmemRequest =
  drq_transaction_id :: u32
  drq_rob_idx :: u8
  drq_command :: DmemCommand
  drq_size :: u8
  drq_mask :: u8
  drq_write_mask :: u8
  drq_branch_mask :: u8
  drq_epoch :: u8
  drq_is_store :: bool
  drq_signed_load :: bool
  drq_committed :: bool
  drq_address :: u64
  drq_data :: u64
  drq_write_data :: u64

definition DmemRequest0 :: DmemRequest where
  "DmemRequest0 = \<lparr>drq_transaction_id = 0, drq_rob_idx = 0, drq_command = DMEM_LOAD,
     drq_size = 3, drq_mask = 0, drq_write_mask = 0, drq_branch_mask = 0, drq_epoch = 0,
     drq_is_store = False, drq_signed_load = False, drq_committed = False, drq_address = 0,
     drq_data = 0, drq_write_data = 0\<rparr>"

record DmemResponse =
  drs_transaction_id :: u32
  drs_data :: u64
  drs_read_data :: u64
  drs_exception :: bool
  drs_exc_cause :: u64
  drs_exception_cause :: u64

definition ImemRequest0 :: ImemRequest where
  "ImemRequest0 = \<lparr>irq_address = 0, irq_fetch_id = 0, irq_kill = False\<rparr>"

definition ImemResponse0 :: ImemResponse where
  "ImemResponse0 = \<lparr>irs_address = 0, irs_fetch_id = 0, irs_instruction = 0,
     irs_exception = False, irs_exc_cause = 0\<rparr>"

definition DmemResponse0 :: DmemResponse where
  "DmemResponse0 = \<lparr>drs_transaction_id = 0, drs_data = 0, drs_read_data = 0,
     drs_exception = False, drs_exc_cause = 0, drs_exception_cause = 0\<rparr>"

end
