(* ===== verification/BoomState.thy ===== *)
theory BoomState
  imports BoomTypes
begin

text \<open>
  The state of the core, from \<open>include/boom_state.hpp\<close>, with the constructors' initial
  values, and the streams of \<open>include/boom_interfaces.hpp\<close>. A stream is the list of its
  elements, oldest first, as the \<open>std::queue\<close> the header wraps outside Vitis.
\<close>

section \<open>Pipeline stages\<close>

record FrontendState =
  fe_pc :: u64
  fe_reset_done :: bool
  fe_request_sent :: bool
  fe_fetch_id :: u32
  fe_pending_fetch_id :: u32
  fe_response_received :: bool
  fe_resp_address :: u64
  fe_resp_instruction :: u32
  fe_resp_exception :: bool
  fe_resp_exc_cause :: u64
  fe_stalled :: bool
  fe_flush :: bool
  fe_fetch_packet_valid :: bool
  fe_fetch_uop :: MicroOp

definition FrontendState0 :: FrontendState where
  "FrontendState0 = \<lparr>fe_pc = RESET_VECTOR, fe_reset_done = False, fe_request_sent = False,
     fe_fetch_id = 0, fe_pending_fetch_id = 0, fe_response_received = False,
     fe_resp_address = 0, fe_resp_instruction = 0, fe_resp_exception = False,
     fe_resp_exc_cause = 0, fe_stalled = False, fe_flush = False,
     fe_fetch_packet_valid = False, fe_fetch_uop = MicroOp0\<rparr>"

record DecodeState =
  dec_uops :: "MicroOp list"
  dec_valids :: "bool list"

definition DecodeState0 :: DecodeState where
  "DecodeState0 = \<lparr>dec_uops = replicate DISPATCH_WIDTH MicroOp0,
     dec_valids = replicate DISPATCH_WIDTH False\<rparr>"

record RenameMapTableState =
  mt_map_table :: "u8 list"
  mt_committed_map_table :: "u8 list"
  mt_br_snapshots :: "u8 list list"

definition RenameMapTableState0 :: RenameMapTableState where
  "RenameMapTableState0 = \<lparr>mt_map_table = replicate LOGICAL_REG_COUNT 0,
     mt_committed_map_table = replicate LOGICAL_REG_COUNT 0,
     mt_br_snapshots = replicate LOGICAL_REG_COUNT (replicate MAX_BRANCH_COUNT 0)\<rparr>"

record RenameFreeListState =
  fl_free_list :: "u8 list"
  fl_head :: u8
  fl_tail :: u8
  fl_count :: u8
  fl_busy_table :: "bool list"

definition RenameFreeListState0 :: RenameFreeListState where
  "RenameFreeListState0 = \<lparr>fl_free_list = (map word_of_nat [0..<INT_PHYS_REGS])[0 := 0],
     fl_head = 1, fl_tail = word_of_nat (INT_PHYS_REGS - 1),
     fl_count = word_of_nat (INT_PHYS_REGS - 1),
     fl_busy_table = (replicate INT_PHYS_REGS False)[0 := True]\<rparr>"

record RenameState =
  ren_int_map_table :: RenameMapTableState
  ren_fp_map_table :: RenameMapTableState
  ren_int_free_list :: RenameFreeListState
  ren_fp_free_list :: RenameFreeListState
  ren_renamed_uops :: "MicroOp list"
  ren_renamed_valids :: "bool list"

definition RenameState0 :: RenameState where
  "RenameState0 = \<lparr>ren_int_map_table = RenameMapTableState0,
     ren_fp_map_table = RenameMapTableState0, ren_int_free_list = RenameFreeListState0,
     ren_fp_free_list = RenameFreeListState0,
     ren_renamed_uops = replicate DISPATCH_WIDTH MicroOp0,
     ren_renamed_valids = replicate DISPATCH_WIDTH False\<rparr>"

record IssueQueueState =
  iq_entries :: "IssueSlotEntry list"
  iq_head :: u8
  iq_tail :: u8
  iq_count :: u8

definition IssueQueueState0 :: IssueQueueState where
  "IssueQueueState0 = \<lparr>iq_entries = replicate ISSUE_QUEUE_ALU_DEPTH IssueSlotEntry0,
     iq_head = 0, iq_tail = 0, iq_count = 0\<rparr>"

record IssueState =
  iss_alu_iq :: IssueQueueState
  iss_issued_uops :: "MicroOp list"
  iss_issued_valids :: "bool list"

definition IssueState0 :: IssueState where
  "IssueState0 = \<lparr>iss_alu_iq = IssueQueueState0,
     iss_issued_uops = replicate ISSUE_WIDTH MicroOp0,
     iss_issued_valids = replicate ISSUE_WIDTH False\<rparr>"

record AluResult =
  ar_valid :: bool
  ar_uop :: MicroOp
  ar_result :: u64
  ar_exception :: bool
  ar_exc_cause :: u64
  ar_mispredict :: bool
  ar_redirect_pc :: u64
  ar_memory_valid :: bool
  ar_is_load :: bool
  ar_is_store :: bool
  ar_signed_load :: bool
  ar_memory_address :: u64
  ar_store_data :: u64
  ar_memory_mask :: u8
  ar_memory_size :: u8

definition AluResult0 :: AluResult where
  "AluResult0 = \<lparr>ar_valid = False, ar_uop = MicroOp0, ar_result = 0, ar_exception = False,
     ar_exc_cause = 0, ar_mispredict = False, ar_redirect_pc = 0, ar_memory_valid = False,
     ar_is_load = False, ar_is_store = False, ar_signed_load = False, ar_memory_address = 0,
     ar_store_data = 0, ar_memory_mask = 0, ar_memory_size = 0\<rparr>"

record ExecuteState =
  exe_alu_results :: "AluResult list"

definition ExecuteState0 :: ExecuteState where
  "ExecuteState0 = \<lparr>exe_alu_results = replicate DISPATCH_WIDTH AluResult0\<rparr>"

section \<open>Reorder buffer, CSR file, load/store unit\<close>

record RobInternalState =
  rob_entries :: "RobEntry list"
  rob_head :: u8
  rob_tail :: u8
  rob_maybe_full :: bool
  rob_state :: RobState
  rob_commit_count :: u8
  rob_last_commit :: CommitEntry
  rob_commit_valid :: bool

definition RobInternalState0 :: RobInternalState where
  "RobInternalState0 = \<lparr>rob_entries = replicate ROB_DEPTH RobEntry0, rob_head = 0, rob_tail = 0,
     rob_maybe_full = False, rob_state = ROB_INIT, rob_commit_count = 0,
     rob_last_commit = CommitEntry0, rob_commit_valid = False\<rparr>"

record CsrState =
  csr_mstatus :: u64
  csr_misa :: u64
  csr_mie :: u64
  csr_mtvec :: u64
  csr_mscratch :: u64
  csr_mepc :: u64
  csr_mcause :: u64
  csr_mtval :: u64
  csr_mip :: u64
  csr_cycle :: u64
  csr_instret :: u64
  csr_satp :: u64
  csr_priv :: u8

definition CsrState0 :: CsrState where
  "CsrState0 = \<lparr>csr_mstatus = 0x0000000a00000000, csr_misa = 0x800000000014112d, csr_mie = 0,
     csr_mtvec = 0, csr_mscratch = 0, csr_mepc = 0, csr_mcause = 0, csr_mtval = 0, csr_mip = 0,
     csr_cycle = 0, csr_instret = 0, csr_satp = 0, csr_priv = privilege_code PRV_M\<rparr>"

record StoreQueueEntry =
  sq_valid :: bool
  sq_address_valid :: bool
  sq_data_valid :: bool
  sq_committed :: bool
  sq_issued_to_memory :: bool
  sq_completed :: bool
  sq_killed :: bool
  sq_rob_idx :: u8
  sq_mask :: u8
  sq_size :: u8
  sq_branch_mask :: u8
  sq_address :: u64
  sq_data :: u64

definition StoreQueueEntry0 :: StoreQueueEntry where
  "StoreQueueEntry0 = \<lparr>sq_valid = False, sq_address_valid = False, sq_data_valid = False,
     sq_committed = False, sq_issued_to_memory = False, sq_completed = False, sq_killed = False,
     sq_rob_idx = 0, sq_mask = 0, sq_size = 0, sq_branch_mask = 0, sq_address = 0, sq_data = 0\<rparr>"

record LoadQueueEntry =
  lq_valid :: bool
  lq_signed_load :: bool
  lq_response_pending :: bool
  lq_completed :: bool
  lq_killed :: bool
  lq_rob_idx :: u8
  lq_size :: u8
  lq_branch_mask :: u8
  lq_transaction_id :: u32
  lq_address :: u64
  lq_result :: u64

definition LoadQueueEntry0 :: LoadQueueEntry where
  "LoadQueueEntry0 = \<lparr>lq_valid = False, lq_signed_load = False, lq_response_pending = False,
     lq_completed = False, lq_killed = False, lq_rob_idx = 0, lq_size = 0, lq_branch_mask = 0,
     lq_transaction_id = 0, lq_address = 0, lq_result = 0\<rparr>"

record LsuState =
  lsu_ldq_head :: u8
  lsu_ldq_tail :: u8
  lsu_ldq_count :: u8
  lsu_stq_head :: u8
  lsu_stq_tail :: u8
  lsu_stq_count :: u8
  lsu_stq :: "StoreQueueEntry list"
  lsu_ldq :: "LoadQueueEntry list"
  lsu_next_transaction_id :: u32
  lsu_load_response_pending :: bool
  lsu_pending_load_transaction_id :: u32
  lsu_pending_load_rob_idx :: u8

definition LsuState0 :: LsuState where
  "LsuState0 = \<lparr>lsu_ldq_head = 0, lsu_ldq_tail = 0, lsu_ldq_count = 0, lsu_stq_head = 0,
     lsu_stq_tail = 0, lsu_stq_count = 0, lsu_stq = replicate STQ_DEPTH StoreQueueEntry0,
     lsu_ldq = replicate LDQ_DEPTH LoadQueueEntry0, lsu_next_transaction_id = 1,
     lsu_load_response_pending = False, lsu_pending_load_transaction_id = 0,
     lsu_pending_load_rob_idx = 0\<rparr>"

section \<open>The core\<close>

record BoomCoreState =
  bs_cycle_count :: u64
  bs_frontend :: FrontendState
  bs_decode :: DecodeState
  bs_rename :: RenameState
  bs_issue :: IssueState
  bs_execute :: ExecuteState
  bs_rob :: RobInternalState
  bs_csr :: CsrState
  bs_lsu :: LsuState
  bs_int_rf :: "u64 list"
  bs_fp_rf :: "u64 list"
  bs_brupdate :: BranchUpdate
  bs_global_flush :: bool
  bs_io_success :: bool
  bs_io_halted :: bool
  bs_io_trap :: bool
  bs_tohost :: u64

definition BoomCoreState0 :: BoomCoreState where
  "BoomCoreState0 = \<lparr>bs_cycle_count = 0, bs_frontend = FrontendState0, bs_decode = DecodeState0,
     bs_rename = RenameState0, bs_issue = IssueState0, bs_execute = ExecuteState0,
     bs_rob = RobInternalState0, bs_csr = CsrState0, bs_lsu = LsuState0,
     bs_int_rf = replicate INT_PHYS_REGS 0, bs_fp_rf = replicate FP_PHYS_REGS 0,
     bs_brupdate = BranchUpdate0, bs_global_flush = False, bs_io_success = False,
     bs_io_halted = False, bs_io_trap = False, bs_tohost = 0\<rparr>"

section \<open>Streams (\<open>boom_interfaces.hpp\<close>)\<close>

type_synonym 'a stream = "'a list"

definition stream_write :: "'a stream \<Rightarrow> 'a \<Rightarrow> 'a stream" where
  "stream_write q v = q @ [v]"

text \<open>\<open>read\<close> pops the front element; the code calls it on non-empty streams only.\<close>

definition stream_read :: "'a stream \<Rightarrow> 'a \<times> 'a stream" where
  "stream_read q = (hd q, tl q)"

definition stream_empty :: "'a stream \<Rightarrow> bool" where
  "stream_empty q = (q = [])"

definition stream_full :: "'a stream \<Rightarrow> bool" where
  "stream_full q = (length q \<ge> 1024)"

record PipeSignals =
  pipe_imem_req :: "ImemRequest stream"
  pipe_imem_resp :: "ImemResponse stream"
  pipe_dmem_req :: "DmemRequest stream"
  pipe_dmem_resp :: "DmemResponse stream"
  pipe_commit_trace :: "CommitEntry stream"

definition PipeSignals0 :: PipeSignals where
  "PipeSignals0 = \<lparr>pipe_imem_req = [], pipe_imem_resp = [], pipe_dmem_req = [],
     pipe_dmem_resp = [], pipe_commit_trace = []\<rparr>"

end
