(* ===== verification/Decode.thy ===== *)
theory Decode
  imports BoomState
begin

text \<open>
  \<open>src/decode.cpp\<close>: the micro-operation codes, the five immediate extractors and
  \<open>decode_module\<close>. The \<open>switch\<close> on the major opcode is \<open>decode_opcode\<close>, with one
  definition per group of its cases; \<open>decode_uop\<close> is the body between the guards and the
  write to \<open>dec_uops[0]\<close>.
\<close>

section \<open>Micro-operation codes\<close>

abbreviation (input) UOPC_NOP :: u8 where "UOPC_NOP \<equiv> 0"
abbreviation (input) UOPC_ADD :: u8 where "UOPC_ADD \<equiv> 1"
abbreviation (input) UOPC_SUB :: u8 where "UOPC_SUB \<equiv> 2"
abbreviation (input) UOPC_SLL :: u8 where "UOPC_SLL \<equiv> 3"
abbreviation (input) UOPC_SLT :: u8 where "UOPC_SLT \<equiv> 4"
abbreviation (input) UOPC_SLTU :: u8 where "UOPC_SLTU \<equiv> 5"
abbreviation (input) UOPC_XOR :: u8 where "UOPC_XOR \<equiv> 6"
abbreviation (input) UOPC_SRL :: u8 where "UOPC_SRL \<equiv> 7"
abbreviation (input) UOPC_SRA :: u8 where "UOPC_SRA \<equiv> 8"
abbreviation (input) UOPC_OR :: u8 where "UOPC_OR \<equiv> 9"
abbreviation (input) UOPC_AND :: u8 where "UOPC_AND \<equiv> 10"
abbreviation (input) UOPC_ADDW :: u8 where "UOPC_ADDW \<equiv> 11"
abbreviation (input) UOPC_SUBW :: u8 where "UOPC_SUBW \<equiv> 12"
abbreviation (input) UOPC_SLLW :: u8 where "UOPC_SLLW \<equiv> 13"
abbreviation (input) UOPC_SRLW :: u8 where "UOPC_SRLW \<equiv> 14"
abbreviation (input) UOPC_SRAW :: u8 where "UOPC_SRAW \<equiv> 15"
abbreviation (input) UOPC_MUL :: u8 where "UOPC_MUL \<equiv> 16"
abbreviation (input) UOPC_MULH :: u8 where "UOPC_MULH \<equiv> 17"
abbreviation (input) UOPC_MULHSU :: u8 where "UOPC_MULHSU \<equiv> 18"
abbreviation (input) UOPC_MULHU :: u8 where "UOPC_MULHU \<equiv> 19"
abbreviation (input) UOPC_MULW :: u8 where "UOPC_MULW \<equiv> 20"
abbreviation (input) UOPC_DIV :: u8 where "UOPC_DIV \<equiv> 21"
abbreviation (input) UOPC_DIVU :: u8 where "UOPC_DIVU \<equiv> 22"
abbreviation (input) UOPC_REM :: u8 where "UOPC_REM \<equiv> 23"
abbreviation (input) UOPC_REMU :: u8 where "UOPC_REMU \<equiv> 24"
abbreviation (input) UOPC_DIVW :: u8 where "UOPC_DIVW \<equiv> 25"
abbreviation (input) UOPC_DIVUW :: u8 where "UOPC_DIVUW \<equiv> 26"
abbreviation (input) UOPC_REMW :: u8 where "UOPC_REMW \<equiv> 27"
abbreviation (input) UOPC_REMUW :: u8 where "UOPC_REMUW \<equiv> 28"
abbreviation (input) UOPC_JAL :: u8 where "UOPC_JAL \<equiv> 29"
abbreviation (input) UOPC_JALR :: u8 where "UOPC_JALR \<equiv> 30"
abbreviation (input) UOPC_BEQ :: u8 where "UOPC_BEQ \<equiv> 31"
abbreviation (input) UOPC_BNE :: u8 where "UOPC_BNE \<equiv> 32"
abbreviation (input) UOPC_BLT :: u8 where "UOPC_BLT \<equiv> 33"
abbreviation (input) UOPC_BGE :: u8 where "UOPC_BGE \<equiv> 34"
abbreviation (input) UOPC_BLTU :: u8 where "UOPC_BLTU \<equiv> 35"
abbreviation (input) UOPC_BGEU :: u8 where "UOPC_BGEU \<equiv> 36"
abbreviation (input) UOPC_LUI :: u8 where "UOPC_LUI \<equiv> 37"
abbreviation (input) UOPC_AUIPC :: u8 where "UOPC_AUIPC \<equiv> 38"
abbreviation (input) UOPC_LB :: u8 where "UOPC_LB \<equiv> 39"
abbreviation (input) UOPC_LH :: u8 where "UOPC_LH \<equiv> 40"
abbreviation (input) UOPC_LW :: u8 where "UOPC_LW \<equiv> 41"
abbreviation (input) UOPC_LD :: u8 where "UOPC_LD \<equiv> 42"
abbreviation (input) UOPC_LBU :: u8 where "UOPC_LBU \<equiv> 43"
abbreviation (input) UOPC_LHU :: u8 where "UOPC_LHU \<equiv> 44"
abbreviation (input) UOPC_LWU :: u8 where "UOPC_LWU \<equiv> 45"
abbreviation (input) UOPC_SB :: u8 where "UOPC_SB \<equiv> 46"
abbreviation (input) UOPC_SH :: u8 where "UOPC_SH \<equiv> 47"
abbreviation (input) UOPC_SW :: u8 where "UOPC_SW \<equiv> 48"
abbreviation (input) UOPC_SD :: u8 where "UOPC_SD \<equiv> 49"
abbreviation (input) UOPC_ADDI :: u8 where "UOPC_ADDI \<equiv> 50"
abbreviation (input) UOPC_SLLI :: u8 where "UOPC_SLLI \<equiv> 51"
abbreviation (input) UOPC_SLTI :: u8 where "UOPC_SLTI \<equiv> 52"
abbreviation (input) UOPC_SLTIU :: u8 where "UOPC_SLTIU \<equiv> 53"
abbreviation (input) UOPC_XORI :: u8 where "UOPC_XORI \<equiv> 54"
abbreviation (input) UOPC_SRLI :: u8 where "UOPC_SRLI \<equiv> 55"
abbreviation (input) UOPC_SRAI :: u8 where "UOPC_SRAI \<equiv> 56"
abbreviation (input) UOPC_ORI :: u8 where "UOPC_ORI \<equiv> 57"
abbreviation (input) UOPC_ANDI :: u8 where "UOPC_ANDI \<equiv> 58"
abbreviation (input) UOPC_ADDIW :: u8 where "UOPC_ADDIW \<equiv> 59"
abbreviation (input) UOPC_SLLIW :: u8 where "UOPC_SLLIW \<equiv> 60"
abbreviation (input) UOPC_SRLIW :: u8 where "UOPC_SRLIW \<equiv> 61"
abbreviation (input) UOPC_SRAIW :: u8 where "UOPC_SRAIW \<equiv> 62"
abbreviation (input) UOPC_FENCE :: u8 where "UOPC_FENCE \<equiv> 63"
abbreviation (input) UOPC_FENCEI :: u8 where "UOPC_FENCEI \<equiv> 64"
abbreviation (input) UOPC_ECALL :: u8 where "UOPC_ECALL \<equiv> 65"
abbreviation (input) UOPC_EBREAK :: u8 where "UOPC_EBREAK \<equiv> 66"
abbreviation (input) UOPC_CSRRW :: u8 where "UOPC_CSRRW \<equiv> 67"
abbreviation (input) UOPC_CSRRS :: u8 where "UOPC_CSRRS \<equiv> 68"
abbreviation (input) UOPC_CSRRC :: u8 where "UOPC_CSRRC \<equiv> 69"
abbreviation (input) UOPC_CSRRWI :: u8 where "UOPC_CSRRWI \<equiv> 70"
abbreviation (input) UOPC_CSRRSI :: u8 where "UOPC_CSRRSI \<equiv> 71"
abbreviation (input) UOPC_CSRRCI :: u8 where "UOPC_CSRRCI \<equiv> 72"
abbreviation (input) UOPC_MRET :: u8 where "UOPC_MRET \<equiv> 118"
abbreviation (input) UOPC_WFI :: u8 where "UOPC_WFI \<equiv> 120"
abbreviation (input) UOPC_ILLEGAL :: u8 where "UOPC_ILLEGAL \<equiv> 255"

section \<open>Immediates\<close>

definition extract_imm_i :: "u32 \<Rightarrow> u32" where
  "extract_imm_i inst = signed_drop_bit 20 inst"

definition extract_imm_s :: "u32 \<Rightarrow> u32" where
  "extract_imm_s inst =
    (let v = signed_drop_bit 20 inst AND 0xFFFFFE0;
         v = v OR (drop_bit 7 inst AND 0x1F);
         v = (if v AND 0x800 \<noteq> 0 then v OR 0xFFFFF000 else v)
     in v)"

definition extract_imm_b :: "u32 \<Rightarrow> u32" where
  "extract_imm_b inst =
    (let v = push_bit 1 (drop_bit 8 inst AND 0xF);
         v = v OR push_bit 5 (drop_bit 25 inst AND 0x3F);
         v = v OR push_bit 11 (drop_bit 7 inst AND 0x1);
         v = v OR push_bit 12 (drop_bit 31 inst AND 0x1);
         v = (if v AND 0x1000 \<noteq> 0 then v OR 0xFFFFE000 else v)
     in v)"

definition extract_imm_u :: "u32 \<Rightarrow> u32" where
  "extract_imm_u inst = inst AND 0xFFFFF000"

definition extract_imm_j :: "u32 \<Rightarrow> u32" where
  "extract_imm_j inst =
    (let v = push_bit 1 (drop_bit 21 inst AND 0x3FF);
         v = v OR push_bit 11 (drop_bit 20 inst AND 0x1);
         v = v OR push_bit 12 (drop_bit 12 inst AND 0xFF);
         v = v OR push_bit 20 (drop_bit 31 inst AND 0x1);
         v = (if v AND 0x100000 \<noteq> 0 then v OR 0xFFE00000 else v)
     in v)"

section \<open>The decoder\<close>

text \<open>Instruction fields, as the local variables of \<open>decode_module\<close>.\<close>

definition opcode_of :: "u32 \<Rightarrow> u8" where "opcode_of inst = ucast (inst AND 0x7F)"
definition f3_of :: "u32 \<Rightarrow> u8" where "f3_of inst = ucast (drop_bit 12 inst AND 0x7)"
definition f7_of :: "u32 \<Rightarrow> u8" where "f7_of inst = ucast (drop_bit 25 inst AND 0x7F)"
definition rd_of :: "u32 \<Rightarrow> u8" where "rd_of inst = ucast (drop_bit 7 inst AND 0x1F)"
definition rs1_of :: "u32 \<Rightarrow> u8" where "rs1_of inst = ucast (drop_bit 15 inst AND 0x1F)"
definition rs2_of :: "u32 \<Rightarrow> u8" where "rs2_of inst = ucast (drop_bit 20 inst AND 0x1F)"

definition decode_base :: "u64 \<Rightarrow> u32 \<Rightarrow> MicroOp" where
  "decode_base pc inst = MicroOp0
    \<lparr>uop_ctrl := DecodeControl0,
     uop_branch := BranchInfo0\<lparr>bi_pc_lob := ucast (pc AND 0x3F)\<rparr>,
     uop_mem := MemoryInfo0,
     uop_inst := inst,
     uop_debug_pc := pc,
     uop_rename := RenameInfo0
       \<lparr>ri_lrs1 := rs1_of inst, ri_lrs2 := rs2_of inst, ri_ldst := rd_of inst\<rparr>\<rparr>"

text \<open>Assignments to nested fields.\<close>

definition set_sel :: "Op1Sel \<Rightarrow> Op2Sel \<Rightarrow> MicroOp \<Rightarrow> MicroOp" where
  "set_sel s1 s2 u = u\<lparr>uop_ctrl := (uop_ctrl u)\<lparr>dc_op1_sel := s1, dc_op2_sel := s2\<rparr>\<rparr>"

definition set_unit :: "IqType \<Rightarrow> FuCode \<Rightarrow> MicroOp \<Rightarrow> MicroOp" where
  "set_unit q f u = u\<lparr>uop_iq_type := q, uop_fu_code := f\<rparr>"

definition set_dst :: "DstRType \<Rightarrow> MicroOp \<Rightarrow> MicroOp" where
  "set_dst d u = u\<lparr>uop_rename := (uop_rename u)\<lparr>ri_dst_rtype := d\<rparr>\<rparr>"

definition set_br_type :: "BrType \<Rightarrow> MicroOp \<Rightarrow> MicroOp" where
  "set_br_type b u = u\<lparr>uop_ctrl := (uop_ctrl u)\<lparr>dc_br_type := b\<rparr>\<rparr>"

definition set_mem_size :: "u8 \<Rightarrow> MicroOp \<Rightarrow> MicroOp" where
  "set_mem_size n u = u\<lparr>uop_mem := (uop_mem u)\<lparr>mi_mem_size := n\<rparr>\<rparr>"

definition set_mem_signed :: "bool \<Rightarrow> MicroOp \<Rightarrow> MicroOp" where
  "set_mem_signed b u = u\<lparr>uop_mem := (uop_mem u)\<lparr>mi_mem_signed := b\<rparr>\<rparr>"

definition set_csr_cmd :: "CsrCmd \<Rightarrow> MicroOp \<Rightarrow> MicroOp" where
  "set_csr_cmd c u = u\<lparr>uop_ctrl := (uop_ctrl u)\<lparr>dc_csr_cmd := c\<rparr>\<rparr>"

text \<open>
  The two forms of the illegal-instruction branch: with the cause set to 2, and without.
\<close>

definition set_illegal_cause :: "MicroOp \<Rightarrow> MicroOp" where
  "set_illegal_cause u = u\<lparr>uop_uopc := UOPC_ILLEGAL, uop_exception := True, uop_exc_cause := 2\<rparr>"

definition set_illegal :: "MicroOp \<Rightarrow> MicroOp" where
  "set_illegal u = u\<lparr>uop_uopc := UOPC_ILLEGAL, uop_exception := True\<rparr>"

definition decode_upper :: "u8 \<Rightarrow> Op1Sel \<Rightarrow> u32 \<Rightarrow> MicroOp \<Rightarrow> MicroOp" where
  "decode_upper code sel inst u =
    set_dst DST_INT (set_sel sel OP2_IMU (set_unit IQ_ALU FU_ALU
      (u\<lparr>uop_uopc := code, uop_imm_packed := extract_imm_u inst\<rparr>)))"

definition decode_jal :: "u32 \<Rightarrow> MicroOp \<Rightarrow> MicroOp" where
  "decode_jal inst u =
    (let u = u\<lparr>uop_uopc := UOPC_JAL, uop_imm_packed := extract_imm_j inst\<rparr>;
         u = set_br_type BR_J (set_sel OP1_PC OP2_IMM (set_unit IQ_ALU FU_ALU u));
         u = set_dst (if rd_of inst \<noteq> 0 then DST_INT else DST_X0) u
     in u\<lparr>uop_branch := (uop_branch u)\<lparr>bi_is_jal := True\<rparr>\<rparr>)"

definition decode_jalr :: "u32 \<Rightarrow> MicroOp \<Rightarrow> MicroOp" where
  "decode_jalr inst u =
    (let u = u\<lparr>uop_uopc := UOPC_JALR, uop_imm_packed := extract_imm_i inst\<rparr>;
         u = set_br_type BR_JR (set_sel OP1_RS1 OP2_IMM (set_unit IQ_ALU FU_ALU u));
         u = set_dst (if rd_of inst \<noteq> 0 then DST_INT else DST_X0) u
     in u\<lparr>uop_branch := (uop_branch u)\<lparr>bi_is_jalr := True\<rparr>\<rparr>)"

definition decode_branch :: "u32 \<Rightarrow> MicroOp \<Rightarrow> MicroOp" where
  "decode_branch inst u =
    (let f3 = f3_of inst;
         u = set_sel OP1_RS1 OP2_RS2 (set_unit IQ_ALU FU_ALU u);
         u = u\<lparr>uop_imm_packed := extract_imm_b inst\<rparr>;
         u = set_dst DST_N (u\<lparr>uop_branch := (uop_branch u)\<lparr>bi_is_br := True\<rparr>\<rparr>)
     in if f3 = 0 then set_br_type BR_EQ (u\<lparr>uop_uopc := UOPC_BEQ\<rparr>)
        else if f3 = 1 then set_br_type BR_NE (u\<lparr>uop_uopc := UOPC_BNE\<rparr>)
        else if f3 = 4 then set_br_type BR_LT (u\<lparr>uop_uopc := UOPC_BLT\<rparr>)
        else if f3 = 5 then set_br_type BR_GE (u\<lparr>uop_uopc := UOPC_BGE\<rparr>)
        else if f3 = 6 then set_br_type BR_LTU (u\<lparr>uop_uopc := UOPC_BLTU\<rparr>)
        else if f3 = 7 then set_br_type BR_GEU (u\<lparr>uop_uopc := UOPC_BGEU\<rparr>)
        else set_illegal_cause u)"

definition decode_load :: "u32 \<Rightarrow> MicroOp \<Rightarrow> MicroOp" where
  "decode_load inst u =
    (let f3 = f3_of inst;
         u = set_sel OP1_RS1 OP2_IMM (set_unit IQ_MEM FU_MEM u);
         u = u\<lparr>uop_ctrl := (uop_ctrl u)\<lparr>dc_is_load := True, dc_is_sta := False\<rparr>\<rparr>;
         u = set_dst DST_INT (u\<lparr>uop_imm_packed := extract_imm_i inst\<rparr>);
         u = u\<lparr>uop_mem := (uop_mem u)\<lparr>mi_mem_signed := True, mi_uses_ldq := True\<rparr>\<rparr>
     in if f3 = 0 then set_mem_size 0 (u\<lparr>uop_uopc := UOPC_LB\<rparr>)
        else if f3 = 1 then set_mem_size 1 (u\<lparr>uop_uopc := UOPC_LH\<rparr>)
        else if f3 = 2 then set_mem_size 2 (u\<lparr>uop_uopc := UOPC_LW\<rparr>)
        else if f3 = 3 then set_mem_size 3 (u\<lparr>uop_uopc := UOPC_LD\<rparr>)
        else if f3 = 4 then set_mem_signed False (set_mem_size 0 (u\<lparr>uop_uopc := UOPC_LBU\<rparr>))
        else if f3 = 5 then set_mem_signed False (set_mem_size 1 (u\<lparr>uop_uopc := UOPC_LHU\<rparr>))
        else if f3 = 6 then set_mem_signed False (set_mem_size 2 (u\<lparr>uop_uopc := UOPC_LWU\<rparr>))
        else set_illegal_cause u)"

definition decode_store :: "u32 \<Rightarrow> MicroOp \<Rightarrow> MicroOp" where
  "decode_store inst u =
    (let f3 = f3_of inst;
         u = set_sel OP1_RS1 OP2_RS2 (set_unit IQ_MEM FU_MEM u);
         u = u\<lparr>uop_ctrl := (uop_ctrl u)\<lparr>dc_is_load := False, dc_is_sta := True\<rparr>\<rparr>;
         u = u\<lparr>uop_imm_packed := extract_imm_s inst\<rparr>;
         u = set_dst DST_N (u\<lparr>uop_mem := (uop_mem u)\<lparr>mi_uses_stq := True\<rparr>\<rparr>)
     in if f3 = 0 then set_mem_size 0 (u\<lparr>uop_uopc := UOPC_SB\<rparr>)
        else if f3 = 1 then set_mem_size 1 (u\<lparr>uop_uopc := UOPC_SH\<rparr>)
        else if f3 = 2 then set_mem_size 2 (u\<lparr>uop_uopc := UOPC_SW\<rparr>)
        else if f3 = 3 then set_mem_size 3 (u\<lparr>uop_uopc := UOPC_SD\<rparr>)
        else set_illegal_cause u)"

definition decode_op_imm :: "u32 \<Rightarrow> MicroOp \<Rightarrow> MicroOp" where
  "decode_op_imm inst u =
    (let f3 = f3_of inst; f7 = f7_of inst;
         u = set_sel OP1_RS1 OP2_IMM (set_unit IQ_ALU FU_ALU u);
         u = set_dst DST_INT (u\<lparr>uop_imm_packed := extract_imm_i inst\<rparr>)
     in if f3 = 0 then u\<lparr>uop_uopc := UOPC_ADDI\<rparr>
        else if f3 = 2 then u\<lparr>uop_uopc := UOPC_SLTI\<rparr>
        else if f3 = 3 then u\<lparr>uop_uopc := UOPC_SLTIU\<rparr>
        else if f3 = 4 then u\<lparr>uop_uopc := UOPC_XORI\<rparr>
        else if f3 = 6 then u\<lparr>uop_uopc := UOPC_ORI\<rparr>
        else if f3 = 7 then u\<lparr>uop_uopc := UOPC_ANDI\<rparr>
        else if f3 = 1 then u\<lparr>uop_uopc := UOPC_SLLI\<rparr>
        else if f3 = 5 then u\<lparr>uop_uopc := (if f7 = 0 then UOPC_SRLI else UOPC_SRAI)\<rparr>
        else set_illegal u)"

definition decode_op_imm_32 :: "u32 \<Rightarrow> MicroOp \<Rightarrow> MicroOp" where
  "decode_op_imm_32 inst u =
    (let f3 = f3_of inst; f7 = f7_of inst;
         u = set_sel OP1_RS1 OP2_IMM (set_unit IQ_ALU FU_ALU u);
         u = u\<lparr>uop_imm_packed := extract_imm_i inst\<rparr>;
         u = set_dst DST_INT (u\<lparr>uop_ctrl := (uop_ctrl u)\<lparr>dc_fcn_dw := 1\<rparr>\<rparr>)
     in if f3 = 0 then u\<lparr>uop_uopc := UOPC_ADDIW\<rparr>
        else if f3 = 1 then u\<lparr>uop_uopc := UOPC_SLLIW\<rparr>
        else if f3 = 5 then u\<lparr>uop_uopc := (if f7 = 0 then UOPC_SRLIW else UOPC_SRAIW)\<rparr>
        else set_illegal u)"

definition decode_op :: "u32 \<Rightarrow> MicroOp \<Rightarrow> MicroOp" where
  "decode_op inst u =
    (let f3 = f3_of inst; f7 = f7_of inst;
         u = set_sel OP1_RS1 OP2_RS2 (u\<lparr>uop_iq_type := IQ_ALU\<rparr>)
     in if f7 = 1 then
          (let u = set_dst DST_INT (u\<lparr>uop_fu_code := FU_MUL\<rparr>)
           in if f3 = 0 then u\<lparr>uop_uopc := UOPC_MUL\<rparr> else set_illegal u)
        else
          (let u = set_dst DST_INT (u\<lparr>uop_fu_code := FU_ALU\<rparr>)
           in if f3 = 0 then u\<lparr>uop_uopc := (if f7 = 0x20 then UOPC_SUB else UOPC_ADD)\<rparr>
              else if f3 = 1 then u\<lparr>uop_uopc := UOPC_SLL\<rparr>
              else if f3 = 2 then u\<lparr>uop_uopc := UOPC_SLT\<rparr>
              else if f3 = 3 then u\<lparr>uop_uopc := UOPC_SLTU\<rparr>
              else if f3 = 4 then u\<lparr>uop_uopc := UOPC_XOR\<rparr>
              else if f3 = 5 then u\<lparr>uop_uopc := (if f7 = 0x20 then UOPC_SRA else UOPC_SRL)\<rparr>
              else if f3 = 6 then u\<lparr>uop_uopc := UOPC_OR\<rparr>
              else if f3 = 7 then u\<lparr>uop_uopc := UOPC_AND\<rparr>
              else set_illegal u))"

definition decode_op_32 :: "u32 \<Rightarrow> MicroOp \<Rightarrow> MicroOp" where
  "decode_op_32 inst u =
    (let f3 = f3_of inst; f7 = f7_of inst;
         u = set_sel OP1_RS1 OP2_RS2 (set_unit IQ_ALU FU_ALU u);
         u = set_dst DST_INT u;
         u = u\<lparr>uop_ctrl := (uop_ctrl u)\<lparr>dc_fcn_dw := 1\<rparr>\<rparr>
     in if f3 = 0 then u\<lparr>uop_uopc := (if f7 = 0x20 then UOPC_SUBW else UOPC_ADDW)\<rparr>
        else if f3 = 1 then u\<lparr>uop_uopc := UOPC_SLLW\<rparr>
        else if f3 = 5 then u\<lparr>uop_uopc := (if f7 = 0x20 then UOPC_SRAW else UOPC_SRLW)\<rparr>
        else set_illegal u)"

definition decode_fence :: "MicroOp \<Rightarrow> MicroOp" where
  "decode_fence u = set_dst DST_N (set_unit IQ_MEM FU_MEM (u\<lparr>uop_uopc := UOPC_FENCE\<rparr>))"

definition decode_system :: "u32 \<Rightarrow> MicroOp \<Rightarrow> MicroOp" where
  "decode_system inst u =
    (let f3 = f3_of inst; rd = rd_of inst
     in if f3 = 0 then
          (if rd = 0 \<and> drop_bit 20 inst = 0 then
             (set_unit IQ_ALU FU_CSR (u\<lparr>uop_uopc := UOPC_ECALL\<rparr>))
               \<lparr>uop_exception := True, uop_exc_cause := 11, uop_is_sys_pc2epc := True\<rparr>
           else set_dst DST_N (set_unit IQ_ALU FU_CSR (u\<lparr>uop_uopc := UOPC_MRET\<rparr>)))
        else
          (let u = set_sel OP1_RS1 OP2_IMZ (set_unit IQ_ALU FU_CSR u);
               u = set_dst DST_INT (u\<lparr>uop_csr_addr := ucast (drop_bit 20 inst)\<rparr>)
           in if f3 = 1 then set_csr_cmd CSR_W (u\<lparr>uop_uopc := UOPC_CSRRW\<rparr>)
              else if f3 = 2 then set_csr_cmd CSR_S (u\<lparr>uop_uopc := UOPC_CSRRS\<rparr>)
              else if f3 = 3 then set_csr_cmd CSR_C (u\<lparr>uop_uopc := UOPC_CSRRC\<rparr>)
              else if f3 = 5 then set_csr_cmd CSR_W (u\<lparr>uop_uopc := UOPC_CSRRWI\<rparr>)
              else if f3 = 6 then set_csr_cmd CSR_S (u\<lparr>uop_uopc := UOPC_CSRRSI\<rparr>)
              else if f3 = 7 then set_csr_cmd CSR_C (u\<lparr>uop_uopc := UOPC_CSRRCI\<rparr>)
              else set_illegal u))"

definition decode_opcode :: "u32 \<Rightarrow> MicroOp \<Rightarrow> MicroOp" where
  "decode_opcode inst u =
    (let opcode = opcode_of inst
     in if opcode = 0x37 then decode_upper UOPC_LUI OP1_X0 inst u
        else if opcode = 0x17 then decode_upper UOPC_AUIPC OP1_PC inst u
        else if opcode = 0x6F then decode_jal inst u
        else if opcode = 0x67 then decode_jalr inst u
        else if opcode = 0x63 then decode_branch inst u
        else if opcode = 0x03 then decode_load inst u
        else if opcode = 0x23 then decode_store inst u
        else if opcode = 0x13 then decode_op_imm inst u
        else if opcode = 0x1B then decode_op_imm_32 inst u
        else if opcode = 0x33 then decode_op inst u
        else if opcode = 0x3B then decode_op_32 inst u
        else if opcode = 0x0F then decode_fence u
        else if opcode = 0x73 then decode_system inst u
        else set_unit IQ_ALU FU_ALU (set_illegal_cause u))"

definition decode_uop :: "u64 \<Rightarrow> u32 \<Rightarrow> MicroOp" where
  "decode_uop pc inst =
    (let u = decode_opcode inst (decode_base pc inst)
     in if uop_uopc u = UOPC_ILLEGAL \<and> \<not> uop_exception u
        then u\<lparr>uop_exception := True, uop_exc_cause := 2\<rparr> else u)"

definition decode_module :: "BoomCoreState \<Rightarrow> BoomCoreState" where
  "decode_module s =
    (let s = s\<lparr>bs_decode := (bs_decode s)\<lparr>dec_valids := (dec_valids (bs_decode s))[0 := False]\<rparr>\<rparr>
     in if bs_global_flush s then s
        else if \<not> fe_fetch_packet_valid (bs_frontend s) then s
        else let pc = uop_debug_pc (fe_fetch_uop (bs_frontend s));
                 inst = uop_inst (fe_fetch_uop (bs_frontend s));
                 u = decode_uop pc inst
             in s\<lparr>bs_decode := (bs_decode s)
                   \<lparr>dec_uops := (dec_uops (bs_decode s))[0 := u],
                    dec_valids := (dec_valids (bs_decode s))[0 := True]\<rparr>\<rparr>)"

section \<open>Simplification bundle\<close>

lemmas decode_defs = decode_uop_def decode_opcode_def decode_base_def
  decode_upper_def decode_jal_def decode_jalr_def decode_branch_def decode_load_def
  decode_store_def decode_op_imm_def decode_op_imm_32_def decode_op_def decode_op_32_def
  decode_fence_def decode_system_def set_sel_def set_unit_def set_dst_def set_br_type_def
  set_mem_size_def set_mem_signed_def set_csr_cmd_def set_illegal_cause_def set_illegal_def
  MicroOp0_def DecodeControl0_def BranchInfo0_def MemoryInfo0_def RenameInfo0_def Let_def

section \<open>What the decoder promises\<close>

definition exception_marked :: "MicroOp \<Rightarrow> bool" where
  "exception_marked u = (uop_exception u \<longleftrightarrow> uop_uopc u = 255 \<or> uop_uopc u = 65)"

lemmas decode_setters = set_sel_def set_unit_def set_dst_def set_br_type_def set_mem_size_def set_mem_signed_def
  set_csr_cmd_def set_illegal_cause_def set_illegal_def

text \<open>What no group of the \<open>switch\<close> assigns: the instruction and the register numbers.\<close>

definition uop_identity :: "MicroOp \<Rightarrow> u32 \<times> u64 \<times> RenameInfo \<times> QueueInfo" where
  "uop_identity u = (uop_inst u, uop_debug_pc u, (uop_rename u)\<lparr>ri_dst_rtype := DST_N\<rparr>, uop_queue u)"

lemma uop_identity_groups:
  "uop_identity (decode_upper code sel w u) = uop_identity u" "uop_identity (decode_jal w u) = uop_identity u"
  "uop_identity (decode_jalr w u) = uop_identity u" "uop_identity (decode_branch w u) = uop_identity u"
  "uop_identity (decode_load w u) = uop_identity u" "uop_identity (decode_store w u) = uop_identity u"
  "uop_identity (decode_op_imm w u) = uop_identity u" "uop_identity (decode_op_imm_32 w u) = uop_identity u"
  "uop_identity (decode_op w u) = uop_identity u" "uop_identity (decode_op_32 w u) = uop_identity u"
  "uop_identity (decode_fence u) = uop_identity u" "uop_identity (decode_system w u) = uop_identity u"
  "uop_identity (set_unit q f (set_illegal_cause u)) = uop_identity u"
  by (simp_all add: uop_identity_def decode_upper_def decode_jal_def decode_jalr_def decode_branch_def decode_load_def
      decode_store_def decode_op_imm_def decode_op_imm_32_def decode_op_def decode_op_32_def decode_fence_def
      decode_system_def decode_setters Let_def)

lemma uop_identity_decode: "uop_identity (decode_uop pc w) = uop_identity (decode_base pc w)"
proof -
  have "uop_identity (decode_opcode w u) = uop_identity u" for u
    by (simp add: decode_opcode_def Let_def uop_identity_groups)
  moreover have "uop_identity (u\<lparr>uop_exception := e, uop_exc_cause := c\<rparr>) = uop_identity u" for u e c
    by (simp add: uop_identity_def)
  ultimately show ?thesis by (simp only: decode_uop_def Let_def split: if_split) simp
qed

lemma decode_uop_identity:
  "uop_inst (decode_uop pc w) = w" "uop_debug_pc (decode_uop pc w) = pc" "uop_queue (decode_uop pc w) = QueueInfo0"
  "(uop_rename (decode_uop pc w))\<lparr>ri_dst_rtype := DST_N\<rparr> = RenameInfo0
     \<lparr>ri_lrs1 := rs1_of w, ri_lrs2 := rs2_of w, ri_ldst := rd_of w, ri_dst_rtype := DST_N\<rparr>"
  using uop_identity_decode [of pc w] by (simp_all add: uop_identity_def decode_base_def MicroOp0_def)

lemma decode_uop_registers:
  "ri_lrs1 (uop_rename (decode_uop pc w)) = rs1_of w" "ri_lrs2 (uop_rename (decode_uop pc w)) = rs2_of w"
  "ri_ldst (uop_rename (decode_uop pc w)) = rd_of w" "ri_prs1 (uop_rename (decode_uop pc w)) = 0"
  "ri_prs2 (uop_rename (decode_uop pc w)) = 0" "ri_pdst (uop_rename (decode_uop pc w)) = 0"
  "ri_stale_pdst (uop_rename (decode_uop pc w)) = 0"
  using decode_uop_identity(4) [of pc w] by (cases "uop_rename (decode_uop pc w)"; simp add: RenameInfo0_def)+

text \<open>Every group of the \<open>switch\<close> marks exactly its illegal encodings and the environment call.\<close>

lemma exception_marked_groups:
  assumes "\<not> uop_exception u"
  shows "exception_marked (decode_upper 37 sel w u)" "exception_marked (decode_upper 38 sel w u)"
    "exception_marked (decode_jal w u)" "exception_marked (decode_jalr w u)"
    "exception_marked (decode_branch w u)" "exception_marked (decode_load w u)" "exception_marked (decode_store w u)"
    "exception_marked (decode_op_imm w u)" "exception_marked (decode_op_imm_32 w u)" "exception_marked (decode_op w u)"
    "exception_marked (decode_op_32 w u)" "exception_marked (decode_fence u)" "exception_marked (decode_system w u)"
    "exception_marked (set_unit q f (set_illegal_cause u))"
  using assms unfolding exception_marked_def decode_setters
  by (simp_all add: decode_upper_def decode_jal_def decode_jalr_def decode_branch_def decode_load_def decode_store_def
      decode_op_imm_def decode_op_imm_32_def decode_op_def decode_op_32_def decode_fence_def decode_system_def
      decode_setters Let_def)

lemma exception_marked_opcode: "\<not> uop_exception u \<Longrightarrow> exception_marked (decode_opcode w u)"
  unfolding decode_opcode_def Let_def
  by (intro if_field [where f = exception_marked and z = True, simplified] exception_marked_groups)

text \<open>
  Which words raise, and with which cause, as a table over the major opcode, funct3, funct7
  and, for the environment call, the remaining fields.
\<close>

definition decode_cause :: "u32 \<Rightarrow> u64 option" where
  "decode_cause w =
    (let c = opcode_of w; f3 = f3_of w
     in if c \<in> {0x37, 0x17, 0x6F, 0x67, 0x13, 0x0F} then None
        else if c = 0x63 then if f3 \<in> {2, 3} then Some 2 else None
        else if c = 0x03 then if f3 = 7 then Some 2 else None
        else if c = 0x23 then if f3 \<in> {4, 5, 6, 7} then Some 2 else None
        else if c = 0x1B \<or> c = 0x3B then if f3 \<in> {0, 1, 5} then None else Some 0
        else if c = 0x33 then if f7_of w = 1 \<and> f3 \<noteq> 0 then Some 0 else None
        else if c = 0x73 then if f3 = 4 then Some 0 else if f3 = 0 \<and> rd_of w = 0 \<and> drop_bit 20 w = 0 then Some 11 else None
        else Some 2)"

lemma f3_cases: "f3_of w \<in> {0, 1, 2, 3, 4, 5, 6, 7}"
proof -
  have "unat (f3_of w) < 8"
    using take_bit_nat_less_exp [of 3 "unat (drop_bit 12 w)"]
    by (simp add: f3_of_def and_masks32 unsigned_ucast_eq unsigned_take_bit_eq)
  then have "unat (f3_of w) \<in> {0, 1, 2, 3, 4, 5, 6, 7}" by auto
  then show ?thesis by (elim insertE emptyE) (auto dest!: unat_eq_word_of_nat)
qed

text \<open>The exception, the cause and the two special codes of a micro-operation.\<close>

definition raised :: "MicroOp \<Rightarrow> bool \<times> u64 \<times> bool \<times> bool" where
  "raised u = (uop_exception u, uop_exc_cause u, uop_uopc u = UOPC_ILLEGAL, uop_uopc u = UOPC_ECALL)"

definition raised_by :: "u64 option \<Rightarrow> bool \<times> u64 \<times> bool \<times> bool" where
  "raised_by c = (c \<noteq> None, (case c of None \<Rightarrow> 0 | Some x \<Rightarrow> x), c \<noteq> None \<and> c \<noteq> Some 11, c = Some 11)"

lemma raised_groups:
  assumes "\<not> uop_exception u" "uop_exc_cause u = 0"
  shows "raised (decode_upper 37 sel w u) = raised_by None" "raised (decode_upper 38 sel w u) = raised_by None"
    "raised (decode_jal w u) = raised_by None" "raised (decode_jalr w u) = raised_by None"
    "raised (decode_branch w u) = raised_by (if f3_of w \<in> {2, 3} then Some 2 else None)"
    "raised (decode_load w u) = raised_by (if f3_of w = 7 then Some 2 else None)"
    "raised (decode_store w u) = raised_by (if f3_of w \<in> {4, 5, 6, 7} then Some 2 else None)"
    "raised (decode_op_imm w u) = raised_by None"
    "raised (decode_op_imm_32 w u) = raised_by (if f3_of w \<in> {0, 1, 5} then None else Some 0)"
    "raised (decode_op w u) = raised_by (if f7_of w = 1 \<and> f3_of w \<noteq> 0 then Some 0 else None)"
    "raised (decode_op_32 w u) = raised_by (if f3_of w \<in> {0, 1, 5} then None else Some 0)"
    "raised (decode_fence u) = raised_by None"
    "raised (decode_system w u) = raised_by (if f3_of w = 4 then Some 0
       else if f3_of w = 0 \<and> rd_of w = 0 \<and> drop_bit 20 w = 0 then Some 11 else None)"
    "raised (set_unit q f (set_illegal_cause u)) = raised_by (Some 2)"
  using assms f3_cases [of w]
  by (auto simp: raised_def raised_by_def decode_upper_def decode_jal_def decode_jalr_def decode_branch_def decode_load_def
      decode_store_def decode_op_imm_def decode_op_imm_32_def decode_op_def decode_op_32_def decode_fence_def
      decode_system_def decode_setters Let_def)

lemma raised_decode: "raised (decode_uop pc w) = raised_by (decode_cause w)"
proof -
  let ?u = "decode_base pc w"
  have b: "\<not> uop_exception ?u" "uop_exc_cause ?u = 0" by (simp_all add: decode_base_def MicroOp0_def)
  have o: "raised (decode_opcode w ?u) = raised_by (decode_cause w)"
  proof (cases "opcode_of w \<in> {0x37, 0x17, 0x6F, 0x67, 0x63, 0x03, 0x23, 0x13, 0x1B, 0x33, 0x3B, 0x0F, 0x73}")
    case True
    then show ?thesis
      by (elim insertE emptyE) (simp_all add: decode_opcode_def decode_cause_def raised_groups [OF b] Let_def)
  next
    case False
    then show ?thesis by (simp add: decode_opcode_def decode_cause_def raised_groups [OF b] Let_def)
  qed
  have "uop_uopc (decode_opcode w ?u) = UOPC_ILLEGAL \<Longrightarrow> uop_exception (decode_opcode w ?u)"
    using exception_marked_opcode [OF b(1), of w] by (simp add: exception_marked_def)
  then have "decode_uop pc w = decode_opcode w ?u" by (auto simp: decode_uop_def Let_def)
  then show ?thesis using o by simp
qed

text \<open>
  C20: Which words the decoder rejects, exactly. Rejected, with cause 2: every major opcode
  outside the thirteen known ones, branches with funct3 2 or 3, loads with funct3 7, stores
  with funct3 4 to 7. Rejected too, but with cause 0: the 32-bit immediate and register
  operations with a funct3 other than 0, 1 and 5, funct7 1 of the register operations (the
  multiplications) with a funct3 other than 0, and SYSTEM with funct3 4. The environment call,
  recognised by a zero funct3, destination and upper twelve bits, raises with cause 11. Every
  other word is accepted without an exception, among them words RV64I does not define, such
  as register operations with any other funct7.
\<close>
theorem decode_exceptions:
  "uop_exception (decode_uop pc w) = (decode_cause w \<noteq> None)
   \<and> uop_exc_cause (decode_uop pc w) = (case decode_cause w of None \<Rightarrow> 0 | Some c \<Rightarrow> c)
   \<and> (uop_uopc (decode_uop pc w) = 255) = (decode_cause w \<notin> {None, Some 11})
   \<and> (uop_uopc (decode_uop pc w) = 65) = (decode_cause w = Some 11)"
  using raised_decode [of pc w] by (simp add: raised_def raised_by_def)

text \<open>The control bits as a function of the major opcode.\<close>

definition decode_kind :: "u8 \<Rightarrow> MicroOp \<Rightarrow> bool" where
  "decode_kind c u = (dc_is_load (uop_ctrl u) = (c = 0x03) \<and> dc_is_sta (uop_ctrl u) = (c = 0x23)
    \<and> mi_uses_ldq (uop_mem u) = (c = 0x03) \<and> mi_uses_stq (uop_mem u) = (c = 0x23)
    \<and> (uop_iq_type u = IQ_MEM) = (c \<in> {0x03, 0x23, 0x0F}) \<and> mi_mem_size (uop_mem u) \<le> 3
    \<and> bi_is_br (uop_branch u) = (c = 0x63) \<and> bi_is_jal (uop_branch u) = (c = 0x6F)
    \<and> bi_is_jalr (uop_branch u) = (c = 0x67))"

definition decode_fresh :: "MicroOp \<Rightarrow> bool" where
  "decode_fresh u = (\<not> dc_is_load (uop_ctrl u) \<and> \<not> dc_is_sta (uop_ctrl u) \<and> \<not> mi_uses_ldq (uop_mem u)
    \<and> \<not> mi_uses_stq (uop_mem u) \<and> mi_mem_size (uop_mem u) = 0 \<and> \<not> bi_is_br (uop_branch u)
    \<and> \<not> bi_is_jal (uop_branch u) \<and> \<not> bi_is_jalr (uop_branch u))"

lemma decode_kind_groups:
  assumes "decode_fresh u"
  shows "decode_kind 0x37 (decode_upper n sel w u)" "decode_kind 0x17 (decode_upper n sel w u)"
    "decode_kind 0x6F (decode_jal w u)" "decode_kind 0x67 (decode_jalr w u)"
    "decode_kind 0x63 (decode_branch w u)" "decode_kind 0x03 (decode_load w u)" "decode_kind 0x23 (decode_store w u)"
    "decode_kind 0x13 (decode_op_imm w u)" "decode_kind 0x1B (decode_op_imm_32 w u)" "decode_kind 0x33 (decode_op w u)"
    "decode_kind 0x3B (decode_op_32 w u)" "decode_kind 0x0F (decode_fence u)" "decode_kind 0x73 (decode_system w u)"
    "c \<notin> {0x03, 0x23, 0x0F, 0x63, 0x6F, 0x67} \<Longrightarrow> decode_kind c (set_unit IQ_ALU FU_ALU (set_illegal_cause u))"
  using assms unfolding decode_kind_def decode_fresh_def decode_setters
  by (simp_all add: decode_upper_def decode_jal_def decode_jalr_def decode_branch_def decode_load_def decode_store_def
      decode_op_imm_def decode_op_imm_32_def decode_op_def decode_op_32_def decode_fence_def decode_system_def
      decode_setters Let_def)

lemma decode_kind_opcode:
  assumes "decode_fresh u"
  shows "decode_kind (opcode_of w) (decode_opcode w u)"
proof -
  note g = decode_kind_groups [OF assms]
  show ?thesis
  proof (cases "opcode_of w \<in> {0x37, 0x17, 0x6F, 0x67, 0x63, 0x03, 0x23, 0x13, 0x1B, 0x33, 0x3B, 0x0F, 0x73}")
    case True
    then show ?thesis
      by (elim insertE emptyE) (simp_all add: decode_opcode_def Let_def g)
  next
    case False
    then show ?thesis using g(14) [of "opcode_of w"] by (simp add: decode_opcode_def Let_def)
  qed
qed

text \<open>
  C21: The control bits of a decoded micro-operation fit together: it is a load exactly for
  the load opcode and a store exactly for the store opcode, only loads, stores and fences go
  to the memory queue, a size code is at most 3, the queue-use bits follow the load and
  store bits, and the branch bits are set for branches, JAL and JALR alone, one at a time.
\<close>
theorem decode_well_typed:
  "decode_kind (opcode_of w) (decode_uop pc w)"
proof -
  have "decode_fresh (decode_base pc w)"
    by (simp add: decode_fresh_def decode_base_def DecodeControl0_def MemoryInfo0_def BranchInfo0_def)
  then have "decode_kind (opcode_of w) (decode_opcode w (decode_base pc w))" by (rule decode_kind_opcode)
  then show ?thesis by (simp add: decode_uop_def decode_kind_def Let_def)
qed

end
