(* ===== verification/Asm.thy ===== *)
theory Asm
  imports Decode
begin

text \<open>
  The instruction encoders of the test benches (\<open>tb/tb_boom_core.cpp\<close>,
  \<open>tb/differential/lsu_minimal_tests.cpp\<close>) and what the decoder's field and immediate
  extractors return on their output.
\<close>

section \<open>Encoders\<close>

definition make_itype :: "u32 \<Rightarrow> u8 \<Rightarrow> u8 \<Rightarrow> u8 \<Rightarrow> u8 \<Rightarrow> u32" where
  "make_itype imm rs1 f3 rd opc =
    push_bit 20 (imm AND 0xFFF) OR push_bit 15 (ucast rs1) OR push_bit 12 (ucast f3)
      OR push_bit 7 (ucast rd) OR ucast opc"

definition make_rtype :: "u8 \<Rightarrow> u8 \<Rightarrow> u8 \<Rightarrow> u8 \<Rightarrow> u8 \<Rightarrow> u8 \<Rightarrow> u32" where
  "make_rtype f7 rs2 rs1 f3 rd opc =
    push_bit 25 (ucast f7) OR push_bit 20 (ucast rs2) OR push_bit 15 (ucast rs1)
      OR push_bit 12 (ucast f3) OR push_bit 7 (ucast rd) OR ucast opc"

definition make_utype :: "u32 \<Rightarrow> u8 \<Rightarrow> u8 \<Rightarrow> u32" where
  "make_utype imm rd opc = (imm AND 0xFFFFF000) OR push_bit 7 (ucast rd) OR ucast opc"

definition make_jtype :: "u32 \<Rightarrow> u8 \<Rightarrow> u8 \<Rightarrow> u32" where
  "make_jtype imm rd opc =
    (let v = push_bit 31 (drop_bit 20 imm AND 0x1);
         v = v OR push_bit 21 (drop_bit 1 imm AND 0x3FF);
         v = v OR push_bit 20 (drop_bit 11 imm AND 0x1);
         v = v OR push_bit 12 (drop_bit 12 imm AND 0xFF)
     in v OR push_bit 7 (ucast rd) OR ucast opc)"

definition make_ecall :: "u32" where
  "make_ecall = 0x00000073"

definition make_stype :: "u32 \<Rightarrow> u8 \<Rightarrow> u8 \<Rightarrow> u8 \<Rightarrow> u32" where
  "make_stype imm rs2 rs1 f3 =
    push_bit 25 (drop_bit 5 imm) OR push_bit 20 (ucast rs2) OR push_bit 15 (ucast rs1)
      OR push_bit 12 (ucast f3) OR push_bit 7 (imm AND 0x1F) OR 0x23"

definition make_load :: "u32 \<Rightarrow> u8 \<Rightarrow> u8 \<Rightarrow> u8 \<Rightarrow> u32" where
  "make_load imm rs1 f3 rd = make_itype imm rs1 f3 rd 0x03"

definition make_btype :: "u32 \<Rightarrow> u8 \<Rightarrow> u8 \<Rightarrow> u8 \<Rightarrow> u32" where
  "make_btype imm rs2 rs1 f3 =
    (let b = push_bit 31 (signed_drop_bit 12 imm AND 1);
         b = b OR push_bit 25 (signed_drop_bit 5 imm AND 0x3F);
         b = b OR push_bit 8 (signed_drop_bit 1 imm AND 0xF);
         b = b OR push_bit 7 (signed_drop_bit 11 imm AND 1)
     in b OR push_bit 20 (ucast rs2) OR push_bit 15 (ucast rs1) OR push_bit 12 (ucast f3) OR 0x63)"

section \<open>Fields of an encoded instruction\<close>

lemmas field_extractors =
  opcode_of_def f3_of_def f7_of_def rd_of_def rs1_of_def rs2_of_def and_masks32

lemma fields_itype:
  assumes "rs1 < 32" "f3 < 8" "rd < 32" "opc < 128"
  shows "opcode_of (make_itype imm rs1 f3 rd opc) = opc" "f3_of (make_itype imm rs1 f3 rd opc) = f3"
    "rd_of (make_itype imm rs1 f3 rd opc) = rd" "rs1_of (make_itype imm rs1 f3 rd opc) = rs1"
    "f7_of (make_itype imm rs1 f3 rd opc) = ucast (drop_bit 5 imm AND 0x7F)"
    "extract_imm_i (make_itype imm rs1 f3 rd opc) = scast (ucast imm :: 12 word)"
proof -
  obtain r1 :: "5 word" and f :: "3 word" and r :: "5 word" and p :: "7 word"
    where eq: "rs1 = ucast r1" "f3 = ucast f" "rd = ucast r" "opc = ucast p"
    using u8_as_word5 [OF assms(1)] u8_as_word3 [OF assms(2)] u8_as_word5 [OF assms(3)]
      u8_as_word7 [OF assms(4)] by blast
  show "opcode_of (make_itype imm rs1 f3 rd opc) = opc" "f3_of (make_itype imm rs1 f3 rd opc) = f3"
    "rd_of (make_itype imm rs1 f3 rd opc) = rd" "rs1_of (make_itype imm rs1 f3 rd opc) = rs1"
    "f7_of (make_itype imm rs1 f3 rd opc) = ucast (drop_bit 5 imm AND 0x7F)"
    unfolding eq make_itype_def field_extractors
    by (rule bit_word_eqI; auto simp: bit_simps dest: bit_imp_le_length)+
  show "extract_imm_i (make_itype imm rs1 f3 rd opc) = scast (ucast imm :: 12 word)"
    unfolding eq make_itype_def extract_imm_i_def and_masks32
    by (rule word32_eqI_bits) (simp_all add: bit_simps not_bit_ge_length)
qed

lemma fields_rtype:
  assumes "f7 < 128" "rs2 < 32" "rs1 < 32" "f3 < 8" "rd < 32" "opc < 128"
  shows "opcode_of (make_rtype f7 rs2 rs1 f3 rd opc) = opc" "f3_of (make_rtype f7 rs2 rs1 f3 rd opc) = f3"
    "f7_of (make_rtype f7 rs2 rs1 f3 rd opc) = f7" "rd_of (make_rtype f7 rs2 rs1 f3 rd opc) = rd"
    "rs1_of (make_rtype f7 rs2 rs1 f3 rd opc) = rs1" "rs2_of (make_rtype f7 rs2 rs1 f3 rd opc) = rs2"
proof -
  obtain f' :: "7 word" and r2 :: "5 word" and r1 :: "5 word" and f :: "3 word" and r :: "5 word"
    and p :: "7 word"
    where eq: "f7 = ucast f'" "rs2 = ucast r2" "rs1 = ucast r1" "f3 = ucast f" "rd = ucast r" "opc = ucast p"
    using u8_as_word7 [OF assms(1)] u8_as_word5 [OF assms(2)] u8_as_word5 [OF assms(3)]
      u8_as_word3 [OF assms(4)] u8_as_word5 [OF assms(5)] u8_as_word7 [OF assms(6)] by blast
  show "opcode_of (make_rtype f7 rs2 rs1 f3 rd opc) = opc" "f3_of (make_rtype f7 rs2 rs1 f3 rd opc) = f3"
    "f7_of (make_rtype f7 rs2 rs1 f3 rd opc) = f7" "rd_of (make_rtype f7 rs2 rs1 f3 rd opc) = rd"
    "rs1_of (make_rtype f7 rs2 rs1 f3 rd opc) = rs1" "rs2_of (make_rtype f7 rs2 rs1 f3 rd opc) = rs2"
    unfolding eq make_rtype_def field_extractors
    by (rule bit_word_eqI; auto simp: bit_simps dest: bit_imp_le_length)+
qed

lemma fields_utype:
  assumes "rd < 32" "opc < 128"
  shows "opcode_of (make_utype imm rd opc) = opc" "rd_of (make_utype imm rd opc) = rd"
    "extract_imm_u (make_utype imm rd opc) = imm AND 0xFFFFF000"
proof -
  obtain r :: "5 word" and p :: "7 word" where eq: "rd = ucast r" "opc = ucast p"
    using u8_as_word5 [OF assms(1)] u8_as_word7 [OF assms(2)] by blast
  show "opcode_of (make_utype imm rd opc) = opc" "rd_of (make_utype imm rd opc) = rd"
    unfolding eq make_utype_def field_extractors high_masks32
    by (rule bit_word_eqI; auto simp: bit_simps dest: bit_imp_le_length)+
  show "extract_imm_u (make_utype imm rd opc) = imm AND 0xFFFFF000"
    unfolding eq make_utype_def extract_imm_u_def high_masks32
    by (rule word32_eqI_bits) (simp_all add: bit_simps not_bit_ge_length)
qed

lemma fields_jtype:
  assumes "rd < 32" "opc < 128"
  shows "opcode_of (make_jtype imm rd opc) = opc" "rd_of (make_jtype imm rd opc) = rd"
proof -
  obtain r :: "5 word" and p :: "7 word" where eq: "rd = ucast r" "opc = ucast p"
    using u8_as_word5 [OF assms(1)] u8_as_word7 [OF assms(2)] by blast
  show "opcode_of (make_jtype imm rd opc) = opc" "rd_of (make_jtype imm rd opc) = rd"
    unfolding eq make_jtype_def field_extractors Let_def
    by (rule bit_word_eqI; auto simp: bit_simps dest: bit_imp_le_length)+
qed

lemma imm_jtype:
  assumes "rd < 32" "opc < 128" and even: "\<not> bit imm 0"
    and sign: "\<And>n. 20 < n \<Longrightarrow> n < 32 \<Longrightarrow> bit imm n = bit imm 20"
  shows "extract_imm_j (make_jtype imm rd opc) = imm"
proof -
  obtain r :: "5 word" and p :: "7 word" where eq: "rd = ucast r" "opc = ucast p"
    using u8_as_word5 [OF assms(1)] u8_as_word7 [OF assms(2)] by blast
  show ?thesis
    unfolding eq extract_imm_j_def make_jtype_def Let_def and_bit32 and_masks32 high_masks32
    by (rule word32_eqI_bits)
      (simp_all add: bit_simps not_bit_ge_length sign even del: push_bit_Suc
        flip: numeral_2_eq_2 numeral_3_eq_3)
qed

lemma bit_opcode_less:
  "bit (0x63 :: u32) n \<Longrightarrow> n < 7" "bit (0x23 :: u32) n \<Longrightarrow> n < 7"
proof -
  have "take_bit 7 (0x63 :: u32) = 0x63" "take_bit 7 (0x23 :: u32) = 0x23" by simp_all
  then show "bit (0x63 :: u32) n \<Longrightarrow> n < 7" "bit (0x23 :: u32) n \<Longrightarrow> n < 7"
    by (metis bit_take_bit_iff)+
qed

lemma fields_btype:
  assumes "rs2 < 32" "rs1 < 32" "f3 < 8"
  shows "opcode_of (make_btype imm rs2 rs1 f3) = 0x63" "f3_of (make_btype imm rs2 rs1 f3) = f3"
    "rs1_of (make_btype imm rs2 rs1 f3) = rs1" "rs2_of (make_btype imm rs2 rs1 f3) = rs2"
proof -
  obtain r2 :: "5 word" and r1 :: "5 word" and f :: "3 word"
    where eq: "rs2 = ucast r2" "rs1 = ucast r1" "f3 = ucast f"
    using u8_as_word5 [OF assms(1)] u8_as_word5 [OF assms(2)] u8_as_word3 [OF assms(3)] by blast
  have f3: "f3_of (make_btype imm rs2 rs1 f3) = f3"
    and rs: "rs1_of (make_btype imm rs2 rs1 f3) = rs1" "rs2_of (make_btype imm rs2 rs1 f3) = rs2"
    unfolding eq make_btype_def field_extractors Let_def
    by (rule bit_word_eqI; simp add: bit_simps; auto dest: bit_imp_le_length bit_opcode_less)+
  show "opcode_of (make_btype imm rs2 rs1 f3) = 0x63" 
    unfolding eq make_btype_def field_extractors Let_def
    by (rule bit_word_eqI; simp add: bit_simps; auto dest: bit_imp_le_length bit_opcode_less)
  show "f3_of (make_btype imm rs2 rs1 f3) = f3"
    "rs1_of (make_btype imm rs2 rs1 f3) = rs1" "rs2_of (make_btype imm rs2 rs1 f3) = rs2"
    by (fact f3 rs)+
qed

lemma imm_btype:
  assumes "rs2 < 32" "rs1 < 32" "f3 < 8" and even: "\<not> bit imm 0"
    and sign: "\<And>n. 12 < n \<Longrightarrow> n < 32 \<Longrightarrow> bit imm n = bit imm 12"
  shows "extract_imm_b (make_btype imm rs2 rs1 f3) = imm"
proof -
  obtain r2 :: "5 word" and r1 :: "5 word" and f :: "3 word"
    where eq: "rs2 = ucast r2" "rs1 = ucast r1" "f3 = ucast f"
    using u8_as_word5 [OF assms(1)] u8_as_word5 [OF assms(2)] u8_as_word3 [OF assms(3)] by blast
  show ?thesis
    unfolding eq extract_imm_b_def make_btype_def Let_def and_bit32 and_masks32 high_masks32
    by (rule word32_eqI_bits)
      (simp_all add: bit_simps not_bit_ge_length sign even del: push_bit_Suc drop_bit_Suc
        flip: numeral_2_eq_2 numeral_3_eq_3)
qed

lemma imm_stype:
  assumes "rs2 < 32" "rs1 < 32" "f3 < 8"
  shows "extract_imm_s (make_stype (scast (imm :: 12 word)) rs2 rs1 f3) = scast imm"
proof -
  obtain r2 :: "5 word" and r1 :: "5 word" and f :: "3 word"
    where eq: "rs2 = ucast r2" "rs1 = ucast r1" "f3 = ucast f"
    using u8_as_word5 [OF assms(1)] u8_as_word5 [OF assms(2)] u8_as_word3 [OF assms(3)] by blast
  show ?thesis
    unfolding eq extract_imm_s_def make_stype_def Let_def and_bit32 and_masks32 high_masks32
    by (rule word32_eqI_bits) (simp_all add: bit_simps not_bit_ge_length)
qed

lemma fields_stype:
  assumes "rs2 < 32" "rs1 < 32" "f3 < 8"
  shows "opcode_of (make_stype imm rs2 rs1 f3) = 0x23" "f3_of (make_stype imm rs2 rs1 f3) = f3"
    "rs1_of (make_stype imm rs2 rs1 f3) = rs1" "rs2_of (make_stype imm rs2 rs1 f3) = rs2"
proof -
  obtain r2 :: "5 word" and r1 :: "5 word" and f :: "3 word"
    where eq: "rs2 = ucast r2" "rs1 = ucast r1" "f3 = ucast f"
    using u8_as_word5 [OF assms(1)] u8_as_word5 [OF assms(2)] u8_as_word3 [OF assms(3)] by blast
  show "opcode_of (make_stype imm rs2 rs1 f3) = 0x23" "f3_of (make_stype imm rs2 rs1 f3) = f3"
    "rs1_of (make_stype imm rs2 rs1 f3) = rs1" "rs2_of (make_stype imm rs2 rs1 f3) = rs2"
    unfolding eq make_stype_def field_extractors
    by (rule bit_word_eqI; simp add: bit_simps; auto dest: bit_imp_le_length bit_opcode_less)+
qed

end
