(* ===== verification/Execute.thy ===== *)
theory Execute
  imports Decode
begin

text \<open>
  \<open>src/execute.cpp\<close>: the arithmetic of \<open>execute_module\<close> on one micro-operation
  (\<open>execute_switch\<close>, its \<open>switch\<close>), the result record, the write to the integer register
  file, and the loop over the issued lanes. C++ arithmetic on \<open>int32_t\<close> and
  \<open>int64_t\<close> is two's complement wrap-around on words; \<open>>>\<close> on a signed operand
  is the arithmetic shift.
\<close>

definition sext32 :: "u64 \<Rightarrow> u64" where
  "sext32 v = scast (ucast (v AND 0xFFFFFFFF) :: u32)"

definition mask_for_size :: "u8 \<Rightarrow> u8" where
  "mask_for_size sz =
    (if sz \<ge> 3 then 0xFF
     else ucast (push_bit (unat (push_bit (unat sz) (1 :: u32))) (1 :: u32) - 1))"

text \<open>Operand selection: \<open>op1\<close>, \<open>op2\<close>.\<close>

definition select_op1 :: "MicroOp \<Rightarrow> u64 \<Rightarrow> u64" where
  "select_op1 u rs1 =
    (if dc_op1_sel (uop_ctrl u) = OP1_PC then uop_debug_pc u else rs1)"

definition select_op2 :: "MicroOp \<Rightarrow> u64 \<Rightarrow> u64" where
  "select_op2 u rs2 =
    (let sel = dc_op2_sel (uop_ctrl u);
         op2 = rs2;
         op2 = (if sel = OP2_IMM \<or> sel = OP2_IMZ then scast (uop_imm_packed u) else op2);
         op2 = (if sel = OP2_IMU then ucast (uop_imm_packed u) else op2)
     in op2)"

text \<open>\<open>(int32_t)rs1\<close> and the sign-extended 32-bit results.\<close>

definition low32 :: "u64 \<Rightarrow> u32" where "low32 v = ucast v"

definition branch_result :: "MicroOp \<Rightarrow> bool \<Rightarrow> AluResult \<Rightarrow> AluResult" where
  "branch_result u taken r =
    r\<lparr>ar_mispredict := taken, ar_redirect_pc := uop_debug_pc u + scast (uop_imm_packed u)\<rparr>"

definition execute_switch :: "MicroOp \<Rightarrow> u64 \<Rightarrow> u64 \<Rightarrow> AluResult \<Rightarrow> AluResult" where
  "execute_switch u rs1 rs2 r =
    (let pc = uop_debug_pc u; imm = uop_imm_packed u;
         op1 = select_op1 u rs1; op2 = select_op2 u rs2;
         c = uop_uopc u
     in if c = 1 \<or> c = 50 then r\<lparr>ar_result := op1 + op2\<rparr>
        else if c = 2 then r\<lparr>ar_result := op1 - op2\<rparr>
        else if c = 3 \<or> c = 51 then r\<lparr>ar_result := push_bit (unat (op2 AND 0x3F)) op1\<rparr>
        else if c = 4 \<or> c = 52 then r\<lparr>ar_result := (if op1 <s op2 then 1 else 0)\<rparr>
        else if c = 5 \<or> c = 53 then r\<lparr>ar_result := (if rs1 < rs2 then 1 else 0)\<rparr>
        else if c = 6 \<or> c = 54 then r\<lparr>ar_result := op1 XOR op2\<rparr>
        else if c = 7 \<or> c = 55 then r\<lparr>ar_result := drop_bit (unat (op2 AND 0x3F)) rs1\<rparr>
        else if c = 8 \<or> c = 56 then r\<lparr>ar_result := signed_drop_bit (unat (op2 AND 0x3F)) op1\<rparr>
        else if c = 9 \<or> c = 57 then r\<lparr>ar_result := op1 OR op2\<rparr>
        else if c = 10 \<or> c = 58 then r\<lparr>ar_result := op1 AND op2\<rparr>
        else if c = 11 \<or> c = 59 then r\<lparr>ar_result := sext32 (scast (low32 rs1 + imm))\<rparr>
        else if c = 12 then r\<lparr>ar_result := sext32 (scast (low32 rs1 - low32 rs2))\<rparr>
        else if c = 13 \<or> c = 60 then
          r\<lparr>ar_result := sext32 (scast (push_bit (unat (imm AND 0x1F)) (low32 rs1)))\<rparr>
        else if c = 15 \<or> c = 62 then
          r\<lparr>ar_result := sext32 (scast (signed_drop_bit (unat (imm AND 0x1F)) (low32 rs1)))\<rparr>
        else if c = 16 then r\<lparr>ar_result := scast (low32 rs1) * scast (low32 rs2)\<rparr>
        else if c = 29 then
          r\<lparr>ar_result := pc + 4, ar_mispredict := True, ar_redirect_pc := pc + scast imm\<rparr>
        else if c = 30 then
          r\<lparr>ar_result := pc + 4, ar_mispredict := True,
            ar_redirect_pc := (rs1 + scast imm) AND NOT 1\<rparr>
        else if c = 31 then branch_result u (rs1 = rs2) r
        else if c = 32 then branch_result u (rs1 \<noteq> rs2) r
        else if c = 33 then branch_result u (rs1 <s rs2) r
        else if c = 34 then branch_result u (rs2 \<le>s rs1) r
        else if c = 35 then branch_result u (rs1 < rs2) r
        else if c = 36 then branch_result u (rs2 \<le> rs1) r
        else if c = 37 then r\<lparr>ar_result := ucast imm\<rparr>
        else if c = 38 then r\<lparr>ar_result := pc + ucast imm\<rparr>
        else if 39 \<le> c \<and> c \<le> 45 then
          (let a = rs1 + scast imm
           in r\<lparr>ar_memory_valid := True, ar_is_load := True,
                ar_signed_load := mi_mem_signed (uop_mem u),
                ar_memory_size := mi_mem_size (uop_mem u), ar_memory_address := a,
                ar_memory_mask := mask_for_size (mi_mem_size (uop_mem u)), ar_result := a\<rparr>)
        else if 46 \<le> c \<and> c \<le> 49 then
          (let a = rs1 + scast imm
           in r\<lparr>ar_memory_valid := True, ar_is_store := True,
                ar_memory_size := mi_mem_size (uop_mem u), ar_memory_address := a,
                ar_store_data := rs2,
                ar_memory_mask := mask_for_size (mi_mem_size (uop_mem u)), ar_result := a\<rparr>)
        else r\<lparr>ar_result := 0\<rparr>)"

definition execute_result :: "MicroOp \<Rightarrow> u64 \<Rightarrow> u64 \<Rightarrow> AluResult" where
  "execute_result u rs1 rs2 =
    (let r = AluResult0\<lparr>ar_valid := True, ar_uop := u, ar_exception := False,
               ar_mispredict := False, ar_result := 0\<rparr>;
         r = execute_switch u rs1 rs2 r
     in if uop_exception u then r\<lparr>ar_exception := True, ar_exc_cause := uop_exc_cause u\<rparr> else r)"

text \<open>Register read: physical register 0 reads as zero.\<close>

definition read_rf :: "u64 list \<Rightarrow> u8 \<Rightarrow> u64" where
  "read_rf rf p = (if p \<noteq> 0 then rf ! unat p else 0)"

text \<open>One iteration of the lane loop for an issued lane: result \<open>ri\<close> and write-back.\<close>

definition execute_lane :: "nat \<Rightarrow> MicroOp \<Rightarrow> BoomCoreState \<Rightarrow> BoomCoreState" where
  "execute_lane ri u s =
    (let rs1 = read_rf (bs_int_rf s) (ri_prs1 (uop_rename u));
         rs2 = read_rf (bs_int_rf s) (ri_prs2 (uop_rename u));
         r = execute_result u rs1 rs2;
         s = s\<lparr>bs_execute := (bs_execute s)
               \<lparr>exe_alu_results := (exe_alu_results (bs_execute s))[ri := r]\<rparr>\<rparr>;
         p = ri_pdst (uop_rename u)
     in if ar_valid r \<and> \<not> ar_is_load r \<and> ri_dst_rtype (uop_rename u) = DST_INT \<and> p \<noteq> 0
        then s\<lparr>bs_int_rf := (bs_int_rf s)[unat p := ar_result r]\<rparr> else s)"

text \<open>\<open>for (i = 0; i < ISSUE_WIDTH && ri < DISPATCH_WIDTH; i++)\<close>\<close>

fun execute_lanes :: "nat list \<Rightarrow> nat \<Rightarrow> BoomCoreState \<Rightarrow> BoomCoreState" where
  "execute_lanes [] ri s = s"
| "execute_lanes (i # is) ri s =
    (if \<not> ri < DISPATCH_WIDTH then s
     else if \<not> iss_issued_valids (bs_issue s) ! i then execute_lanes is ri s
     else execute_lanes is (ri + 1) (execute_lane ri (iss_issued_uops (bs_issue s) ! i) s))"

definition execute_module :: "BoomCoreState \<Rightarrow> BoomCoreState" where
  "execute_module s =
    (let s = s\<lparr>bs_execute := (bs_execute s)
                \<lparr>exe_alu_results := replicate DISPATCH_WIDTH AluResult0\<rparr>\<rparr>
     in execute_lanes [0..<ISSUE_WIDTH] 0 s)"

section \<open>What the arithmetic keeps\<close>

lemma execute_switch_uop [simp]:
  "ar_uop (execute_switch u x y r) = ar_uop r" "ar_valid (execute_switch u x y r) = ar_valid r"
  "ar_exception (execute_switch u x y r) = ar_exception r"
  "ar_exc_cause (execute_switch u x y r) = ar_exc_cause r"
  unfolding execute_switch_def Let_def branch_result_def
  by (intro if_field [where f = ar_uop] if_field [where f = ar_valid]
      if_field [where f = ar_exception] if_field [where f = ar_exc_cause]; simp)+

lemma execute_result_fields [simp]:
  "ar_uop (execute_result u x y) = u" "ar_valid (execute_result u x y)"
  "ar_exception (execute_result u x y) = uop_exception u"
  by (simp_all add: execute_result_def Let_def)

end
