(* ===== verification/Branch.thy ===== *)
theory Branch
  imports Execute
begin

text \<open>
  \<open>src/branch.cpp\<close>: the branch update derived from the results of the execute stage.
\<close>

definition is_control :: "MicroOp \<Rightarrow> bool" where
  "is_control u = (bi_is_br (uop_branch u) \<or> bi_is_jal (uop_branch u) \<or> bi_is_jalr (uop_branch u))"

definition branch_lane :: "ExecuteState \<Rightarrow> nat \<Rightarrow> BranchUpdate \<Rightarrow> BranchUpdate" where
  "branch_lane exe i br =
    (let r = exe_alu_results exe ! i
     in if \<not> ar_valid r then br
        else if ar_mispredict r \<and> is_control (ar_uop r)
        then br\<lparr>bu_valid := True, bu_mispredict := True, bu_jalr_target := ar_redirect_pc r,
                bu_mispredict_mask := 1\<rparr>
        else br)"

definition branch_module :: "BoomCoreState \<Rightarrow> BoomCoreState" where
  "branch_module s =
    s\<lparr>bs_brupdate := fold (branch_lane (bs_execute s)) [0..<DISPATCH_WIDTH] (bs_brupdate s)\<rparr>"

end
