(* ===== verification/Isa.thy ===== *)
theory Isa
  imports Asm Branch
begin

text \<open>
  An independent statement of the RV64I instructions the core executes, in integer and
  natural-number arithmetic, with the standard encodings (built from the test benches'
  encoders), and the proof that \<open>decode_module\<close> followed by \<open>execute_module\<close>
  implements it. \<open>core_supports\<close> names the instructions for which this holds; the ones
  it excludes are treated in \<open>Divergence\<close>.
\<close>

section \<open>Instructions\<close>

datatype AluOp = OpAdd | OpSub | OpSll | OpSlt | OpSltu | OpXor | OpSrl | OpSra | OpOr | OpAnd

datatype BranchOp = Beq | Bne | Blt | Bge | Bltu | Bgeu

datatype Instr =
    Reg AluOp "5 word" "5 word" "5 word"
  | Imm AluOp "5 word" "5 word" "12 word"
  | Shift AluOp "5 word" "5 word" "6 word"
  | RegW AluOp "5 word" "5 word" "5 word"
  | AddIW "5 word" "5 word" "12 word"
  | ShiftW AluOp "5 word" "5 word" "5 word"
  | Mul "5 word" "5 word" "5 word"
  | Lui "5 word" "20 word"
  | Auipc "5 word" "20 word"
  | Jal "5 word" "20 word"
  | Jalr "5 word" "5 word" "12 word"
  | Branch BranchOp "5 word" "5 word" "12 word"
  | Store "2 word" "5 word" "5 word" "12 word"
  | Fence

section \<open>Encoding\<close>

primrec alu_f3 :: "AluOp \<Rightarrow> u8" where
  "alu_f3 OpAdd = 0" | "alu_f3 OpSub = 0" | "alu_f3 OpSll = 1" | "alu_f3 OpSlt = 2"
| "alu_f3 OpSltu = 3" | "alu_f3 OpXor = 4" | "alu_f3 OpSrl = 5" | "alu_f3 OpSra = 5"
| "alu_f3 OpOr = 6" | "alu_f3 OpAnd = 7"

definition alu_f7 :: "AluOp \<Rightarrow> u8" where
  "alu_f7 op = (if op = OpSub \<or> op = OpSra then 0x20 else 0)"

primrec branch_f3 :: "BranchOp \<Rightarrow> u8" where
  "branch_f3 Beq = 0" | "branch_f3 Bne = 1" | "branch_f3 Blt = 4" | "branch_f3 Bge = 5"
| "branch_f3 Bltu = 6" | "branch_f3 Bgeu = 7"

text \<open>The 12-bit immediate of a shift: the amount, and bit 10 for the arithmetic one.\<close>

definition shift_imm :: "AluOp \<Rightarrow> 'a::len word \<Rightarrow> u32" where
  "shift_imm op sh = ucast sh OR (if op = OpSra then 0x400 else 0)"

fun encode :: "Instr \<Rightarrow> u32" where
  "encode (Reg op rd rs1 rs2) =
     make_rtype (alu_f7 op) (ucast rs2) (ucast rs1) (alu_f3 op) (ucast rd) 0x33"
| "encode (Imm op rd rs1 imm) = make_itype (scast imm) (ucast rs1) (alu_f3 op) (ucast rd) 0x13"
| "encode (Shift op rd rs1 sh) =
     make_itype (shift_imm op sh) (ucast rs1) (alu_f3 op) (ucast rd) 0x13"
| "encode (RegW op rd rs1 rs2) =
     make_rtype (alu_f7 op) (ucast rs2) (ucast rs1) (alu_f3 op) (ucast rd) 0x3B"
| "encode (AddIW rd rs1 imm) = make_itype (scast imm) (ucast rs1) 0 (ucast rd) 0x1B"
| "encode (ShiftW op rd rs1 sh) =
     make_itype (shift_imm op sh) (ucast rs1) (alu_f3 op) (ucast rd) 0x1B"
| "encode (Mul rd rs1 rs2) = make_rtype 1 (ucast rs2) (ucast rs1) 0 (ucast rd) 0x33"
| "encode (Lui rd imm) = make_utype (push_bit 12 (ucast imm)) (ucast rd) 0x37"
| "encode (Auipc rd imm) = make_utype (push_bit 12 (ucast imm)) (ucast rd) 0x17"
| "encode (Jal rd imm) = make_jtype (push_bit 1 (scast imm)) (ucast rd) 0x6F"
| "encode (Jalr rd rs1 imm) = make_itype (scast imm) (ucast rs1) 0 (ucast rd) 0x67"
| "encode (Branch op rs1 rs2 imm) =
     make_btype (push_bit 1 (scast imm)) (ucast rs2) (ucast rs1) (branch_f3 op)"
| "encode (Store sz rs1 rs2 imm) = make_stype (scast imm) (ucast rs2) (ucast rs1) (ucast sz)"
| "encode Fence = make_itype 0 0 0 0 0x0F"

section \<open>Semantics\<close>

text \<open>The register-register operations on 64-bit values, in integer arithmetic.\<close>

fun alu_spec :: "AluOp \<Rightarrow> u64 \<Rightarrow> u64 \<Rightarrow> u64" where
  "alu_spec OpAdd a b = word_of_int (sint a + sint b)"
| "alu_spec OpSub a b = word_of_int (sint a - sint b)"
| "alu_spec OpSll a b = word_of_nat (unat a * 2 ^ (unat b mod 64))"
| "alu_spec OpSlt a b = (if sint a < sint b then 1 else 0)"
| "alu_spec OpSltu a b = (if unat a < unat b then 1 else 0)"
| "alu_spec OpXor a b = a XOR b"
| "alu_spec OpSrl a b = word_of_nat (unat a div 2 ^ (unat b mod 64))"
| "alu_spec OpSra a b = word_of_int (sint a div 2 ^ (unat b mod 64))"
| "alu_spec OpOr a b = a OR b"
| "alu_spec OpAnd a b = a AND b"

text \<open>The word forms: the low 32 bits of the operands, the result sign-extended.\<close>

definition sext_low :: "int \<Rightarrow> u64" where
  "sext_low v = word_of_int (signed_take_bit 31 v)"

fun aluw_spec :: "AluOp \<Rightarrow> u64 \<Rightarrow> u64 \<Rightarrow> u64" where
  "aluw_spec OpSub a b = sext_low (sint a - sint b)"
| "aluw_spec OpSll a b = sext_low (sint a * 2 ^ (unat b mod 32))"
| "aluw_spec OpSrl a b = sext_low (uint a mod 2 ^ 32 div 2 ^ (unat b mod 32))"
| "aluw_spec OpSra a b = sext_low (signed_take_bit 31 (sint a) div 2 ^ (unat b mod 32))"
| "aluw_spec op a b = sext_low (sint a + sint b)"

fun branch_spec :: "BranchOp \<Rightarrow> u64 \<Rightarrow> u64 \<Rightarrow> bool" where
  "branch_spec Beq a b = (a = b)"
| "branch_spec Bne a b = (a \<noteq> b)"
| "branch_spec Blt a b = (sint a < sint b)"
| "branch_spec Bge a b = (sint a \<ge> sint b)"
| "branch_spec Bltu a b = (unat a < unat b)"
| "branch_spec Bgeu a b = (unat a \<ge> unat b)"

text \<open>Registers read and written; the destination value; the next program counter; the store.\<close>

fun isa_rd :: "Instr \<Rightarrow> 5 word" where
  "isa_rd (Reg _ rd _ _) = rd" | "isa_rd (Imm _ rd _ _) = rd" | "isa_rd (Shift _ rd _ _) = rd"
| "isa_rd (RegW _ rd _ _) = rd" | "isa_rd (AddIW rd _ _) = rd" | "isa_rd (ShiftW _ rd _ _) = rd"
| "isa_rd (Mul rd _ _) = rd" | "isa_rd (Lui rd _) = rd" | "isa_rd (Auipc rd _) = rd"
| "isa_rd (Jal rd _) = rd" | "isa_rd (Jalr rd _ _) = rd" | "isa_rd _ = 0"

fun isa_rs1 :: "Instr \<Rightarrow> 5 word option" where
  "isa_rs1 (Reg _ _ r _) = Some r" | "isa_rs1 (Imm _ _ r _) = Some r"
| "isa_rs1 (Shift _ _ r _) = Some r" | "isa_rs1 (RegW _ _ r _) = Some r"
| "isa_rs1 (AddIW _ r _) = Some r" | "isa_rs1 (ShiftW _ _ r _) = Some r"
| "isa_rs1 (Mul _ r _) = Some r" | "isa_rs1 (Jalr _ r _) = Some r"
| "isa_rs1 (Branch _ r _ _) = Some r" | "isa_rs1 (Store _ r _ _) = Some r" | "isa_rs1 _ = None"

fun isa_rs2 :: "Instr \<Rightarrow> 5 word option" where
  "isa_rs2 (Reg _ _ _ r) = Some r" | "isa_rs2 (RegW _ _ _ r) = Some r"
| "isa_rs2 (Mul _ _ r) = Some r" | "isa_rs2 (Branch _ _ r _) = Some r"
| "isa_rs2 (Store _ _ r _) = Some r" | "isa_rs2 _ = None"

fun isa_value :: "Instr \<Rightarrow> u64 \<Rightarrow> u64 \<Rightarrow> u64 \<Rightarrow> u64" where
  "isa_value (Reg op _ _ _) pc a b = alu_spec op a b"
| "isa_value (Imm op _ _ imm) pc a b = alu_spec op a (word_of_int (sint imm))"
| "isa_value (Shift op _ _ sh) pc a b = alu_spec op a (word_of_nat (unat sh))"
| "isa_value (RegW op _ _ _) pc a b = aluw_spec op a b"
| "isa_value (AddIW _ _ imm) pc a b = aluw_spec OpAdd a (word_of_int (sint imm))"
| "isa_value (ShiftW op _ _ sh) pc a b = aluw_spec op a (word_of_nat (unat sh))"
| "isa_value (Mul _ _ _) pc a b = word_of_int (sint a * sint b)"
| "isa_value (Lui _ imm) pc a b = word_of_int (sint imm * 2 ^ 12)"
| "isa_value (Auipc _ imm) pc a b = word_of_int (uint pc + sint imm * 2 ^ 12)"
| "isa_value (Jal _ _) pc a b = pc + 4"
| "isa_value (Jalr _ _ _) pc a b = pc + 4"
| "isa_value _ pc a b = 0"

fun isa_target :: "Instr \<Rightarrow> u64 \<Rightarrow> u64 \<Rightarrow> u64 \<Rightarrow> u64 option" where
  "isa_target (Jal _ imm) pc a b = Some (word_of_int (uint pc + sint imm * 2))"
| "isa_target (Jalr _ _ imm) pc a b = Some (word_of_int (uint a + sint imm) div 2 * 2)"
| "isa_target (Branch op _ _ imm) pc a b =
     (if branch_spec op a b then Some (word_of_int (uint pc + sint imm * 2)) else None)"
| "isa_target _ pc a b = None"

definition isa_next :: "Instr \<Rightarrow> u64 \<Rightarrow> u64 \<Rightarrow> u64 \<Rightarrow> u64" where
  "isa_next i pc a b = (case isa_target i pc a b of None \<Rightarrow> pc + 4 | Some t \<Rightarrow> t)"

text \<open>A store: address, data and the size code (\<open>2 ^ size\<close> bytes).\<close>

fun isa_store :: "Instr \<Rightarrow> u64 \<Rightarrow> u64 \<Rightarrow> (u64 \<times> u64 \<times> 2 word) option" where
  "isa_store (Store sz _ _ imm) a b = Some (word_of_int (uint a + sint imm), b, sz)"
| "isa_store _ a b = None"

section \<open>The supported instructions\<close>

text \<open>
  What the core executes as the manual says. Excluded are the operand forms its
  \<open>switch\<close> gets wrong (the word forms other than SUBW, SLLIW, SRAIW and ADDIW; SLTIU;
  logical right shifts by 32 or more; negative upper immediates), the multiplier, and the
  encodings that do not exist (SUBI, word shifts by other operations).
\<close>

fun core_supports :: "Instr \<Rightarrow> bool" where
  "core_supports (Reg op _ _ _) = True"
| "core_supports (Imm op _ _ _) = (op \<in> {OpAdd, OpSlt, OpXor, OpOr, OpAnd})"
| "core_supports (Shift op _ _ sh) = (op \<in> {OpSll, OpSra} \<or> op = OpSrl \<and> sh < 32)"
| "core_supports (RegW op _ _ _) = (op = OpSub)"
| "core_supports (AddIW _ _ _) = True"
| "core_supports (ShiftW op _ _ _) = (op \<in> {OpSll, OpSra})"
| "core_supports (Mul _ _ _) = False"
| "core_supports (Lui _ imm) = (\<not> bit imm 19)"
| "core_supports (Auipc _ imm) = (\<not> bit imm 19)"
| "core_supports (Jal _ _) = True"
| "core_supports (Jalr _ _ _) = True"
| "core_supports (Branch _ _ _ _) = True"
| "core_supports (Store _ _ _ _) = True"
| "core_supports Fence = True"

section \<open>Word-level facts\<close>

lemma sext_low_word: "sext_low v = scast (word_of_int v :: u32)"
  unfolding sext_low_def by (rule bit_word_eqI) (auto simp: bit_simps min_def)

lemma sext32_eq: "sext32 v = scast (ucast v :: u32)"
proof -
  have "v AND 0xFFFFFFFF = take_bit 32 v" by (simp add: take_bit_eq_mask mask_numeral)
  then have "(ucast (v AND 0xFFFFFFFF) :: u32) = ucast v"
    by (simp only:) (rule bit_word_eqI, simp add: bit_simps)
  then show ?thesis by (simp add: sext32_def)
qed

lemma sext32_scast: "sext32 (scast (v :: u32)) = scast v"
  unfolding sext32_eq by (rule bit_word_eqI) (auto simp: bit_simps min_def)

lemma sint_low32: "sint (low32 v) = signed_take_bit 31 (sint v)"
  unfolding low32_def by (rule bit_eqI) (auto simp: bit_simps min_def)

lemma low32_word: "low32 v = word_of_int (sint v)"
  unfolding low32_def by (rule bit_word_eqI) (auto simp: bit_simps min_def)

lemma w32_add: "sext32 (scast (low32 a + low32 b)) = sext_low (sint a + sint b)"
  unfolding sext32_scast sext_low_word low32_word by simp

lemma w32_sub: "sext32 (scast (low32 a - low32 b)) = sext_low (sint a - sint b)"
  unfolding sext32_scast sext_low_word low32_word by simp

lemma w32_shl: "sext32 (scast (push_bit n (low32 a))) = sext_low (sint a * 2 ^ n)"
  unfolding sext32_scast sext_low_word low32_word by (simp add: push_bit_eq_mult)

lemma w32_sar: "sext32 (scast (signed_drop_bit n (low32 a))) = sext_low (signed_take_bit 31 (sint a) div 2 ^ n)"
  unfolding sext32_scast sext_low_word signed_drop_bit_spec sint_low32 by simp

lemma shift_imm_amount:
  "shift_imm op (sh :: 5 word) AND 0x1F = ucast sh"
  "(scast (ucast (shift_imm op sh) :: 12 word) :: u32) AND 0x1F = ucast sh"
  "(scast (scast (ucast (shift_imm op (s6 :: 6 word)) :: 12 word) :: u32) :: u64) AND 0x3F = ucast s6"
proof -
  obtain c :: u32 where c: "shift_imm op sh = ucast sh OR c" "shift_imm op s6 = ucast s6 OR c"
    and bits: "\<And>n. bit c n \<Longrightarrow> n = 10"
  proof
    show "shift_imm op sh = ucast sh OR (if op = OpSra then 0x400 else 0)"
      "shift_imm op s6 = ucast s6 OR (if op = OpSra then 0x400 else 0)"
      by (simp_all only: shift_imm_def)
    show "n = 10" if "bit (if op = OpSra then 0x400 else (0 :: u32)) n" for n
      using that unfolding if_distrib [of "\<lambda>c. bit c n"] bit_0x400 by (cases "op = OpSra") (simp_all only: if_True if_False simp_thms bit_0_eq bot_apply bot_bool_def)
  qed
  show "shift_imm op (sh :: 5 word) AND 0x1F = ucast sh"
    "(scast (ucast (shift_imm op sh) :: 12 word) :: u32) AND 0x1F = ucast sh"
    "(scast (scast (ucast (shift_imm op (s6 :: 6 word)) :: 12 word) :: u32) :: u64) AND 0x3F = ucast s6"
    unfolding numeral_mask_bits c
    by (rule bit_word_eqI; auto simp: bit_simps min_def not_le dest: bit_imp_le_length bits)+
qed

lemma shift_imm_f7_srl:
  assumes "sh < 32" 
  shows "(ucast (drop_bit 5 (shift_imm OpSrl (sh :: 6 word)) AND 0x7F) :: u8) = 0"
proof -
  have "unat sh < 32" using assms by (simp add: word_less_nat_alt)
  then have "take_bit 5 sh = sh"
    by (simp add: word_unat_eq_iff unsigned_take_bit_eq take_bit_nat_eq_self)
  then have "\<not> bit sh (5 + n)" for n by (metis bit_take_bit_iff not_add_less1)
  then show ?thesis
    unfolding shift_imm_def by (intro bit_word_eqI) (simp add: bit_simps)
qed

lemma shift_imm_f7_sra: "(ucast (drop_bit 5 (shift_imm OpSra (sh :: 'a::len word)) AND 0x7F) :: u8) \<noteq> 0"
proof -
  have "bit (ucast (drop_bit 5 (shift_imm OpSra (sh :: 'a::len word)) AND 0x7F) :: u8) 5"
    unfolding numeral_mask_bits shift_imm_def by (auto simp: bit_simps)
  then show ?thesis by (metis bit_0_eq bot_apply bot_bool_def)
qed

lemma upper_imm:
  assumes "\<not> bit imm 19"
  shows "(ucast (push_bit 12 (ucast (imm :: 20 word)) AND 0xFFFFF000 :: u32) :: u64) = word_of_int (sint imm * 2 ^ 12)"
proof -
  have s: "sint imm = uint imm"
    using assms by (intro sint_nonneg_word) simp
  have "(ucast (push_bit 12 (ucast (imm :: 20 word)) AND 0xFFFFF000 :: u32) :: u64) = push_bit 12 (ucast imm)"
    unfolding high_masks32 by (rule bit_word_eqI) (auto simp: bit_simps dest: bit_imp_le_length)
  then show ?thesis unfolding s by (simp add: push_bit_eq_mult)
qed

lemma alu_f3_less [simp]: "alu_f3 op < 8" by (cases op) simp_all

lemma alu_f7_less [simp]: "alu_f7 op < 128" by (simp add: alu_f7_def)

lemma branch_f3_less [simp]: "branch_f3 op < 8" by (cases op) simp_all

lemma ucast_scast_imm [simp]: "(ucast (scast (imm :: 12 word) :: u32) :: 12 word) = imm"
  by (rule bit_word_eqI) (simp add: bit_simps)

lemma scast_scast_imm [simp]: "(scast (scast (imm :: 12 word) :: u32) :: u64) = scast imm"
  by (rule bit_word_eqI) (auto simp: bit_simps min_def)

lemma j_sign: "20 < n \<Longrightarrow> n < 32 \<Longrightarrow> bit (push_bit 1 (scast (imm :: 20 word)) :: u32) n = bit (push_bit 1 (scast imm) :: u32) 20"
  "\<not> bit (push_bit 1 (scast (imm :: 20 word)) :: u32) 0"
  by (auto simp: bit_simps min_def simp del: push_bit_Suc One_nat_def)

lemma b_sign: "12 < n \<Longrightarrow> n < 32 \<Longrightarrow> bit (push_bit 1 (scast (imm :: 12 word)) :: u32) n = bit (push_bit 1 (scast imm) :: u32) 12"
  "\<not> bit (push_bit 1 (scast (imm :: 12 word)) :: u32) 0"
  by (auto simp: bit_simps min_def simp del: push_bit_Suc One_nat_def)

lemma imm_j_encode [simp]: "extract_imm_j (make_jtype (push_bit 1 (scast (imm :: 20 word))) (ucast (rd :: 5 word)) 0x6F) = push_bit 1 (scast imm)"
  by (rule imm_jtype) (simp_all only: j_sign ucast5_less not_False_eq_True, simp)

lemma imm_b_encode [simp]: "extract_imm_b (make_btype (push_bit 1 (scast (imm :: 12 word))) (ucast (rs2 :: 5 word)) (ucast (rs1 :: 5 word)) (branch_f3 op)) = push_bit 1 (scast imm)"
  by (rule imm_btype) (simp_all only: b_sign ucast5_less not_False_eq_True branch_f3_less)

lemma shift64_amount [simp]:
  "(scast (ucast (shift_imm op (sh :: 6 word)) :: 12 word) :: u64) AND 0x3F = ucast sh"
  using shift_imm_amount(3) [of op sh] by simp

lemmas field_lemmas = fields_itype fields_rtype fields_utype fields_jtype fields_btype fields_stype imm_stype


section \<open>The decoder and the execute stage implement the instructions\<close>

text \<open>Case analysis down to the operation and the size, so that the encoders compute.\<close>

lemma supported_cases [consumes 1]:
  assumes "core_supports i"
  obtains (c0) rd rs1 rs2 where "i = Reg OpAdd rd rs1 rs2"
  | (c1) rd rs1 rs2 where "i = Reg OpSub rd rs1 rs2"
  | (c2) rd rs1 rs2 where "i = Reg OpSll rd rs1 rs2"
  | (c3) rd rs1 rs2 where "i = Reg OpSlt rd rs1 rs2"
  | (c4) rd rs1 rs2 where "i = Reg OpSltu rd rs1 rs2"
  | (c5) rd rs1 rs2 where "i = Reg OpXor rd rs1 rs2"
  | (c6) rd rs1 rs2 where "i = Reg OpSrl rd rs1 rs2"
  | (c7) rd rs1 rs2 where "i = Reg OpSra rd rs1 rs2"
  | (c8) rd rs1 rs2 where "i = Reg OpOr rd rs1 rs2"
  | (c9) rd rs1 rs2 where "i = Reg OpAnd rd rs1 rs2"
  | (c10) rd rs1 imm where "i = Imm OpAdd rd rs1 imm"
  | (c11) rd rs1 imm where "i = Imm OpSlt rd rs1 imm"
  | (c12) rd rs1 imm where "i = Imm OpXor rd rs1 imm"
  | (c13) rd rs1 imm where "i = Imm OpOr rd rs1 imm"
  | (c14) rd rs1 imm where "i = Imm OpAnd rd rs1 imm"
  | (c15) rd rs1 sh where "i = Shift OpSll rd rs1 sh"
  | (c16) rd rs1 sh where "i = Shift OpSrl rd rs1 sh" "sh < 32"
  | (c17) rd rs1 sh where "i = Shift OpSra rd rs1 sh"
  | (c18) rd rs1 rs2 where "i = RegW OpSub rd rs1 rs2"
  | (c19) rd rs1 imm where "i = AddIW rd rs1 imm"
  | (c20) rd rs1 sh5 where "i = ShiftW OpSll rd rs1 sh5"
  | (c21) rd rs1 sh5 where "i = ShiftW OpSra rd rs1 sh5"
  | (c22) rd up where "i = Lui rd up" "\<not> bit up 19"
  | (c23) rd up where "i = Auipc rd up" "\<not> bit up 19"
  | (c24) rd off where "i = Jal rd off"
  | (c25) rd rs1 imm where "i = Jalr rd rs1 imm"
  | (c26) rs1 rs2 imm where "i = Branch Beq rs1 rs2 imm"
  | (c27) rs1 rs2 imm where "i = Branch Bne rs1 rs2 imm"
  | (c28) rs1 rs2 imm where "i = Branch Blt rs1 rs2 imm"
  | (c29) rs1 rs2 imm where "i = Branch Bge rs1 rs2 imm"
  | (c30) rs1 rs2 imm where "i = Branch Bltu rs1 rs2 imm"
  | (c31) rs1 rs2 imm where "i = Branch Bgeu rs1 rs2 imm"
  | (c32) rs1 rs2 imm where "i = Store 0 rs1 rs2 imm"
  | (c33) rs1 rs2 imm where "i = Store 1 rs1 rs2 imm"
  | (c34) rs1 rs2 imm where "i = Store 2 rs1 rs2 imm"
  | (c35) rs1 rs2 imm where "i = Store 3 rs1 rs2 imm"
  | (c36) "i = Fence"
proof (cases i)
  case (Reg op) then show thesis by (cases op) (simp_all add: that)
next
  case (Imm op) then show thesis using assms by (cases op) (simp_all add: that)
next
  case (Shift op) then show thesis using assms by (cases op) (simp_all add: that)
next
  case (ShiftW op) then show thesis using assms by (cases op) (simp_all add: that)
next
  case (Branch op) then show thesis by (cases op) (simp_all add: that)
next
  case (Store sz) then show thesis using word2_cases [of sz] by (elim disjE) (simp_all add: that)
qed (use assms in \<open>simp_all add: that\<close>)

lemmas exec_defs = execute_result_def execute_switch_def select_op1_def select_op2_def
  branch_result_def AluResult0_def

lemmas encode_simps = field_lemmas alu_f7_def shift_imm_f7_srl shift_imm_f7_sra

fun isa_control :: "Instr \<Rightarrow> bool" where
  "isa_control (Jal _ _) = True" | "isa_control (Jalr _ _ _) = True"
| "isa_control (Branch _ _ _ _) = True" | "isa_control _ = False"

lemma encode_registers:
  "isa_rd i \<noteq> 0 \<Longrightarrow> rd_of (encode i) = ucast (isa_rd i)"
  "isa_rs1 i = Some r1 \<Longrightarrow> rs1_of (encode i) = ucast r1"
  "isa_rs2 i = Some r2 \<Longrightarrow> rs2_of (encode i) = ucast r2"
  by (cases i; auto simp: field_lemmas)+

lemma decode_fields [simp]:
  "uop_inst (decode_uop pc w) = w" "uop_debug_pc (decode_uop pc w) = pc"
  "ri_lrs1 (uop_rename (decode_uop pc w)) = rs1_of w"
  "ri_lrs2 (uop_rename (decode_uop pc w)) = rs2_of w"
  "ri_ldst (uop_rename (decode_uop pc w)) = rd_of w"
  by (simp_all add: decode_uop_identity decode_uop_registers)

lemma decode_encode:
  assumes "core_supports i"
  defines "u \<equiv> \<lambda>pc. decode_uop pc (encode i)"
  shows "\<not> uop_exception (u pc) \<and> uop_uopc (u pc) \<noteq> 0 \<and> \<not> dc_is_load (uop_ctrl (u pc))
    \<and> (uop_iq_type (u pc) = IQ_ALU \<or> uop_iq_type (u pc) = IQ_MEM)
    \<and> is_control (u pc) = isa_control i
    \<and> dc_is_sta (uop_ctrl (u pc)) = (isa_store i a b \<noteq> None)
    \<and> (ri_dst_rtype (uop_rename (u pc)) = DST_INT \<and> rd_of (encode i) \<noteq> 0 \<longleftrightarrow> isa_rd i \<noteq> 0)"
  using assms(1) unfolding u_def
  by (cases rule: supported_cases) (simp_all add: encode_simps decode_defs is_control_def)

text \<open>
  The renamed micro-operation differs from the decoded one in \<open>uop_rename\<close> and
  \<open>uop_queue\<close>, which the arithmetic does not read.
\<close>

lemma decode_execute_value:
  assumes "core_supports i" "isa_rd i \<noteq> 0"
  shows "ar_result (execute_result ((decode_uop pc (encode i))\<lparr>uop_rename := rn, uop_queue := q\<rparr>) a b)
    = isa_value i pc a b"
  using assms
proof (cases rule: supported_cases)
  case (c19 rd rs1 imm)
  have "low32 (scast imm) = scast imm"
    unfolding low32_def by (intro bit_word_eqI) (auto simp: bit_simps min_def)
  with c19 show ?thesis using w32_add [of a "scast imm"] by (simp add: encode_simps decode_defs exec_defs)
next
  case (c20 rd rs1 sh)
  then show ?thesis using shift_imm_amount(2) [of OpSll sh] w32_shl [of "unat sh" a]
    by (simp add: encode_simps decode_defs exec_defs)
next
  case (c21 rd rs1 sh)
  then show ?thesis using shift_imm_amount(2) [of OpSra sh] w32_sar [of "unat sh" a]
    by (simp add: encode_simps decode_defs exec_defs)
next
  case (c22 rd imm) then show ?thesis using upper_imm [of imm] by (simp add: encode_simps decode_defs exec_defs)
next
  case (c23 rd imm) then show ?thesis using upper_imm [of imm] by (simp add: encode_simps decode_defs exec_defs)
qed (simp_all add: encode_simps decode_defs exec_defs w32_sub word_sless_alt word_less_nat_alt,
     simp_all add: push_bit_spec drop_bit_spec signed_drop_bit_spec amount64)

lemma decode_execute_redirect:
  assumes "core_supports i"
  shows "ar_mispredict (execute_result ((decode_uop pc (encode i))\<lparr>uop_rename := rn, uop_queue := q\<rparr>) a b)
    = (isa_target i pc a b \<noteq> None)"
  using assms
  by (cases rule: supported_cases)
    (simp_all add: encode_simps decode_defs exec_defs word_sless_alt word_sle_eq word_less_nat_alt word_le_nat_alt)

lemma decode_execute_target:
  assumes "core_supports i" "isa_target i pc a b = Some t"
  shows "ar_redirect_pc (execute_result ((decode_uop pc (encode i))\<lparr>uop_rename := rn, uop_queue := q\<rparr>) a b) = t"
proof (cases i)
  case (Jal rd imm)
  then show ?thesis using assms offset_imm [of imm] imm_j_encode [of imm rd]
    by (auto simp: encode_simps decode_defs exec_defs)
next
  case (Jalr rd rs1 imm)
  then show ?thesis using assms even_mask [of "a + scast imm"] by (simp add: encode_simps decode_defs exec_defs)
next
  case (Branch op rs1 rs2 imm)
  then show ?thesis using assms offset_imm [of imm] imm_b_encode [of imm rs2 rs1 op]
    by (cases op; simp add: encode_simps decode_defs exec_defs split: if_splits)
qed (use assms in simp_all)

lemma decode_execute_kind:
  fixes pc a b :: u64
  assumes "core_supports i"
  defines "r \<equiv> \<lambda>rn q. execute_result ((decode_uop pc (encode i))\<lparr>uop_rename := rn, uop_queue := q\<rparr>) a b"
  shows "ar_valid (r rn q) \<and> \<not> ar_is_load (r rn q) \<and> \<not> ar_exception (r rn q)
    \<and> ar_is_store (r rn q) = (isa_store i a b \<noteq> None) \<and> ar_memory_valid (r rn q) = (isa_store i a b \<noteq> None)"
  using assms(1) unfolding r_def
  by (cases rule: supported_cases) (simp_all add: encode_simps decode_defs exec_defs)

lemma decode_execute_store:
  fixes pc a b :: u64
  assumes "core_supports i" "isa_store i a b = Some (ad, d, sz)"
  defines "r \<equiv> \<lambda>rn q. execute_result ((decode_uop pc (encode i))\<lparr>uop_rename := rn, uop_queue := q\<rparr>) a b"
  shows "ar_memory_address (r rn q) = ad \<and> ar_store_data (r rn q) = d
    \<and> ar_memory_size (r rn q) = ucast sz \<and> ar_memory_mask (r rn q) = mask_for_size (ucast sz)"
  using assms(1,2) unfolding r_def
  by (cases rule: supported_cases) (auto simp: encode_simps decode_defs exec_defs)

section \<open>Round trips of the encoders\<close>

lemma u8_bounds: "(ucast (x :: 3 word) :: u8) < 8" "(ucast (y :: 7 word) :: u8) < 128"
  using unsigned_less [of x, where ?'a = nat] unsigned_less [of y, where ?'a = nat]
  by (simp_all add: word_less_nat_alt unsigned_ucast_eq take_bit_nat_eq_self)

text \<open>
  C22: The decoder's immediate extractors invert the test benches' encoders on all five
  immediate formats: the 12-bit I and S immediates, the 13-bit even B offset, the 20-bit
  upper U immediate and the 21-bit even J offset come back sign-extended, whatever the other
  fields hold.
\<close>
theorem immediates_round_trip:
  fixes rd rs1 rs2 :: "5 word" and f3 :: "3 word" and opc :: "7 word" and i :: "12 word" and j :: "20 word"
  shows "extract_imm_i (make_itype (scast i) (ucast rs1) (ucast f3) (ucast rd) (ucast opc)) = scast i
    \<and> extract_imm_s (make_stype (scast i) (ucast rs2) (ucast rs1) (ucast f3)) = scast i
    \<and> extract_imm_b (make_btype (push_bit 1 (scast i)) (ucast rs2) (ucast rs1) (ucast f3)) = push_bit 1 (scast i)
    \<and> extract_imm_u (make_utype (push_bit 12 (ucast j)) (ucast rd) (ucast opc)) = push_bit 12 (ucast j)
    \<and> extract_imm_j (make_jtype (push_bit 1 (scast j)) (ucast rd) (ucast opc)) = push_bit 1 (scast j)"
proof -
  have b: "(ucast f3 :: u8) < 8" "(ucast opc :: u8) < 128"
    by (rule u8_bounds)+
  have "push_bit 12 (ucast j) AND 0xFFFFF000 = (push_bit 12 (ucast j) :: u32)"
    unfolding high_masks32 by (rule bit_word_eqI) (auto simp: bit_simps)
  moreover have "extract_imm_b (make_btype (push_bit 1 (scast i)) (ucast rs2) (ucast rs1) (ucast f3)) = push_bit 1 (scast i)"
    by (rule imm_btype) (simp_all only: b_sign ucast5_less b not_False_eq_True)
  moreover have "extract_imm_j (make_jtype (push_bit 1 (scast j)) (ucast rd) (ucast opc)) = push_bit 1 (scast j)"
    by (rule imm_jtype) (simp_all only: j_sign ucast5_less b not_False_eq_True)
  ultimately show ?thesis
    using b by (simp add: fields_itype fields_utype imm_stype)
qed

section \<open>The decoder and the execute stage against the instruction set\<close>

text \<open>
  C6: Decoding and executing implements the instruction set on every supported instruction
  and all operand values: the result is the architectural one when a register is written,
  control is redirected exactly when the instruction jumps and then to the architectural
  target, a memory access is produced exactly for a store, with its address, data, size and
  byte mask, and no exception is raised, whatever renaming and queue indices the
  micro-operation carries.
\<close>
theorem decode_executes_isa:
  fixes pc a b :: u64
  assumes "core_supports i"
  defines "r \<equiv> \<lambda>rn q. execute_result ((decode_uop pc (encode i))\<lparr>uop_rename := rn, uop_queue := q\<rparr>) a b"
  shows "(isa_rd i \<noteq> 0 \<longrightarrow> ar_result (r rn q) = isa_value i pc a b)
    \<and> (if ar_mispredict (r rn q) then Some (ar_redirect_pc (r rn q)) else None) = isa_target i pc a b
    \<and> (if ar_memory_valid (r rn q) then Some (ar_memory_address (r rn q), ar_store_data (r rn q), ar_memory_size (r rn q), ar_memory_mask (r rn q)) else None)
        = map_option (\<lambda>(ad, d, sz). (ad, d, ucast sz, mask_for_size (ucast sz))) (isa_store i a b)
    \<and> \<not> ar_exception (r rn q) \<and> \<not> ar_is_load (r rn q)"
  using decode_execute_value [OF assms(1), where pc = pc and rn = rn and q = q and a = a and b = b]
    decode_execute_redirect [OF assms(1), where pc = pc and rn = rn and q = q and a = a and b = b]
    decode_execute_target [OF assms(1), where pc = pc and rn = rn and q = q and a = a and b = b]
    decode_execute_kind [OF assms(1), where pc = pc and rn = rn and q = q and a = a and b = b]
    decode_execute_store [OF assms(1), where pc = pc and rn = rn and q = q and a = a and b = b]
  unfolding r_def by (cases "isa_store i a b"; cases "isa_target i pc a b") auto

lemma decode_executes_isa_witness:
  "ar_result (execute_result ((decode_uop 0x10040 (encode (Imm OpAdd 1 2 0xFFF)))\<lparr>uop_rename := RenameInfo0, uop_queue := QueueInfo0\<rparr>) 7 0) = 6"
proof -
  have "core_supports (Imm OpAdd 1 2 0xFFF)" by simp
  from decode_executes_isa [OF this, where rn = RenameInfo0 and q = QueueInfo0 and pc = "0x10040" and a = 7 and b = 0] show ?thesis by simp
qed

end
