(* ===== verification/Frontend.thy ===== *)
theory Frontend
  imports BoomState
begin

text \<open>
  \<open>src/frontend.cpp\<close>: the fetch request/response state machine. \<open>frontend_module\<close> is
  the sequence of its guarded blocks, each a definition of its own in source order; the early
  return in the exception state is the branch of \<open>frontend_module\<close>.
\<close>

definition align4 :: "u64 \<Rightarrow> u64" where
  "align4 a = a AND NOT 3"

text \<open>\<open>if (state.global_flush)\<close> and \<open>if (!fe.reset_done)\<close>\<close>

definition frontend_flush_mark :: "BoomCoreState \<Rightarrow> BoomCoreState" where
  "frontend_flush_mark s =
    (if bs_global_flush s
     then s\<lparr>bs_frontend := (bs_frontend s)
            \<lparr>fe_flush := True, fe_request_sent := False, fe_fetch_packet_valid := False\<rparr>\<rparr>
     else s)"

definition frontend_reset :: "BoomCoreState \<Rightarrow> BoomCoreState" where
  "frontend_reset s =
    (if \<not> fe_reset_done (bs_frontend s)
     then s\<lparr>bs_frontend := (bs_frontend s)
            \<lparr>fe_pc := RESET_VECTOR, fe_fetch_id := 0, fe_reset_done := True,
             fe_request_sent := False\<rparr>\<rparr>
     else s)"

text \<open>The redirect on a mispredict, and the flush block.\<close>

definition frontend_redirect :: "BoomCoreState \<Rightarrow> BoomCoreState" where
  "frontend_redirect s =
    (if bu_valid (bs_brupdate s) \<and> bu_mispredict (bs_brupdate s)
     then s\<lparr>bs_frontend := (bs_frontend s)
            \<lparr>fe_pc := align4 (bu_jalr_target (bs_brupdate s)), fe_request_sent := False,
             fe_response_received := False, fe_fetch_packet_valid := False, fe_flush := False\<rparr>,
            bs_global_flush := False\<rparr>
     else s)"

definition frontend_flush :: "BoomCoreState \<Rightarrow> BoomCoreState" where
  "frontend_flush s =
    (if fe_flush (bs_frontend s)
     then s\<lparr>bs_frontend := (bs_frontend s)
            \<lparr>fe_pc := (if bu_valid (bs_brupdate s) then align4 (bu_jalr_target (bs_brupdate s))
                       else fe_pc (bs_frontend s)),
             fe_request_sent := False, fe_response_received := False,
             fe_fetch_packet_valid := False, fe_flush := False\<rparr>,
            bs_global_flush := False\<rparr>
     else s)"

definition frontend_drop_packet :: "FrontendState \<Rightarrow> FrontendState" where
  "frontend_drop_packet fe =
    (if \<not> fe_request_sent fe \<and> fe_fetch_packet_valid fe
     then fe\<lparr>fe_response_received := False, fe_fetch_packet_valid := False\<rparr> else fe)"

text \<open>Sending the request, taking the response, building the packet.\<close>

definition frontend_send :: "FrontendState \<Rightarrow> PipeSignals \<Rightarrow> FrontendState \<times> PipeSignals" where
  "frontend_send fe pipe =
    (if \<not> fe_request_sent fe then
       (let req = ImemRequest0\<lparr>irq_address := fe_pc fe, irq_fetch_id := fe_fetch_id fe,
                    irq_kill := False\<rparr>
        in if \<not> stream_full (pipe_imem_req pipe)
           then (fe\<lparr>fe_pending_fetch_id := fe_fetch_id fe, fe_fetch_id := fe_fetch_id fe + 1,
                    fe_request_sent := True\<rparr>,
                 pipe\<lparr>pipe_imem_req := stream_write (pipe_imem_req pipe) req\<rparr>)
           else (fe, pipe))
     else (fe, pipe))"

definition frontend_receive :: "FrontendState \<Rightarrow> PipeSignals \<Rightarrow> FrontendState \<times> PipeSignals" where
  "frontend_receive fe pipe =
    (if \<not> stream_empty (pipe_imem_resp pipe) then
       (let (resp, q) = stream_read (pipe_imem_resp pipe);
            pipe = pipe\<lparr>pipe_imem_resp := q\<rparr>
        in if fe_request_sent fe \<and> irs_fetch_id resp = fe_pending_fetch_id fe
           then (fe\<lparr>fe_resp_address := irs_address resp,
                    fe_resp_instruction := irs_instruction resp,
                    fe_resp_exception := irs_exception resp,
                    fe_resp_exc_cause := irs_exc_cause resp,
                    fe_response_received := True, fe_request_sent := False\<rparr>, pipe)
           else (fe, pipe))
     else (fe, pipe))"

definition fetch_packet :: "u64 \<Rightarrow> u32 \<Rightarrow> MicroOp" where
  "fetch_packet pc inst =
    MicroOp0\<lparr>uop_debug_pc := pc, uop_inst := inst, uop_is_rvc := False\<rparr>"

definition frontend_packet :: "FrontendState \<Rightarrow> FrontendState" where
  "frontend_packet fe =
    (let fe = fe\<lparr>fe_fetch_packet_valid := False\<rparr>
     in if fe_response_received fe \<and> \<not> fe_request_sent fe
        then fe\<lparr>fe_fetch_uop := fetch_packet (fe_resp_address fe) (fe_resp_instruction fe),
                fe_fetch_packet_valid := True, fe_pc := fe_resp_address fe + 4,
                fe_response_received := False\<rparr>
        else fe)"

definition frontend_module ::
  "BoomCoreState \<Rightarrow> PipeSignals \<Rightarrow> BoomCoreState \<times> PipeSignals" where
  "frontend_module s pipe =
    (let s = frontend_redirect (frontend_reset (frontend_flush_mark s))
     in if rob_state (bs_rob s) = ROB_EXCEPTION
        then (s\<lparr>bs_frontend := (bs_frontend s)\<lparr>fe_fetch_packet_valid := False\<rparr>\<rparr>, pipe)
        else
          (let s = frontend_flush s;
               fe = frontend_drop_packet (bs_frontend s);
               (fe, pipe) = frontend_send fe pipe;
               (fe, pipe) = frontend_receive fe pipe
           in (s\<lparr>bs_frontend := frontend_packet fe\<rparr>, pipe)))"

section \<open>The fetch protocol\<close>

lemma align4_low_bits: "align4 a AND 3 = 0"
  by (simp add: align4_def and.assoc)

text \<open>What the blocks before the request keep.\<close>

lemma frontend_reset_done [simp]: "fe_reset_done (bs_frontend s) \<Longrightarrow> frontend_reset s = s"
  by (simp add: frontend_reset_def)

lemma frontend_blocks_keep [simp]:
  "fe_fetch_id (bs_frontend (frontend_flush_mark s)) = fe_fetch_id (bs_frontend s)"
  "fe_pending_fetch_id (bs_frontend (frontend_flush_mark s)) = fe_pending_fetch_id (bs_frontend s)"
  "fe_reset_done (bs_frontend (frontend_flush_mark s)) = fe_reset_done (bs_frontend s)"
  "bs_rob (frontend_flush_mark s) = bs_rob s" "bs_brupdate (frontend_flush_mark s) = bs_brupdate s"
  "bs_rob (frontend_reset s) = bs_rob s" "bs_brupdate (frontend_reset s) = bs_brupdate s"
  "fe_fetch_id (bs_frontend (frontend_redirect s)) = fe_fetch_id (bs_frontend s)"
  "fe_pending_fetch_id (bs_frontend (frontend_redirect s)) = fe_pending_fetch_id (bs_frontend s)"
  "bs_rob (frontend_redirect s) = bs_rob s" "bs_brupdate (frontend_redirect s) = bs_brupdate s"
  "fe_fetch_id (bs_frontend (frontend_flush s)) = fe_fetch_id (bs_frontend s)"
  "fe_pending_fetch_id (bs_frontend (frontend_flush s)) = fe_pending_fetch_id (bs_frontend s)"
  by (simp_all add: frontend_flush_mark_def frontend_reset_def frontend_redirect_def frontend_flush_def)

lemma frontend_drop_keep [simp]:
  "fe_fetch_id (frontend_drop_packet fe) = fe_fetch_id fe" "fe_pc (frontend_drop_packet fe) = fe_pc fe"
  "fe_pending_fetch_id (frontend_drop_packet fe) = fe_pending_fetch_id fe"
  "fe_request_sent (frontend_drop_packet fe) = fe_request_sent fe"
  by (simp_all add: frontend_drop_packet_def)

lemma frontend_packet_keep [simp]:
  "fe_fetch_id (frontend_packet fe) = fe_fetch_id fe" "fe_pending_fetch_id (frontend_packet fe) = fe_pending_fetch_id fe"
  by (simp_all add: frontend_packet_def Let_def)

lemma frontend_receive_keep:
  assumes "frontend_receive fe p = (fe', p')"
  shows "fe_fetch_id fe' = fe_fetch_id fe" "fe_pending_fetch_id fe' = fe_pending_fetch_id fe"
    "pipe_imem_req p' = pipe_imem_req p" "pipe_dmem_req p' = pipe_dmem_req p" "pipe_commit_trace p' = pipe_commit_trace p"
    "pipe_dmem_resp p' = pipe_dmem_resp p"
  using assms by (auto simp: frontend_receive_def stream_read_def Let_def split: if_split_asm)

lemma frontend_send_cases:
  assumes "frontend_send fe p = (fe', p')"
  obtains (wait) "fe' = fe" "p' = p" "fe_request_sent fe \<or> stream_full (pipe_imem_req p)"
  | (send) "\<not> fe_request_sent fe" "\<not> stream_full (pipe_imem_req p)" "fe' = fe\<lparr>fe_pending_fetch_id := fe_fetch_id fe, fe_fetch_id := fe_fetch_id fe + 1,
        fe_request_sent := True\<rparr>"
      "p' = p\<lparr>pipe_imem_req := pipe_imem_req p @ [\<lparr>irq_address = fe_pc fe, irq_fetch_id = fe_fetch_id fe, irq_kill = False\<rparr>]\<rparr>"
  using assms by (auto simp: frontend_send_def stream_write_def ImemRequest0_def Let_def split: if_split_asm)

text \<open>The state when the request block runs, in the two branches of \<open>frontend_module\<close>.\<close>

definition frontend_ready :: "BoomCoreState \<Rightarrow> BoomCoreState" where
  "frontend_ready s = frontend_redirect (frontend_reset (frontend_flush_mark s))"

lemma frontend_module_cases:
  assumes "frontend_module s p = (s', p')"
  obtains (exception) "rob_state (bs_rob s) = ROB_EXCEPTION" "p' = p"
      "s' = (frontend_ready s)\<lparr>bs_frontend := (bs_frontend (frontend_ready s))\<lparr>fe_fetch_packet_valid := False\<rparr>\<rparr>"
  | (run) fe1 p1 fe2 where "rob_state (bs_rob s) \<noteq> ROB_EXCEPTION"
      "frontend_send (frontend_drop_packet (bs_frontend (frontend_flush (frontend_ready s)))) p = (fe1, p1)"
      "frontend_receive fe1 p1 = (fe2, p')"
      "s' = (frontend_flush (frontend_ready s))\<lparr>bs_frontend := frontend_packet fe2\<rparr>"
proof -
  have "bs_rob (frontend_ready s) = bs_rob s" by (simp add: frontend_ready_def frontend_reset_def)
  then show thesis
    using assms that unfolding frontend_module_def frontend_ready_def [symmetric] Let_def
    by (auto split: if_split_asm prod.splits)
qed

text \<open>
  What a cycle of the fetch unit does, exactly: whether it sends a request, which, and which
  response it takes.
\<close>

definition redirects :: "BoomCoreState \<Rightarrow> bool" where
  "redirects s = (bu_valid (bs_brupdate s) \<and> bu_mispredict (bs_brupdate s))"

definition fetch_open :: "BoomCoreState \<Rightarrow> bool" where
  "fetch_open s = (\<not> fe_request_sent (bs_frontend s) \<or> \<not> fe_reset_done (bs_frontend s) \<or> redirects s
     \<or> fe_flush (bs_frontend s) \<or> bs_global_flush s)"

definition fetch_sends :: "BoomCoreState \<Rightarrow> PipeSignals \<Rightarrow> bool" where
  "fetch_sends s p = (rob_state (bs_rob s) \<noteq> ROB_EXCEPTION \<and> fetch_open s \<and> \<not> stream_full (pipe_imem_req p))"

definition fetch_next_id :: "BoomCoreState \<Rightarrow> u32" where
  "fetch_next_id s = (if fe_reset_done (bs_frontend s) then fe_fetch_id (bs_frontend s) else 0)"

definition fetch_next_pc :: "BoomCoreState \<Rightarrow> u64" where
  "fetch_next_pc s =
    (if redirects s \<or> (fe_flush (bs_frontend s) \<or> bs_global_flush s) \<and> bu_valid (bs_brupdate s)
     then align4 (bu_jalr_target (bs_brupdate s))
     else if fe_reset_done (bs_frontend s) then fe_pc (bs_frontend s) else RESET_VECTOR)"

lemma frontend_ready_fields:
  "fe_fetch_id (bs_frontend (frontend_ready s)) = fetch_next_id s"
  "fe_pending_fetch_id (bs_frontend (frontend_ready s)) = fe_pending_fetch_id (bs_frontend s)"
  "fe_reset_done (bs_frontend (frontend_ready s))"
  "fe_flush (bs_frontend (frontend_ready s)) \<longleftrightarrow> (fe_flush (bs_frontend s) \<or> bs_global_flush s) \<and> \<not> redirects s"
  "fe_request_sent (bs_frontend (frontend_ready s)) \<longleftrightarrow> fe_request_sent (bs_frontend s) \<and> fe_reset_done (bs_frontend s)
     \<and> \<not> redirects s \<and> \<not> bs_global_flush s"
  by (auto simp: frontend_ready_def fetch_next_id_def redirects_def frontend_flush_mark_def frontend_reset_def frontend_redirect_def)

lemma frontend_run_fields:
  fixes s :: BoomCoreState
  defines "fe \<equiv> bs_frontend (frontend_flush (frontend_ready s))"
  shows "fe_fetch_id fe = fetch_next_id s" "fe_pending_fetch_id fe = fe_pending_fetch_id (bs_frontend s)"
    "fe_reset_done fe" "\<not> fe_flush fe" "fe_request_sent fe \<longleftrightarrow> \<not> fetch_open s" "fe_pc fe = fetch_next_pc s"
proof -
  show "fe_fetch_id fe = fetch_next_id s" "fe_pending_fetch_id fe = fe_pending_fetch_id (bs_frontend s)"
    "fe_reset_done fe" "\<not> fe_flush fe" "fe_request_sent fe \<longleftrightarrow> \<not> fetch_open s"
    using frontend_ready_fields [of s] by (auto simp: fe_def frontend_flush_def fetch_open_def)
  show "fe_pc fe = fetch_next_pc s"
    by (auto simp: fe_def frontend_flush_def frontend_ready_def frontend_redirect_def frontend_reset_def frontend_flush_mark_def
        fetch_next_pc_def redirects_def)
qed

lemma frontend_receive_cases:
  assumes "frontend_receive fe p = (fe', p')"
  obtains (none) "fe' = fe" "pipe_imem_resp p' = tl (pipe_imem_resp p)"
      "pipe_imem_resp p = [] \<or> \<not> fe_request_sent fe \<or> irs_fetch_id (hd (pipe_imem_resp p)) \<noteq> fe_pending_fetch_id fe"
  | (taken) "pipe_imem_resp p \<noteq> []" "fe_request_sent fe" "irs_fetch_id (hd (pipe_imem_resp p)) = fe_pending_fetch_id fe"
      "\<not> fe_request_sent fe'" "pipe_imem_resp p' = tl (pipe_imem_resp p)" "fe_flush fe' = fe_flush fe" "fe_reset_done fe' = fe_reset_done fe"
  using assms by (cases "pipe_imem_resp p")
    (auto simp: frontend_receive_def stream_empty_def stream_read_def Let_def split: if_split_asm)

lemma frontend_emits:
  assumes "frontend_module s p = (s', p')"
  shows "pipe_imem_req p' = pipe_imem_req p @ (if fetch_sends s p
      then [\<lparr>irq_address = fetch_next_pc s, irq_fetch_id = fetch_next_id s, irq_kill = False\<rparr>] else [])"
    "fe_fetch_id (bs_frontend s') = fetch_next_id s + (if fetch_sends s p then 1 else 0)"
    "fe_pending_fetch_id (bs_frontend s') = (if fetch_sends s p then fetch_next_id s else fe_pending_fetch_id (bs_frontend s))"
    "fe_reset_done (bs_frontend s')" "fe_request_sent (bs_frontend s') \<Longrightarrow> fetch_sends s p \<or> fe_request_sent (bs_frontend s)"
    "fe_flush (bs_frontend s') \<Longrightarrow> fe_flush (bs_frontend s) \<or> bs_global_flush s"
proof -
  have "pipe_imem_req p' = pipe_imem_req p @ (if fetch_sends s p
      then [\<lparr>irq_address = fetch_next_pc s, irq_fetch_id = fetch_next_id s, irq_kill = False\<rparr>] else [])
    \<and> fe_fetch_id (bs_frontend s') = fetch_next_id s + (if fetch_sends s p then 1 else 0)
    \<and> fe_pending_fetch_id (bs_frontend s') = (if fetch_sends s p then fetch_next_id s else fe_pending_fetch_id (bs_frontend s))
    \<and> fe_reset_done (bs_frontend s') \<and> (fe_request_sent (bs_frontend s') \<longrightarrow> fetch_sends s p \<or> fe_request_sent (bs_frontend s))
    \<and> (fe_flush (bs_frontend s') \<longrightarrow> fe_flush (bs_frontend s) \<or> bs_global_flush s)"
    using assms
  proof (cases rule: frontend_module_cases)
    case exception
    then show ?thesis by (auto simp: fetch_sends_def frontend_ready_fields)
  next
    case (run fe1 p1 fe2)
    note f = frontend_run_fields [of s]
    let ?fe = "frontend_drop_packet (bs_frontend (frontend_flush (frontend_ready s)))"
    have d: "fe_reset_done ?fe" "\<not> fe_flush ?fe" using f(3,4) by (simp_all add: frontend_drop_packet_def)
    have pk: "fe_reset_done (frontend_packet fe2) = fe_reset_done fe2" "fe_flush (frontend_packet fe2) = fe_flush fe2"
      "fe_request_sent (frontend_packet fe2) = fe_request_sent fe2"
      by (simp_all add: frontend_packet_def Let_def)
    note keep = frontend_receive_keep [OF run(3)]
    have r: "fe_reset_done fe2 = fe_reset_done fe1" "fe_flush fe2 = fe_flush fe1" "fe_request_sent fe2 \<Longrightarrow> fe_request_sent fe1"
      using run(3) by (cases rule: frontend_receive_cases; simp)+
    from run(2) show ?thesis
    proof (cases rule: frontend_send_cases)
      case wait
      then have "\<not> fetch_sends s p" using f(5) by (auto simp: fetch_sends_def)
      then show ?thesis using wait run(4) keep f(1,2,5) d pk r by (auto simp: fetch_open_def)
    next
      case send
      then have "fetch_sends s p" using f(5) run(1) by (simp add: fetch_sends_def)
      then show ?thesis using send run(4) keep f(1,2,6) d pk r by auto
    qed
  qed
  then show "pipe_imem_req p' = pipe_imem_req p @ (if fetch_sends s p
      then [\<lparr>irq_address = fetch_next_pc s, irq_fetch_id = fetch_next_id s, irq_kill = False\<rparr>] else [])"
    "fe_fetch_id (bs_frontend s') = fetch_next_id s + (if fetch_sends s p then 1 else 0)"
    "fe_pending_fetch_id (bs_frontend s') = (if fetch_sends s p then fetch_next_id s else fe_pending_fetch_id (bs_frontend s))"
    "fe_reset_done (bs_frontend s')" "fe_request_sent (bs_frontend s') \<Longrightarrow> fetch_sends s p \<or> fe_request_sent (bs_frontend s)"
    "fe_flush (bs_frontend s') \<Longrightarrow> fe_flush (bs_frontend s) \<or> bs_global_flush s"
    by blast+
qed

definition frontend_example :: BoomCoreState where
  "frontend_example = BoomCoreState0\<lparr>bs_frontend := FrontendState0\<lparr>fe_reset_done := True, fe_fetch_id := 7\<rparr>\<rparr>"

text \<open>
  C19: A mispredict redirects the fetch unit. Unless the reorder buffer is in its exception
  state, the outstanding request and the fetched packet are dropped, and the next request is
  for the branch target rounded down to a word address, under the next fetch id; it is sent in
  the same cycle when the request stream has room. A response that arrives in this cycle is
  taken off the stream and, unless it already carries that new id, thrown away: no packet is
  offered, the program counter stays at the target, and the new request stays outstanding. So
  a late answer to the dropped request that arrives in this cycle does not enter the pipeline.
\<close>
theorem frontend_redirects:
  assumes "frontend_module s p = (s', p')" "bu_valid (bs_brupdate s)" "bu_mispredict (bs_brupdate s)"
    "rob_state (bs_rob s) \<noteq> ROB_EXCEPTION"
  defines "target \<equiv> align4 (bu_jalr_target (bs_brupdate s))"
    and "tx \<equiv> (if fe_reset_done (bs_frontend s) then fe_fetch_id (bs_frontend s) else 0)"
    and "room \<equiv> \<not> stream_full (pipe_imem_req p)"
  shows "target AND 3 = 0 \<and> \<not> bs_global_flush s' \<and> pipe_imem_resp p' = tl (pipe_imem_resp p)
    \<and> pipe_imem_req p' = pipe_imem_req p @ (if room then [\<lparr>irq_address = target, irq_fetch_id = tx, irq_kill = False\<rparr>] else [])
    \<and> (pipe_imem_resp p = [] \<or> irs_fetch_id (hd (pipe_imem_resp p)) \<noteq> tx \<or> \<not> room \<longrightarrow>
         \<not> fe_fetch_packet_valid (bs_frontend s') \<and> fe_pc (bs_frontend s') = target
         \<and> fe_request_sent (bs_frontend s') = room \<and> (room \<longrightarrow> fe_pending_fetch_id (bs_frontend s') = tx))"
  using assms(1)
proof (cases rule: frontend_module_cases)
  case exception
  with assms(4) show ?thesis by simp
next
  case (run fe1 p1 fe2)
  let ?g = "bs_frontend (frontend_ready s)"
  have rd: "redirects s" using assms(2,3) by (simp add: redirects_def)
  have f: "frontend_flush (frontend_ready s) = frontend_ready s" "\<not> bs_global_flush (frontend_ready s)"
    "fe_pc ?g = target" "\<not> fe_request_sent ?g" "\<not> fe_response_received ?g" "\<not> fe_fetch_packet_valid ?g"
    using assms(2,3) by (simp_all add: frontend_ready_def frontend_redirect_def frontend_flush_def target_def)
  have d: "frontend_drop_packet ?g = ?g" using f(6) by (simp add: frontend_drop_packet_def)
  have id: "fe_fetch_id ?g = tx" by (simp add: frontend_ready_fields fetch_next_id_def tx_def)
  have req: "pipe_imem_req p' = pipe_imem_req p @ (if room then [\<lparr>irq_address = target, irq_fetch_id = tx, irq_kill = False\<rparr>] else [])"
    using frontend_emits(1) [OF assms(1)] rd assms(4)
    by (simp add: fetch_sends_def fetch_open_def fetch_next_pc_def fetch_next_id_def room_def target_def tx_def)
  have fe1: "fe_pc fe1 = target" "\<not> fe_response_received fe1" "fe_request_sent fe1 = room" "pipe_imem_resp p1 = pipe_imem_resp p"
    "room \<longrightarrow> fe_pending_fetch_id fe1 = tx"
    using run(2) f d id by (auto simp: frontend_send_def room_def Let_def split: if_split_asm)
  have tl: "pipe_imem_resp p' = tl (pipe_imem_resp p)"
    using run(3) fe1(4) by (cases rule: frontend_receive_cases) auto
  have late: "fe2 = fe1" if "pipe_imem_resp p = [] \<or> irs_fetch_id (hd (pipe_imem_resp p)) \<noteq> tx \<or> \<not> room"
    using run(3) by (cases rule: frontend_receive_cases) (use that fe1 in auto)
  have "\<not> bs_global_flush s'" using run(4) f by simp
  moreover have "\<not> fe_fetch_packet_valid (bs_frontend s') \<and> fe_pc (bs_frontend s') = target
         \<and> fe_request_sent (bs_frontend s') = room \<and> (room \<longrightarrow> fe_pending_fetch_id (bs_frontend s') = tx)"
    if "pipe_imem_resp p = [] \<or> irs_fetch_id (hd (pipe_imem_resp p)) \<noteq> tx \<or> \<not> room"
    using run(4) late [OF that] fe1 by (simp add: frontend_packet_def Let_def)
  ultimately show ?thesis using req tl by (auto simp: target_def align4_low_bits)
qed

definition redirect_example :: BoomCoreState where
  "redirect_example = BoomCoreState0\<lparr>bs_frontend := FrontendState0\<lparr>fe_reset_done := True, fe_request_sent := True,
       fe_pending_fetch_id := 6, fe_fetch_id := 7\<rparr>,
     bs_brupdate := BranchUpdate0\<lparr>bu_valid := True, bu_mispredict := True, bu_jalr_target := 0x10046\<rparr>\<rparr>"

text \<open>The answer to the dropped request 6 arrives in the cycle of the redirect.\<close>

lemma frontend_redirects_witness:
  "pipe_imem_req (snd (frontend_module redirect_example (PipeSignals0\<lparr>pipe_imem_resp := [ImemResponse0\<lparr>irs_fetch_id := 6\<rparr>]\<rparr>)))
     = [\<lparr>irq_address = 0x10044, irq_fetch_id = 7, irq_kill = False\<rparr>]
   \<and> \<not> fe_fetch_packet_valid (bs_frontend (fst (frontend_module redirect_example
        (PipeSignals0\<lparr>pipe_imem_resp := [ImemResponse0\<lparr>irs_fetch_id := 6\<rparr>]\<rparr>))))"
proof -
  have v: "bu_valid (bs_brupdate redirect_example)" "bu_mispredict (bs_brupdate redirect_example)"
    "rob_state (bs_rob redirect_example) \<noteq> ROB_EXCEPTION" by code_simp+
  have w: "align4 (bu_jalr_target (bs_brupdate redirect_example)) = 0x10044" "fe_reset_done (bs_frontend redirect_example)"
    "fe_fetch_id (bs_frontend redirect_example) = 7" by code_simp+
  show ?thesis
    using frontend_redirects [OF prod.collapse [symmetric] v, of "PipeSignals0\<lparr>pipe_imem_resp := [ImemResponse0\<lparr>irs_fetch_id := 6\<rparr>]\<rparr>"] w
    by (simp add: PipeSignals0_def stream_full_def ImemResponse0_def)
qed

text \<open>
  A response is consumed in the cycle it arrives. The awaited one delivers the packet
  with its instruction and address, and moves the program counter behind it; any other
  (a response to a request dropped by a redirect) delivers nothing and leaves the
  outstanding request, the program counter and the ids as they are.
\<close>
lemma frontend_response:
  assumes "frontend_module s p = (s', p')" "fe_reset_done (bs_frontend s)" "fe_request_sent (bs_frontend s)"
    "\<not> fe_flush (bs_frontend s)" "\<not> fe_response_received (bs_frontend s)" "\<not> bs_global_flush s"
    "\<not> bu_valid (bs_brupdate s)" "rob_state (bs_rob s) \<noteq> ROB_EXCEPTION" "pipe_imem_resp p = resp # q"
  shows "pipe_imem_resp p' = q \<and>
    (if irs_fetch_id resp = fe_pending_fetch_id (bs_frontend s)
     then fe_fetch_packet_valid (bs_frontend s') \<and> uop_inst (fe_fetch_uop (bs_frontend s')) = irs_instruction resp
       \<and> uop_debug_pc (fe_fetch_uop (bs_frontend s')) = irs_address resp
       \<and> fe_pc (bs_frontend s') = irs_address resp + 4 \<and> \<not> fe_request_sent (bs_frontend s')
     else \<not> fe_fetch_packet_valid (bs_frontend s') \<and> fe_request_sent (bs_frontend s')
       \<and> fe_pc (bs_frontend s') = fe_pc (bs_frontend s) \<and> pipe_imem_req p' = pipe_imem_req p)"
  using assms(1)
proof (cases rule: frontend_module_cases)
  case exception
  with assms(8) show ?thesis by simp
next
  case (run fe1 p1 fe2)
  have f: "frontend_ready s = s" "frontend_flush s = s" "frontend_drop_packet (bs_frontend s) = bs_frontend s"
    using assms by (simp_all add: frontend_ready_def frontend_flush_mark_def frontend_redirect_def frontend_flush_def
        frontend_drop_packet_def)
  then have "fe1 = bs_frontend s" "p1 = p" using run(2) assms(3) by (simp_all add: frontend_send_def)
  with run(3,4) assms show ?thesis unfolding f
    by (cases "irs_fetch_id resp = fe_pending_fetch_id (bs_frontend s)")
      (auto simp: frontend_receive_def stream_empty_def stream_read_def frontend_packet_def fetch_packet_def Let_def)
qed

lemma frontend_response_witness:
  "fe_fetch_packet_valid (bs_frontend (fst (frontend_module
      (frontend_example\<lparr>bs_frontend := (bs_frontend frontend_example)\<lparr>fe_request_sent := True, fe_pending_fetch_id := 6\<rparr>\<rparr>)
      (PipeSignals0\<lparr>pipe_imem_resp := [ImemResponse0\<lparr>irs_fetch_id := 6\<rparr>]\<rparr>))))
   \<and> fe_request_sent (bs_frontend (fst (frontend_module
      (frontend_example\<lparr>bs_frontend := (bs_frontend frontend_example)\<lparr>fe_request_sent := True, fe_pending_fetch_id := 6\<rparr>\<rparr>)
      (PipeSignals0\<lparr>pipe_imem_resp := [ImemResponse0\<lparr>irs_fetch_id := 5\<rparr>]\<rparr>))))"
  using frontend_response [of "frontend_example\<lparr>bs_frontend := (bs_frontend frontend_example)\<lparr>fe_request_sent := True, fe_pending_fetch_id := 6\<rparr>\<rparr>"
      "PipeSignals0\<lparr>pipe_imem_resp := [ImemResponse0\<lparr>irs_fetch_id := 6\<rparr>]\<rparr>", OF prod.collapse [symmetric]]
    frontend_response [of "frontend_example\<lparr>bs_frontend := (bs_frontend frontend_example)\<lparr>fe_request_sent := True, fe_pending_fetch_id := 6\<rparr>\<rparr>"
      "PipeSignals0\<lparr>pipe_imem_resp := [ImemResponse0\<lparr>irs_fetch_id := 5\<rparr>]\<rparr>", OF prod.collapse [symmetric]]
  by (simp add: frontend_example_def FrontendState0_def BoomCoreState0_def RobInternalState0_def PipeSignals0_def
      BranchUpdate0_def ImemResponse0_def)

text \<open>
  After an exception the fetch unit stops: while the reorder buffer is in its exception
  state no request is sent, no response is taken and no packet is offered to the decoder.
\<close>
lemma frontend_stops:
  assumes "rob_state (bs_rob s) = ROB_EXCEPTION"
  shows "snd (frontend_module s p) = p \<and> \<not> fe_fetch_packet_valid (bs_frontend (fst (frontend_module s p)))"
proof -
  obtain s' p' where e: "frontend_module s p = (s', p')" by force
  show ?thesis unfolding e using e assms by (cases rule: frontend_module_cases) simp_all
qed

lemma frontend_stops_witness:
  "snd (frontend_module (BoomCoreState0\<lparr>bs_rob := RobInternalState0\<lparr>rob_state := ROB_EXCEPTION\<rparr>\<rparr>) PipeSignals0) = PipeSignals0"
  using frontend_stops [of "BoomCoreState0\<lparr>bs_rob := RobInternalState0\<lparr>rob_state := ROB_EXCEPTION\<rparr>\<rparr>" PipeSignals0] by simp

end
