(* ===== verification/Rename.thy ===== *)
theory Rename
  imports BoomState
begin

text \<open>
  \<open>src/rename.cpp\<close>: register renaming over the integer map table and free list.
  \<open>rename_restore\<close> is the recovery from a mispredict, \<open>rename_uop\<close> the body of the
  lane loop for one decoded micro-operation.
\<close>

definition rename_restore :: "RenameMapTableState \<Rightarrow> RenameMapTableState" where
  "rename_restore mt = mt
    \<lparr>mt_map_table := mt_committed_map_table mt,
     mt_br_snapshots := map (replicate MAX_BRANCH_COUNT) (mt_committed_map_table mt)\<rparr>"

text \<open>Taking a physical register from the free list; the caller has checked \<open>fl.count > 0\<close>.\<close>

definition fl_pop :: "RenameFreeListState \<Rightarrow> u8 \<times> RenameFreeListState" where
  "fl_pop fl =
    (let pdst = fl_free_list fl ! unat (fl_head fl)
     in (pdst, fl\<lparr>fl_head := inc_mod INT_PHYS_REGS (fl_head fl), fl_count := fl_count fl - 1,
                  fl_busy_table := (fl_busy_table fl)[unat pdst := True]\<rparr>))"

definition rename_sources :: "u8 list \<Rightarrow> MicroOp \<Rightarrow> MicroOp" where
  "rename_sources m u = u\<lparr>uop_rename := (uop_rename u)
    \<lparr>ri_prs1 := m ! unat (ri_lrs1 (uop_rename u)),
     ri_prs2 := m ! unat (ri_lrs2 (uop_rename u)),
     ri_stale_pdst := m ! unat (ri_ldst (uop_rename u)),
     ri_prs1_busy := False, ri_prs2_busy := False\<rparr>\<rparr>"

definition rename_uop ::
  "MicroOp \<Rightarrow> RenameMapTableState \<Rightarrow> RenameFreeListState
     \<Rightarrow> MicroOp \<times> RenameMapTableState \<times> RenameFreeListState" where
  "rename_uop u mt fl =
    (let u = rename_sources (mt_map_table mt) u;
         ldst = ri_ldst (uop_rename u)
     in if ri_dst_rtype (uop_rename u) = DST_INT \<and> ldst \<noteq> 0 then
          (if fl_count fl > 0 then
             (let (pdst, fl) = fl_pop fl
              in (u\<lparr>uop_rename := (uop_rename u)\<lparr>ri_pdst := pdst\<rparr>\<rparr>,
                  mt\<lparr>mt_map_table := (mt_map_table mt)[unat ldst := pdst]\<rparr>, fl))
           else (u, mt, fl))
        else (u\<lparr>uop_rename := (uop_rename u)\<lparr>ri_pdst := 0, ri_ldst := 0\<rparr>\<rparr>, mt, fl))"

definition rename_lane :: "DecodeState \<Rightarrow> nat \<Rightarrow> RenameState \<Rightarrow> RenameState" where
  "rename_lane dec i ren =
    (if \<not> dec_valids dec ! i then ren
     else let (u, mt, fl) = rename_uop (dec_uops dec ! i)
                              (ren_int_map_table ren) (ren_int_free_list ren)
          in ren\<lparr>ren_int_map_table := mt, ren_int_free_list := fl,
                 ren_renamed_uops := (ren_renamed_uops ren)[i := u],
                 ren_renamed_valids := (ren_renamed_valids ren)[i := True]\<rparr>)"

definition rename_module :: "BoomCoreState \<Rightarrow> BoomCoreState" where
  "rename_module s =
    (let ren = (bs_rename s)\<lparr>ren_renamed_valids := replicate DISPATCH_WIDTH False,
                 ren_renamed_uops := replicate DISPATCH_WIDTH MicroOp0\<rparr>
     in if bs_global_flush s then s\<lparr>bs_rename := ren\<rparr>
        else
          (let ren = (if bu_valid (bs_brupdate s) \<and> bu_mispredict (bs_brupdate s)
                      then ren\<lparr>ren_int_map_table := rename_restore (ren_int_map_table ren)\<rparr>
                      else ren);
               ren = fold (rename_lane (bs_decode s)) [0..<DISPATCH_WIDTH] ren
           in s\<lparr>bs_rename := ren\<rparr>))"

end
