(* ===== verification/Issue.thy ===== *)
theory Issue
  imports BoomState
begin

text \<open>
  \<open>src/issue.cpp\<close>: the collapsing issue queue. \<open>issue_dispatch_lanes\<close> enqueues the
  renamed micro-operations, \<open>issue_select\<close> grants the ready slots in slot order,
  \<open>issue_compact\<close> removes the granted slots.
\<close>

definition issue_enqueue :: "IssueQueueState \<Rightarrow> MicroOp \<Rightarrow> IssueQueueState" where
  "issue_enqueue iq u =
    (let slot = (iq_entries iq ! unat (iq_tail iq))
           \<lparr>is_valid := True, is_request := True, is_granted := False, is_killed := False,
            is_uop := u, is_prs1_busy := ri_prs1_busy (uop_rename u),
            is_prs2_busy := ri_prs2_busy (uop_rename u), is_pdst_busy := False\<rparr>
     in iq\<lparr>iq_entries := (iq_entries iq)[unat (iq_tail iq) := slot],
           iq_tail := inc_mod ISSUE_QUEUE_ALU_DEPTH (iq_tail iq), iq_count := iq_count iq + 1\<rparr>)"

text \<open>The dispatch loop over the lanes; a full queue breaks out of it.\<close>

fun issue_dispatch_lanes :: "RenameState \<Rightarrow> nat list \<Rightarrow> IssueQueueState \<Rightarrow> IssueQueueState" where
  "issue_dispatch_lanes ren [] iq = iq"
| "issue_dispatch_lanes ren (i # is) iq =
    (if \<not> ren_renamed_valids ren ! i then issue_dispatch_lanes ren is iq
     else if unat (iq_count iq) \<ge> ISSUE_QUEUE_ALU_DEPTH then iq
     else let u = ren_renamed_uops ren ! i
          in if uop_iq_type u \<noteq> IQ_ALU \<and> uop_iq_type u \<noteq> IQ_MEM
             then issue_dispatch_lanes ren is iq
             else issue_dispatch_lanes ren is (issue_enqueue iq u))"

definition slot_ready :: "IssueSlotEntry \<Rightarrow> bool" where
  "slot_ready e = (is_valid e \<and> is_request e \<and> \<not> is_killed e \<and> \<not> is_prs1_busy e
     \<and> \<not> is_prs2_busy e \<and> \<not> is_pdst_busy e)"

text \<open>
  The selection loop over the slots, with \<open>issued\<close> the number of grants so far;
  \<open>implemented_alu_lanes\<close> is \<open>DISPATCH_WIDTH\<close>.
\<close>

fun issue_select :: "nat list \<Rightarrow> nat \<Rightarrow> IssueState \<Rightarrow> IssueState" where
  "issue_select [] issued iss = iss"
| "issue_select (i # is) issued iss =
    (if \<not> (issued < ISSUE_WIDTH \<and> issued < DISPATCH_WIDTH) then iss
     else let e = iq_entries (iss_alu_iq iss) ! i
          in if slot_ready e
             then issue_select is (issued + 1)
               (iss\<lparr>iss_alu_iq := (iss_alu_iq iss)
                     \<lparr>iq_entries := (iq_entries (iss_alu_iq iss))
                        [i := e\<lparr>is_granted := True, is_request := False\<rparr>]\<rparr>,
                    iss_issued_uops := (iss_issued_uops iss)[issued := is_uop e],
                    iss_issued_valids := (iss_issued_valids iss)[issued := True]\<rparr>)
             else issue_select is issued iss)"

definition slot_kept :: "IssueSlotEntry \<Rightarrow> bool" where
  "slot_kept e = (is_valid e \<and> \<not> is_granted e)"

text \<open>
  The compaction through the local array \<open>temp\<close>, whose elements are default-constructed:
  the kept slots in order, then invalid ones.
\<close>

definition issue_compact :: "IssueQueueState \<Rightarrow> IssueQueueState" where
  "issue_compact iq =
    (let kept = filter slot_kept (iq_entries iq); w = length kept
     in iq\<lparr>iq_entries := kept @ replicate (ISSUE_QUEUE_ALU_DEPTH - w) (IssueSlotEntry0\<lparr>is_valid := False\<rparr>),
           iq_tail := word_of_nat (w mod ISSUE_QUEUE_ALU_DEPTH), iq_count := word_of_nat w\<rparr>)"

definition issue_clear :: "IssueQueueState \<Rightarrow> IssueQueueState" where
  "issue_clear iq = iq\<lparr>iq_entries := map (\<lambda>e. e\<lparr>is_valid := False\<rparr>) (iq_entries iq),
     iq_count := 0, iq_head := 0, iq_tail := 0\<rparr>"

definition issue_module :: "BoomCoreState \<Rightarrow> BoomCoreState" where
  "issue_module s =
    (let iss = (bs_issue s)\<lparr>iss_issued_valids := replicate ISSUE_WIDTH False,
                 iss_issued_uops := replicate ISSUE_WIDTH MicroOp0\<rparr>
     in if bs_global_flush s
        then s\<lparr>bs_issue := iss\<lparr>iss_alu_iq := issue_clear (iss_alu_iq iss)\<rparr>\<rparr>
        else
          (let iss = iss\<lparr>iss_alu_iq := issue_dispatch_lanes (bs_rename s) [0..<DISPATCH_WIDTH]
                           (iss_alu_iq iss)\<rparr>;
               iss = issue_select [0..<ISSUE_QUEUE_ALU_DEPTH] 0 iss
           in s\<lparr>bs_issue := iss\<lparr>iss_alu_iq := issue_compact (iss_alu_iq iss)\<rparr>\<rparr>))"

section \<open>The queue as a list\<close>

text \<open>
  The queue is packed: the first \<open>count\<close> slots are valid and waiting, the others are not
  valid, and \<open>tail\<close> is the first free slot. Its contents are the micro-operations of those
  slots, oldest first, each with its readiness.
\<close>

definition iq_packed :: "IssueQueueState \<Rightarrow> bool" where
  "iq_packed q = (length (iq_entries q) = ISSUE_QUEUE_ALU_DEPTH \<and> unat (iq_count q) \<le> ISSUE_QUEUE_ALU_DEPTH
     \<and> unat (iq_tail q) = unat (iq_count q) mod ISSUE_QUEUE_ALU_DEPTH
     \<and> list_all (\<lambda>e. is_valid e \<and> is_request e \<and> \<not> is_granted e \<and> \<not> is_killed e) (take (unat (iq_count q)) (iq_entries q))
     \<and> list_all (\<lambda>e. \<not> is_valid e) (drop (unat (iq_count q)) (iq_entries q)))"

definition iq_view :: "IssueQueueState \<Rightarrow> (MicroOp \<times> bool) list" where
  "iq_view q = map (\<lambda>e. (is_uop e, slot_ready e)) (take (unat (iq_count q)) (iq_entries q))"

text \<open>The contract: append a dispatched micro-operation, then remove the first ready one.\<close>

definition dispatch_spec :: "bool \<Rightarrow> MicroOp \<Rightarrow> (MicroOp \<times> bool) list \<Rightarrow> (MicroOp \<times> bool) list" where
  "dispatch_spec v u L =
    (if v \<and> length L < ISSUE_QUEUE_ALU_DEPTH \<and> (uop_iq_type u = IQ_ALU \<or> uop_iq_type u = IQ_MEM)
     then L @ [(u, \<not> ri_prs1_busy (uop_rename u) \<and> \<not> ri_prs2_busy (uop_rename u))] else L)"

definition first_ready :: "(MicroOp \<times> bool) list \<Rightarrow> nat option" where
  "first_ready L = List.find (\<lambda>k. snd (L ! k)) [0..<length L]"

definition select_spec :: "(MicroOp \<times> bool) list \<Rightarrow> MicroOp option \<times> (MicroOp \<times> bool) list" where
  "select_spec L = (case first_ready L of None \<Rightarrow> (None, L)
     | Some k \<Rightarrow> (Some (fst (L ! k)), take k L @ drop (Suc k) L))"

lemma length_iq_view: "iq_packed q \<Longrightarrow> length (iq_view q) = unat (iq_count q)"
  by (simp add: iq_packed_def iq_view_def)

lemma iq_packed_initial: "iq_packed IssueQueueState0 \<and> iq_view IssueQueueState0 = []"
  by code_simp

lemma iq_enqueue_view:
  assumes "iq_packed q" "unat (iq_count q) < ISSUE_QUEUE_ALU_DEPTH"
  shows "iq_packed (issue_enqueue q u)"
    "iq_view (issue_enqueue q u) = iq_view q @ [(u, \<not> ri_prs1_busy (uop_rename u) \<and> \<not> ri_prs2_busy (uop_rename u))]"
proof -
  let ?n = "unat (iq_count q)" and ?E = "iq_entries q"
  have c: "unat (iq_count q + 1) = Suc ?n" using assms(2) unat_plus_one [of "iq_count q"] by simp
  have t: "unat (iq_tail q) = ?n" "length ?E = 8" using assms by (simp_all add: iq_packed_def)
  have e: "take (Suc ?n) (?E[?n := x]) = take ?n ?E @ [x]" "drop (Suc ?n) (?E[?n := x]) = drop (Suc ?n) ?E" for x
    using assms(2) t(2) by (simp_all add: take_Suc_conv_app_nth)
  have d: "list_all (\<lambda>e. \<not> is_valid e) (drop (Suc ?n) ?E)"
    using assms by (auto simp: iq_packed_def list_all_iff dest: in_set_dropD) (metis drop_Suc drop_drop in_set_dropD plus_1_eq_Suc)
  show "iq_packed (issue_enqueue q u)"
    using assms c t d e by (simp add: iq_packed_def issue_enqueue_def Let_def)
  show "iq_view (issue_enqueue q u) = iq_view q @ [(u, \<not> ri_prs1_busy (uop_rename u) \<and> \<not> ri_prs2_busy (uop_rename u))]"
    using c t e by (simp add: iq_view_def issue_enqueue_def Let_def slot_ready_def)
qed

lemma iq_dispatch_view:
  assumes "iq_packed q"
  shows "iq_packed (issue_dispatch_lanes ren [0] q)"
    "iq_view (issue_dispatch_lanes ren [0] q) = dispatch_spec (ren_renamed_valids ren ! 0) (ren_renamed_uops ren ! 0) (iq_view q)"
  using assms iq_enqueue_view [OF assms, of "ren_renamed_uops ren ! 0"] length_iq_view [OF assms]
  by (simp_all add: dispatch_spec_def Let_def)

text \<open>The selection grants the first ready slot and stops: one lane is implemented.\<close>

definition issue_grant :: "nat \<Rightarrow> IssueState \<Rightarrow> IssueState" where
  "issue_grant k iss = (let e = iq_entries (iss_alu_iq iss) ! k
     in iss\<lparr>iss_alu_iq := (iss_alu_iq iss)\<lparr>iq_entries := (iq_entries (iss_alu_iq iss))[k := e\<lparr>is_granted := True, is_request := False\<rparr>]\<rparr>,
            iss_issued_uops := (iss_issued_uops iss)[0 := is_uop e], iss_issued_valids := (iss_issued_valids iss)[0 := True]\<rparr>)"

lemma issue_select_first:
  "issue_select ks 0 iss = (case List.find (\<lambda>k. slot_ready (iq_entries (iss_alu_iq iss) ! k)) ks of
     None \<Rightarrow> iss | Some k \<Rightarrow> issue_grant k iss)"
proof (induction ks)
  case (Cons k ks)
  have stop: "issue_select ks 1 i = i" for i by (cases ks) simp_all
  show ?case using Cons stop by (simp add: issue_grant_def Let_def)
qed simp

lemma find_upt_shorter:
  assumes "n \<le> m" "\<And>k. n \<le> k \<Longrightarrow> k < m \<Longrightarrow> \<not> P k"
  shows "List.find P [0..<m] = List.find P [0..<n]"
proof -
  have "[0..<m] = [0..<n] @ [n..<m]" using assms(1) by (metis le_add_diff_inverse upt_add_eq_append zero_le)
  moreover have "List.find P [n..<m] = None" using assms(2) by (auto simp: find_None_iff)
  moreover have "List.find P (xs @ ys) = (case List.find P xs of None \<Rightarrow> List.find P ys | Some x \<Rightarrow> Some x)" for xs ys
    by (induction xs) simp_all
  ultimately show ?thesis by (simp split: option.split)
qed

lemma find_slot_view:
  assumes "iq_packed q"
  shows "List.find (\<lambda>k. slot_ready (iq_entries q ! k)) [0..<ISSUE_QUEUE_ALU_DEPTH] = first_ready (iq_view q)"
proof -
  let ?n = "unat (iq_count q)"
  have n: "?n \<le> 8" "length (iq_entries q) = 8" using assms by (simp_all add: iq_packed_def)
  have "\<not> slot_ready (iq_entries q ! k)" if "?n \<le> k" "k < 8" for k
  proof -
    have "iq_entries q ! k \<in> set (drop ?n (iq_entries q))"
      using that n in_set_conv_nth [of "iq_entries q ! k" "drop ?n (iq_entries q)"]
      by (intro in_set_conv_nth [THEN iffD2] exI [of _ "k - ?n"]) simp
    then show ?thesis using assms by (auto simp: iq_packed_def list_all_iff slot_ready_def)
  qed
  then have "List.find (\<lambda>k. slot_ready (iq_entries q ! k)) [0..<8] = List.find (\<lambda>k. slot_ready (iq_entries q ! k)) [0..<?n]"
    by (rule find_upt_shorter [OF n(1)])
  also have "\<dots> = first_ready (iq_view q)"
    unfolding first_ready_def length_iq_view [OF assms] using n
    by (intro find_cong) (auto simp: iq_view_def)
  finally show ?thesis .
qed

lemma compact_packed:
  assumes "length (iq_entries q) = 8" "L = filter slot_kept (iq_entries q)"
    "list_all (\<lambda>e. is_request e \<and> \<not> is_killed e) L"
  shows "iq_packed (issue_compact q)" "iq_view (issue_compact q) = map (\<lambda>e. (is_uop e, slot_ready e)) L"
proof -
  have l: "length L \<le> 8" using assms(1,2) length_filter_le [of slot_kept "iq_entries q"] by simp
  then have u: "unat (word_of_nat (length L) :: u8) = length L" "unat (word_of_nat (length L mod 8) :: u8) = length L mod 8"
    by (simp_all add: unat_of_nat take_bit_nat_eq_self)
  have k: "list_all (\<lambda>e. is_valid e \<and> \<not> is_granted e) L" by (simp add: assms(2) list_all_iff slot_kept_def)
  show "iq_packed (issue_compact q)"
    using l u k assms(3) unfolding iq_packed_def issue_compact_def Let_def assms(2) [symmetric]
    by (simp add: list_all_iff IssueSlotEntry0_def)
  show "iq_view (issue_compact q) = map (\<lambda>e. (is_uop e, slot_ready e)) L"
    using u unfolding iq_view_def issue_compact_def Let_def assms(2) [symmetric] by simp
qed

lemma list_all_take_drop: "list_all P xs \<Longrightarrow> list_all P (take k xs @ drop m xs)"
  by (auto simp: list_all_iff dest: in_set_takeD in_set_dropD)

lemma kept_all:
  assumes "iq_packed q"
  shows "filter slot_kept (iq_entries q) = take (unat (iq_count q)) (iq_entries q)"
proof -
  let ?n = "unat (iq_count q)"
  have "filter slot_kept (take ?n (iq_entries q) @ drop ?n (iq_entries q)) = take ?n (iq_entries q)"
    unfolding filter_append using assms
    by (auto simp: iq_packed_def list_all_iff slot_kept_def filter_empty_conv intro!: filter_True)
  then show ?thesis by simp
qed

lemma kept_granted:
  assumes "iq_packed q" "k < unat (iq_count q)" "is_granted e"
  defines "T \<equiv> take (unat (iq_count q)) (iq_entries q)"
  shows "filter slot_kept ((iq_entries q)[k := e]) = take k T @ drop (Suc k) T"
proof -
  let ?n = "unat (iq_count q)"
  have n: "?n \<le> length (iq_entries q)" using assms(1) by (simp add: iq_packed_def)
  have l: "k < length T" using assms(2) n by (simp add: T_def)
  have "(iq_entries q)[k := e] = (T @ drop ?n (iq_entries q))[k := e]" by (simp add: T_def)
  also have "\<dots> = T[k := e] @ drop ?n (iq_entries q)" by (rule list_update_append1 [OF l])
  also have "\<dots> = take k T @ e # drop (Suc k) T @ drop ?n (iq_entries q)"
    by (simp add: upd_conv_take_nth_drop [OF l])
  finally have "(iq_entries q)[k := e] = take k T @ e # drop (Suc k) T @ drop ?n (iq_entries q)" .
  moreover have "filter slot_kept (drop ?n (iq_entries q)) = []" "filter slot_kept T = T"
    using assms(1) by (auto simp: iq_packed_def list_all_iff slot_kept_def filter_empty_conv T_def intro!: filter_True)
  moreover have "filter slot_kept (take k T) = take k T" "filter slot_kept (drop (Suc k) T) = drop (Suc k) T"
    using calculation(3) by (auto intro!: filter_True dest: in_set_takeD in_set_dropD simp: filter_id_conv)
  ultimately show ?thesis using assms(3) by (simp add: slot_kept_def)
qed

text \<open>
  C10: The issue stage implements its contract: on a packed queue, a cycle without a flush
  appends the renamed micro-operation when it is valid, goes to this queue and finds room,
  then removes the oldest ready micro-operation and issues exactly that one on lane 0; the
  others keep their order, the queue stays packed, and lanes 1 and 2 never issue.
\<close>
theorem issue_module_refines:
  assumes "iq_packed (iss_alu_iq (bs_issue s))" "\<not> bs_global_flush s"
  defines "L \<equiv> dispatch_spec (ren_renamed_valids (bs_rename s) ! 0) (ren_renamed_uops (bs_rename s) ! 0)
      (iq_view (iss_alu_iq (bs_issue s)))"
  shows "iq_packed (iss_alu_iq (bs_issue (issue_module s)))
    \<and> iq_view (iss_alu_iq (bs_issue (issue_module s))) = snd (select_spec L)
    \<and> iss_issued_valids (bs_issue (issue_module s)) = [fst (select_spec L) \<noteq> None, False, False]
    \<and> iss_issued_uops (bs_issue (issue_module s))
        = [case fst (select_spec L) of None \<Rightarrow> MicroOp0 | Some u \<Rightarrow> u, MicroOp0, MicroOp0]"
proof -
  define q where "q = issue_dispatch_lanes (bs_rename s) [0] (iss_alu_iq (bs_issue s))"
  let ?i = "(bs_issue s)\<lparr>iss_issued_valids := [False, False, False], iss_issued_uops := [MicroOp0, MicroOp0, MicroOp0], iss_alu_iq := q\<rparr>"
  note d = iq_dispatch_view [OF assms(1), of "bs_rename s", folded L_def q_def]
  have three: "replicate ISSUE_WIDTH x = [x, x, x]" for x :: 'a by (simp add: numeral_eq_Suc)
  define i where "i = issue_select [0..<ISSUE_QUEUE_ALU_DEPTH] 0 ?i"
  have m: "bs_issue (issue_module s) = i\<lparr>iss_alu_iq := issue_compact (iss_alu_iq i)\<rparr>"
    using assms(2) by (simp add: issue_module_def Let_def i_def q_def numeral_eq_Suc del: issue_dispatch_lanes.simps)
  have i: "i = (case first_ready L of None \<Rightarrow> ?i | Some k \<Rightarrow> issue_grant k ?i)"
    unfolding i_def issue_select_first using find_slot_view [OF d(1)] by (simp add: d(2))
  show ?thesis
  proof (cases "first_ready L")
    case None
    have "length (iq_entries q) = 8" "list_all (\<lambda>e. is_request e \<and> \<not> is_killed e) (filter slot_kept (iq_entries q))"
      using d(1) unfolding kept_all [OF d(1)] by (auto simp: iq_packed_def list_all_iff)
    note c = compact_packed [OF this(1) refl this(2)]
    show ?thesis using None c d(2) unfolding m i kept_all [OF d(1)]
      by (simp add: select_spec_def iq_view_def)
  next
    case (Some k)
    let ?T = "take (unat (iq_count q)) (iq_entries q)" and ?e = "(iq_entries q ! k)\<lparr>is_granted := True, is_request := False\<rparr>"
    have k: "k < unat (iq_count q)"
      using Some length_iq_view [OF d(1)] by (auto simp: first_ready_def find_Some_iff d(2))
    let ?q' = "q\<lparr>iq_entries := (iq_entries q)[k := ?e]\<rparr>"
    have g: "issue_grant k ?i = ?i\<lparr>iss_alu_iq := ?q', iss_issued_uops := [is_uop (iq_entries q ! k), MicroOp0, MicroOp0],
        iss_issued_valids := [True, False, False]\<rparr>" by (simp add: issue_grant_def Let_def)
    have f: "filter slot_kept (iq_entries ?q') = take k ?T @ drop (Suc k) ?T"
      using kept_granted [OF d(1) k, of ?e] by simp
    have "list_all (\<lambda>e. is_request e \<and> \<not> is_killed e) (filter slot_kept (iq_entries ?q'))" "length (iq_entries ?q') = 8"
      using d(1) unfolding f iq_packed_def by (blast intro: list_all_take_drop list.pred_mono_strong, simp)
    note c = compact_packed [OF this(2) refl this(1)]
    have "L = map (\<lambda>e. (is_uop e, slot_ready e)) ?T" using d(2) by (simp add: iq_view_def)
    moreover have "fst (L ! k) = is_uop (iq_entries q ! k)"
      using k d(1) by (simp add: calculation iq_packed_def)
    ultimately show ?thesis using Some c unfolding m i f
      by (simp add: g select_spec_def take_map drop_map)
  qed
qed

definition issue_example :: BoomCoreState where
  "issue_example = BoomCoreState0\<lparr>bs_rename := RenameState0\<lparr>ren_renamed_valids := [True],
     ren_renamed_uops := [MicroOp0\<lparr>uop_uopc := 1, uop_iq_type := IQ_ALU\<rparr>]\<rparr>\<rparr>"

lemma issue_module_refines_witness:
  "iss_issued_valids (bs_issue (issue_module issue_example)) = [True, False, False]
   \<and> iq_view (iss_alu_iq (bs_issue (issue_module issue_example))) = []"
proof -
  have p: "iq_packed (iss_alu_iq (bs_issue issue_example))" "\<not> bs_global_flush issue_example" by code_simp+
  have "select_spec (dispatch_spec (ren_renamed_valids (bs_rename issue_example) ! 0) (ren_renamed_uops (bs_rename issue_example) ! 0)
      (iq_view (iss_alu_iq (bs_issue issue_example)))) = (Some (MicroOp0\<lparr>uop_uopc := 1, uop_iq_type := IQ_ALU\<rparr>), [])"
    by code_simp
  with issue_module_refines [OF p] show ?thesis by simp
qed

end
