(* ===== verification/Lsu.thy ===== *)
theory Lsu
  imports BoomState
begin

text \<open>
  \<open>src/lsu.cpp\<close>: the minimal load/store unit. The code updates \<open>state.rob.entries\<close>
  and \<open>state.lsu\<close> through references; the model reads the entry, updates it and writes it
  back at the same index. \<open>lsu_module\<close> takes at most one response, moves the result of the
  execute stage into the reorder buffer entry and the queue, and issues at most one load.
\<close>

section \<open>Extracting the loaded value\<close>

definition bytes_for_size :: "u8 \<Rightarrow> u8" where
  "bytes_for_size sz = ucast (push_bit (unat (sz AND 0x3)) (1 :: u32))"

definition sign_extend :: "u64 \<Rightarrow> u8 \<Rightarrow> u64" where
  "sign_extend v bits =
    (if bits \<ge> 64 then v
     else let m = push_bit (unat bits - 1) (1 :: u64) in (v XOR m) - m)"

definition load_value :: "u64 \<Rightarrow> u64 \<Rightarrow> u8 \<Rightarrow> bool \<Rightarrow> u64" where
  "load_value data address sz signed_load =
    (let sh = ucast ((address AND 0x7) * 8) :: u8;
         bits = bytes_for_size sz * 8;
         m = (if bits \<ge> 64 then NOT 0 else push_bit (unat bits) (1 :: u64) - 1);
         v = drop_bit (unat sh) data AND m
     in if signed_load then sign_extend v bits else v)"

section \<open>Ordering against older stores\<close>

text \<open>The loop from the head of the reorder buffer; \<open>n\<close> iterations remain.\<close>

fun older_store_scan :: "RobEntry list \<Rightarrow> u8 \<Rightarrow> nat \<Rightarrow> u8 \<Rightarrow> bool" where
  "older_store_scan es rob_idx 0 idx = False"
| "older_store_scan es rob_idx (Suc n) idx =
    (if idx = rob_idx then False
     else let e = es ! unat idx
          in if re_valid e \<and> dc_is_sta (uop_ctrl (re_uop e)) then True
             else older_store_scan es rob_idx n (inc_mod ROB_DEPTH idx))"

definition older_store_in_rob :: "RobInternalState \<Rightarrow> u8 \<Rightarrow> bool" where
  "older_store_in_rob rob rob_idx =
    older_store_scan (rob_entries rob) rob_idx ROB_DEPTH (rob_head rob)"

definition clear_lsu_queues :: "LsuState \<Rightarrow> LsuState" where
  "clear_lsu_queues l = l
    \<lparr>lsu_ldq_head := 0, lsu_ldq_tail := 0, lsu_ldq_count := 0,
     lsu_stq_head := 0, lsu_stq_tail := 0, lsu_stq_count := 0,
     lsu_load_response_pending := False, lsu_pending_load_transaction_id := 0,
     lsu_pending_load_rob_idx := 0,
     lsu_ldq := replicate LDQ_DEPTH LoadQueueEntry0,
     lsu_stq := replicate STQ_DEPTH StoreQueueEntry0\<rparr>"

section \<open>Issuing a load\<close>

definition set_rob_entry :: "nat \<Rightarrow> RobEntry \<Rightarrow> BoomCoreState \<Rightarrow> BoomCoreState" where
  "set_rob_entry i e s =
    s\<lparr>bs_rob := (bs_rob s)\<lparr>rob_entries := (rob_entries (bs_rob s))[i := e]\<rparr>\<rparr>"

definition load_request :: "u32 \<Rightarrow> u8 \<Rightarrow> RobEntry \<Rightarrow> DmemRequest" where
  "load_request tx rob_idx e = DmemRequest0
    \<lparr>drq_transaction_id := tx, drq_rob_idx := rob_idx, drq_command := DMEM_LOAD,
     drq_is_store := False, drq_address := re_memory_address e, drq_size := re_memory_size e,
     drq_mask := re_memory_mask e, drq_signed_load := re_signed_load e,
     drq_branch_mask := bi_br_mask (uop_branch (re_uop e))\<rparr>"

definition can_issue_load :: "BoomCoreState \<Rightarrow> PipeSignals \<Rightarrow> u8 \<Rightarrow> bool" where
  "can_issue_load s pipe rob_idx =
    (let e = rob_entries (bs_rob s) ! unat rob_idx
     in if \<not> re_valid e \<or> \<not> re_is_load e \<or> \<not> re_memory_valid e \<or> re_memory_request_sent e
        then False
        else if lsu_load_response_pending (bs_lsu s) \<or> older_store_in_rob (bs_rob s) rob_idx
                \<or> stream_full (pipe_dmem_req pipe)
        then False else True)"

definition try_issue_load ::
  "BoomCoreState \<Rightarrow> PipeSignals \<Rightarrow> u8 \<Rightarrow> BoomCoreState \<times> PipeSignals" where
  "try_issue_load s pipe rob_idx =
    (if \<not> can_issue_load s pipe rob_idx then (s, pipe)
     else
       (let e = rob_entries (bs_rob s) ! unat rob_idx;
            tx = lsu_next_transaction_id (bs_lsu s);
            e' = e\<lparr>re_memory_request_sent := True, re_memory_transaction_id := tx\<rparr>;
            l = (bs_lsu s)\<lparr>lsu_next_transaction_id := tx + 1, lsu_load_response_pending := True,
                  lsu_pending_load_transaction_id := tx, lsu_pending_load_rob_idx := rob_idx\<rparr>
        in ((set_rob_entry (unat rob_idx) e' s)\<lparr>bs_lsu := l\<rparr>,
            pipe\<lparr>pipe_dmem_req := stream_write (pipe_dmem_req pipe) (load_request tx rob_idx e)\<rparr>)))"

text \<open>The issue loop over the offsets from the head; it stops once a load is pending.\<close>

fun issue_loads ::
  "nat list \<Rightarrow> BoomCoreState \<Rightarrow> PipeSignals \<Rightarrow> BoomCoreState \<times> PipeSignals" where
  "issue_loads [] s pipe = (s, pipe)"
| "issue_loads (i # is) s pipe =
    (let idx = word_of_nat ((unat (rob_head (bs_rob s)) + i) mod ROB_DEPTH);
         (s, pipe) = try_issue_load s pipe idx
     in if lsu_load_response_pending (bs_lsu s) then (s, pipe) else issue_loads is s pipe)"

section \<open>Results of the execute stage\<close>

definition stq_push :: "AluResult \<Rightarrow> LsuState \<Rightarrow> LsuState" where
  "stq_push r l =
    (if unat (lsu_stq_count l) < STQ_DEPTH then
       (let q = (lsu_stq l ! unat (lsu_stq_tail l))
              \<lparr>sq_valid := True, sq_rob_idx := qi_rob_idx (uop_queue (ar_uop r)),
               sq_address_valid := True, sq_address := ar_memory_address r,
               sq_data_valid := True, sq_data := ar_store_data r, sq_mask := ar_memory_mask r,
               sq_size := ar_memory_size r,
               sq_branch_mask := bi_br_mask (uop_branch (ar_uop r))\<rparr>
        in l\<lparr>lsu_stq := (lsu_stq l)[unat (lsu_stq_tail l) := q],
             lsu_stq_tail := inc_mod STQ_DEPTH (lsu_stq_tail l),
             lsu_stq_count := lsu_stq_count l + 1\<rparr>)
     else l)"

definition ldq_push :: "AluResult \<Rightarrow> LsuState \<Rightarrow> LsuState" where
  "ldq_push r l =
    (if unat (lsu_ldq_count l) < LDQ_DEPTH then
       (let q = (lsu_ldq l ! unat (lsu_ldq_tail l))
              \<lparr>lq_valid := True, lq_rob_idx := qi_rob_idx (uop_queue (ar_uop r)),
               lq_address := ar_memory_address r, lq_size := ar_memory_size r,
               lq_signed_load := ar_signed_load r,
               lq_branch_mask := bi_br_mask (uop_branch (ar_uop r))\<rparr>
        in l\<lparr>lsu_ldq := (lsu_ldq l)[unat (lsu_ldq_tail l) := q],
             lsu_ldq_tail := inc_mod LDQ_DEPTH (lsu_ldq_tail l),
             lsu_ldq_count := lsu_ldq_count l + 1\<rparr>)
     else l)"

definition enqueue_store :: "AluResult \<Rightarrow> RobEntry \<Rightarrow> RobEntry" where
  "enqueue_store r e = e
    \<lparr>re_memory_valid := True, re_is_store := True, re_is_load := False,
     re_memory_completed := True, re_memory_address := ar_memory_address r,
     re_memory_data := ar_store_data r, re_memory_mask := ar_memory_mask r,
     re_memory_size := ar_memory_size r, re_busy := False\<rparr>"

definition enqueue_load :: "AluResult \<Rightarrow> RobEntry \<Rightarrow> RobEntry" where
  "enqueue_load r e = e
    \<lparr>re_memory_valid := True, re_is_load := True, re_is_store := False,
     re_signed_load := ar_signed_load r, re_memory_address := ar_memory_address r,
     re_memory_mask := ar_memory_mask r, re_memory_size := ar_memory_size r\<rparr>"

definition lsu_enqueue_lane :: "nat \<Rightarrow> BoomCoreState \<Rightarrow> BoomCoreState" where
  "lsu_enqueue_lane i s =
    (let r = exe_alu_results (bs_execute s) ! i
     in if \<not> ar_valid r \<or> \<not> ar_memory_valid r then s
        else
          (let idx = unat (qi_rob_idx (uop_queue (ar_uop r)))
           in if idx \<ge> ROB_DEPTH \<or> \<not> re_valid (rob_entries (bs_rob s) ! idx) then s
              else let e = rob_entries (bs_rob s) ! idx
                   in if ar_is_store r
                      then (set_rob_entry idx (enqueue_store r e) s)\<lparr>bs_lsu := stq_push r (bs_lsu s)\<rparr>
                      else if ar_is_load r
                      then (set_rob_entry idx (enqueue_load r e) s)\<lparr>bs_lsu := ldq_push r (bs_lsu s)\<rparr>
                      else s))"

section \<open>The load response\<close>

text \<open>
  The value of a response: \<open>read_data\<close> if it is non-zero, else \<open>data\<close>; its exception
  cause likewise.
\<close>

definition response_data :: "DmemResponse \<Rightarrow> u64" where
  "response_data resp = (if drs_read_data resp \<noteq> 0 then drs_read_data resp else drs_data resp)"

definition response_cause :: "DmemResponse \<Rightarrow> u64" where
  "response_cause resp =
    (if drs_exception_cause resp \<noteq> 0 then drs_exception_cause resp else drs_exc_cause resp)"

definition complete_load :: "DmemResponse \<Rightarrow> nat \<Rightarrow> BoomCoreState \<Rightarrow> BoomCoreState" where
  "complete_load resp idx s =
    (let e = rob_entries (bs_rob s) ! idx
     in if re_valid e \<and> re_is_load e \<and> re_memory_request_sent e then
          (if drs_exception resp then
             set_rob_entry idx
               (e\<lparr>re_exception := True,
                  re_uop := (re_uop e)\<lparr>uop_exception := True, uop_exc_cause := response_cause resp\<rparr>,
                  re_memory_completed := True, re_busy := False\<rparr>) s
           else
             (let v = load_value (response_data resp) (re_memory_address e) (re_memory_size e)
                        (re_signed_load e);
                  p = ri_pdst (uop_rename (re_uop e));
                  s = (if p \<noteq> 0 then s\<lparr>bs_int_rf := (bs_int_rf s)[unat p := v]\<rparr> else s)
              in set_rob_entry idx
                   (e\<lparr>re_memory_data := v, re_memory_completed := True, re_busy := False\<rparr>) s))
        else s)"

definition lsu_response ::
  "BoomCoreState \<Rightarrow> PipeSignals \<Rightarrow> BoomCoreState \<times> PipeSignals" where
  "lsu_response s pipe =
    (if \<not> stream_empty (pipe_dmem_resp pipe) then
       (let (resp, q) = stream_read (pipe_dmem_resp pipe);
            pipe = pipe\<lparr>pipe_dmem_resp := q\<rparr>
        in if lsu_load_response_pending (bs_lsu s)
              \<and> drs_transaction_id resp = lsu_pending_load_transaction_id (bs_lsu s)
           then
             (let s = complete_load resp (unat (lsu_pending_load_rob_idx (bs_lsu s))) s
              in (s\<lparr>bs_lsu := (bs_lsu s)\<lparr>lsu_load_response_pending := False,
                      lsu_pending_load_transaction_id := 0\<rparr>\<rparr>, pipe))
           else (s, pipe))
     else (s, pipe))"

definition lsu_module ::
  "BoomCoreState \<Rightarrow> PipeSignals \<Rightarrow> BoomCoreState \<times> PipeSignals" where
  "lsu_module s pipe =
    (if bs_global_flush s then (s\<lparr>bs_lsu := clear_lsu_queues (bs_lsu s)\<rparr>, pipe)
     else
       (let (s, pipe) = lsu_response s pipe;
            s = fold lsu_enqueue_lane [0..<DISPATCH_WIDTH] s
        in issue_loads [0..<ROB_DEPTH] s pipe))"

section \<open>Loaded values\<close>

definition byte_offset :: "u64 \<Rightarrow> nat" where "byte_offset a = 8 * (unat a mod 8)"

lemma load_shift: "unat (ucast (((a :: u64) AND 7) * 8) :: u8) = byte_offset a"
proof -
  have "unat (a AND 7) = take_bit 3 (unat a)"
    by (simp add: unsigned_and_eq take_bit_eq_mask mask_numeral)
  then have m: "unat (a AND 7) = unat a mod 8" by (simp add: take_bit_eq_mod)
  then have "unat ((a AND 7) * 8) = unat a mod 8 * 8"
    by (simp add: unat_mult_lem [THEN iffD1])
  then show ?thesis by (simp add: byte_offset_def unsigned_ucast_eq take_bit_nat_eq_self)
qed

lemma bytes_for_sizes:
  "bytes_for_size 0 = 1" "bytes_for_size 1 = 2" "bytes_for_size 2 = 4" "bytes_for_size 3 = 8"
  by code_simp+

lemma load_mask: "n < 64 \<Longrightarrow> v AND (push_bit n (1 :: u64) - 1) = take_bit n v"
  by (simp add: take_bit_eq_mask mask_eq_decr_exp push_bit_eq_mult)

lemma size_cases: "(sz :: u8) < 4 \<Longrightarrow> sz = 0 \<or> sz = 1 \<or> sz = 2 \<or> sz = 3"
proof -
  assume "sz < 4"
  then have "unat sz < 4" by (simp add: word_less_nat_alt)
  then have "unat sz = unat (0 :: u8) \<or> unat sz = unat (1 :: u8) \<or> unat sz = unat (2 :: u8) \<or> unat sz = unat (3 :: u8)" by auto
  then show ?thesis by (simp only: unat_eq_nat_iff)
qed

lemma load_value_field:
  fixes data a :: u64
  assumes "sz < 4"
  defines "k \<equiv> 8 * 2 ^ unat sz - 1" and "v \<equiv> drop_bit (byte_offset a) data"
  shows "load_value data a sz sg = (if sg then word_of_int (signed_take_bit k (uint v)) else take_bit (Suc k) v)"
proof -
  have full: "signed_take_bit 63 (uint (w :: u64)) = sint w" for w by (simp add: sint_uint)
  from size_cases [OF assms(1)] show ?thesis
    unfolding load_value_def load_shift Let_def v_def [symmetric] k_def
    using xor_sub_sign [of 7 v] xor_sub_sign [of 15 v] xor_sub_sign [of 31 v]
      load_mask [of 8 v] load_mask [of 16 v] load_mask [of 32 v] full [of v] take_bit_length_eq [of v]
    by (elim disjE) (simp_all add: bytes_for_sizes sign_extend_def del: push_bit_of_1)
qed

lemma field_unat: "unat (take_bit n (drop_bit m (w :: 'a::len word))) = unat w div 2 ^ m mod 2 ^ n"
  by (simp only: unsigned_take_bit_eq unat_drop_bit_eq flip: take_bit_eq_mod drop_bit_eq_div)

lemma uint_drop_bit: "uint (drop_bit m (w :: 'a::len word)) = uint w div 2 ^ m"
  unfolding drop_bit_eq_div [symmetric] by (rule bit_eqI) (auto simp: bit_simps dest: bit_imp_le_length)

text \<open>
  C17: The value a load returns: the \<open>2 ^ size\<close> bytes of the returned doubleword from the
  byte offset of the address on, zero-extended, or sign-extended for a signed load. An
  access that crosses the doubleword reads zeros beyond it.
\<close>
theorem load_value_bytes:
  assumes "sz < 4"
  shows "load_value data a sz False = word_of_nat (unat data div 2 ^ byte_offset a mod 2 ^ (8 * 2 ^ unat sz))
    \<and> load_value data a sz True
      = word_of_int (signed_take_bit (8 * 2 ^ unat sz - 1) (uint data div 2 ^ byte_offset a))"
proof
  have k: "Suc (8 * 2 ^ unat sz - 1) = 8 * 2 ^ unat sz" by simp
  show "load_value data a sz False = word_of_nat (unat data div 2 ^ byte_offset a mod 2 ^ (8 * 2 ^ unat sz))"
    unfolding load_value_field [OF assms] k field_unat [symmetric] by simp
  show "load_value data a sz True = word_of_int (signed_take_bit (8 * 2 ^ unat sz - 1) (uint data div 2 ^ byte_offset a))"
    unfolding load_value_field [OF assms] by (simp only: uint_drop_bit if_True)
qed

lemma load_value_bytes_witness:
  "load_value 0x1122334455667788 0x10002 1 False = 0x5566 \<and> load_value 0xFF00000000000000 0x1000F 0 True = - 1"
  using load_value_bytes [of 1 "0x1122334455667788" "0x10002"] load_value_bytes [of 0 "0xFF00000000000000" "0x1000F"]
  by (simp add: byte_offset_def)

section \<open>Ordering against older stores\<close>

text \<open>The entry \<open>k\<close> places behind the head, and the stores among the entries before a place.\<close>

definition rob_place :: "RobInternalState \<Rightarrow> nat \<Rightarrow> u8" where
  "rob_place rob k = word_of_nat ((unat (rob_head rob) + k) mod ROB_DEPTH)"

lemma rob_place_unat: "unat (rob_place rob k) = (unat (rob_head rob) + k) mod 32"
proof -
  have "(unat (rob_head rob) + k) mod 32 < 32" by simp
  then show ?thesis by (simp add: rob_place_def unat_of_nat take_bit_nat_eq_self)
qed

lemma rob_place_next: "inc_mod ROB_DEPTH (rob_place rob k) = rob_place rob (Suc k)"
  by (rule word_unat_eq_iff [THEN iffD2]) (simp add: rob_place_unat mod_Suc_eq)

lemma rob_place_inj: "i < 32 \<Longrightarrow> j < 32 \<Longrightarrow> rob_place rob i = rob_place rob j \<longleftrightarrow> i = j"
  using mod_add_inj [of i 32 j "unat (rob_head rob)"] by (auto simp: rob_place_unat simp flip: unat_eq_nat_iff)

lemma older_store_scan_places:
  assumes "i < 32" "j \<le> i"
  shows "older_store_scan (rob_entries rob) (rob_place rob i) (32 - j) (rob_place rob j)
    \<longleftrightarrow> (\<exists>k. j \<le> k \<and> k < i \<and> re_valid (rob_entries rob ! unat (rob_place rob k))
          \<and> dc_is_sta (uop_ctrl (re_uop (rob_entries rob ! unat (rob_place rob k)))))"
  using assms
proof (induction "i - j" arbitrary: j)
  case 0
  then have j: "j = i" "32 - j = Suc (31 - j)" by simp_all
  show ?case unfolding j(2) using j(1) by simp
next
  case (Suc d)
  then have j: "32 - j = Suc (32 - Suc j)" "j < i" "rob_place rob j \<noteq> rob_place rob i" by (simp_all add: rob_place_inj)
  have IH: "older_store_scan (rob_entries rob) (rob_place rob i) (32 - Suc j) (rob_place rob (Suc j))
    \<longleftrightarrow> (\<exists>k. Suc j \<le> k \<and> k < i \<and> re_valid (rob_entries rob ! unat (rob_place rob k))
          \<and> dc_is_sta (uop_ctrl (re_uop (rob_entries rob ! unat (rob_place rob k)))))"
    using Suc by (intro Suc.hyps(1)) simp_all
  have split: "(\<exists>k. j \<le> k \<and> k < i \<and> P k) \<longleftrightarrow> P j \<or> (\<exists>k. Suc j \<le> k \<and> k < i \<and> P k)" for P
  proof -
    have le: "j \<le> k \<longleftrightarrow> k = j \<or> Suc j \<le> k" for k by auto
    show ?thesis unfolding le using j(2) by (simp only: conj_disj_distribR ex_disj_distrib simp_thms)
  qed
  show ?case
    unfolding j(1) older_store_scan.simps rob_place_next IH Let_def split [where P = "\<lambda>k. re_valid (rob_entries rob ! unat (rob_place rob k))
          \<and> dc_is_sta (uop_ctrl (re_uop (rob_entries rob ! unat (rob_place rob k))))"]
    using j(3) by (simp only: if_False simp_thms split: if_split) blast
qed

text \<open>
  C16: \<open>older_store_in_rob\<close> decides whether a store older than the given entry is in
  flight: for the entry \<open>i\<close> places behind the head it is true exactly when one of the
  \<open>i\<close> entries before it, counted around the ring, is a valid store.
\<close>
theorem older_store_exact:
  assumes "unat (rob_head rob) < ROB_DEPTH" "i < ROB_DEPTH"
  shows "older_store_in_rob rob (rob_place rob i)
    \<longleftrightarrow> (\<exists>k < i. re_valid (rob_entries rob ! ((unat (rob_head rob) + k) mod ROB_DEPTH))
          \<and> dc_is_sta (uop_ctrl (re_uop (rob_entries rob ! ((unat (rob_head rob) + k) mod ROB_DEPTH)))))"
proof -
  have "rob_place rob 0 = rob_head rob" using assms(1) by (simp add: rob_place_unat flip: unat_eq_nat_iff)
  then show ?thesis
    using older_store_scan_places [OF assms(2), of 0 rob] by (auto simp: older_store_in_rob_def rob_place_unat)
qed

lemma older_store_exact_witness:
  "older_store_in_rob (RobInternalState0\<lparr>rob_head := 31, rob_entries := (replicate 32 RobEntry0)[31 := RobEntry0\<lparr>re_valid := True,
     re_uop := MicroOp0\<lparr>uop_ctrl := DecodeControl0\<lparr>dc_is_sta := True\<rparr>\<rparr>\<rparr>]\<rparr>) 0"
  using older_store_exact [of "RobInternalState0\<lparr>rob_head := 31, rob_entries := (replicate 32 RobEntry0)[31 := RobEntry0\<lparr>re_valid := True,
     re_uop := MicroOp0\<lparr>uop_ctrl := DecodeControl0\<lparr>dc_is_sta := True\<rparr>\<rparr>\<rparr>]\<rparr>" 1]
  by (simp add: rob_place_def)

section \<open>The request protocol\<close>
lemma nth_update_same: "f v = f (xs ! i) \<Longrightarrow> f (xs[i := v] ! k) = f (xs ! k)"
  by (cases "i < length xs"; cases "i = k") (simp_all add: list_update_beyond)

lemma older_store_scan_cong:
  assumes "\<And>k. re_valid (es' ! k) = re_valid (es ! k)"
    "\<And>k. dc_is_sta (uop_ctrl (re_uop (es' ! k))) = dc_is_sta (uop_ctrl (re_uop (es ! k)))"
  shows "older_store_scan es' r n i = older_store_scan es r n i"
  using assms by (induction n arbitrary: i) (simp_all add: Let_def)

text \<open>What a load request promises, against the state it leaves behind.\<close>

definition load_sent :: "u32 \<Rightarrow> BoomCoreState \<Rightarrow> DmemRequest \<Rightarrow> bool" where
  "load_sent tx s r = (\<not> drq_is_store r \<and> drq_transaction_id r = tx \<and> lsu_load_response_pending (bs_lsu s)
     \<and> lsu_pending_load_transaction_id (bs_lsu s) = tx \<and> lsu_pending_load_rob_idx (bs_lsu s) = drq_rob_idx r
     \<and> \<not> older_store_in_rob (bs_rob s) (drq_rob_idx r)
     \<and> (let e = rob_entries (bs_rob s) ! unat (drq_rob_idx r)
        in re_valid e \<and> re_is_load e \<and> re_memory_valid e \<and> drq_address r = re_memory_address e \<and> drq_size r = re_memory_size e))"

lemma try_issue_load_cases:
  assumes "try_issue_load s p i = (s', p')"
  obtains (none) "s' = s" "p' = p"
  | (sent) r where "p' = p\<lparr>pipe_dmem_req := pipe_dmem_req p @ [r]\<rparr>" "load_sent (lsu_next_transaction_id (bs_lsu s)) s' r"
      "\<not> lsu_load_response_pending (bs_lsu s)" "lsu_next_transaction_id (bs_lsu s') = lsu_next_transaction_id (bs_lsu s) + 1"
proof (cases "can_issue_load s p i")
  case True
  let ?tx = "lsu_next_transaction_id (bs_lsu s)" and ?es = "rob_entries (bs_rob s)"
  let ?e = "rob_entries (bs_rob s) ! unat i"
  let ?s = "set_rob_entry (unat i) (?e\<lparr>re_memory_request_sent := True, re_memory_transaction_id := ?tx\<rparr>) s"
  have c: "\<not> lsu_load_response_pending (bs_lsu s)" "\<not> older_store_in_rob (bs_rob s) i"
    using True by (auto simp: can_issue_load_def Let_def split: if_split_asm)
  have "older_store_scan (?es[unat i := ?e\<lparr>re_memory_request_sent := True, re_memory_transaction_id := ?tx\<rparr>]) i 32 (rob_head (bs_rob s))
    = older_store_scan ?es i 32 (rob_head (bs_rob s))"
    by (rule older_store_scan_cong)
      (rule nth_update_same [where f = re_valid] nth_update_same [where f = "\<lambda>e. dc_is_sta (uop_ctrl (re_uop e))"], simp)+
  then have o: "\<not> older_store_in_rob (bs_rob ?s) i"
    using c(2) by (simp add: older_store_in_rob_def set_rob_entry_def)
  have e: "re_valid ?e" "re_is_load ?e" "re_memory_valid ?e"
    using True by (auto simp: can_issue_load_def Let_def split: if_split_asm)
  have ev: "re_valid (rob_entries (bs_rob ?s) ! unat i)" "re_is_load (rob_entries (bs_rob ?s) ! unat i)"
    "re_memory_valid (rob_entries (bs_rob ?s) ! unat i)"
    "re_memory_address (rob_entries (bs_rob ?s) ! unat i) = re_memory_address ?e"
    "re_memory_size (rob_entries (bs_rob ?s) ! unat i) = re_memory_size ?e"
    unfolding set_rob_entry_def using e
    by (simp_all add: nth_update_same [where f = re_valid] nth_update_same [where f = re_is_load] nth_update_same [where f = re_memory_valid]
        nth_update_same [where f = re_memory_address] nth_update_same [where f = re_memory_size])
  have s': "s' = ?s\<lparr>bs_lsu := (bs_lsu s)\<lparr>lsu_next_transaction_id := ?tx + 1, lsu_load_response_pending := True,
      lsu_pending_load_transaction_id := ?tx, lsu_pending_load_rob_idx := i\<rparr>\<rparr>"
    "p' = p\<lparr>pipe_dmem_req := pipe_dmem_req p @ [load_request ?tx i ?e]\<rparr>"
    using assms True by (simp_all add: try_issue_load_def Let_def stream_write_def)
  show thesis
    by (rule sent [OF s'(2)]) (use c(1) o ev in \<open>simp_all add: s'(1) load_sent_def load_request_def DmemRequest0_def\<close>)
next
  case False
  then have "s' = s" "p' = p" using assms by (simp_all add: try_issue_load_def)
  then show thesis by (rule none)
qed

lemma issue_loads_requests:
  assumes "issue_loads is s p = (s', p')"
  shows "\<exists>reqs. p' = p\<lparr>pipe_dmem_req := pipe_dmem_req p @ reqs\<rparr> \<and> length reqs \<le> 1
    \<and> (lsu_load_response_pending (bs_lsu s) \<longrightarrow> reqs = []) \<and> (reqs = [] \<longrightarrow> s' = s)
    \<and> lsu_next_transaction_id (bs_lsu s') = lsu_next_transaction_id (bs_lsu s) + word_of_nat (length reqs)
    \<and> (\<forall>r \<in> set reqs. load_sent (lsu_next_transaction_id (bs_lsu s)) s' r)"
  using assms
proof (induction "is" arbitrary: s p)
  case Nil
  then show ?case by (intro exI [of _ "[]"]) simp
next
  case (Cons i "is")
  obtain s1 p1 where t: "try_issue_load s p (word_of_nat ((unat (rob_head (bs_rob s)) + i) mod ROB_DEPTH)) = (s1, p1)" by force
  from t show ?case
  proof (cases rule: try_issue_load_cases)
    case none
    show ?thesis
    proof (cases "lsu_load_response_pending (bs_lsu s)")
      case True
      with Cons.prems t none show ?thesis by (intro exI [of _ "[]"]) (simp add: Let_def)
    next
      case False
      with Cons.prems t none have "issue_loads is s p = (s', p')" by (simp add: Let_def)
      then show ?thesis by (rule Cons.IH)
    qed
  next
    case (sent r)
    then have "lsu_load_response_pending (bs_lsu s1)" by (simp add: load_sent_def)
    then have "s' = s1" "p' = p1" using Cons.prems t by (simp_all add: Let_def)
    with sent show ?thesis by (intro exI [of _ "[r]"]) simp
  qed
qed

text \<open>The response at the front of the stream is the awaited one.\<close>

definition load_answered :: "BoomCoreState \<Rightarrow> PipeSignals \<Rightarrow> bool" where
  "load_answered s p = (lsu_load_response_pending (bs_lsu s) \<and> pipe_dmem_resp p \<noteq> []
     \<and> drs_transaction_id (hd (pipe_dmem_resp p)) = lsu_pending_load_transaction_id (bs_lsu s))"

text \<open>The response block, and the move of the execute results, touch neither requests nor ids.\<close>

lemma complete_load_lsu [simp]: "bs_lsu (complete_load resp i s) = bs_lsu s"
  by (simp add: complete_load_def set_rob_entry_def Let_def)

lemma lsu_response_keep:
  assumes "lsu_response s p = (s', p')"
  shows "pipe_dmem_req p' = pipe_dmem_req p" "lsu_next_transaction_id (bs_lsu s') = lsu_next_transaction_id (bs_lsu s)"
    "lsu_load_response_pending (bs_lsu s') = (lsu_load_response_pending (bs_lsu s) \<and> \<not> load_answered s p)"
    "\<not> load_answered s p \<Longrightarrow> s' = s"
  using assms by (auto simp: load_answered_def lsu_response_def stream_read_def stream_empty_def Let_def split: if_split_asm)

lemma lsu_enqueue_keep [simp]:
  "lsu_next_transaction_id (bs_lsu (lsu_enqueue_lane i s)) = lsu_next_transaction_id (bs_lsu s)"
  "lsu_load_response_pending (bs_lsu (lsu_enqueue_lane i s)) = lsu_load_response_pending (bs_lsu s)"
  "lsu_pending_load_transaction_id (bs_lsu (lsu_enqueue_lane i s)) = lsu_pending_load_transaction_id (bs_lsu s)"
  by (simp_all add: lsu_enqueue_lane_def stq_push_def ldq_push_def set_rob_entry_def Let_def)

text \<open>
  C15: One load at a time. In a cycle without a flush the load/store unit sends at most one
  request, always a load. While an earlier load is waiting, none is sent unless the response
  at the front of the stream carries the transaction id of the awaited load: neither an empty
  stream nor a response with another id lets a second load out, and in both cases the unit
  keeps waiting for the same id. The request carries address and size of a valid load entry of
  the reorder buffer that no older store precedes, and the next transaction id; that id and
  the entry's index are recorded as awaited, and the id counter advances by the number of
  requests. After the cycle the unit is waiting exactly if it has sent a load, or was waiting
  and has not been answered.
\<close>
theorem lsu_one_load:
  assumes "lsu_module s p = (s', p')" "\<not> bs_global_flush s"
  defines "answered \<equiv> pipe_dmem_resp p \<noteq> [] \<and> drs_transaction_id (hd (pipe_dmem_resp p)) = lsu_pending_load_transaction_id (bs_lsu s)"
  shows "\<exists>reqs. pipe_dmem_req p' = pipe_dmem_req p @ reqs \<and> length reqs \<le> 1
    \<and> (lsu_load_response_pending (bs_lsu s) \<and> \<not> answered \<longrightarrow>
         reqs = [] \<and> lsu_pending_load_transaction_id (bs_lsu s') = lsu_pending_load_transaction_id (bs_lsu s))
    \<and> lsu_load_response_pending (bs_lsu s') = (reqs \<noteq> [] \<or> lsu_load_response_pending (bs_lsu s) \<and> \<not> answered)
    \<and> lsu_next_transaction_id (bs_lsu s') = lsu_next_transaction_id (bs_lsu s) + word_of_nat (length reqs)
    \<and> (\<forall>r \<in> set reqs. load_sent (lsu_next_transaction_id (bs_lsu s)) s' r)"
proof -
  obtain s1 p1 where r: "lsu_response s p = (s1, p1)" by force
  note keep = lsu_response_keep [OF r]
  let ?t = "lsu_enqueue_lane 0 s1"
  have "issue_loads [0..<ROB_DEPTH] ?t p1 = (s', p')"
    using assms r by (simp add: lsu_module_def Let_def)
  from issue_loads_requests [OF this] obtain reqs where
    q: "p' = p1\<lparr>pipe_dmem_req := pipe_dmem_req p1 @ reqs\<rparr>" "length reqs \<le> 1"
    "lsu_load_response_pending (bs_lsu s1) \<longrightarrow> reqs = []" "reqs = [] \<longrightarrow> s' = ?t"
    "lsu_next_transaction_id (bs_lsu s') = lsu_next_transaction_id (bs_lsu s1) + word_of_nat (length reqs)"
    "\<forall>r \<in> set reqs. load_sent (lsu_next_transaction_id (bs_lsu s1)) s' r" by auto
  have a: "load_answered s p = (lsu_load_response_pending (bs_lsu s) \<and> answered)"
    by (auto simp: load_answered_def answered_def)
  have w: "lsu_load_response_pending (bs_lsu s) \<and> \<not> answered \<Longrightarrow> reqs = [] \<and> s' = lsu_enqueue_lane 0 s"
    using q(3,4) keep(3,4) a by auto
  have "lsu_load_response_pending (bs_lsu s') = (reqs \<noteq> [] \<or> lsu_load_response_pending (bs_lsu s) \<and> \<not> answered)"
  proof (cases reqs)
    case Nil
    then show ?thesis using q(4) keep(3) a by auto
  next
    case (Cons r rs)
    then show ?thesis using q(6) by (simp add: load_sent_def)
  qed
  then show ?thesis using q(1,2,5,6) keep(1,2) w by (intro exI [of _ reqs]) auto
qed

text \<open>
  A load at the head of the reorder buffer goes out when its awaited predecessor is answered,
  and stays when the response is a stale one.
\<close>

definition load_example :: BoomCoreState where
  "load_example = BoomCoreState0\<lparr>bs_rob := RobInternalState0\<lparr>rob_tail := 1,
       rob_entries := (replicate 32 RobEntry0)[0 := RobEntry0\<lparr>re_valid := True, re_is_load := True, re_memory_valid := True,
         re_memory_address := 64, re_memory_size := 3\<rparr>]\<rparr>,
     bs_lsu := LsuState0\<lparr>lsu_load_response_pending := True, lsu_pending_load_transaction_id := 5, lsu_next_transaction_id := 6,
       lsu_pending_load_rob_idx := 1\<rparr>\<rparr>"

definition load_answer_example :: "u32 \<Rightarrow> PipeSignals" where
  "load_answer_example tx = PipeSignals0\<lparr>pipe_dmem_resp := [DmemResponse0\<lparr>drs_transaction_id := tx\<rparr>]\<rparr>"

lemma lsu_one_load_witness:
  "pipe_dmem_req (snd (lsu_module load_example (load_answer_example 4))) = []
   \<and> (\<exists>r. pipe_dmem_req (snd (lsu_module load_example (load_answer_example 5))) = [r] \<and> drq_address r = 64 \<and> drq_transaction_id r = 6)"
proof -
  let ?n = "lsu_module load_example (load_answer_example 4)" and ?y = "lsu_module load_example (load_answer_example 5)"
  have v: "\<not> bs_global_flush load_example" "lsu_load_response_pending (bs_lsu load_example)"
    "lsu_pending_load_transaction_id (bs_lsu load_example) = 5" "lsu_next_transaction_id (bs_lsu load_example) = 6"
    "pipe_dmem_req (load_answer_example tx) = []" "drs_transaction_id (hd (pipe_dmem_resp (load_answer_example tx))) = tx"
    "pipe_dmem_resp (load_answer_example tx) \<noteq> []" for tx
    by (simp_all add: load_example_def load_answer_example_def BoomCoreState0_def PipeSignals0_def)
  have y: "pipe_dmem_req (snd ?y) \<noteq> []" "re_memory_address (rob_entries (bs_rob (fst ?y)) ! 0) = 64"
    "lsu_pending_load_rob_idx (bs_lsu (fst ?y)) = 0" by code_simp+
  note n = lsu_one_load [OF prod.collapse [symmetric] v(1), of "load_answer_example 4"]
  obtain reqs where "pipe_dmem_req (snd ?y) = reqs" "length reqs \<le> 1" "\<forall>r \<in> set reqs. load_sent 6 (fst ?y) r"
    using lsu_one_load [OF prod.collapse [symmetric] v(1), of "load_answer_example 5"] v by auto
  with y show ?thesis using n v by (cases reqs) (auto simp: load_sent_def Let_def)
qed

text \<open>
  A response is matched by its transaction id: one that is not awaited (no load pending,
  or another id) is discarded and changes neither a register, nor the reorder buffer, nor
  the load/store unit.
\<close>
lemma lsu_stale_response:
  assumes "pipe_dmem_resp p = resp # q"
    "\<not> lsu_load_response_pending (bs_lsu s) \<or> drs_transaction_id resp \<noteq> lsu_pending_load_transaction_id (bs_lsu s)"
  shows "lsu_response s p = (s, p\<lparr>pipe_dmem_resp := q\<rparr>)"
  using assms by (auto simp: lsu_response_def stream_empty_def stream_read_def)

lemma lsu_stale_response_witness:
  "lsu_response BoomCoreState0 (PipeSignals0\<lparr>pipe_dmem_resp := [DmemResponse0\<lparr>drs_transaction_id := 4\<rparr>]\<rparr>)
    = (BoomCoreState0, PipeSignals0)"
  using lsu_stale_response [of "PipeSignals0\<lparr>pipe_dmem_resp := [DmemResponse0\<lparr>drs_transaction_id := 4\<rparr>]\<rparr>"
      "DmemResponse0\<lparr>drs_transaction_id := 4\<rparr>" "[]" BoomCoreState0]
  by (simp add: BoomCoreState0_def LsuState0_def PipeSignals0_def)

end
