(* ===== verification/Rob.thy ===== *)
theory Rob
  imports Execute Lsu
begin

text \<open>
  The reorder buffer: \<open>rob_allocate\<close> and \<open>rob_commit_module\<close> of
  \<open>src/boom_core_step.cpp\<close>. Commit is split at the source's blocks: the flush on a
  mispredict, the completion loop, the exception branch, the store gate and the retirement
  of the head entry.
\<close>

definition rob_is_full :: "RobInternalState \<Rightarrow> bool" where
  "rob_is_full rob = (rob_head rob = rob_tail rob \<and> rob_maybe_full rob)"

definition rob_is_empty :: "RobInternalState \<Rightarrow> bool" where
  "rob_is_empty rob = (rob_head rob = rob_tail rob \<and> \<not> rob_maybe_full rob)"

section \<open>Allocation\<close>

definition rob_entry_of :: "MicroOp \<Rightarrow> u8 \<Rightarrow> RobEntry" where
  "rob_entry_of u idx = RobEntry0
    \<lparr>re_valid := True, re_busy := True, re_exception := uop_exception u,
     re_uop := u\<lparr>uop_queue := (uop_queue u)\<lparr>qi_rob_idx := idx\<rparr>\<rparr>\<rparr>"

definition rob_push :: "RobInternalState \<Rightarrow> MicroOp \<Rightarrow> RobInternalState" where
  "rob_push rob u =
    (let rob = rob\<lparr>rob_entries := (rob_entries rob)
                 [unat (rob_tail rob) := rob_entry_of u (rob_tail rob)]\<rparr>;
         rob = rob\<lparr>rob_tail := inc_mod ROB_DEPTH (rob_tail rob)\<rparr>
     in if rob_tail rob = rob_head rob then rob\<lparr>rob_maybe_full := True\<rparr> else rob)"

fun rob_allocate_lanes :: "nat list \<Rightarrow> BoomCoreState \<Rightarrow> BoomCoreState" where
  "rob_allocate_lanes [] s = s"
| "rob_allocate_lanes (i # is) s =
    (let ren = bs_rename s; rob = bs_rob s; u = ren_renamed_uops ren ! i
     in if \<not> ren_renamed_valids ren ! i then rob_allocate_lanes is s
        else if rob_is_full rob
        then s\<lparr>bs_rename := ren\<lparr>ren_renamed_valids := (ren_renamed_valids ren)[i := False]\<rparr>\<rparr>
        else if uop_uopc u = 0 then rob_allocate_lanes is s
        else rob_allocate_lanes is
          (s\<lparr>bs_rob := rob_push rob u,
             bs_rename := ren\<lparr>ren_renamed_uops := (ren_renamed_uops ren)
               [i := u\<lparr>uop_queue := (uop_queue u)\<lparr>qi_rob_idx := rob_tail rob\<rparr>\<rparr>]\<rparr>\<rparr>))"

definition rob_allocate :: "BoomCoreState \<Rightarrow> BoomCoreState" where
  "rob_allocate s =
    (let s = (if rob_state (bs_rob s) = ROB_INIT
              then s\<lparr>bs_rob := (bs_rob s)\<lparr>rob_state := ROB_NORMAL\<rparr>\<rparr> else s)
     in if bs_global_flush s then s else rob_allocate_lanes [0..<DISPATCH_WIDTH] s)"

section \<open>Commit\<close>

definition rob_flush :: "RobInternalState \<Rightarrow> RobInternalState" where
  "rob_flush rob = rob
    \<lparr>rob_entries := map (\<lambda>e. if re_valid e then e\<lparr>re_valid := False, re_busy := False\<rparr> else e)
       (rob_entries rob),
     rob_head := 0, rob_tail := 0, rob_maybe_full := False, rob_state := ROB_NORMAL\<rparr>"

text \<open>Completion: a non-memory result clears the busy bit of its entry.\<close>

definition rob_complete :: "AluResult \<Rightarrow> RobInternalState \<Rightarrow> RobInternalState" where
  "rob_complete r rob =
    (if \<not> ar_valid r then rob
     else if ar_memory_valid r \<or> ar_is_load r \<or> ar_is_store r
             \<or> dc_is_load (uop_ctrl (ar_uop r)) \<or> dc_is_sta (uop_ctrl (ar_uop r)) then rob
     else
       (let ridx = unat (qi_rob_idx (uop_queue (ar_uop r)))
        in if ridx < ROB_DEPTH \<and> re_valid (rob_entries rob ! ridx) then
             (let e = (rob_entries rob ! ridx)\<lparr>re_busy := False\<rparr>;
                  e = (if ar_exception r then e\<lparr>re_exception := True\<rparr> else e)
              in rob\<lparr>rob_entries := (rob_entries rob)[ridx := e]\<rparr>)
           else rob))"

text \<open>\<open>he.valid=false; rob.head=(rob.head+1)%ROB_DEPTH; rob.maybe_full=false\<close>\<close>

definition rob_pop :: "RobInternalState \<Rightarrow> RobInternalState" where
  "rob_pop rob = rob
    \<lparr>rob_entries := (rob_entries rob)
       [unat (rob_head rob) := (rob_entries rob ! unat (rob_head rob))\<lparr>re_valid := False\<rparr>],
     rob_head := inc_mod ROB_DEPTH (rob_head rob), rob_maybe_full := False\<rparr>"

text \<open>The exception branch: ECALL (code 65) reports through \<open>a0\<close>, anything else stops.\<close>

definition commit_exception :: "MicroOp \<Rightarrow> BoomCoreState \<Rightarrow> BoomCoreState" where
  "commit_exception u s =
    (if uop_uopc u = 65 then
       (let a0_pdst = mt_map_table (ren_int_map_table (bs_rename s)) ! 10;
            a0_val = read_rf (bs_int_rf s) a0_pdst;
            s = (if a0_val = 0 then s\<lparr>bs_io_success := True\<rparr> else s\<lparr>bs_io_trap := True\<rparr>)
        in s\<lparr>bs_rob := rob_pop (bs_rob s)\<rparr>)
     else s\<lparr>bs_rob := (bs_rob s)\<lparr>rob_state := ROB_EXCEPTION\<rparr>, bs_io_trap := True\<rparr>)"

definition store_request :: "u32 \<Rightarrow> RobEntry \<Rightarrow> DmemRequest" where
  "store_request tx e = DmemRequest0
    \<lparr>drq_transaction_id := tx, drq_rob_idx := qi_rob_idx (uop_queue (re_uop e)),
     drq_command := DMEM_STORE, drq_is_store := True, drq_committed := True,
     drq_address := re_memory_address e, drq_data := re_memory_data e,
     drq_write_data := re_memory_data e, drq_size := re_memory_size e,
     drq_mask := re_memory_mask e, drq_write_mask := re_memory_mask e,
     drq_branch_mask := bi_br_mask (uop_branch (re_uop e))\<rparr>"

text \<open>
  The store gate: \<open>None\<close> is the early return (no data yet, or the request stream is
  full); otherwise the state with the request sent.
\<close>

definition commit_store ::
  "BoomCoreState \<Rightarrow> PipeSignals \<Rightarrow> (BoomCoreState \<times> PipeSignals) option" where
  "commit_store s pipe =
    (let h = unat (rob_head (bs_rob s)); he = rob_entries (bs_rob s) ! h
     in if dc_is_sta (uop_ctrl (re_uop he)) \<or> re_is_store he then
          (if \<not> re_memory_valid he then None
           else if \<not> re_memory_request_sent he then
             (if stream_full (pipe_dmem_req pipe) then None
              else
                (let tx = lsu_next_transaction_id (bs_lsu s);
                     s = s\<lparr>bs_lsu := (bs_lsu s)\<lparr>lsu_next_transaction_id := tx + 1\<rparr>\<rparr>;
                     pipe = pipe\<lparr>pipe_dmem_req := stream_write (pipe_dmem_req pipe) (store_request tx he)\<rparr>;
                     he' = he\<lparr>re_memory_request_sent := True, re_memory_completed := True\<rparr>
                 in Some ((set_rob_entry h he' s)\<lparr>bs_tohost := re_memory_data he\<rparr>, pipe)))
           else Some (s, pipe))
        else Some (s, pipe))"

definition commit_entry_of :: "u64 list \<Rightarrow> u8 \<Rightarrow> RobEntry \<Rightarrow> CommitEntry" where
  "commit_entry_of rf priv he =
    (let u = re_uop he;
         rd_valid = (ri_dst_rtype (uop_rename u) = DST_INT \<and> ri_pdst (uop_rename u) \<noteq> 0)
     in CommitEntry0
       \<lparr>ce_valid := True, ce_pc := uop_debug_pc u, ce_inst := uop_inst u,
        ce_rd_valid := rd_valid, ce_rd := ri_ldst (uop_rename u), ce_priv := priv,
        ce_exception := False, ce_branch_mispredict := False,
        ce_rd_value := (if rd_valid then rf ! unat (ri_pdst (uop_rename u)) else 0),
        ce_memory_valid := re_memory_valid he, ce_is_store := re_is_store he,
        ce_memory_address := re_memory_address he, ce_memory_data := re_memory_data he,
        ce_memory_mask := re_memory_mask he, ce_store_addr := re_memory_address he,
        ce_store_data := re_memory_data he, ce_store_mask := re_memory_mask he\<rparr>)"

text \<open>Returning the previous physical register to the free list.\<close>

definition fl_push :: "u8 \<Rightarrow> RenameFreeListState \<Rightarrow> RenameFreeListState" where
  "fl_push p fl = fl
    \<lparr>fl_busy_table := (fl_busy_table fl)[unat p := False],
     fl_free_list := (fl_free_list fl)[unat (fl_tail fl) := p],
     fl_tail := inc_mod INT_PHYS_REGS (fl_tail fl), fl_count := fl_count fl + 1\<rparr>"

definition commit_rename :: "MicroOp \<Rightarrow> RenameState \<Rightarrow> RenameState" where
  "commit_rename u ren =
    (let ri = uop_rename u
     in if ri_pdst ri \<noteq> 0 then
          (let mt = ren_int_map_table ren; fl = ren_int_free_list ren;
               ren = ren\<lparr>ren_int_map_table := mt\<lparr>mt_committed_map_table :=
                       (mt_committed_map_table mt)[unat (ri_ldst ri) := ri_pdst ri]\<rparr>\<rparr>
           in if ri_stale_pdst ri \<noteq> 0 \<and> unat (ri_stale_pdst ri) < INT_PHYS_REGS then
                (if unat (fl_count fl) < INT_PHYS_REGS
                 then ren\<lparr>ren_int_free_list := fl_push (ri_stale_pdst ri) fl\<rparr> else ren)
              else ren)
        else ren)"

definition commit_retire ::
  "BoomCoreState \<Rightarrow> PipeSignals \<Rightarrow> BoomCoreState \<times> PipeSignals" where
  "commit_retire s pipe =
    (let he = rob_entries (bs_rob s) ! unat (rob_head (bs_rob s)); u = re_uop he;
         s = s\<lparr>bs_csr := (bs_csr s)\<lparr>csr_instret := csr_instret (bs_csr s) + 1\<rparr>\<rparr>;
         ce = commit_entry_of (bs_int_rf s) (csr_priv (bs_csr s)) he;
         s = s\<lparr>bs_rename := commit_rename u (bs_rename s)\<rparr>;
         pipe = (if \<not> stream_full (pipe_commit_trace pipe)
                 then pipe\<lparr>pipe_commit_trace := stream_write (pipe_commit_trace pipe) ce\<rparr> else pipe)
     in (s\<lparr>bs_rob := rob_pop ((bs_rob s)\<lparr>rob_last_commit := ce, rob_commit_valid := True\<rparr>)\<rparr>, pipe))"

definition commit_head ::
  "BoomCoreState \<Rightarrow> PipeSignals \<Rightarrow> BoomCoreState \<times> PipeSignals" where
  "commit_head s pipe =
    (let he = rob_entries (bs_rob s) ! unat (rob_head (bs_rob s)); u = re_uop he
     in if re_exception he then (commit_exception u s, pipe)
        else if (dc_is_load (uop_ctrl u) \<or> re_is_load he) \<and> \<not> re_memory_completed he
        then (s, pipe)
        else case commit_store s pipe of
               None \<Rightarrow> (s, pipe)
             | Some (s, pipe) \<Rightarrow> commit_retire s pipe)"

definition rob_commit_module ::
  "BoomCoreState \<Rightarrow> PipeSignals \<Rightarrow> BoomCoreState \<times> PipeSignals" where
  "rob_commit_module s pipe =
    (let s = s\<lparr>bs_rob := (bs_rob s)\<lparr>rob_commit_valid := False\<rparr>\<rparr>
     in if bu_valid (bs_brupdate s) \<and> bu_mispredict (bs_brupdate s)
        then (s\<lparr>bs_rob := rob_flush (bs_rob s), bs_global_flush := True\<rparr>, pipe)
        else
          (let s = s\<lparr>bs_rob := fold (\<lambda>i. rob_complete (exe_alu_results (bs_execute s) ! i))
                      [0..<DISPATCH_WIDTH] (bs_rob s)\<rparr>;
               rob = bs_rob s; he = rob_entries rob ! unat (rob_head rob)
           in if \<not> rob_is_empty rob \<and> re_valid he \<and> \<not> re_busy he
              then commit_head s pipe else (s, pipe)))"

section \<open>What commit does\<close>

text \<open>The reorder buffer after the completion block, and its head entry.\<close>

definition completed_rob :: "BoomCoreState \<Rightarrow> RobInternalState" where
  "completed_rob s = fold (\<lambda>i. rob_complete (exe_alu_results (bs_execute s) ! i)) [0..<DISPATCH_WIDTH]
     ((bs_rob s)\<lparr>rob_commit_valid := False\<rparr>)"

definition rob_head_entry :: "RobInternalState \<Rightarrow> RobEntry" where
  "rob_head_entry rob = rob_entries rob ! unat (rob_head rob)"

definition commit_flushes :: "BoomCoreState \<Rightarrow> bool" where
  "commit_flushes s = (bu_valid (bs_brupdate s) \<and> bu_mispredict (bs_brupdate s))"

definition commit_enabled :: "RobInternalState \<Rightarrow> bool" where
  "commit_enabled rob = (\<not> rob_is_empty rob \<and> re_valid (rob_head_entry rob) \<and> \<not> re_busy (rob_head_entry rob))"

lemma rob_complete_flags [simp]:
  "rob_commit_valid (rob_complete r rob) = rob_commit_valid rob" "rob_head (rob_complete r rob) = rob_head rob"
  "rob_tail (rob_complete r rob) = rob_tail rob" "rob_maybe_full (rob_complete r rob) = rob_maybe_full rob"
  "rob_state (rob_complete r rob) = rob_state rob" "length (rob_entries (rob_complete r rob)) = length (rob_entries rob)"
  by (simp_all add: rob_complete_def Let_def)

lemma completed_rob_flags [simp]:
  "\<not> rob_commit_valid (completed_rob s)" "rob_head (completed_rob s) = rob_head (bs_rob s)"
  "rob_tail (completed_rob s) = rob_tail (bs_rob s)" "rob_state (completed_rob s) = rob_state (bs_rob s)"
  "length (rob_entries (completed_rob s)) = length (rob_entries (bs_rob s))"
  by (simp_all add: completed_rob_def)

lemma rob_commit_module_cases:
  assumes "rob_commit_module s p = (s', p')"
  obtains (flush) "commit_flushes s" "p' = p"
      "s' = s\<lparr>bs_rob := rob_flush ((bs_rob s)\<lparr>rob_commit_valid := False\<rparr>), bs_global_flush := True\<rparr>"
  | (idle) "\<not> commit_flushes s" "\<not> commit_enabled (completed_rob s)" "p' = p" "s' = s\<lparr>bs_rob := completed_rob s\<rparr>"
  | (head) "\<not> commit_flushes s" "commit_enabled (completed_rob s)"
      "commit_head (s\<lparr>bs_rob := completed_rob s\<rparr>) p = (s', p')"
  using assms
  by (auto simp: rob_commit_module_def commit_flushes_def completed_rob_def commit_enabled_def rob_head_entry_def Let_def
      split: if_split_asm)

lemma commit_head_cases:
  assumes "commit_head s p = (s', p')"
  defines "he \<equiv> rob_head_entry (bs_rob s)"
  obtains (exception) "re_exception he" "p' = p" "s' = commit_exception (re_uop he) s"
  | (wait) "\<not> re_exception he" "s' = s" "p' = p"
  | (retire) s1 p1 where "\<not> re_exception he" "(dc_is_load (uop_ctrl (re_uop he)) \<or> re_is_load he) \<longrightarrow> re_memory_completed he"
      "commit_store s p = Some (s1, p1)" "commit_retire s1 p1 = (s', p')"
  using assms(1) unfolding commit_head_def he_def rob_head_entry_def Let_def
  by (auto split: if_split_asm option.splits)

lemma commit_store_cases:
  assumes "commit_store s p = Some (s1, p1)"
  defines "he \<equiv> rob_head_entry (bs_rob s)"
  obtains (none) "s1 = s" "p1 = p" "dc_is_sta (uop_ctrl (re_uop he)) \<or> re_is_store he \<longrightarrow> re_memory_valid he \<and> re_memory_request_sent he"
  | (store) "dc_is_sta (uop_ctrl (re_uop he)) \<or> re_is_store he" "re_memory_valid he" "\<not> re_memory_request_sent he"
      "p1 = p\<lparr>pipe_dmem_req := pipe_dmem_req p @ [store_request (lsu_next_transaction_id (bs_lsu s)) he]\<rparr>"
      "s1 = (set_rob_entry (unat (rob_head (bs_rob s))) (he\<lparr>re_memory_request_sent := True, re_memory_completed := True\<rparr>)
         (s\<lparr>bs_lsu := (bs_lsu s)\<lparr>lsu_next_transaction_id := lsu_next_transaction_id (bs_lsu s) + 1\<rparr>\<rparr>))\<lparr>bs_tohost := re_memory_data he\<rparr>"
  using assms(1) unfolding commit_store_def he_def rob_head_entry_def Let_def
  by (auto simp: stream_write_def split: if_split_asm)

text \<open>The head entry survives the store gate up to its two request flags.\<close>

lemma commit_store_keeps:
  assumes "commit_store s p = Some (s1, p1)" "unat (rob_head (bs_rob s)) < length (rob_entries (bs_rob s))"
  shows "rob_head (bs_rob s1) = rob_head (bs_rob s)" "re_uop (rob_head_entry (bs_rob s1)) = re_uop (rob_head_entry (bs_rob s))"
    "bs_csr s1 = bs_csr s" "pipe_commit_trace p1 = pipe_commit_trace p" "bs_int_rf s1 = bs_int_rf s" "bs_rename s1 = bs_rename s"
  using assms(1)
  by (cases rule: commit_store_cases; use assms(2) in \<open>simp add: set_rob_entry_def rob_head_entry_def\<close>)+

lemma commit_retire_result:
  assumes "commit_retire s p = (s', p')"
  defines "ce \<equiv> commit_entry_of (bs_int_rf s) (csr_priv (bs_csr s)) (rob_head_entry (bs_rob s))"
  shows "rob_commit_valid (bs_rob s')" "rob_last_commit (bs_rob s') = ce"
    "csr_instret (bs_csr s') = csr_instret (bs_csr s) + 1" "rob_head (bs_rob s') = inc_mod ROB_DEPTH (rob_head (bs_rob s))"
    "pipe_commit_trace p' = pipe_commit_trace p @ (if stream_full (pipe_commit_trace p) then [] else [ce])"
    "pipe_dmem_req p' = pipe_dmem_req p" "bs_int_rf s' = bs_int_rf s" "bs_lsu s' = bs_lsu s" "bs_tohost s' = bs_tohost s"
  using assms(1) by (auto simp: commit_retire_def rob_pop_def rob_head_entry_def ce_def stream_write_def Let_def)

lemma commit_exception_keeps:
  "bs_csr (commit_exception u s) = bs_csr s" "rob_commit_valid (bs_rob (commit_exception u s)) = rob_commit_valid (bs_rob s)"
  "bs_rename (commit_exception u s) = bs_rename s" "bs_int_rf (commit_exception u s) = bs_int_rf s"
  by (simp_all add: commit_exception_def rob_pop_def Let_def)

text \<open>
  When commit retires the head: it is finished and raises nothing, a load has its data, and a
  store has its address and either has been sent or finds room in the request stream.
\<close>

definition retires :: "RobEntry \<Rightarrow> PipeSignals \<Rightarrow> bool" where
  "retires he p = (\<not> re_exception he
     \<and> (dc_is_load (uop_ctrl (re_uop he)) \<or> re_is_load he \<longrightarrow> re_memory_completed he)
     \<and> (dc_is_sta (uop_ctrl (re_uop he)) \<or> re_is_store he \<longrightarrow>
          re_memory_valid he \<and> (re_memory_request_sent he \<or> \<not> stream_full (pipe_dmem_req p))))"

lemma commit_store_some:
  "commit_store s p \<noteq> None \<longleftrightarrow> (dc_is_sta (uop_ctrl (re_uop (rob_head_entry (bs_rob s)))) \<or> re_is_store (rob_head_entry (bs_rob s)) \<longrightarrow>
     re_memory_valid (rob_head_entry (bs_rob s)) \<and> (re_memory_request_sent (rob_head_entry (bs_rob s)) \<or> \<not> stream_full (pipe_dmem_req p)))"
  by (simp add: commit_store_def rob_head_entry_def Let_def)

lemma commit_head_retires:
  assumes "commit_head s p = (s', p')" "\<not> rob_commit_valid (bs_rob s)"
  shows "rob_commit_valid (bs_rob s') \<longleftrightarrow> retires (rob_head_entry (bs_rob s)) p"
proof (cases "retires (rob_head_entry (bs_rob s)) p")
  case True
  then obtain s1 p1 where st: "commit_store s p = Some (s1, p1)"
    using commit_store_some [of s p] by (auto simp: retires_def)
  then have "commit_retire s1 p1 = (s', p')"
    using assms(1) True by (auto simp: commit_head_def retires_def rob_head_entry_def Let_def)
  from commit_retire_result(1) [OF this] show ?thesis using True by simp
next
  case False
  then have "re_exception (rob_head_entry (bs_rob s)) \<or> s' = s"
    using assms(1) commit_store_some [of s p]
    by (auto simp: commit_head_def retires_def rob_head_entry_def Let_def split: if_split_asm option.splits)
  then show ?thesis
    using assms False by (auto simp: commit_head_def rob_head_entry_def commit_exception_keeps Let_def split: if_split_asm)
qed

text \<open>
  C8: Retirement is in order and exact. The head is taken to be an index of the array, as it is
  in every reachable state. Outside a mispredict cycle the head of the reorder buffer retires in a cycle exactly when the buffer is not empty, the entry is valid and
  finished after this cycle's results, raises no exception, has its data if it is a load, and
  its address and a place in the request stream if it is a store still to be sent; nothing
  else ever retires. Then the instruction counter grows by one, the head moves on by one
  place, and one record of the entry (program counter, instruction word, destination and its
  value) joins the trace, unless the trace stream is full, when the record is lost. In every
  other cycle counter, trace and renaming stay as they are, and the head moves only in two
  cases: to 0 on a mispredict, and past an environment call.
\<close>
theorem commit_in_order:
  assumes "rob_commit_module s p = (s', p')" "unat (rob_head (bs_rob s)) < length (rob_entries (bs_rob s))"
  defines "rob \<equiv> completed_rob s"
  defines "he \<equiv> rob_entries rob ! unat (rob_head rob)" and "ce \<equiv> rob_last_commit (bs_rob s')"
  shows "(rob_commit_valid (bs_rob s') \<longleftrightarrow> \<not> commit_flushes s \<and> \<not> rob_is_empty rob \<and> re_valid he \<and> \<not> re_busy he \<and> retires he p)
    \<and> (if rob_commit_valid (bs_rob s')
       then csr_instret (bs_csr s') = csr_instret (bs_csr s) + 1
         \<and> rob_head (bs_rob s') = inc_mod ROB_DEPTH (rob_head (bs_rob s))
         \<and> pipe_commit_trace p' = pipe_commit_trace p @ (if stream_full (pipe_commit_trace p) then [] else [ce])
         \<and> ce_valid ce \<and> ce_pc ce = uop_debug_pc (re_uop he) \<and> ce_inst ce = uop_inst (re_uop he) \<and> \<not> ce_exception ce
         \<and> ce_rd ce = ri_ldst (uop_rename (re_uop he))
         \<and> ce_rd_valid ce = (ri_dst_rtype (uop_rename (re_uop he)) = DST_INT \<and> ri_pdst (uop_rename (re_uop he)) \<noteq> 0)
         \<and> ce_rd_value ce = (if ce_rd_valid ce then bs_int_rf s ! unat (ri_pdst (uop_rename (re_uop he))) else 0)
       else csr_instret (bs_csr s') = csr_instret (bs_csr s) \<and> pipe_commit_trace p' = pipe_commit_trace p
         \<and> bs_rename s' = bs_rename s
         \<and> rob_head (bs_rob s') =
             (if commit_flushes s then 0
              else if \<not> rob_is_empty rob \<and> re_valid he \<and> \<not> re_busy he \<and> re_exception he \<and> uop_uopc (re_uop he) = 65
              then inc_mod ROB_DEPTH (rob_head (bs_rob s)) else rob_head (bs_rob s)))"
  using assms(1)
proof (cases rule: rob_commit_module_cases)
  case flush
  then show ?thesis by (simp add: rob_flush_def)
next
  case idle
  then show ?thesis by (auto simp: commit_enabled_def rob_head_entry_def he_def rob_def)
next
  case head
  let ?s = "s\<lparr>bs_rob := completed_rob s\<rparr>"
  have he: "rob_head_entry (completed_rob s) = he" by (simp add: he_def rob_def rob_head_entry_def)
  have en: "\<not> rob_is_empty rob" "re_valid he" "\<not> re_busy he"
    using head(2) by (simp_all add: commit_enabled_def he_def rob_def rob_head_entry_def)
  have iff: "rob_commit_valid (bs_rob s') \<longleftrightarrow> retires he p"
    using commit_head_retires [OF head(3)] he by simp
  from head(3) show ?thesis
  proof (cases rule: commit_head_cases)
    case exception
    then have "\<not> retires he p" "re_exception he" by (simp_all add: he retires_def)
    then show ?thesis using exception head(1) en iff
      by (simp add: he commit_exception_def rob_pop_def Let_def)
  next
    case wait
    then show ?thesis using head(1) en iff by (simp add: he)
  next
    case (retire s1 p1)
    have "unat (rob_head (bs_rob ?s)) < length (rob_entries (bs_rob ?s))" using assms(2) by simp
    note k = commit_store_keeps [OF retire(3) this]
    note r = commit_retire_result [OF retire(4)]
    have "ce = commit_entry_of (bs_int_rf s) (csr_priv (bs_csr s)) (rob_head_entry (bs_rob s1))"
      using r(2) k by (simp add: ce_def)
    then have "ce_valid ce \<and> ce_pc ce = uop_debug_pc (re_uop he) \<and> ce_inst ce = uop_inst (re_uop he) \<and> \<not> ce_exception ce
         \<and> ce_rd ce = ri_ldst (uop_rename (re_uop he))
         \<and> ce_rd_valid ce = (ri_dst_rtype (uop_rename (re_uop he)) = DST_INT \<and> ri_pdst (uop_rename (re_uop he)) \<noteq> 0)
         \<and> ce_rd_value ce = (if ce_rd_valid ce then bs_int_rf s ! unat (ri_pdst (uop_rename (re_uop he))) else 0)"
      using k(2) he by (simp add: commit_entry_of_def CommitEntry0_def Let_def)
    moreover have "rob_commit_valid (bs_rob s')" by (rule r(1))
    moreover have "pipe_commit_trace p' = pipe_commit_trace p @ (if stream_full (pipe_commit_trace p) then [] else [ce])"
      using r(2,5) k(4) by (simp add: ce_def)
    moreover have "rob_head (bs_rob s') = inc_mod ROB_DEPTH (rob_head (bs_rob s))" "csr_instret (bs_csr s') = csr_instret (bs_csr s) + 1"
      using r(3,4) k(1,3) by simp_all
    ultimately show ?thesis using head(1) en iff by simp
  qed
qed

definition commit_example :: BoomCoreState where
  "commit_example = BoomCoreState0\<lparr>bs_rob := RobInternalState0\<lparr>rob_tail := 1,
     rob_entries := (replicate 32 RobEntry0)[0 := RobEntry0\<lparr>re_valid := True,
       re_uop := MicroOp0\<lparr>uop_debug_pc := 0x10040, uop_inst := 0x13\<rparr>\<rparr>]\<rparr>\<rparr>"

lemma commit_in_order_witness:
  "rob_commit_valid (bs_rob (fst (rob_commit_module commit_example PipeSignals0)))
   \<and> csr_instret (bs_csr (fst (rob_commit_module commit_example PipeSignals0))) = 1
   \<and> ce_pc (rob_last_commit (bs_rob (fst (rob_commit_module commit_example PipeSignals0)))) = 0x10040"
proof -
  let ?he = "rob_entries (completed_rob commit_example) ! unat (rob_head (completed_rob commit_example))"
  have v: "unat (rob_head (bs_rob commit_example)) < length (rob_entries (bs_rob commit_example))"
    "\<not> commit_flushes commit_example" "\<not> rob_is_empty (completed_rob commit_example)" "re_valid ?he" "\<not> re_busy ?he"
    "retires ?he PipeSignals0" "uop_debug_pc (re_uop ?he) = 0x10040" "csr_instret (bs_csr commit_example) = 0" by code_simp+
  show ?thesis using commit_in_order [OF prod.collapse [symmetric] v(1), of PipeSignals0] v by simp
qed

text \<open>
  C11: Stores reach memory only at retirement. In every cycle commit sends a request exactly
  when the instruction it retires is a store that has not been sent yet, and then exactly one:
  a store request with the address, the data, the size and the byte mask of the retired entry,
  marked committed and carrying the next transaction id, which advances; the host register
  takes the stored data. In a cycle that retires nothing, or anything else, no request is sent
  and the id stays. So an instruction that raises an exception never stores, and neither does
  one that is squashed before it reaches the head.
\<close>
theorem stores_are_committed:
  assumes "rob_commit_module s p = (s', p')"
  defines "rob \<equiv> completed_rob s"
  defines "he \<equiv> rob_entries rob ! unat (rob_head rob)"
  shows "if rob_commit_valid (bs_rob s') \<and> (dc_is_sta (uop_ctrl (re_uop he)) \<or> re_is_store he) \<and> \<not> re_memory_request_sent he
    then \<exists>req. pipe_dmem_req p' = pipe_dmem_req p @ [req] \<and> re_memory_valid he \<and> \<not> re_exception he
      \<and> drq_is_store req \<and> drq_command req = DMEM_STORE \<and> drq_committed req
      \<and> drq_address req = re_memory_address he \<and> drq_data req = re_memory_data he \<and> drq_write_data req = re_memory_data he
      \<and> drq_size req = re_memory_size he \<and> drq_mask req = re_memory_mask he \<and> drq_write_mask req = re_memory_mask he
      \<and> drq_transaction_id req = lsu_next_transaction_id (bs_lsu s)
      \<and> lsu_next_transaction_id (bs_lsu s') = lsu_next_transaction_id (bs_lsu s) + 1 \<and> bs_tohost s' = re_memory_data he
    else pipe_dmem_req p' = pipe_dmem_req p \<and> bs_lsu s' = bs_lsu s \<and> bs_tohost s' = bs_tohost s"
  using assms(1)
proof (cases rule: rob_commit_module_cases)
  case flush
  then show ?thesis by (simp add: rob_flush_def)
next
  case idle
  then show ?thesis by simp
next
  case head
  let ?s = "s\<lparr>bs_rob := completed_rob s\<rparr>"
  have he: "rob_head_entry (completed_rob s) = he" by (simp add: he_def rob_def rob_head_entry_def)
  from head(3) show ?thesis
  proof (cases rule: commit_head_cases)
    case exception
    then show ?thesis by (simp add: commit_exception_keeps) (simp add: commit_exception_def Let_def)
  next
    case wait
    then show ?thesis by simp
  next
    case (retire s1 p1)
    note r = commit_retire_result [OF retire(4)]
    from retire(3) show ?thesis
    proof (cases rule: commit_store_cases)
      case none
      then show ?thesis using r(6,8,9) he by auto
    next
      case store
      then show ?thesis using r(1,6,8,9) retire(1) he by (simp add: set_rob_entry_def store_request_def DmemRequest0_def)
    qed
  qed
qed

definition store_example :: BoomCoreState where
  "store_example = BoomCoreState0\<lparr>bs_rob := RobInternalState0\<lparr>rob_tail := 1,
     rob_entries := (replicate 32 RobEntry0)[0 := RobEntry0\<lparr>re_valid := True, re_is_store := True, re_memory_valid := True,
       re_memory_address := 64, re_memory_data := 42, re_memory_size := 3, re_memory_mask := 0xFF\<rparr>]\<rparr>\<rparr>"

lemma stores_are_committed_witness:
  "\<exists>req. pipe_dmem_req (snd (rob_commit_module store_example PipeSignals0)) = [req]
    \<and> drq_address req = 64 \<and> drq_write_data req = 42 \<and> drq_write_mask req = 0xFF"
proof -
  let ?he = "rob_entries (completed_rob store_example) ! unat (rob_head (completed_rob store_example))"
  have v: "rob_commit_valid (bs_rob (fst (rob_commit_module store_example PipeSignals0)))" "re_is_store ?he"
    "\<not> re_memory_request_sent ?he" "re_memory_address ?he = 64" "re_memory_data ?he = 42" "re_memory_mask ?he = 0xFF"
    "pipe_dmem_req PipeSignals0 = []" by code_simp+
  show ?thesis using stores_are_committed [OF prod.collapse [symmetric], of store_example PipeSignals0] v by auto
qed

text \<open>
  C12: Exceptions at the head. When the finished head entry carries an exception and the cycle
  is not a mispredict cycle, the cycle retires nothing, sends nothing and changes no register,
  no renaming state and no counter; an environment call raises the success flag exactly when
  register \<open>a0\<close> reads zero through the map table, the trap flag otherwise, and the head moves
  past it; any other exception traps and puts
  the reorder buffer into its exception state. In a mispredict cycle the exception is lost: the
  entry is discarded with all others, nothing is reported, and a buffer that was in its
  exception state is back in the normal one.
\<close>
theorem exceptions_are_precise:
  assumes "rob_commit_module s p = (s', p')"
  defines "rob \<equiv> completed_rob s"
  defines "he \<equiv> rob_entries rob ! unat (rob_head rob)"
  assumes "\<not> rob_is_empty rob" "re_valid he" "\<not> re_busy he" "re_exception he"
  defines "a0 \<equiv> read_rf (bs_int_rf s) (mt_map_table (ren_int_map_table (bs_rename s)) ! 10)"
  shows "p' = p \<and> \<not> rob_commit_valid (bs_rob s') \<and> bs_csr s' = bs_csr s \<and> bs_rename s' = bs_rename s
    \<and> bs_int_rf s' = bs_int_rf s \<and> bs_lsu s' = bs_lsu s
    \<and> (if commit_flushes s
       then bs_io_success s' = bs_io_success s \<and> bs_io_trap s' = bs_io_trap s
         \<and> rob_is_empty (bs_rob s') \<and> rob_state (bs_rob s') = ROB_NORMAL
         \<and> list_all (\<lambda>e. \<not> re_valid e) (rob_entries (bs_rob s'))
       else if uop_uopc (re_uop he) = 65
       then bs_io_success s' = (a0 = 0 \<or> bs_io_success s) \<and> bs_io_trap s' = (a0 \<noteq> 0 \<or> bs_io_trap s)
         \<and> rob_head (bs_rob s') = inc_mod ROB_DEPTH (rob_head (bs_rob s)) \<and> rob_state (bs_rob s') = rob_state (bs_rob s)
       else rob_state (bs_rob s') = ROB_EXCEPTION \<and> bs_io_trap s' \<and> bs_io_success s' = bs_io_success s
         \<and> rob_head (bs_rob s') = rob_head (bs_rob s))"
  using assms(1)
proof (cases rule: rob_commit_module_cases)
  case flush
  then show ?thesis by (auto simp: rob_flush_def rob_is_empty_def list_all_iff)
next
  case idle
  then show ?thesis using assms(4-6) by (simp add: commit_enabled_def rob_head_entry_def he_def rob_def)
next
  case head
  from head(3) have "s' = commit_exception (re_uop he) (s\<lparr>bs_rob := completed_rob s\<rparr>) \<and> p' = p"
    by (cases rule: commit_head_cases) (use assms(7) in \<open>simp_all add: he_def rob_def rob_head_entry_def\<close>)
  then show ?thesis using head(1)
    by (simp add: commit_exception_def commit_exception_keeps a0_def rob_pop_def Let_def)
qed

definition exception_example :: BoomCoreState where
  "exception_example = commit_example\<lparr>bs_rob := (bs_rob commit_example)\<lparr>rob_entries :=
     (replicate 32 RobEntry0)[0 := RobEntry0\<lparr>re_valid := True, re_exception := True\<rparr>]\<rparr>\<rparr>"

lemma exceptions_are_precise_witness:
  "bs_io_trap (fst (rob_commit_module exception_example PipeSignals0))
   \<and> rob_state (bs_rob (fst (rob_commit_module exception_example PipeSignals0))) = ROB_EXCEPTION"
proof -
  let ?rob = "completed_rob exception_example"
  let ?he = "rob_entries ?rob ! unat (rob_head ?rob)"
  have v: "\<not> rob_is_empty ?rob" "re_valid ?he" "\<not> re_busy ?he" "re_exception ?he" "\<not> commit_flushes exception_example"
    "uop_uopc (re_uop ?he) = 0" by code_simp+
  show ?thesis using exceptions_are_precise [OF prod.collapse [symmetric] v(1-4), of PipeSignals0] v(5,6) by simp
qed

text \<open>
  A mispredict squashes everything in flight: no valid entry is left, the buffer is
  empty and back in its normal state, nothing retires and nothing is sent in that cycle, and
  the flush is signalled.
\<close>
lemma mispredict_squashes:
  assumes "commit_flushes s"
  shows "snd (rob_commit_module s p) = p
    \<and> list_all (\<lambda>e. \<not> re_valid e) (rob_entries (bs_rob (fst (rob_commit_module s p))))
    \<and> rob_is_empty (bs_rob (fst (rob_commit_module s p))) \<and> rob_state (bs_rob (fst (rob_commit_module s p))) = ROB_NORMAL
    \<and> \<not> rob_commit_valid (bs_rob (fst (rob_commit_module s p))) \<and> bs_global_flush (fst (rob_commit_module s p))
    \<and> csr_instret (bs_csr (fst (rob_commit_module s p))) = csr_instret (bs_csr s)"
  using assms by (auto simp: rob_commit_module_def commit_flushes_def rob_flush_def rob_is_empty_def list_all_iff)

end
