(* ===== verification/CoreStep.thy ===== *)
theory CoreStep
  imports Frontend Rename Issue Rob Branch
begin

text \<open>
  \<open>src/csr.cpp\<close>, the cycle function \<open>boom_core_step\<close> of
  \<open>src/boom_core_step.cpp\<close> and the top-level loop of \<open>src/boom_core_top.cpp\<close>; and two
  properties of whole runs on arbitrary stream contents: the fetch protocol, and the queues of
  the load/store unit.
\<close>

definition csr_module :: "BoomCoreState \<Rightarrow> BoomCoreState" where
  "csr_module s = s\<lparr>bs_csr := (bs_csr s)\<lparr>csr_cycle := csr_cycle (bs_csr s) + 1\<rparr>\<rparr>"

definition step_begin :: "BoomCoreState \<Rightarrow> BoomCoreState" where
  "step_begin s = s
    \<lparr>bs_global_flush := False, bs_io_success := False, bs_io_trap := False,
     bs_brupdate := (bs_brupdate s)\<lparr>bu_valid := False, bu_mispredict := False\<rparr>\<rparr>"

definition boom_core_step ::
  "BoomCoreState \<Rightarrow> PipeSignals \<Rightarrow> BoomCoreState \<times> PipeSignals" where
  "boom_core_step s pipe =
    (let s = step_begin s;
         s = csr_module s;
         s = branch_module s;
         (s, pipe) = lsu_module s pipe;
         (s, pipe) = frontend_module s pipe;
         s = decode_module s;
         s = rename_module s;
         s = rob_allocate s;
         s = issue_module s;
         s = execute_module s
     in rob_commit_module s pipe)"

section \<open>The top-level loop\<close>

record TopStreams =
  top_imem_req_out :: "ImemRequest stream"
  top_imem_resp_in :: "ImemResponse stream"
  top_dmem_req_out :: "DmemRequest stream"
  top_dmem_resp_in :: "DmemResponse stream"
  top_commit_trace_out :: "CommitEntry stream"

record TopOutputs =
  io_success :: bool
  io_halted :: bool
  io_trap :: bool
  io_cycle_valid :: bool
  io_cycle :: u64
  io_instret :: u64

definition top_feed :: "TopStreams \<Rightarrow> PipeSignals \<Rightarrow> TopStreams \<times> PipeSignals" where
  "top_feed t pipe =
    (let (t, pipe) =
           (if \<not> stream_empty (top_imem_resp_in t) \<and> \<not> stream_full (pipe_imem_resp pipe)
            then (t\<lparr>top_imem_resp_in := tl (top_imem_resp_in t)\<rparr>,
                  pipe\<lparr>pipe_imem_resp := stream_write (pipe_imem_resp pipe) (hd (top_imem_resp_in t))\<rparr>)
            else (t, pipe))
     in if \<not> stream_empty (top_dmem_resp_in t) \<and> \<not> stream_full (pipe_dmem_resp pipe)
        then (t\<lparr>top_dmem_resp_in := tl (top_dmem_resp_in t)\<rparr>,
              pipe\<lparr>pipe_dmem_resp := stream_write (pipe_dmem_resp pipe) (hd (top_dmem_resp_in t))\<rparr>)
        else (t, pipe))"

definition top_drain :: "TopStreams \<Rightarrow> PipeSignals \<Rightarrow> TopStreams \<times> PipeSignals" where
  "top_drain t pipe =
    (let (t, pipe) =
           (if \<not> stream_empty (pipe_imem_req pipe)
            then (t\<lparr>top_imem_req_out := stream_write (top_imem_req_out t) (hd (pipe_imem_req pipe))\<rparr>,
                  pipe\<lparr>pipe_imem_req := tl (pipe_imem_req pipe)\<rparr>)
            else (t, pipe));
         (t, pipe) =
           (if \<not> stream_empty (pipe_dmem_req pipe)
            then (t\<lparr>top_dmem_req_out := stream_write (top_dmem_req_out t) (hd (pipe_dmem_req pipe))\<rparr>,
                  pipe\<lparr>pipe_dmem_req := tl (pipe_dmem_req pipe)\<rparr>)
            else (t, pipe))
     in if \<not> stream_empty (pipe_commit_trace pipe)
        then (t\<lparr>top_commit_trace_out := stream_write (top_commit_trace_out t) (hd (pipe_commit_trace pipe))\<rparr>,
              pipe\<lparr>pipe_commit_trace := tl (pipe_commit_trace pipe)\<rparr>)
        else (t, pipe))"

definition top_outputs :: "BoomCoreState \<Rightarrow> TopOutputs" where
  "top_outputs s = \<lparr>io_success = bs_io_success s, io_halted = bs_io_halted s,
     io_trap = bs_io_trap s, io_cycle_valid = True, io_cycle = csr_cycle (bs_csr s),
     io_instret = csr_instret (bs_csr s)\<rparr>"

text \<open>One iteration of \<open>CORE_CYCLE\<close>; the loop itself never ends.\<close>

definition core_cycle ::
  "BoomCoreState \<Rightarrow> PipeSignals \<Rightarrow> TopStreams
     \<Rightarrow> BoomCoreState \<times> PipeSignals \<times> TopStreams \<times> TopOutputs" where
  "core_cycle s pipe t =
    (let (t, pipe) = top_feed t pipe;
         (s, pipe) = boom_core_step s pipe;
         (t, pipe) = top_drain t pipe
     in (s, pipe, t, top_outputs s))"

section \<open>The counters\<close>

text \<open>No stage but \<open>csr_module\<close> and commit touches the CSR file.\<close>

lemma csr_set_rob_entry [simp]: "bs_csr (set_rob_entry i e s) = bs_csr s"
  by (simp add: set_rob_entry_def)

lemma csr_issue_loads: "issue_loads is s p = (s', p') \<Longrightarrow> bs_csr s' = bs_csr s"
proof (induction "is" arbitrary: s p)
  case (Cons i "is")
  then show ?case by (auto simp: try_issue_load_def Let_def split: if_split_asm)
qed simp

lemma csr_lsu_module: "lsu_module s p = (s', p') \<Longrightarrow> bs_csr s' = bs_csr s"
proof -
  have r: "bs_csr s1 = bs_csr s" if "lsu_response s p = (s1, p1)" for s1 p1
    using that by (auto simp: lsu_response_def complete_load_def Let_def split: if_split_asm prod.splits)
  have e: "bs_csr (lsu_enqueue_lane i s) = bs_csr s" for i s by (simp add: lsu_enqueue_lane_def Let_def)
  show "lsu_module s p = (s', p') \<Longrightarrow> bs_csr s' = bs_csr s"
    using r e csr_issue_loads by (fastforce simp: lsu_module_def Let_def split: if_split_asm prod.splits)
qed

lemma csr_frontend_module: "frontend_module s p = (s', p') \<Longrightarrow> bs_csr s' = bs_csr s"
proof -
  have "bs_csr (frontend_redirect (frontend_reset (frontend_flush_mark s))) = bs_csr s" "bs_csr (frontend_flush t) = bs_csr t" for t
    by (simp_all add: frontend_redirect_def frontend_reset_def frontend_flush_mark_def frontend_flush_def)
  then show "frontend_module s p = (s', p') \<Longrightarrow> bs_csr s' = bs_csr s"
    by (auto simp: frontend_module_def Let_def split: if_split_asm prod.splits)
qed

lemma csr_middle [simp]:
  "bs_csr (decode_module s) = bs_csr s" "bs_csr (rename_module s) = bs_csr s" "bs_csr (rob_allocate s) = bs_csr s"
  "bs_csr (issue_module s) = bs_csr s" "bs_csr (branch_module s) = bs_csr s" "bs_csr (step_begin s) = bs_csr s"
  by (simp_all add: decode_module_def rename_module_def rob_allocate_def issue_module_def branch_module_def step_begin_def Let_def)

lemma csr_execute_module [simp]: "bs_csr (execute_module s) = bs_csr s"
proof -
  have "bs_csr (execute_lanes is n t) = bs_csr t" for "is" n t
    by (induction "is" arbitrary: n t) (simp_all add: execute_lane_def Let_def)
  then show ?thesis by (simp add: execute_module_def Let_def)
qed

lemma csr_commit:
  assumes "rob_commit_module s p = (s', p')"
  shows "bs_csr s' = (bs_csr s)\<lparr>csr_instret := csr_instret (bs_csr s) + (if rob_commit_valid (bs_rob s') then 1 else 0)\<rparr>"
proof -
  have id: "c = c\<lparr>csr_instret := csr_instret c\<rparr>" for c :: CsrState by simp
  have store: "bs_csr s1 = bs_csr t" if "commit_store t p = Some (s1, p1)" for t s1 p1
    using that by (auto simp: commit_store_def Let_def split: if_split_asm)
  have ex: "bs_csr (commit_exception u t) = bs_csr t" "rob_commit_valid (bs_rob (commit_exception u t)) = rob_commit_valid (bs_rob t)" for u t
    by (simp_all add: commit_exception_def rob_pop_def Let_def)
  have cv: "rob_commit_valid (rob_complete r rob) = rob_commit_valid rob" for r rob
    by (simp add: rob_complete_def Let_def)
  show ?thesis
    using assms store
    by (fastforce simp: rob_commit_module_def commit_head_def commit_retire_def rob_flush_def rob_pop_def ex cv Let_def
        split: if_split_asm option.splits)
qed

text \<open>
  Every step counts one cycle, counts an instruction exactly when one retires in it,
  and leaves every other control register alone.
\<close>
lemma step_counts:
  assumes "boom_core_step s p = (s', p')"
  shows "bs_csr s' = (bs_csr s)\<lparr>csr_cycle := csr_cycle (bs_csr s) + 1,
    csr_instret := csr_instret (bs_csr s) + (if rob_commit_valid (bs_rob s') then 1 else 0)\<rparr>"
proof -
  obtain s1 p1 where l: "lsu_module (branch_module (csr_module (step_begin s))) p = (s1, p1)" by force
  obtain s2 p2 where f: "frontend_module s1 p1 = (s2, p2)" by force
  have "rob_commit_module (execute_module (issue_module (rob_allocate (rename_module (decode_module s2))))) p2 = (s', p')"
    using assms l f by (simp add: boom_core_step_def Let_def)
  from csr_commit [OF this] show ?thesis
    using csr_lsu_module [OF l] csr_frontend_module [OF f] by (simp add: csr_module_def)
qed

lemma step_counts_witness:
  "csr_cycle (bs_csr (fst (boom_core_step BoomCoreState0 PipeSignals0))) = 1"
  using step_counts [of BoomCoreState0 PipeSignals0, OF prod.collapse [symmetric]]
  by (simp add: BoomCoreState0_def CsrState0_def)

section \<open>Runs\<close>

text \<open>
  A run of the core whose surroundings put what they like into the streams before each cycle,
  with the fetch requests it sends.
\<close>

primrec core_run :: "PipeSignals list \<Rightarrow> BoomCoreState \<Rightarrow> BoomCoreState \<times> ImemRequest list" where
  "core_run [] s = (s, [])"
| "core_run (p # ps) s =
    (let (s, p') = boom_core_step s p; (t, reqs) = core_run ps s
     in (t, drop (length (pipe_imem_req p)) (pipe_imem_req p') @ reqs))"

lemma core_run_append:
  "core_run (ps @ qs) s = (let (t, xs) = core_run ps s; (u, ys) = core_run qs t in (u, xs @ ys))"
  by (induction ps arbitrary: s) (simp_all add: Let_def split: prod.splits)

text \<open>What the fetch unit sees: the stages before and behind it leave its state alone.\<close>

definition fetch_frame :: "BoomCoreState \<Rightarrow> FrontendState \<times> BranchUpdate \<times> bool \<times> RobState" where
  "fetch_frame s = (bs_frontend s, bs_brupdate s, bs_global_flush s, rob_state (bs_rob s))"

lemma fetch_frame_set_rob_entry [simp]: "fetch_frame (set_rob_entry i e s) = fetch_frame s"
  by (simp add: fetch_frame_def set_rob_entry_def)

lemma fetch_frame_issue_loads:
  "issue_loads is s p = (s', p') \<Longrightarrow> fetch_frame s' = fetch_frame s \<and> pipe_imem_req p' = pipe_imem_req p \<and> pipe_imem_resp p' = pipe_imem_resp p"
proof (induction "is" arbitrary: s p)
  case (Cons i "is")
  have t: "fetch_frame s1 = fetch_frame s \<and> pipe_imem_req p1 = pipe_imem_req p \<and> pipe_imem_resp p1 = pipe_imem_resp p"
    if "try_issue_load s p idx = (s1, p1)" for idx s1 p1
    using that by (auto simp: try_issue_load_def fetch_frame_def set_rob_entry_def Let_def split: if_split_asm)
  show ?case using Cons.prems Cons.IH t by (fastforce simp: Let_def split: if_split_asm prod.splits)
qed simp

lemma fetch_frame_lsu_module:
  assumes "lsu_module s p = (s', p')" "\<not> bs_global_flush s"
  shows "fetch_frame s' = fetch_frame s" "pipe_imem_req p' = pipe_imem_req p" "pipe_imem_resp p' = pipe_imem_resp p"
proof -
  obtain s1 p1 where r: "lsu_response s p = (s1, p1)" by force
  have "fetch_frame s1 = fetch_frame s \<and> pipe_imem_req p1 = pipe_imem_req p \<and> pipe_imem_resp p1 = pipe_imem_resp p"
    using r by (auto simp: lsu_response_def complete_load_def fetch_frame_def set_rob_entry_def Let_def split: if_split_asm prod.splits)
  moreover have "fetch_frame (lsu_enqueue_lane 0 s1) = fetch_frame s1"
    by (simp add: lsu_enqueue_lane_def fetch_frame_def set_rob_entry_def Let_def)
  moreover have "issue_loads [0..<ROB_DEPTH] (lsu_enqueue_lane 0 s1) p1 = (s', p')"
    using assms r by (simp add: lsu_module_def Let_def)
  ultimately show "fetch_frame s' = fetch_frame s" "pipe_imem_req p' = pipe_imem_req p" "pipe_imem_resp p' = pipe_imem_resp p"
    using fetch_frame_issue_loads by fastforce+
qed

lemma frontend_middle [simp]:
  "bs_frontend (execute_module (issue_module (rob_allocate (rename_module (decode_module s))))) = bs_frontend s"
proof -
  have "bs_frontend (execute_lanes is n t) = bs_frontend t" for "is" n t
    by (induction "is" arbitrary: n t) (simp_all add: execute_lane_def Let_def)
  moreover have "bs_frontend (decode_module t) = bs_frontend t" "bs_frontend (rename_module t) = bs_frontend t"
    "bs_frontend (rob_allocate t) = bs_frontend t" "bs_frontend (issue_module t) = bs_frontend t" for t
    by (simp_all add: decode_module_def rename_module_def rob_allocate_def issue_module_def Let_def)
  ultimately show ?thesis by (simp add: execute_module_def Let_def)
qed

lemma frontend_commit:
  assumes "rob_commit_module s p = (s', p')"
  shows "bs_frontend s' = bs_frontend s" "pipe_imem_req p' = pipe_imem_req p"
proof -
  have store: "bs_frontend s1 = bs_frontend t \<and> pipe_imem_req p1 = pipe_imem_req p" if "commit_store t p = Some (s1, p1)" for t s1 p1
    using that by (auto simp: commit_store_def set_rob_entry_def Let_def split: if_split_asm)
  have ex: "bs_frontend (commit_exception u t) = bs_frontend t" for u t by (simp add: commit_exception_def Let_def)
  have "bs_frontend s' = bs_frontend s \<and> pipe_imem_req p' = pipe_imem_req p"
    using assms store
    by (fastforce simp: rob_commit_module_def commit_head_def commit_retire_def ex Let_def split: if_split_asm option.splits)
  then show "bs_frontend s' = bs_frontend s" "pipe_imem_req p' = pipe_imem_req p" by blast+
qed

text \<open>The state in which the fetch unit runs, up to what the load/store unit changes.\<close>

definition fetch_state :: "BoomCoreState \<Rightarrow> BoomCoreState" where
  "fetch_state s = branch_module (csr_module (step_begin s))"

lemma step_fetches:
  assumes "boom_core_step s p = (s', p')"
  obtains s1 p1 s2 p2 where "fetch_frame s1 = fetch_frame (fetch_state s)" "pipe_imem_req p1 = pipe_imem_req p"
    "frontend_module s1 p1 = (s2, p2)" "bs_frontend s' = bs_frontend s2" "pipe_imem_req p' = pipe_imem_req p2"
proof -
  obtain s1 p1 where l: "lsu_module (fetch_state s) p = (s1, p1)" by force
  obtain s2 p2 where f: "frontend_module s1 p1 = (s2, p2)" by force
  have "\<not> bs_global_flush (fetch_state s)" by (simp add: fetch_state_def step_begin_def csr_module_def branch_module_def)
  note k = fetch_frame_lsu_module [OF l this]
  have "rob_commit_module (execute_module (issue_module (rob_allocate (rename_module (decode_module s2))))) p2 = (s', p')"
    using assms l f by (simp add: boom_core_step_def fetch_state_def Let_def)
  from frontend_commit [OF this] show thesis using that [OF k(1,2) f] by simp
qed

text \<open>The fetch counter of a run, and the identifier the outstanding request carries.\<close>

definition fetch_counts :: "nat \<Rightarrow> BoomCoreState \<Rightarrow> bool" where
  "fetch_counts n s = (fetch_next_id s = word_of_nat n \<and> \<not> fe_flush (bs_frontend s)
     \<and> (fe_request_sent (bs_frontend s) \<longrightarrow> fe_reset_done (bs_frontend s) \<and> 0 < n \<and> fe_pending_fetch_id (bs_frontend s) = word_of_nat (n - 1)))"

definition step_redirects :: "BoomCoreState \<Rightarrow> bool" where
  "step_redirects s = (\<exists>r. r = exe_alu_results (bs_execute s) ! 0 \<and> ar_valid r \<and> ar_mispredict r \<and> is_control (ar_uop r))"

lemma fetch_state_redirects:
  "redirects (fetch_state s) = step_redirects s"
  "redirects (fetch_state s) \<Longrightarrow> bu_jalr_target (bs_brupdate (fetch_state s)) = ar_redirect_pc (exe_alu_results (bs_execute s) ! 0)"
  by (auto simp: redirects_def step_redirects_def fetch_state_def branch_module_def branch_lane_def csr_module_def step_begin_def Let_def)

lemma fetch_step:
  assumes "boom_core_step s p = (s', p')" "fetch_counts n s"
  defines "sends \<equiv> rob_state (bs_rob s) \<noteq> ROB_EXCEPTION \<and> \<not> stream_full (pipe_imem_req p)
    \<and> (\<not> fe_request_sent (bs_frontend s) \<or> step_redirects s)"
  shows "pipe_imem_req p' = pipe_imem_req p @ (if sends then [\<lparr>irq_address =
        (if step_redirects s then align4 (ar_redirect_pc (exe_alu_results (bs_execute s) ! 0))
         else if fe_reset_done (bs_frontend s) then fe_pc (bs_frontend s) else RESET_VECTOR),
        irq_fetch_id = word_of_nat n, irq_kill = False\<rparr>] else [])"
    "fetch_counts (if sends then Suc n else n) s'"
proof -
  let ?f = "fetch_state s"
  obtain s1 p1 s2 p2 where k: "fetch_frame s1 = fetch_frame ?f" "pipe_imem_req p1 = pipe_imem_req p"
    "frontend_module s1 p1 = (s2, p2)" "bs_frontend s' = bs_frontend s2" "pipe_imem_req p' = pipe_imem_req p2"
    using step_fetches [OF assms(1)] by blast
  have f: "bs_frontend ?f = bs_frontend s" "\<not> bs_global_flush ?f" "rob_state (bs_rob ?f) = rob_state (bs_rob s)"
    "bu_valid (bs_brupdate ?f) \<longleftrightarrow> redirects ?f"
    by (auto simp: redirects_def fetch_state_def step_begin_def csr_module_def branch_module_def branch_lane_def Let_def)
  have fr: "bs_frontend s1 = bs_frontend s" "bs_brupdate s1 = bs_brupdate ?f" "\<not> bs_global_flush s1" "rob_state (bs_rob s1) = rob_state (bs_rob s)"
    using k(1) f by (simp_all add: fetch_frame_def)
  have rd: "redirects s1 = step_redirects s" "bu_valid (bs_brupdate s1) = step_redirects s"
    "step_redirects s \<Longrightarrow> bu_jalr_target (bs_brupdate s1) = ar_redirect_pc (exe_alu_results (bs_execute s) ! 0)"
  proof -
    have "redirects s1 = redirects ?f" by (simp add: redirects_def fr(2))
    then show "redirects s1 = step_redirects s" "bu_valid (bs_brupdate s1) = step_redirects s"
      "step_redirects s \<Longrightarrow> bu_jalr_target (bs_brupdate s1) = ar_redirect_pc (exe_alu_results (bs_execute s) ! 0)"
      unfolding fr(2) f(4) using fetch_state_redirects [of s] by simp_all
  qed
  have c: "fetch_next_id s = word_of_nat n" "\<not> fe_flush (bs_frontend s)"
    "fe_request_sent (bs_frontend s) \<Longrightarrow> fe_reset_done (bs_frontend s) \<and> 0 < n \<and> fe_pending_fetch_id (bs_frontend s) = word_of_nat (n - 1)"
    using assms(2) by (simp_all add: fetch_counts_def)
  have s: "fetch_sends s1 p1 = sends"
    using c(2,3) fr rd(1) k(2) by (auto simp: fetch_sends_def fetch_open_def sends_def)
  have id: "fetch_next_id s1 = word_of_nat n" unfolding c(1) [symmetric] by (simp only: fetch_next_id_def fr(1))
  have pc: "fetch_next_pc s1 = (if step_redirects s then align4 (ar_redirect_pc (exe_alu_results (bs_execute s) ! 0))
         else if fe_reset_done (bs_frontend s) then fe_pc (bs_frontend s) else RESET_VECTOR)"
    using rd fr c(2) by (simp add: fetch_next_pc_def)
  note e = frontend_emits [OF k(3), unfolded s id]
  show "pipe_imem_req p' = pipe_imem_req p @ (if sends then [\<lparr>irq_address =
        (if step_redirects s then align4 (ar_redirect_pc (exe_alu_results (bs_execute s) ! 0))
         else if fe_reset_done (bs_frontend s) then fe_pc (bs_frontend s) else RESET_VECTOR),
        irq_fetch_id = word_of_nat n, irq_kill = False\<rparr>] else [])"
    using e(1) k(2,5) pc by simp
  have fl: "\<not> fe_flush (bs_frontend s')" using e(6) k(4) fr(1,3) c(2) by auto
  show "fetch_counts (if sends then Suc n else n) s'"
  proof (cases sends)
    case True
    have "fe_fetch_id (bs_frontend s') = word_of_nat (Suc n)" "fe_pending_fetch_id (bs_frontend s') = word_of_nat n"
      using e(2,3) k(4) True by (simp_all add: add.commute)
    then show ?thesis using True e(4) k(4) fl by (simp add: fetch_counts_def fetch_next_id_def)
  next
    case False
    have "fe_fetch_id (bs_frontend s') = word_of_nat n" "fe_pending_fetch_id (bs_frontend s') = fe_pending_fetch_id (bs_frontend s)"
      "fe_request_sent (bs_frontend s') \<Longrightarrow> fe_request_sent (bs_frontend s)"
      using e(2,3,5) k(4) False fr(1) by simp_all
    then show ?thesis using False e(4) k(4) fl c(3) by (simp add: fetch_counts_def fetch_next_id_def)
  qed
qed

lemma core_run_fetches:
  assumes "core_run ps s = (t, reqs)" "fetch_counts n s"
  shows "map irq_fetch_id reqs = map word_of_nat [n..<n + length reqs] \<and> length reqs \<le> length ps \<and> fetch_counts (n + length reqs) t"
  using assms
proof (induction ps arbitrary: s n reqs)
  case (Cons p ps)
  obtain s1 p1 where st: "boom_core_step s p = (s1, p1)" by force
  obtain rs where rs: "core_run ps s1 = (t, rs)" "reqs = drop (length (pipe_imem_req p)) (pipe_imem_req p1) @ rs"
    using Cons.prems(1) st by (auto simp: Let_def split: prod.splits)
  from fetch_step [OF st Cons.prems(2)] obtain new where new: "pipe_imem_req p1 = pipe_imem_req p @ new"
    "map irq_fetch_id new = map word_of_nat [n..<n + length new]" "length new \<le> 1" "fetch_counts (n + length new) s1"
    by (auto split: if_splits)
  have up: "[n..<n + (length new + length rs)] = [n..<n + length new] @ [n + length new..<n + length new + length rs]"
    using upt_add_eq_append [of n "n + length new" "length rs"] by (simp add: add.assoc)
  have reqs: "reqs = new @ rs" using rs(2) new(1) by simp
  note IH = Cons.IH [OF rs(1) new(4)]
  have "map irq_fetch_id reqs = map word_of_nat [n..<n + length reqs]"
    unfolding reqs length_append map_append up using IH new(2) by simp
  then show ?case using IH new(3) by (simp add: reqs add.assoc)
qed simp

text \<open>
  C18: The fetch protocol over whole runs. From reset, whatever the surroundings put into the
  streams before each cycle, the requests of the run carry the identifiers 0, 1, 2, and so on
  in 32 bits, at most one per cycle, so any \<open>2 ^ 32\<close> consecutive ones are told apart; and the
  next cycle sends a request exactly when the reorder buffer is not in its exception state,
  the request stream has room, and no request is outstanding or the one that is gets dropped
  by a mispredict. That request is for the redirect target in the second case, else for the
  program counter, the reset vector in the first cycle. While a request is outstanding, the
  identifier waited for is that of the last request sent.
\<close>
theorem frontend_request_ids:
  assumes "core_run ps BoomCoreState0 = (s, reqs)" "boom_core_step s p = (s', p')"
  defines "fe \<equiv> bs_frontend s" and "r \<equiv> exe_alu_results (bs_execute s) ! 0"
  defines "redirect \<equiv> ar_valid r \<and> ar_mispredict r \<and> is_control (ar_uop r)"
  shows "map irq_fetch_id reqs = map word_of_nat [0..<length reqs] \<and> length reqs \<le> length ps
    \<and> pipe_imem_req p' = pipe_imem_req p @
        (if rob_state (bs_rob s) \<noteq> ROB_EXCEPTION \<and> \<not> stream_full (pipe_imem_req p) \<and> (\<not> fe_request_sent fe \<or> redirect)
         then [\<lparr>irq_address = (if redirect then align4 (ar_redirect_pc r) else if fe_reset_done fe then fe_pc fe else RESET_VECTOR),
                irq_fetch_id = word_of_nat (length reqs), irq_kill = False\<rparr>]
         else [])
    \<and> (fe_request_sent fe \<longrightarrow> reqs \<noteq> [] \<and> fe_pending_fetch_id fe = irq_fetch_id (last reqs))"
proof -
  have "fetch_counts 0 BoomCoreState0"
    by (simp add: fetch_counts_def fetch_next_id_def BoomCoreState0_def FrontendState0_def)
  from core_run_fetches [OF assms(1) this] have k: "map irq_fetch_id reqs = map word_of_nat [0..<length reqs]"
    "length reqs \<le> length ps" "fetch_counts (length reqs) s" by simp_all
  have "reqs \<noteq> [] \<and> fe_pending_fetch_id fe = irq_fetch_id (last reqs)" if "fe_request_sent fe"
  proof -
    have n: "0 < length reqs" "fe_pending_fetch_id fe = word_of_nat (length reqs - 1)"
      using k(3) that by (simp_all add: fetch_counts_def fe_def)
    have "irq_fetch_id (last reqs) = map irq_fetch_id reqs ! (length reqs - 1)" using n(1) by (simp add: last_conv_nth)
    also have "\<dots> = word_of_nat ([0..<length reqs] ! (length reqs - 1))"
      unfolding k(1) using n(1) by (intro nth_map) simp
    also have "\<dots> = fe_pending_fetch_id fe" unfolding n(2) using n(1) by (subst nth_upt) simp_all
    finally show ?thesis using n(1) by auto
  qed
  then show ?thesis
    using k(1,2) fetch_step(1) [OF assms(2) k(3)] by (auto simp: step_redirects_def redirect_def r_def fe_def)
qed

text \<open>Two cycles from reset without an answer: one request, then none.\<close>

lemma frontend_request_ids_witness:
  "map irq_fetch_id (snd (core_run [PipeSignals0] BoomCoreState0)) = [0]
   \<and> pipe_imem_req (snd (boom_core_step (fst (core_run [PipeSignals0] BoomCoreState0)) PipeSignals0)) = []"
proof -
  let ?s = "fst (core_run [PipeSignals0] BoomCoreState0)"
  have v: "fe_request_sent (bs_frontend ?s)" "length (snd (core_run [PipeSignals0] BoomCoreState0)) = 1"
    "\<not> ar_valid (exe_alu_results (bs_execute ?s) ! 0)" "pipe_imem_req PipeSignals0 = []" by code_simp+
  show ?thesis
    using frontend_request_ids [OF prod.collapse [symmetric] prod.collapse [symmetric], of "[PipeSignals0]" PipeSignals0] v by simp
qed

section \<open>The load and store queues\<close>

text \<open>The entries of the two queues, and the shape the pushes keep: the heads never move.\<close>

definition ldq_items :: "LsuState \<Rightarrow> LoadQueueEntry list" where
  "ldq_items l = take (unat (lsu_ldq_count l)) (lsu_ldq l)"

definition stq_items :: "LsuState \<Rightarrow> StoreQueueEntry list" where
  "stq_items l = take (unat (lsu_stq_count l)) (lsu_stq l)"

definition queues_shape :: "LsuState \<Rightarrow> bool" where
  "queues_shape l = (length (lsu_ldq l) = LDQ_DEPTH \<and> unat (lsu_ldq_count l) \<le> LDQ_DEPTH
     \<and> unat (lsu_ldq_tail l) = unat (lsu_ldq_count l) mod LDQ_DEPTH \<and> list_all lq_valid (ldq_items l)
     \<and> length (lsu_stq l) = STQ_DEPTH \<and> unat (lsu_stq_count l) \<le> STQ_DEPTH
     \<and> unat (lsu_stq_tail l) = unat (lsu_stq_count l) mod STQ_DEPTH \<and> list_all sq_valid (stq_items l))"

definition lsu_queues :: "LsuState \<Rightarrow> LoadQueueEntry list \<times> u8 \<times> u8 \<times> StoreQueueEntry list \<times> u8 \<times> u8" where
  "lsu_queues l = (lsu_ldq l, lsu_ldq_count l, lsu_ldq_tail l, lsu_stq l, lsu_stq_count l, lsu_stq_tail l)"

lemma same_queues:
  assumes "lsu_queues l' = lsu_queues l"
  shows "ldq_items l' = ldq_items l" "stq_items l' = stq_items l" "lsu_ldq l' = lsu_ldq l" "lsu_stq l' = lsu_stq l"
    "queues_shape l' = queues_shape l"
  using assms by (simp_all add: lsu_queues_def ldq_items_def stq_items_def queues_shape_def)

lemma take_Suc_update: "n < length xs \<Longrightarrow> take (Suc n) (xs[n := x]) = take n xs @ [x]"
  by (simp add: take_Suc_conv_app_nth)

text \<open>The entry a push records, and its effect.\<close>

definition ldq_entry :: "AluResult \<Rightarrow> LoadQueueEntry \<Rightarrow> bool" where
  "ldq_entry r q = (lq_valid q \<and> lq_rob_idx q = qi_rob_idx (uop_queue (ar_uop r)) \<and> lq_address q = ar_memory_address r
     \<and> lq_size q = ar_memory_size r \<and> lq_signed_load q = ar_signed_load r)"

definition stq_entry :: "AluResult \<Rightarrow> StoreQueueEntry \<Rightarrow> bool" where
  "stq_entry r q = (sq_valid q \<and> sq_rob_idx q = qi_rob_idx (uop_queue (ar_uop r)) \<and> sq_address q = ar_memory_address r
     \<and> sq_data q = ar_store_data r \<and> sq_mask q = ar_memory_mask r \<and> sq_size q = ar_memory_size r)"

lemma ldq_push_items:
  assumes "queues_shape l"
  shows "queues_shape (ldq_push r l)" "stq_items (ldq_push r l) = stq_items l" "lsu_stq (ldq_push r l) = lsu_stq l"
    "if length (ldq_items l) < LDQ_DEPTH then \<exists>q. ldq_entry r q \<and> ldq_items (ldq_push r l) = ldq_items l @ [q] else ldq_push r l = l"
proof -
  define c where "c = unat (lsu_ldq_count l)"
  have l: "length (lsu_ldq l) = 8" "c \<le> 8" "unat (lsu_ldq_tail l) = c mod 8" "list_all lq_valid (ldq_items l)"
    using assms by (simp_all add: queues_shape_def c_def)
  have len: "length (ldq_items l) = c" using l by (simp add: ldq_items_def c_def)
  show stq: "stq_items (ldq_push r l) = stq_items l" "lsu_stq (ldq_push r l) = lsu_stq l"
    by (simp_all add: ldq_push_def stq_items_def Let_def)
  have "queues_shape (ldq_push r l) \<and>
    (if length (ldq_items l) < LDQ_DEPTH then \<exists>q. ldq_entry r q \<and> ldq_items (ldq_push r l) = ldq_items l @ [q] else ldq_push r l = l)"
  proof (cases "c < 8")
    case False
    then show ?thesis using assms len by (simp add: ldq_push_def c_def)
  next
    case True
    define q where "q = (lsu_ldq l ! c)\<lparr>lq_valid := True, lq_rob_idx := qi_rob_idx (uop_queue (ar_uop r)),
       lq_address := ar_memory_address r, lq_size := ar_memory_size r, lq_signed_load := ar_signed_load r,
       lq_branch_mask := bi_br_mask (uop_branch (ar_uop r))\<rparr>"
    have tail: "unat (lsu_ldq_tail l) = c" using l True by simp
    have push: "ldq_push r l = l\<lparr>lsu_ldq := (lsu_ldq l)[c := q], lsu_ldq_tail := inc_mod LDQ_DEPTH (lsu_ldq_tail l),
        lsu_ldq_count := lsu_ldq_count l + 1\<rparr>"
      using True tail by (simp add: ldq_push_def q_def Let_def flip: c_def)
    have cnt: "unat (lsu_ldq_count l + 1) = Suc c" using True unat_plus_one [of "lsu_ldq_count l"] by (simp add: c_def)
    have items: "ldq_items (ldq_push r l) = ldq_items l @ [q]"
      using l True by (simp add: push ldq_items_def cnt take_Suc_update flip: c_def)
    have q: "ldq_entry r q" "lq_valid q" by (simp_all add: ldq_entry_def q_def)
    have tl: "unat (lsu_ldq_tail (ldq_push r l)) = Suc c mod 8" using tail by (simp add: push)
    have fl: "lsu_stq_count (ldq_push r l) = lsu_stq_count l" "lsu_stq_tail (ldq_push r l) = lsu_stq_tail l"
      "lsu_ldq_count (ldq_push r l) = lsu_ldq_count l + 1" "length (lsu_ldq (ldq_push r l)) = 8"
      using l(1) by (simp_all add: push)
    have "list_all lq_valid (ldq_items (ldq_push r l))" using l(4) q(2) by (simp add: items)
    then have "queues_shape (ldq_push r l)"
      using assms True tl stq by (simp add: queues_shape_def fl cnt)
    then show ?thesis using items q(1) True len by auto
  qed
  then show "queues_shape (ldq_push r l)"
    "if length (ldq_items l) < LDQ_DEPTH then \<exists>q. ldq_entry r q \<and> ldq_items (ldq_push r l) = ldq_items l @ [q] else ldq_push r l = l"
    by blast+
qed

lemma stq_push_items:
  assumes "queues_shape l"
  shows "queues_shape (stq_push r l)" "ldq_items (stq_push r l) = ldq_items l" "lsu_ldq (stq_push r l) = lsu_ldq l"
    "if length (stq_items l) < STQ_DEPTH then \<exists>q. stq_entry r q \<and> stq_items (stq_push r l) = stq_items l @ [q] else stq_push r l = l"
proof -
  define c where "c = unat (lsu_stq_count l)"
  have l: "length (lsu_stq l) = 8" "c \<le> 8" "unat (lsu_stq_tail l) = c mod 8" "list_all sq_valid (stq_items l)"
    using assms by (simp_all add: queues_shape_def c_def)
  have len: "length (stq_items l) = c" using l by (simp add: stq_items_def c_def)
  show ldq: "ldq_items (stq_push r l) = ldq_items l" "lsu_ldq (stq_push r l) = lsu_ldq l"
    by (simp_all add: stq_push_def ldq_items_def Let_def)
  have "queues_shape (stq_push r l) \<and>
    (if length (stq_items l) < STQ_DEPTH then \<exists>q. stq_entry r q \<and> stq_items (stq_push r l) = stq_items l @ [q] else stq_push r l = l)"
  proof (cases "c < 8")
    case False
    then show ?thesis using assms len by (simp add: stq_push_def c_def)
  next
    case True
    define q where "q = (lsu_stq l ! c)\<lparr>sq_valid := True, sq_rob_idx := qi_rob_idx (uop_queue (ar_uop r)),
       sq_address_valid := True, sq_address := ar_memory_address r, sq_data_valid := True, sq_data := ar_store_data r,
       sq_mask := ar_memory_mask r, sq_size := ar_memory_size r, sq_branch_mask := bi_br_mask (uop_branch (ar_uop r))\<rparr>"
    have tail: "unat (lsu_stq_tail l) = c" using l True by simp
    have push: "stq_push r l = l\<lparr>lsu_stq := (lsu_stq l)[c := q], lsu_stq_tail := inc_mod STQ_DEPTH (lsu_stq_tail l),
        lsu_stq_count := lsu_stq_count l + 1\<rparr>"
      using True tail by (simp add: stq_push_def q_def Let_def flip: c_def)
    have cnt: "unat (lsu_stq_count l + 1) = Suc c" using True unat_plus_one [of "lsu_stq_count l"] by (simp add: c_def)
    have items: "stq_items (stq_push r l) = stq_items l @ [q]"
      using l True by (simp add: push stq_items_def cnt take_Suc_update flip: c_def)
    have q: "stq_entry r q" "sq_valid q" by (simp_all add: stq_entry_def q_def)
    have tl: "unat (lsu_stq_tail (stq_push r l)) = Suc c mod 8" using tail by (simp add: push)
    have fl: "lsu_ldq_count (stq_push r l) = lsu_ldq_count l" "lsu_ldq_tail (stq_push r l) = lsu_ldq_tail l"
      "lsu_stq_count (stq_push r l) = lsu_stq_count l + 1" "length (lsu_stq (stq_push r l)) = 8"
      using l(1) by (simp_all add: push)
    have "list_all sq_valid (stq_items (stq_push r l))" using l(4) q(2) by (simp add: items)
    then have "queues_shape (stq_push r l)"
      using assms True tl ldq by (simp add: queues_shape_def fl cnt)
    then show ?thesis using items q(1) True len by auto
  qed
  then show "queues_shape (stq_push r l)"
    "if length (stq_items l) < STQ_DEPTH then \<exists>q. stq_entry r q \<and> stq_items (stq_push r l) = stq_items l @ [q] else stq_push r l = l"
    by blast+
qed

text \<open>What one result of the execute stage adds to the queues.\<close>

definition mem_result :: "BoomCoreState \<Rightarrow> AluResult \<Rightarrow> bool" where
  "mem_result s r = (ar_valid r \<and> ar_memory_valid r \<and> unat (qi_rob_idx (uop_queue (ar_uop r))) < ROB_DEPTH
     \<and> re_valid (rob_entries (bs_rob s) ! unat (qi_rob_idx (uop_queue (ar_uop r)))))"

definition queues_step :: "BoomCoreState \<Rightarrow> LsuState \<Rightarrow> LsuState \<Rightarrow> bool" where
  "queues_step s l l' = (let r = exe_alu_results (bs_execute s) ! 0 in queues_shape l'
     \<and> (if mem_result s r \<and> \<not> ar_is_store r \<and> ar_is_load r \<and> length (ldq_items l) < LDQ_DEPTH
        then \<exists>q. ldq_entry r q \<and> ldq_items l' = ldq_items l @ [q] else lsu_ldq l' = lsu_ldq l \<and> ldq_items l' = ldq_items l)
     \<and> (if mem_result s r \<and> ar_is_store r \<and> length (stq_items l) < STQ_DEPTH
        then \<exists>q. stq_entry r q \<and> stq_items l' = stq_items l @ [q] else lsu_stq l' = lsu_stq l \<and> stq_items l' = stq_items l))"

lemma queues_step_cong:
  assumes "bs_execute s = bs_execute t" "\<And>r. mem_result s r = mem_result t r" "lsu_queues l = lsu_queues k" "lsu_queues l' = lsu_queues k'"
  shows "queues_step s l l' = queues_step t k k'"
  unfolding queues_step_def assms(1,2) same_queues [OF assms(3)] same_queues [OF assms(4)] by (rule refl)

lemma lsu_set_rob_entry [simp]: "bs_lsu (set_rob_entry i e s) = bs_lsu s"
  by (simp add: set_rob_entry_def)

lemma queues_enqueue:
  assumes "queues_shape (bs_lsu s)"
  shows "queues_step s (bs_lsu s) (bs_lsu (lsu_enqueue_lane 0 s))"
proof -
  define r where "r = exe_alu_results (bs_execute s) ! 0"
  note ld = ldq_push_items [OF assms, of r] and st = stq_push_items [OF assms, of r]
  have lane: "bs_lsu (lsu_enqueue_lane 0 s) = (if \<not> mem_result s r then bs_lsu s else if ar_is_store r then stq_push r (bs_lsu s)
      else if ar_is_load r then ldq_push r (bs_lsu s) else bs_lsu s)"
    by (auto simp: lsu_enqueue_lane_def mem_result_def Let_def simp flip: r_def)
  consider (none) "\<not> mem_result s r \<or> \<not> ar_is_store r \<and> \<not> ar_is_load r" | (store) "mem_result s r" "ar_is_store r"
    | (load) "mem_result s r" "\<not> ar_is_store r" "ar_is_load r" by blast
  then show ?thesis
  proof cases
    case none
    then show ?thesis using assms unfolding queues_step_def lane Let_def r_def [symmetric] by auto
  next
    case store
    then show ?thesis using st unfolding queues_step_def lane Let_def r_def [symmetric]
      by (cases "length (stq_items (bs_lsu s)) < STQ_DEPTH") simp_all
  next
    case load
    then show ?thesis using ld unfolding queues_step_def lane Let_def r_def [symmetric]
      by (cases "length (ldq_items (bs_lsu s)) < LDQ_DEPTH") simp_all
  qed
qed

lemma lsu_queues_issue_loads: "issue_loads is s p = (s', p') \<Longrightarrow> lsu_queues (bs_lsu s') = lsu_queues (bs_lsu s)"
proof (induction "is" arbitrary: s p)
  case (Cons i "is")
  have t: "lsu_queues (bs_lsu s1) = lsu_queues (bs_lsu s)" if "try_issue_load s p idx = (s1, p1)" for idx s1 p1
    using that by (auto simp: try_issue_load_def lsu_queues_def Let_def split: if_split_asm)
  show ?case using Cons.prems Cons.IH t by (fastforce simp: Let_def split: if_split_asm prod.splits)
qed simp

lemma response_queues:
  assumes "lsu_response s p = (s', p')"
  shows "lsu_queues (bs_lsu s') = lsu_queues (bs_lsu s)" "bs_execute s' = bs_execute s" "mem_result s' r = mem_result s r"
proof -
  have e: "re_valid ((rob_entries (bs_rob (complete_load resp i s))) ! k) = re_valid (rob_entries (bs_rob s) ! k)"
    "bs_execute (complete_load resp i s) = bs_execute s" for resp i k
    by (simp_all add: complete_load_def set_rob_entry_def nth_update_same [where f = re_valid] Let_def)
  have "lsu_queues (bs_lsu s') = lsu_queues (bs_lsu s) \<and> bs_execute s' = bs_execute s
      \<and> (\<forall>k. re_valid (rob_entries (bs_rob s') ! k) = re_valid (rob_entries (bs_rob s) ! k))"
    using assms by (auto simp: lsu_response_def lsu_queues_def e Let_def split: if_split_asm prod.splits)
  then show "lsu_queues (bs_lsu s') = lsu_queues (bs_lsu s)" "bs_execute s' = bs_execute s" "mem_result s' r = mem_result s r"
    by (simp_all add: mem_result_def)
qed

lemma queues_lsu_module:
  assumes "lsu_module s p = (s', p')" "\<not> bs_global_flush s" "queues_shape (bs_lsu s)"
  shows "queues_step s (bs_lsu s) (bs_lsu s')"
proof -
  obtain s1 p1 where r: "lsu_response s p = (s1, p1)" by force
  note k = response_queues [OF r]
  have "issue_loads [0..<ROB_DEPTH] (lsu_enqueue_lane 0 s1) p1 = (s', p')"
    using assms(1,2) r by (simp add: lsu_module_def Let_def)
  note i = lsu_queues_issue_loads [OF this]
  have "queues_step s1 (bs_lsu s1) (bs_lsu (lsu_enqueue_lane 0 s1))"
    by (rule queues_enqueue) (simp add: same_queues [OF k(1)] assms(3))
  then show ?thesis using queues_step_cong [OF k(2,3,1) i [symmetric]] by simp
qed

lemma lsu_frontend_module: "frontend_module s p = (s', p') \<Longrightarrow> bs_lsu s' = bs_lsu s"
proof -
  have "bs_lsu (frontend_redirect (frontend_reset (frontend_flush_mark s))) = bs_lsu s" "bs_lsu (frontend_flush t) = bs_lsu t" for t
    by (simp_all add: frontend_redirect_def frontend_reset_def frontend_flush_mark_def frontend_flush_def)
  then show "frontend_module s p = (s', p') \<Longrightarrow> bs_lsu s' = bs_lsu s"
    by (auto simp: frontend_module_def Let_def split: if_split_asm prod.splits)
qed

lemma lsu_middle [simp]: "bs_lsu (execute_module (issue_module (rob_allocate (rename_module (decode_module s))))) = bs_lsu s"
proof -
  have "bs_lsu (execute_lanes is n t) = bs_lsu t" for "is" n t
    by (induction "is" arbitrary: n t) (simp_all add: execute_lane_def Let_def)
  moreover have "bs_lsu (decode_module t) = bs_lsu t" "bs_lsu (rename_module t) = bs_lsu t" "bs_lsu (rob_allocate t) = bs_lsu t"
    "bs_lsu (issue_module t) = bs_lsu t" for t
    by (simp_all add: decode_module_def rename_module_def rob_allocate_def issue_module_def Let_def)
  ultimately show ?thesis by (simp add: execute_module_def Let_def)
qed

lemma lsu_queues_commit:
  assumes "rob_commit_module s p = (s', p')"
  shows "lsu_queues (bs_lsu s') = lsu_queues (bs_lsu s)"
proof -
  have store: "lsu_queues (bs_lsu s1) = lsu_queues (bs_lsu t)" if "commit_store t p = Some (s1, p1)" for t s1 p1
    using that by (auto simp: commit_store_def lsu_queues_def Let_def split: if_split_asm)
  have ex: "bs_lsu (commit_exception u t) = bs_lsu t" for u t by (simp add: commit_exception_def Let_def)
  show ?thesis
    using assms store
    by (fastforce simp: rob_commit_module_def commit_head_def commit_retire_def ex Let_def split: if_split_asm option.splits)
qed

lemma queues_core_step:
  assumes "boom_core_step s p = (s', p')" "queues_shape (bs_lsu s)"
  shows "queues_step s (bs_lsu s) (bs_lsu s')"
proof -
  obtain s1 p1 where l: "lsu_module (fetch_state s) p = (s1, p1)" by force
  obtain s2 p2 where f: "frontend_module s1 p1 = (s2, p2)" by force
  have x: "\<not> bs_global_flush (fetch_state s)" "bs_lsu (fetch_state s) = bs_lsu s" "bs_execute (fetch_state s) = bs_execute s"
    "bs_rob (fetch_state s) = bs_rob s"
    by (simp_all add: fetch_state_def step_begin_def csr_module_def branch_module_def)
  have g: "queues_step (fetch_state s) (bs_lsu s) (bs_lsu s1)" using queues_lsu_module [OF l x(1)] assms(2) by (simp add: x(2))
  have "rob_commit_module (execute_module (issue_module (rob_allocate (rename_module (decode_module s2))))) p2 = (s', p')"
    using assms(1) l f by (simp add: boom_core_step_def fetch_state_def Let_def)
  from lsu_queues_commit [OF this] have q: "lsu_queues (bs_lsu s') = lsu_queues (bs_lsu s1)"
    using lsu_frontend_module [OF f] by simp
  show ?thesis
    using g queues_step_cong [of "fetch_state s" s "bs_lsu s" "bs_lsu s" "bs_lsu s1" "bs_lsu s'"] q x by (simp add: mem_result_def)
qed

lemma queues_step_grows:
  "queues_step s l l' \<Longrightarrow> queues_shape l' \<and> (\<exists>ls ss. ldq_items l' = ldq_items l @ ls \<and> stq_items l' = stq_items l @ ss)"
  unfolding queues_step_def Let_def by (metis append_Nil2)

lemma queues_run:
  "queues_shape (bs_lsu s) \<Longrightarrow> queues_shape (bs_lsu (fst (core_run ps s)))
    \<and> (\<exists>ls ss. ldq_items (bs_lsu (fst (core_run ps s))) = ldq_items (bs_lsu s) @ ls
        \<and> stq_items (bs_lsu (fst (core_run ps s))) = stq_items (bs_lsu s) @ ss)"
proof (induction ps arbitrary: s)
  case (Cons p ps)
  obtain s1 p1 where st: "boom_core_step s p = (s1, p1)" by force
  have r: "fst (core_run (p # ps) s) = fst (core_run ps s1)" using st by (simp add: Let_def split: prod.splits)
  note g = queues_step_grows [OF queues_core_step [OF st Cons.prems]]
  show ?case using g Cons.IH [of s1] unfolding r by (metis append.assoc)
qed simp

text \<open>
  C24: The load and store queues only fill. In every state a run reaches from reset, with any
  traffic on the streams, both queues hold at most eight entries, all of them valid. The next
  cycle appends to the load queue exactly when the result of the execute stage is a load of a
  valid reorder buffer entry and the queue has room, and then one entry with that load's index,
  address and size; otherwise the array and its entries stay exactly as they are, also when a
  load comes and the queue is full. The same holds for stores and the store queue. No cycle
  takes an entry out: whatever run follows, today's entries stay the first ones. So after eight
  loads, retired or squashed, no later load is ever recorded.
\<close>
theorem lsu_queues_never_drain:
  assumes "core_run ps BoomCoreState0 = (s, reqs)" "boom_core_step s p = (s', p')" "core_run qs s = (t, reqs')"
  defines "l \<equiv> bs_lsu s" and "l' \<equiv> bs_lsu s'" and "r \<equiv> exe_alu_results (bs_execute s) ! 0"
  defines "idx \<equiv> unat (qi_rob_idx (uop_queue (ar_uop r)))"
  defines "memory \<equiv> ar_valid r \<and> ar_memory_valid r \<and> idx < ROB_DEPTH \<and> re_valid (rob_entries (bs_rob s) ! idx)"
  shows "length (ldq_items l) \<le> LDQ_DEPTH \<and> list_all lq_valid (ldq_items l) \<and> length (stq_items l) \<le> STQ_DEPTH \<and> list_all sq_valid (stq_items l)
    \<and> (if memory \<and> \<not> ar_is_store r \<and> ar_is_load r \<and> length (ldq_items l) < LDQ_DEPTH
       then \<exists>q. ldq_items l' = ldq_items l @ [q] \<and> lq_valid q \<and> unat (lq_rob_idx q) = idx \<and> lq_address q = ar_memory_address r
         \<and> lq_size q = ar_memory_size r
       else lsu_ldq l' = lsu_ldq l \<and> ldq_items l' = ldq_items l)
    \<and> (if memory \<and> ar_is_store r \<and> length (stq_items l) < STQ_DEPTH
       then \<exists>q. stq_items l' = stq_items l @ [q] \<and> sq_valid q \<and> unat (sq_rob_idx q) = idx \<and> sq_address q = ar_memory_address r
         \<and> sq_data q = ar_store_data r \<and> sq_size q = ar_memory_size r
       else lsu_stq l' = lsu_stq l \<and> stq_items l' = stq_items l)
    \<and> (\<exists>ls ss. ldq_items (bs_lsu t) = ldq_items l @ ls \<and> stq_items (bs_lsu t) = stq_items l @ ss)"
proof -
  have "queues_shape (bs_lsu BoomCoreState0)" by code_simp
  from queues_run [OF this, of ps] have sh: "queues_shape l" using assms(1) by (simp add: l_def)
  have m: "mem_result s r = memory" by (simp add: mem_result_def memory_def idx_def)
  have b: "length (ldq_items l) \<le> 8" "length (stq_items l) \<le> 8" "list_all lq_valid (ldq_items l)" "list_all sq_valid (stq_items l)"
    using sh by (simp_all add: queues_shape_def ldq_items_def stq_items_def)
  have st: "queues_step s l l'" using queues_core_step [OF assms(2)] sh by (simp add: l_def l'_def)
  have run: "\<exists>ls ss. ldq_items (bs_lsu t) = ldq_items l @ ls \<and> stq_items (bs_lsu t) = stq_items l @ ss"
    using queues_run [of s qs] sh assms(3) by (simp add: l_def)
  have "if memory \<and> \<not> ar_is_store r \<and> ar_is_load r \<and> length (ldq_items l) < LDQ_DEPTH
       then \<exists>q. ldq_items l' = ldq_items l @ [q] \<and> lq_valid q \<and> unat (lq_rob_idx q) = idx \<and> lq_address q = ar_memory_address r
         \<and> lq_size q = ar_memory_size r
       else lsu_ldq l' = lsu_ldq l \<and> ldq_items l' = ldq_items l"
    using st unfolding queues_step_def Let_def r_def [symmetric] m by (auto simp: ldq_entry_def idx_def split: if_split_asm)
  moreover have "if memory \<and> ar_is_store r \<and> length (stq_items l) < STQ_DEPTH
       then \<exists>q. stq_items l' = stq_items l @ [q] \<and> sq_valid q \<and> unat (sq_rob_idx q) = idx \<and> sq_address q = ar_memory_address r
         \<and> sq_data q = ar_store_data r \<and> sq_size q = ar_memory_size r
       else lsu_stq l' = lsu_stq l \<and> stq_items l' = stq_items l"
    using st unfolding queues_step_def Let_def r_def [symmetric] m by (auto simp: stq_entry_def idx_def split: if_split_asm)
  ultimately show ?thesis using b run by blast
qed

text \<open>A load from address 0 behind reset: its result is recorded in the third cycle.\<close>

definition load_run :: "PipeSignals list" where
  "load_run = [PipeSignals0, PipeSignals0\<lparr>pipe_imem_resp := [ImemResponse0\<lparr>irs_address := RESET_VECTOR, irs_fetch_id := 0,
     irs_instruction := 0x00003083\<rparr>]\<rparr>]"

lemma load_run_executes:
  "(\<lambda>(s, reqs). (\<lambda>r. ar_valid r \<and> ar_memory_valid r \<and> unat (qi_rob_idx (uop_queue (ar_uop r))) < ROB_DEPTH
     \<and> re_valid (rob_entries (bs_rob s) ! unat (qi_rob_idx (uop_queue (ar_uop r)))) \<and> \<not> ar_is_store r \<and> ar_is_load r
     \<and> ldq_items (bs_lsu s) = [] \<and> ar_memory_address r = 0 \<and> ar_memory_size r = 3) (exe_alu_results (bs_execute s) ! 0))
   (core_run load_run BoomCoreState0)"
  by code_simp

lemma lsu_queues_never_drain_witness:
  "\<exists>q. ldq_items (bs_lsu (fst (boom_core_step (fst (core_run load_run BoomCoreState0)) PipeSignals0))) = [q]
    \<and> lq_address q = 0 \<and> lq_size q = 3"
proof -
  obtain s reqs where s: "core_run load_run BoomCoreState0 = (s, reqs)" by force
  note v = load_run_executes [unfolded s split]
  show ?thesis unfolding s fst_conv
    using lsu_queues_never_drain [OF s prod.collapse [symmetric, of "boom_core_step s PipeSignals0"] prod.collapse [symmetric, of "core_run [] s"]] v
    by auto
qed

end
