(* ===== verification/Stages.thy ===== *)
theory Stages
  imports CoreStep
begin

text \<open>
  What each stage does when at most one micro-operation is in flight: the equations that the
  refinement of the instruction set chains together. Each is stated under the conditions on
  the fields the stage reads only.
\<close>

section \<open>Load/store unit\<close>

definition no_loads :: "RobInternalState \<Rightarrow> bool" where
  "no_loads rob = (\<forall>e \<in> set (rob_entries rob). \<not> (re_valid e \<and> re_is_load e))"

lemma issue_loads_idle:
  assumes "no_loads (bs_rob s)" "length (rob_entries (bs_rob s)) = ROB_DEPTH"
    "\<not> lsu_load_response_pending (bs_lsu s)"
  shows "issue_loads is s pipe = (s, pipe)"
proof (induction "is")
  case (Cons i "is")
  let ?idx = "word_of_nat ((unat (rob_head (bs_rob s)) + i) mod ROB_DEPTH) :: u8"
  have "(unat (rob_head (bs_rob s)) + i) mod ROB_DEPTH < ROB_DEPTH" by simp
  then have "unat ?idx < length (rob_entries (bs_rob s))"
    using assms(2) by (simp add: unat_of_nat take_bit_nat_eq_self)
  then have "rob_entries (bs_rob s) ! unat ?idx \<in> set (rob_entries (bs_rob s))" by simp
  then have "\<not> can_issue_load s pipe ?idx"
    using assms(1) by (auto simp: no_loads_def can_issue_load_def Let_def)
  then show ?case using Cons assms(3) by (simp add: try_issue_load_def Let_def)
qed simp

lemma lsu_idle:
  assumes "\<not> bs_global_flush s" "pipe_dmem_resp pipe = []" "exe_alu_results (bs_execute s) = [r]"
    "\<not> (ar_valid r \<and> ar_memory_valid r)" "no_loads (bs_rob s)"
    "length (rob_entries (bs_rob s)) = ROB_DEPTH" "\<not> lsu_load_response_pending (bs_lsu s)"
  shows "lsu_module s pipe = (s, pipe)"
  using assms issue_loads_idle [OF assms(5-7)]
  by (auto simp: lsu_module_def lsu_response_def stream_empty_def lsu_enqueue_lane_def)

lemma lsu_store:
  assumes "\<not> bs_global_flush s" "pipe_dmem_resp pipe = []" "exe_alu_results (bs_execute s) = [r]"
    "ar_valid r" "ar_memory_valid r" "ar_is_store r" "no_loads (bs_rob s)"
    "length (rob_entries (bs_rob s)) = ROB_DEPTH" "\<not> lsu_load_response_pending (bs_lsu s)"
    and h: "unat (qi_rob_idx (uop_queue (ar_uop r))) = h" "h < ROB_DEPTH"
    "re_valid (rob_entries (bs_rob s) ! h)"
  shows "lsu_module s pipe =
    ((set_rob_entry h (enqueue_store r (rob_entries (bs_rob s) ! h)) s)\<lparr>bs_lsu := stq_push r (bs_lsu s)\<rparr>, pipe)"
proof -
  let ?s = "(set_rob_entry h (enqueue_store r (rob_entries (bs_rob s) ! h)) s)\<lparr>bs_lsu := stq_push r (bs_lsu s)\<rparr>"
  have "lsu_enqueue_lane 0 s = ?s"
    using assms by (simp add: lsu_enqueue_lane_def Let_def)
  moreover have "no_loads (bs_rob ?s)"
    using assms(7) by (auto simp: no_loads_def set_rob_entry_def enqueue_store_def dest!: set_update_subset_insert [THEN subsetD])
  moreover have "\<not> lsu_load_response_pending (bs_lsu ?s)"
    using assms(9) by (simp add: stq_push_def Let_def)
  moreover have "length (rob_entries (bs_rob ?s)) = ROB_DEPTH"
    using assms(8) by (simp add: set_rob_entry_def)
  ultimately show ?thesis
    using assms(1,2) issue_loads_idle [of ?s] by (simp add: lsu_module_def lsu_response_def stream_empty_def)
qed

section \<open>Frontend and decoder\<close>

text \<open>A response to the outstanding request becomes a fetch packet in the same cycle.\<close>

lemma frontend_respond:
  assumes "\<not> bs_global_flush s" "fe = bs_frontend s" "fe_reset_done fe" "fe_request_sent fe" "\<not> fe_flush fe"
    "\<not> bu_valid (bs_brupdate s)" "rob_state (bs_rob s) \<noteq> ROB_EXCEPTION"
    "pipe_imem_resp pipe = [resp]" "irs_fetch_id resp = fe_pending_fetch_id fe"
  shows "frontend_module s pipe =
    (s\<lparr>bs_frontend := fe
        \<lparr>fe_pc := irs_address resp + 4, fe_request_sent := False, fe_response_received := False,
         fe_resp_address := irs_address resp, fe_resp_instruction := irs_instruction resp,
         fe_resp_exception := irs_exception resp, fe_resp_exc_cause := irs_exc_cause resp,
         fe_fetch_packet_valid := True,
         fe_fetch_uop := fetch_packet (irs_address resp) (irs_instruction resp)\<rparr>\<rparr>,
     pipe\<lparr>pipe_imem_resp := []\<rparr>)"
  using assms
  by (simp add: frontend_module_def frontend_flush_mark_def frontend_reset_def frontend_redirect_def
      frontend_flush_def frontend_drop_packet_def frontend_send_def frontend_receive_def
      frontend_packet_def stream_empty_def stream_read_def Let_def)

text \<open>With no request outstanding and no response, the next request is sent.\<close>

lemma frontend_request:
  assumes "\<not> bs_global_flush s" "fe = bs_frontend s" "fe_reset_done fe" "\<not> fe_request_sent fe" "\<not> fe_flush fe"
    "\<not> bu_valid (bs_brupdate s)" "rob_state (bs_rob s) \<noteq> ROB_EXCEPTION" "\<not> fe_response_received fe"
    "pipe_imem_resp pipe = []" "pipe_imem_req pipe = []"
  shows "frontend_module s pipe =
    (s\<lparr>bs_frontend := fe\<lparr>fe_request_sent := True, fe_pending_fetch_id := fe_fetch_id fe,
         fe_fetch_id := fe_fetch_id fe + 1, fe_fetch_packet_valid := False\<rparr>\<rparr>,
     pipe\<lparr>pipe_imem_req := [ImemRequest0\<lparr>irq_address := fe_pc fe, irq_fetch_id := fe_fetch_id fe,
       irq_kill := False\<rparr>]\<rparr>)"
  using assms
  by (auto simp add: frontend_module_def frontend_flush_mark_def frontend_reset_def frontend_redirect_def
      frontend_flush_def frontend_drop_packet_def frontend_send_def frontend_receive_def
      frontend_packet_def stream_empty_def stream_full_def stream_write_def Let_def)

lemma frontend_redirected:
  assumes "\<not> bs_global_flush s" "fe = bs_frontend s" "fe_reset_done fe"
    "bu_valid (bs_brupdate s)" "bu_mispredict (bs_brupdate s)" "rob_state (bs_rob s) \<noteq> ROB_EXCEPTION"
    "pipe_imem_resp pipe = []" "pipe_imem_req pipe = []"
  shows "frontend_module s pipe =
    (s\<lparr>bs_frontend := fe\<lparr>fe_pc := align4 (bu_jalr_target (bs_brupdate s)), fe_request_sent := True,
         fe_response_received := False, fe_fetch_packet_valid := False, fe_flush := False,
         fe_pending_fetch_id := fe_fetch_id fe, fe_fetch_id := fe_fetch_id fe + 1\<rparr>\<rparr>,
     pipe\<lparr>pipe_imem_req := [ImemRequest0\<lparr>irq_address := align4 (bu_jalr_target (bs_brupdate s)),
       irq_fetch_id := fe_fetch_id fe, irq_kill := False\<rparr>]\<rparr>)"
proof -
  have "s\<lparr>bs_frontend := f, bs_global_flush := False\<rparr> = s\<lparr>bs_frontend := f\<rparr>" for f
    using assms(1) by (cases s) simp
  then show ?thesis using assms
    by (auto simp add: frontend_module_def frontend_flush_mark_def frontend_reset_def frontend_redirect_def
      frontend_flush_def frontend_drop_packet_def frontend_send_def frontend_receive_def
      frontend_packet_def stream_empty_def stream_full_def stream_write_def Let_def)
qed

lemma decode_packet:
  assumes "\<not> bs_global_flush s" "fe_fetch_packet_valid (bs_frontend s)"
    "length (dec_uops (bs_decode s)) = 1" "length (dec_valids (bs_decode s)) = 1"
  shows "decode_module s = s\<lparr>bs_decode :=
    \<lparr>dec_uops = [decode_uop (uop_debug_pc (fe_fetch_uop (bs_frontend s))) (uop_inst (fe_fetch_uop (bs_frontend s)))],
     dec_valids = [True]\<rparr>\<rparr>"
  using assms by (cases "bs_decode s") (auto simp: decode_module_def Let_def length_Suc_conv)

lemma decode_nothing:
  assumes "\<not> fe_fetch_packet_valid (bs_frontend s)" "length (dec_valids (bs_decode s)) = 1"
  shows "decode_module s = s\<lparr>bs_decode := (bs_decode s)\<lparr>dec_valids := [False]\<rparr>\<rparr>"
  using assms by (auto simp: decode_module_def Let_def length_Suc_conv)

section \<open>Rename, allocation, issue, execution\<close>

lemma rename_one:
  assumes "\<not> bs_global_flush s" "\<not> bu_valid (bs_brupdate s)"
    "bs_decode s = \<lparr>dec_uops = [u], dec_valids = [True]\<rparr>"
    "rename_uop u (ren_int_map_table (bs_rename s)) (ren_int_free_list (bs_rename s)) = (u', mt, fl)"
  shows "rename_module s = s\<lparr>bs_rename := (bs_rename s)
    \<lparr>ren_int_map_table := mt, ren_int_free_list := fl, ren_renamed_uops := [u'], ren_renamed_valids := [True]\<rparr>\<rparr>"
  using assms by (simp add: rename_module_def rename_lane_def Let_def)

lemma rename_none:
  assumes "\<not> bs_global_flush s" "dec_valids (bs_decode s) = [False]"
  shows "rename_module s = s\<lparr>bs_rename := (bs_rename s)
    \<lparr>ren_int_map_table := (if bu_valid (bs_brupdate s) \<and> bu_mispredict (bs_brupdate s)
        then rename_restore (ren_int_map_table (bs_rename s)) else ren_int_map_table (bs_rename s)),
     ren_renamed_uops := [MicroOp0], ren_renamed_valids := [False]\<rparr>\<rparr>"
  using assms by (simp add: rename_module_def rename_lane_def Let_def)

lemma allocate_one:
  assumes "\<not> bs_global_flush s" "rob_state (bs_rob s) \<noteq> ROB_INIT" "ren_renamed_valids (bs_rename s) = [True]"
    "ren_renamed_uops (bs_rename s) = [u]" "uop_uopc u \<noteq> 0" "\<not> rob_is_full (bs_rob s)"
  shows "rob_allocate s = s\<lparr>bs_rob := rob_push (bs_rob s) u, bs_rename := (bs_rename s)
    \<lparr>ren_renamed_uops := [u\<lparr>uop_queue := (uop_queue u)\<lparr>qi_rob_idx := rob_tail (bs_rob s)\<rparr>\<rparr>]\<rparr>\<rparr>"
  using assms by (simp add: rob_allocate_def Let_def)

lemma allocate_none:
  assumes "rob_state (bs_rob s) \<noteq> ROB_INIT" "ren_renamed_valids (bs_rename s) = [False]"
  shows "rob_allocate s = s"
  using assms by (simp add: rob_allocate_def Let_def)

definition iq_idle :: "IssueQueueState \<Rightarrow> bool" where
  "iq_idle iq = (iq_tail iq = 0 \<and> iq_count iq = 0 \<and> length (iq_entries iq) = ISSUE_QUEUE_ALU_DEPTH
     \<and> (\<forall>e \<in> set (iq_entries iq). \<not> is_valid e))"

lemma issue_select_stop: "\<not> (issued < ISSUE_WIDTH \<and> issued < DISPATCH_WIDTH) \<Longrightarrow> issue_select is issued iss = iss"
  by (cases "is") auto

lemma issue_select_none:
  "(\<And>i. i \<in> set is \<Longrightarrow> \<not> slot_ready (iq_entries (iss_alu_iq iss) ! i)) \<Longrightarrow> issue_select is issued iss = iss"
  by (induction "is") (auto simp: Let_def)

lemma issue_compact_idle:
  assumes "\<forall>e \<in> set (iq_entries iq). \<not> slot_kept e"
  shows "iq_idle (issue_compact iq)"
  using assms by (simp add: iq_idle_def issue_compact_def Let_def filter_False)

lemma issue_none:
  assumes "\<not> bs_global_flush s" "ren_renamed_valids (bs_rename s) = [False]" "iq_idle (iss_alu_iq (bs_issue s))"
  shows "\<exists>iss. issue_module s = s\<lparr>bs_issue := iss\<rparr> \<and> iq_idle (iss_alu_iq iss)
    \<and> iss_issued_valids iss = [False, False, False]"
proof -
  let ?iss = "(bs_issue s)\<lparr>iss_issued_valids := replicate ISSUE_WIDTH False,
                 iss_issued_uops := replicate ISSUE_WIDTH MicroOp0\<rparr>"
  have "issue_select [0..<ISSUE_QUEUE_ALU_DEPTH] 0 ?iss = ?iss"
    using assms(3) by (intro issue_select_none) (auto simp: iq_idle_def slot_ready_def)
  moreover have "iq_idle (issue_compact (iss_alu_iq (bs_issue s)))"
    using assms(3) by (intro issue_compact_idle) (auto simp: iq_idle_def slot_kept_def)
  ultimately show ?thesis
    using assms(1,2) by (intro exI) (auto simp: issue_module_def Let_def numeral_3_eq_3)
qed

lemma issue_module_phases:
  assumes "\<not> bs_global_flush s"
    "issue_dispatch_lanes (bs_rename s) [0..<DISPATCH_WIDTH] (iss_alu_iq (bs_issue s)) = iq"
    "issue_select [0..<ISSUE_QUEUE_ALU_DEPTH] 0
      ((bs_issue s)\<lparr>iss_issued_valids := replicate ISSUE_WIDTH False,
         iss_issued_uops := replicate ISSUE_WIDTH MicroOp0, iss_alu_iq := iq\<rparr>) = iss"
  shows "issue_module s = s\<lparr>bs_issue := iss\<lparr>iss_alu_iq := issue_compact (iss_alu_iq iss)\<rparr>\<rparr>"
  using assms(1) by (simp add: issue_module_def Let_def del: issue_dispatch_lanes.simps flip: assms(2,3))

lemma issue_one:
  assumes "\<not> bs_global_flush s" "ren_renamed_valids (bs_rename s) = [True]"
    "ren_renamed_uops (bs_rename s) = [u]" "iq_idle (iss_alu_iq (bs_issue s))"
    "uop_iq_type u = IQ_ALU \<or> uop_iq_type u = IQ_MEM"
    "\<not> ri_prs1_busy (uop_rename u)" "\<not> ri_prs2_busy (uop_rename u)"
  shows "\<exists>iss. issue_module s = s\<lparr>bs_issue := iss\<rparr> \<and> iq_idle (iss_alu_iq iss)
    \<and> iss_issued_valids iss = [True, False, False] \<and> iss_issued_uops iss ! 0 = u"
proof -
  let ?iss = "(bs_issue s)\<lparr>iss_issued_valids := replicate ISSUE_WIDTH False,
                 iss_issued_uops := replicate ISSUE_WIDTH MicroOp0\<rparr>"
  let ?iq = "iss_alu_iq (bs_issue s)"
  let ?slot = "(iq_entries ?iq ! 0)\<lparr>is_valid := True, is_request := True, is_granted := False,
      is_killed := False, is_uop := u, is_prs1_busy := ri_prs1_busy (uop_rename u),
      is_prs2_busy := ri_prs2_busy (uop_rename u), is_pdst_busy := False\<rparr>"
  obtain e0 es where es: "iq_entries ?iq = e0 # es" "length es = 7" "\<forall>e \<in> set (e0 # es). \<not> is_valid e"
    using assms(4) by (cases "iq_entries ?iq") (auto simp: iq_idle_def)
  have q: "issue_dispatch_lanes (bs_rename s) [0..<DISPATCH_WIDTH] ?iq =
    ?iq\<lparr>iq_entries := ?slot # es, iq_tail := inc_mod 8 0, iq_count := 1\<rparr>"
    using assms(2-5) es by (auto simp: issue_enqueue_def iq_idle_def Let_def)
  let ?q2 = "?iss\<lparr>iss_alu_iq := ?iq\<lparr>iq_entries := ?slot\<lparr>is_granted := True, is_request := False\<rparr> # es,
      iq_tail := inc_mod 8 0, iq_count := 1\<rparr>, iss_issued_uops := [u, MicroOp0, MicroOp0],
      iss_issued_valids := [True, False, False]\<rparr>"
  have sel: "issue_select [0..<ISSUE_QUEUE_ALU_DEPTH] 0
      (?iss\<lparr>iss_alu_iq := ?iq\<lparr>iq_entries := ?slot # es, iq_tail := inc_mod 8 0, iq_count := 1\<rparr>\<rparr>) = ?q2"
    using assms(6,7) by (simp add: upt_conv_Cons slot_ready_def Let_def issue_select_stop numeral_3_eq_3)
  have idle: "iq_idle (issue_compact (iss_alu_iq ?q2))"
    using es(3) by (intro issue_compact_idle) (auto simp: slot_kept_def)
  have "issue_module s = s\<lparr>bs_issue := ?q2\<lparr>iss_alu_iq := issue_compact (iss_alu_iq ?q2)\<rparr>\<rparr>"
    by (rule issue_module_phases [OF assms(1) q sel])
  with idle show ?thesis
    by (intro exI [of _ "?q2\<lparr>iss_alu_iq := issue_compact (iss_alu_iq ?q2)\<rparr>"]) simp
qed

lemma execute_one:
  assumes "iss_issued_valids (bs_issue s) = [True, False, False]" "iss_issued_uops (bs_issue s) ! 0 = u"
  shows "execute_module s = execute_lane 0 u (s\<lparr>bs_execute := (bs_execute s)\<lparr>exe_alu_results := [AluResult0]\<rparr>\<rparr>)"
  using assms by (simp add: execute_module_def upt_conv_Cons Let_def execute_lane_def)

lemma execute_none:
  assumes "iss_issued_valids (bs_issue s) = [False, False, False]"
  shows "execute_module s = s\<lparr>bs_execute := (bs_execute s)\<lparr>exe_alu_results := [AluResult0]\<rparr>\<rparr>"
  using assms by (simp add: execute_module_def upt_conv_Cons)

lemma AluResult0_invalid [simp]: "\<not> ar_valid AluResult0"
  by (simp add: AluResult0_def)

lemma branch_none:
  assumes "exe_alu_results (bs_execute s) = [r]" "\<not> (ar_valid r \<and> ar_mispredict r \<and> is_control (ar_uop r))"
  shows "branch_module s = s"
  using assms by (auto simp: branch_module_def branch_lane_def Let_def)

lemma branch_taken:
  assumes "exe_alu_results (bs_execute s) = [r]" "ar_valid r" "ar_mispredict r" "is_control (ar_uop r)"
  shows "branch_module s = s\<lparr>bs_brupdate := (bs_brupdate s)
    \<lparr>bu_valid := True, bu_mispredict := True, bu_jalr_target := ar_redirect_pc r, bu_mispredict_mask := 1\<rparr>\<rparr>"
  using assms by (simp add: branch_module_def branch_lane_def Let_def)

section \<open>Commit\<close>

text \<open>The reorder buffer with nothing in flight, and with one entry at its head.\<close>

definition rob_idle :: "RobInternalState \<Rightarrow> bool" where
  "rob_idle rob = (rob_is_empty rob \<and> unat (rob_head rob) < ROB_DEPTH
     \<and> length (rob_entries rob) = ROB_DEPTH \<and> (\<forall>e \<in> set (rob_entries rob). \<not> re_valid e)
     \<and> rob_state rob = ROB_NORMAL)"

definition rob_single :: "RobInternalState \<Rightarrow> RobEntry \<Rightarrow> bool" where
  "rob_single rob e = (rob_tail rob = inc_mod ROB_DEPTH (rob_head rob) \<and> \<not> rob_maybe_full rob
     \<and> unat (rob_head rob) < ROB_DEPTH \<and> length (rob_entries rob) = ROB_DEPTH
     \<and> (\<forall>i < ROB_DEPTH. i \<noteq> unat (rob_head rob) \<longrightarrow> \<not> re_valid (rob_entries rob ! i))
     \<and> rob_entries rob ! unat (rob_head rob) = e \<and> re_valid e
     \<and> qi_rob_idx (uop_queue (re_uop e)) = rob_head rob \<and> rob_state rob = ROB_NORMAL)"

lemma inc_mod_32_neq:
  assumes "unat h < 32"
  shows "inc_mod 32 h \<noteq> h"
proof
  assume "inc_mod 32 h = h"
  then have "unat (inc_mod 32 h) = unat h" by (rule arg_cong)
  then have eq: "(unat h + 1) mod 32 = unat h" by (subst (asm) unat_inc_mod) auto
  show False
  proof (cases "unat h + 1 < 32")
    case True with eq show False by simp
  next
    case False with assms have "unat h + 1 = 32" by arith
    with eq show False by simp
  qed
qed

lemma inc_mod_32_bound [simp]: "unat (inc_mod 32 h) < 32"
  by simp

lemma rob_push_single:
  assumes "rob_idle rob"
  shows "rob_single (rob_push rob u) (rob_entry_of u (rob_head rob))" "\<not> rob_is_full rob"
  using assms inc_mod_32_neq [of "rob_head rob"]
  by (auto simp: rob_idle_def rob_single_def rob_push_def rob_is_empty_def rob_is_full_def Let_def rob_entry_of_def)

lemma rob_push_head [simp]: "rob_head (rob_push rob u) = rob_head rob"
  by (simp add: rob_push_def Let_def)

lemma rob_single_update:
  assumes "rob_single rob e" "re_valid e'" "re_uop e' = re_uop e"
  shows "rob_single (rob\<lparr>rob_entries := (rob_entries rob)[unat (rob_head rob) := e']\<rparr>) e'"
  using assms by (auto simp: rob_single_def)

lemma rob_pop_idle:
  assumes "rob_single rob e"
  shows "rob_idle (rob_pop rob)"
proof -
  have "\<not> re_valid (rob_entries (rob_pop rob) ! i)" if "i < ROB_DEPTH" for i
    using assms that by (auto simp: rob_single_def rob_pop_def nth_list_update)
  then show ?thesis
    using assms by (auto simp: rob_single_def rob_idle_def rob_pop_def rob_is_empty_def in_set_conv_nth)
qed

lemma rob_idle_fields [simp]:
  "rob_idle (rob\<lparr>rob_commit_valid := v\<rparr>) = rob_idle rob"
  "rob_idle (rob\<lparr>rob_last_commit := ce\<rparr>) = rob_idle rob"
  by (auto simp: rob_idle_def rob_is_empty_def)

lemma rob_single_fields [simp]:
  "rob_single (rob\<lparr>rob_commit_valid := v\<rparr>) e = rob_single rob e"
  "rob_single (rob\<lparr>rob_last_commit := ce\<rparr>) e = rob_single rob e"
  by (auto simp: rob_single_def)

lemma rob_flush_idle:
  assumes "rob_idle rob" shows "rob_idle (rob_flush rob)"
  using assms by (auto simp: rob_idle_def rob_flush_def rob_is_empty_def)

lemma rob_single_not_empty: "rob_single rob e \<Longrightarrow> \<not> rob_is_empty rob"
  using inc_mod_32_neq [of "rob_head rob"] by (auto simp: rob_single_def rob_is_empty_def)

lemma rob_idle_no_loads: "rob_idle rob \<Longrightarrow> no_loads rob"
  by (auto simp: rob_idle_def no_loads_def)

lemma rob_single_no_loads: "rob_single rob e \<Longrightarrow> \<not> re_is_load e \<Longrightarrow> no_loads rob"
  by (auto simp: rob_single_def no_loads_def in_set_conv_nth)

text \<open>Nothing to commit.\<close>

lemma commit_idle:
  assumes "rob_idle (bs_rob s)" "exe_alu_results (bs_execute s) = [r]" "\<not> ar_valid r"
  shows "\<exists>rob flag. rob_commit_module s pipe = (s\<lparr>bs_rob := rob, bs_global_flush := flag\<rparr>, pipe) \<and> rob_idle rob"
proof (cases "bu_valid (bs_brupdate s) \<and> bu_mispredict (bs_brupdate s)")
  case True
  then show ?thesis using assms(1) rob_flush_idle
    by (intro exI [of _ "rob_flush ((bs_rob s)\<lparr>rob_commit_valid := False\<rparr>)"] exI [of _ True])
      (simp add: rob_commit_module_def Let_def)
next
  case False
  have "rob_is_empty (bs_rob s)" using assms(1) by (simp add: rob_idle_def)
  then have "rob_is_empty ((bs_rob s)\<lparr>rob_commit_valid := False\<rparr>)" by (simp add: rob_is_empty_def)
  then show ?thesis using assms False
    by (intro exI [of _ "(bs_rob s)\<lparr>rob_commit_valid := False\<rparr>"] exI [of _ "bs_global_flush s"])
      (auto simp: rob_commit_module_def Let_def rob_complete_def)
qed

text \<open>A store waits for its address and data: the entry stays busy for a cycle.\<close>

lemma commit_busy:
  assumes "rob_single (bs_rob s) e" "re_busy e" "exe_alu_results (bs_execute s) = [r]"
    "ar_memory_valid r" "\<not> bu_valid (bs_brupdate s)"
  shows "rob_commit_module s pipe = (s\<lparr>bs_rob := (bs_rob s)\<lparr>rob_commit_valid := False\<rparr>\<rparr>, pipe)"
  using assms by (auto simp: rob_commit_module_def Let_def rob_complete_def rob_single_def)

text \<open>The head entry, ready or made ready by its result, retires.\<close>

lemma commit_retires:
  assumes "rob_single (bs_rob s) e" "\<not> re_busy e" "\<not> re_exception e" "\<not> dc_is_load (uop_ctrl (re_uop e))"
    "\<not> re_is_load e" "\<not> dc_is_sta (uop_ctrl (re_uop e))" "\<not> re_is_store e"
    "pipe_commit_trace pipe = []"
  shows "\<exists>rob. commit_head s pipe =
      (s\<lparr>bs_csr := (bs_csr s)\<lparr>csr_instret := csr_instret (bs_csr s) + 1\<rparr>,
        bs_rename := commit_rename (re_uop e) (bs_rename s), bs_rob := rob\<rparr>,
       pipe\<lparr>pipe_commit_trace := [commit_entry_of (bs_int_rf s) (csr_priv (bs_csr s)) e]\<rparr>) \<and> rob_idle rob"
proof -
  let ?ce = "commit_entry_of (bs_int_rf s) (csr_priv (bs_csr s)) e"
  let ?rob = "rob_pop ((bs_rob s)\<lparr>rob_last_commit := ?ce, rob_commit_valid := True\<rparr>)"
  have "rob_idle ?rob" using assms(1) by (intro rob_pop_idle [of _ e]) simp
  moreover have "rob_entries (bs_rob s) ! unat (rob_head (bs_rob s)) = e"
    using assms(1) by (simp add: rob_single_def)
  ultimately show ?thesis
    using assms(2-) by (intro exI [of _ ?rob])
      (simp add: commit_head_def commit_store_def commit_retire_def stream_full_def stream_write_def Let_def)
qed

lemma commit_retires_store:
  assumes "rob_single (bs_rob s) e" "\<not> re_exception e" "\<not> dc_is_load (uop_ctrl (re_uop e))"
    "\<not> re_is_load e" "re_is_store e" "re_memory_valid e" "\<not> re_memory_request_sent e"
    "pipe_commit_trace pipe = []" "\<not> stream_full (pipe_dmem_req pipe)"
  shows "\<exists>rob lsu. commit_head s pipe =
      (s\<lparr>bs_csr := (bs_csr s)\<lparr>csr_instret := csr_instret (bs_csr s) + 1\<rparr>,
        bs_rename := commit_rename (re_uop e) (bs_rename s), bs_rob := rob, bs_lsu := lsu,
        bs_tohost := re_memory_data e\<rparr>,
       pipe\<lparr>pipe_dmem_req := pipe_dmem_req pipe @ [store_request (lsu_next_transaction_id (bs_lsu s)) e],
         pipe_commit_trace := [commit_entry_of (bs_int_rf s) (csr_priv (bs_csr s)) e]\<rparr>) \<and> rob_idle rob
     \<and> lsu_load_response_pending lsu = lsu_load_response_pending (bs_lsu s)"
proof -
  let ?ce = "commit_entry_of (bs_int_rf s) (csr_priv (bs_csr s)) e"
  let ?h = "unat (rob_head (bs_rob s))"
  let ?e' = "e\<lparr>re_memory_request_sent := True, re_memory_completed := True\<rparr>"
  let ?rob1 = "(bs_rob s)\<lparr>rob_entries := (rob_entries (bs_rob s))[?h := ?e']\<rparr>"
  let ?rob = "rob_pop (?rob1\<lparr>rob_last_commit := ?ce, rob_commit_valid := True\<rparr>)"
  let ?lsu = "(bs_lsu s)\<lparr>lsu_next_transaction_id := lsu_next_transaction_id (bs_lsu s) + 1\<rparr>"
  have e: "rob_entries (bs_rob s) ! ?h = e" "?h < length (rob_entries (bs_rob s))"
    using assms(1) by (simp_all add: rob_single_def)
  have "rob_single ?rob1 ?e'"
    using assms(1) by (intro rob_single_update) (simp_all add: rob_single_def)
  then have "rob_idle ?rob" by (intro rob_pop_idle [of _ ?e']) simp
  moreover have "commit_entry_of rf p ?e' = commit_entry_of rf p e" for rf p
    by (simp add: commit_entry_of_def)
  moreover have "\<not> stream_full ([] :: CommitEntry list)" by (simp add: stream_full_def)
  ultimately show ?thesis
    using assms(2-) e by (intro exI [of _ ?rob] exI [of _ ?lsu])
      (simp add: commit_head_def commit_store_def commit_retire_def set_rob_entry_def stream_write_def
        Let_def)
qed

lemma commit_module_head:
  assumes "\<not> bu_valid (bs_brupdate s)" "exe_alu_results (bs_execute s) = [r]"
    "rob_complete r ((bs_rob s)\<lparr>rob_commit_valid := False\<rparr>) = rob" "rob_single rob e" "\<not> re_busy e"
  shows "rob_commit_module s pipe = commit_head (s\<lparr>bs_rob := rob\<rparr>) pipe"
proof -
  have "\<not> rob_is_empty rob" "rob_entries rob ! unat (rob_head rob) = e" "re_valid e"
    using assms(4) rob_single_not_empty by (auto simp: rob_single_def)
  then show ?thesis using assms(1,2,5) by (simp add: rob_commit_module_def Let_def assms(3))
qed

lemma commit_module_ready:
  assumes "rob_single (bs_rob s) e" "\<not> re_busy e" "\<not> bu_valid (bs_brupdate s)"
    "exe_alu_results (bs_execute s) = [r]" "\<not> ar_valid r"
  shows "rob_commit_module s pipe = commit_head (s\<lparr>bs_rob := (bs_rob s)\<lparr>rob_commit_valid := False\<rparr>\<rparr>) pipe"
  by (rule commit_module_head [OF assms(3,4) _ _ assms(2)]) (simp_all add: rob_complete_def assms(1,5))

lemma commit_module_result:
  assumes "rob_single (bs_rob s) e" "\<not> bu_valid (bs_brupdate s)"
    "exe_alu_results (bs_execute s) = [r]" "ar_valid r" "\<not> ar_exception r" "\<not> ar_memory_valid r" "\<not> ar_is_load r"
    "\<not> ar_is_store r" "\<not> dc_is_load (uop_ctrl (ar_uop r))" "\<not> dc_is_sta (uop_ctrl (ar_uop r))"
    "qi_rob_idx (uop_queue (ar_uop r)) = rob_head (bs_rob s)"
  shows "\<exists>rob. rob_commit_module s pipe = commit_head (s\<lparr>bs_rob := rob\<rparr>) pipe \<and> rob_single rob (e\<lparr>re_busy := False\<rparr>)"
proof -
  let ?rob = "(bs_rob s)\<lparr>rob_commit_valid := False,
    rob_entries := (rob_entries (bs_rob s))[unat (rob_head (bs_rob s)) := e\<lparr>re_busy := False\<rparr>]\<rparr>"
  have single: "rob_single ?rob (e\<lparr>re_busy := False\<rparr>)"
    using assms(1) by (auto simp: rob_single_def)
  have "rob_entries (bs_rob s) ! unat (rob_head (bs_rob s)) = e" "re_valid e" "unat (rob_head (bs_rob s)) < ROB_DEPTH"
    using assms(1) by (simp_all add: rob_single_def)
  then have "rob_complete r ((bs_rob s)\<lparr>rob_commit_valid := False\<rparr>) = ?rob"
    using assms(4-) by (simp add: rob_complete_def Let_def)
  then show ?thesis
    using commit_module_head [OF assms(2,3) _ single] single by (intro exI [of _ ?rob]) simp
qed

end
