(* ===== verification/Queues.thy ===== *)
theory Queues
  imports Rename Rob
begin

text \<open>
  The three FIFOs of the core as interpretations of the interface \<open>fifo\<close> of
  \<open>Prelude\<close>: the streams (\<open>boom_interfaces.hpp\<close>), the reorder buffer ring
  (allocation in \<open>rob_allocate\<close>, retirement in \<open>rob_commit_module\<close>) and the free
  list of physical registers (allocation in \<open>rename_module\<close>, release at commit); and the
  invariant tying the map table to the free list.
\<close>

section \<open>Streams\<close>

interpretation stream: fifo "\<lambda>x q. stream_write q x" "\<lambda>q. snd (stream_read q)" "\<lambda>q. fst (stream_read q)"
  "\<lambda>q. q" "\<lambda>q x. x" "\<lambda>q. \<not> stream_full q" "\<lambda>q. length q \<le> 1024"
  by unfold_locales (auto simp: stream_write_def stream_read_def stream_full_def)

section \<open>The reorder buffer ring\<close>

definition rob_occupancy :: "RobInternalState \<Rightarrow> nat" where
  "rob_occupancy rob =
    (if rob_head rob = rob_tail rob then (if rob_maybe_full rob then ROB_DEPTH else 0)
     else (unat (rob_tail rob) + ROB_DEPTH - unat (rob_head rob)) mod ROB_DEPTH)"
definition rob_items :: "RobInternalState \<Rightarrow> RobEntry list" where
  "rob_items rob = ring_list ROB_DEPTH (unat (rob_head rob)) (rob_occupancy rob) (rob_entries rob)"
definition rob_ring :: "RobInternalState \<Rightarrow> bool" where
  "rob_ring rob = (unat (rob_head rob) < ROB_DEPTH \<and> unat (rob_tail rob) < ROB_DEPTH
     \<and> length (rob_entries rob) = ROB_DEPTH \<and> (rob_maybe_full rob \<longrightarrow> rob_head rob = rob_tail rob))"

lemma rob_occupancy_cases:
  assumes "rob_ring rob"
  shows "rob_occupancy rob = 
    (if unat (rob_head rob) = unat (rob_tail rob) then (if rob_maybe_full rob then 32 else 0)
     else if unat (rob_head rob) \<le> unat (rob_tail rob) then unat (rob_tail rob) - unat (rob_head rob)
     else unat (rob_tail rob) + 32 - unat (rob_head rob))"
  using assms ring_diff [of "unat (rob_head rob)" 32 "unat (rob_tail rob)"]
  by (simp add: rob_occupancy_def rob_ring_def unat_eq_nat_iff)

lemma rob_occupancy_le: "rob_ring rob \<Longrightarrow> rob_occupancy rob \<le> ROB_DEPTH"
  by (auto simp: rob_occupancy_cases rob_ring_def)

lemma rob_occupancy_zero: "rob_ring rob \<Longrightarrow> rob_occupancy rob = 0 \<longleftrightarrow> rob_is_empty rob"
  by (auto simp: rob_occupancy_cases rob_ring_def rob_is_empty_def simp flip: unat_eq_nat_iff)

lemma rob_occupancy_full: "rob_ring rob \<Longrightarrow> rob_is_full rob \<longleftrightarrow> rob_occupancy rob = ROB_DEPTH"
  by (auto simp: rob_occupancy_cases rob_ring_def rob_is_full_def unat_eq_nat_iff)

lemma rob_tail_position:
  assumes "rob_ring rob"
  shows "(unat (rob_head rob) + rob_occupancy rob) mod ROB_DEPTH = unat (rob_tail rob)"
  using assms by (auto simp: rob_occupancy_cases rob_ring_def)

lemma rob_ring_push:
  assumes "rob_ring rob" "\<not> rob_is_full rob"
  shows "rob_ring (rob_push rob u)"
  using assms by (auto simp: rob_ring_def rob_push_def Let_def rob_is_full_def)

lemma rob_push_occupancy:
  assumes "rob_ring rob" "\<not> rob_is_full rob"
  shows "rob_occupancy (rob_push rob u) = Suc (rob_occupancy rob)"
proof -
  let ?h = "unat (rob_head rob)" and ?t = "unat (rob_tail rob)"
  have b: "?h < 32" "?t < 32" using assms(1) by (simp_all add: rob_ring_def)
  have t: "unat (inc_mod 32 (rob_tail rob)) = (if ?t + 1 = 32 then 0 else ?t + 1)"
    using b by (intro unat_inc_mod_cases) auto
  have eq: "inc_mod 32 (rob_tail rob) = rob_head rob \<longleftrightarrow> (if ?t + 1 = 32 then 0 else ?t + 1) = ?h"
    by (metis t unat_eq_nat_iff)
  have mf: "rob_maybe_full rob \<Longrightarrow> ?h = ?t" "?h = ?t \<Longrightarrow> \<not> rob_maybe_full rob"
    using assms by (simp_all add: rob_ring_def rob_is_full_def unat_eq_nat_iff)
  have f: "rob_head (rob_push rob u) = rob_head rob" "rob_tail (rob_push rob u) = inc_mod 32 (rob_tail rob)"
    "rob_maybe_full (rob_push rob u) = (rob_maybe_full rob \<or> inc_mod 32 (rob_tail rob) = rob_head rob)"
    by (auto simp: rob_push_def Let_def)
  show ?thesis
    unfolding rob_occupancy_cases [OF assms(1)] rob_occupancy_cases [OF rob_ring_push [OF assms, of u]] f t eq
    using b mf by auto
qed

lemma rob_push_entries: "rob_entries (rob_push rob u) = (rob_entries rob)[unat (rob_tail rob) := rob_entry_of u (rob_tail rob)]"
  by (simp add: rob_push_def Let_def)

lemma rob_items_push:
  assumes "rob_ring rob" "\<not> rob_is_full rob"
  shows "rob_items (rob_push rob u) = rob_items rob @ [rob_entry_of u (rob_tail rob)]"
proof -
  have "rob_occupancy rob < 32" using assms rob_occupancy_le [of rob] rob_occupancy_full [of rob] by simp
  then show ?thesis
    using ring_list_push [of "rob_occupancy rob" 32 "rob_entries rob" "unat (rob_head rob)"] rob_tail_position [OF assms(1)] assms(1)
    unfolding rob_items_def rob_push_occupancy [OF assms]
    by (simp add: rob_ring_def rob_push_entries) (simp add: rob_push_def Let_def)
qed

lemma rob_pop_occupancy:
  assumes "rob_ring rob" "\<not> rob_is_empty rob"
  shows "rob_ring (rob_pop rob) \<and> rob_occupancy (rob_pop rob) = rob_occupancy rob - 1"
proof
  let ?h = "unat (rob_head rob)" and ?t = "unat (rob_tail rob)"
  show r: "rob_ring (rob_pop rob)" using assms(1) by (simp add: rob_ring_def rob_pop_def)
  have b: "?h < 32" "?t < 32" using assms(1) by (simp_all add: rob_ring_def)
  have f: "unat (rob_head (rob_pop rob)) = (if ?h + 1 = 32 then 0 else ?h + 1)" "rob_tail (rob_pop rob) = rob_tail rob" "\<not> rob_maybe_full (rob_pop rob)"
    using b unat_inc_mod_cases [of "rob_head rob" 32] by (simp_all add: rob_pop_def)
  have "?h = ?t \<Longrightarrow> rob_maybe_full rob"
    using assms by (simp_all add: rob_ring_def rob_is_empty_def unat_eq_nat_iff)
  then show "rob_occupancy (rob_pop rob) = rob_occupancy rob - 1"
    unfolding rob_occupancy_cases [OF assms(1)] rob_occupancy_cases [OF r] f
    using b f(3) by auto
qed

lemma rob_items_pop:
  assumes "rob_ring rob" "\<not> rob_is_empty rob"
  shows "rob_items (rob_pop rob) = tl (rob_items rob)"
proof -
  let ?h = "unat (rob_head rob)" and ?c = "rob_occupancy rob"
  let ?es = "rob_entries rob" and ?e = "(rob_entries rob ! unat (rob_head rob))\<lparr>re_valid := False\<rparr>"
  have c: "0 < ?c" "?c \<le> 32" "?h < 32" using assms rob_occupancy_zero [of rob] rob_occupancy_le [of rob] by (auto simp: rob_ring_def)
  have "rob_items (rob_pop rob) = ring_list 32 ((?h + 1) mod 32) (?c - 1) (?es[?h := ?e])"
    using rob_pop_occupancy [OF assms] by (simp add: rob_items_def) (simp add: rob_pop_def)
  also have "\<dots> = ring_list 32 ((?h + 1) mod 32) (?c - 1) ?es"
    using c by (intro ring_list_update_old_head) auto
  also have "\<dots> = tl (rob_items rob)"
    by (simp only: rob_items_def ring_list_pop [OF c(1)])
  finally show ?thesis .
qed

interpretation rob: fifo "\<lambda>u rob. rob_push rob u" rob_pop "\<lambda>rob. rob_entries rob ! unat (rob_head rob)"
  rob_items "\<lambda>rob u. rob_entry_of u (rob_tail rob)" "\<lambda>rob. \<not> rob_is_full rob" rob_ring
proof unfold_locales
  fix rob u
  show "rob_ring rob \<Longrightarrow> \<not> rob_is_full rob \<Longrightarrow> rob_items (rob_push rob u) = rob_items rob @ [rob_entry_of u (rob_tail rob)]"
    by (rule rob_items_push)
  show "rob_ring rob \<Longrightarrow> \<not> rob_is_full rob \<Longrightarrow> rob_ring (rob_push rob u)" by (rule rob_ring_push)
next
  fix rob assume r: "rob_ring rob" and n: "rob_items rob \<noteq> []"
  then have ne: "\<not> rob_is_empty rob" "0 < rob_occupancy rob" using rob_occupancy_zero [of rob] by (auto simp: rob_items_def)
  show "rob_items (rob_pop rob) = tl (rob_items rob)" using r ne(1) by (rule rob_items_pop)
  show "rob_ring (rob_pop rob)" using rob_pop_occupancy [OF r ne(1)] by simp
  show "rob_entries rob ! unat (rob_head rob) = hd (rob_items rob)"
    using ne(2) r by (simp add: rob_items_def hd_ring_list rob_ring_def)
qed

section \<open>The free list ring\<close>

text \<open>
  The initial state has \<open>tail\<close> one position short of \<open>head + count\<close>, so the ring
  proper holds \<open>count - 1\<close> registers; the last position counted is the one the next
  release overwrites.
\<close>

definition fl_items :: "RenameFreeListState \<Rightarrow> u8 list" where
  "fl_items fl = ring_list INT_PHYS_REGS (unat (fl_head fl)) (unat (fl_count fl) - 1) (fl_free_list fl)"

definition fl_ring :: "RenameFreeListState \<Rightarrow> bool" where
  "fl_ring fl = (length (fl_free_list fl) = INT_PHYS_REGS \<and> unat (fl_head fl) < INT_PHYS_REGS
     \<and> 1 \<le> unat (fl_count fl) \<and> unat (fl_count fl) \<le> INT_PHYS_REGS
     \<and> unat (fl_tail fl) = (unat (fl_head fl) + unat (fl_count fl) - 1) mod INT_PHYS_REGS)"

lemma fl_push_ring:
  assumes "fl_ring fl" "unat (fl_count fl) < INT_PHYS_REGS"
  shows "fl_ring (fl_push p fl) \<and> fl_items (fl_push p fl) = fl_items fl @ [p]"
proof -
  have c: "unat (fl_count fl + 1) = unat (fl_count fl) + 1"
    using assms(2) by (intro unat_plus_one) simp
  let ?h = "unat (fl_head fl)" and ?c = "unat (fl_count fl) - 1"
  have h: "1 \<le> unat (fl_count fl)" "?h + unat (fl_count fl) - 1 = ?h + ?c" "Suc ?c = unat (fl_count fl)"
    using assms(1) by (simp_all add: fl_ring_def)
  have t: "unat (fl_tail fl) = (?h + ?c) mod 52" using assms(1) h by (simp add: fl_ring_def)
  have "(unat (fl_tail fl) + 1) mod 52 = (?h + unat (fl_count fl)) mod 52"
    unfolding t using h by (simp add: mod_simps)
  then have "fl_ring (fl_push p fl)" using assms c by (simp add: fl_ring_def fl_push_def)
  moreover have "fl_items (fl_push p fl) = fl_items fl @ [p]"
    using ring_list_push [of ?c 52 "fl_free_list fl" ?h p] assms h c t
    by (simp add: fl_items_def fl_push_def fl_ring_def)
  ultimately show ?thesis ..
qed

lemma fl_pop_ring:
  assumes "fl_ring fl" "fl_items fl \<noteq> []"
  shows "fl_ring (snd (fl_pop fl)) \<and> fl_items (snd (fl_pop fl)) = tl (fl_items fl)
    \<and> fst (fl_pop fl) = hd (fl_items fl)"
proof -
  let ?h = "unat (fl_head fl)" and ?c = "unat (fl_count fl) - 1"
  have c0: "0 < ?c" "1 < unat (fl_count fl)" using assms by (auto simp: fl_items_def)
  have c: "unat (fl_count fl - 1) = unat (fl_count fl) - 1" using c0 by (intro unat_minus_one_pos) simp
  have r: "length (fl_free_list fl) = 52" "?h < 52" "unat (fl_count fl) \<le> 52"
    "unat (fl_tail fl) = (?h + unat (fl_count fl) - 1) mod 52"
    using assms(1) by (simp_all add: fl_ring_def)
  have i: "unat (inc_mod 52 (fl_head fl)) = (?h + 1) mod 52" by simp
  have "((?h + 1) mod 52 + ?c - 1) mod 52 = ((?h + 1) mod 52 + (?c - 1)) mod 52"
    using c0(1) by (simp only: Nat.add_diff_assoc Suc_leI One_nat_def)
  also have "\<dots> = (?h + 1 + (?c - 1)) mod 52" by (rule mod_add_left_eq)
  also have "?h + 1 + (?c - 1) = ?h + unat (fl_count fl) - 1" using c0 by arith
  finally have "((?h + 1) mod 52 + ?c - 1) mod 52 = (?h + unat (fl_count fl) - 1) mod 52" .
  moreover have "1 \<le> unat (fl_count fl) - 1 \<and> unat (fl_count fl) - 1 \<le> 52" using c0(2) r(3) by arith
  ultimately have "fl_ring (snd (fl_pop fl))" using r c i by (simp add: fl_ring_def fl_pop_def Let_def)
  moreover have "fl_items (snd (fl_pop fl)) = tl (fl_items fl)"
    using ring_list_pop [OF c0(1), of 52 ?h "fl_free_list fl"] by (simp add: fl_items_def fl_pop_def Let_def c)
  moreover have "fst (fl_pop fl) = hd (fl_items fl)"
    using hd_ring_list [OF c0(1) r(2), of "fl_free_list fl"] by (simp add: fl_items_def fl_pop_def Let_def)
  ultimately show ?thesis by blast
qed

interpretation fl: fifo fl_push "\<lambda>fl. snd (fl_pop fl)" "\<lambda>fl. fst (fl_pop fl)" fl_items "\<lambda>fl p. p"
  "\<lambda>fl. unat (fl_count fl) < INT_PHYS_REGS" fl_ring
  by unfold_locales (use fl_push_ring fl_pop_ring in blast)+

section \<open>Map table and free list\<close>

text \<open>
  With nothing in flight the allocatable registers 1 to 50 are partitioned between the free
  list and the map table, which agrees with the committed one.
\<close>

definition rename_quiet :: "RenameState \<Rightarrow> bool" where
  "rename_quiet ren = (let m = mt_map_table (ren_int_map_table ren); fl = ren_int_free_list ren
     in length m = LOGICAL_REG_COUNT \<and> m ! 0 = 0 \<and> mt_committed_map_table (ren_int_map_table ren) = m
        \<and> fl_ring fl \<and> mset (fl_items fl) + mset (filter (\<lambda>p. p \<noteq> 0) m) = mset (map word_of_nat [1..<51]))"

lemma rename_quietD:
  assumes "rename_quiet ren"
  defines "m \<equiv> mt_map_table (ren_int_map_table ren)" and "fl \<equiv> ren_int_free_list ren"
  shows "length m = 32" "m ! 0 = 0" "mt_committed_map_table (ren_int_map_table ren) = m" "fl_ring fl"
    "mset (fl_items fl) + mset (filter (\<lambda>p. p \<noteq> 0) m) = mset (map word_of_nat [1..<51])"
  using assms by (simp_all add: rename_quiet_def Let_def)

lemma phys_regs_distinct: "distinct (map word_of_nat [1..<51] :: u8 list)"
  by code_simp
lemma phys_regs_range: "p \<in> set (map word_of_nat [1..<51] :: u8 list) \<Longrightarrow> p \<noteq> 0 \<and> unat p < 51"
proof -
  assume "p \<in> set (map word_of_nat [1..<51] :: u8 list)"
  then obtain n where n: "p = word_of_nat n" "1 \<le> n" "n < 51" by auto
  then have "unat p = n" by (simp add: unat_of_nat take_bit_nat_eq_self)
  then show ?thesis using n by auto
qed

lemma quiet_partition:
  assumes "rename_quiet ren"
  defines "m \<equiv> mt_map_table (ren_int_map_table ren)" and "fl \<equiv> ren_int_free_list ren"
  shows "distinct (fl_items fl)" "set (fl_items fl) \<inter> set m = {}" 
    "p \<in> set (fl_items fl) \<or> p \<in> set m \<Longrightarrow> unat p < 51"
    "fl_items fl \<noteq> []" "0 \<notin> set (fl_items fl)"
    "i < 32 \<Longrightarrow> j < 32 \<Longrightarrow> m ! i = m ! j \<Longrightarrow> m ! i \<noteq> 0 \<Longrightarrow> i = j"
    "unat (fl_count fl) \<le> 51"
proof -
  note q = rename_quietD [OF assms(1), folded m_def fl_def]
  have eq: "mset (fl_items fl @ filter (\<lambda>p. p \<noteq> 0) m) = mset (map word_of_nat [1..<51])"
    using q(5) by simp
  have d: "distinct (fl_items fl @ filter (\<lambda>p. p \<noteq> 0) m)"
    using eq phys_regs_distinct by (metis mset_eq_imp_distinct_iff)
  have st: "set (fl_items fl @ filter (\<lambda>p. p \<noteq> 0) m) = set (map word_of_nat [1..<51])"
    using eq by (metis set_mset_mset)
  show "distinct (fl_items fl)" using d by simp
  have nz: "p \<noteq> 0" if "p \<in> set (fl_items fl)" for p
    using st phys_regs_range that by (metis UnI1 set_append)
  then show "0 \<notin> set (fl_items fl)" by blast
  show "set (fl_items fl) \<inter> set m = {}" using d nz by auto
  show "unat p < 51" if "p \<in> set (fl_items fl) \<or> p \<in> set m" for p
  proof (cases "p = 0")
    case False
    then have "p \<in> set (fl_items fl @ filter (\<lambda>p. p \<noteq> 0) m)" using that by auto
    then show ?thesis using st phys_regs_range by blast
  qed simp
  have len: "length (fl_items fl) + length (filter (\<lambda>p. p \<noteq> 0) m) = 50"
    using mset_eq_length [OF eq] by simp
  then show "fl_items fl \<noteq> []" using length_filter_le [of "\<lambda>p. p \<noteq> 0" m] q(1) by auto
  show "unat (fl_count fl) \<le> 51" using len by (simp add: fl_items_def)
  show "i = j" if ij: "i < 32" "j < 32" "m ! i = m ! j" "m ! i \<noteq> 0"
  proof (rule ccontr)
    assume ne: "i \<noteq> j"
    let ?I = "{k. k < length m \<and> m ! i = m ! k}"
    have "card {i, j} \<le> card ?I" using ij(1-3) q(1) by (intro card_mono) auto
    moreover have "card ?I = count (mset m) (m ! i)"
      by (simp add: count_mset count_list_eq_length_filter length_filter_conv_card)
    moreover have "count (mset m) (m ! i) = count (mset (filter (\<lambda>p. p \<noteq> 0) m)) (m ! i)"
      using ij(4) by simp
    moreover have "count (mset (filter (\<lambda>p. p \<noteq> 0) m)) (m ! i) \<le> 1"
      using d distinct_count_atmost_1 [of "filter (\<lambda>p. p \<noteq> 0) m"] by (auto split: if_splits)
    ultimately show False using ne by simp
  qed
qed

text \<open>Renaming a writer and retiring it keeps the partition.\<close>

lemma mset_filter_update:
  assumes "i < length m" "p \<noteq> 0"
  shows "mset (filter (\<lambda>p. p \<noteq> (0 :: 'a::zero)) (m[i := p])) + (if m ! i \<noteq> 0 then {#m ! i#} else {#})
    = add_mset p (mset (filter (\<lambda>p. p \<noteq> 0) m))"
proof -
  have "filter_mset (\<lambda>p. p \<noteq> 0) (add_mset (m ! i) (mset (m[i := p]))) = filter_mset (\<lambda>p. p \<noteq> 0) (add_mset p (mset m))"
    using mset_list_update_add [OF assms(1)] by metis
  then show ?thesis using assms(2) by (simp add: mset_filter split: if_splits)
qed

definition writes_int :: "MicroOp \<Rightarrow> bool" where
  "writes_int u = (ri_dst_rtype (uop_rename u) = DST_INT \<and> ri_ldst (uop_rename u) \<noteq> 0)"

lemma quiet_step_none:
  assumes "rename_uop u (ren_int_map_table ren) (ren_int_free_list ren) = (u', mt, fl)" "\<not> writes_int u"
  shows "mt = ren_int_map_table ren" "fl = ren_int_free_list ren" "ri_pdst (uop_rename u') = 0"
    "commit_rename u' ren = ren"
  using assms by (auto simp: rename_uop_def rename_sources_def writes_int_def commit_rename_def Let_def)

lemma quiet_step_write:
  assumes q: "rename_quiet ren" and w: "writes_int u" and l: "unat (ri_ldst (uop_rename u)) = l" "l < LOGICAL_REG_COUNT"
    and r: "rename_uop u (ren_int_map_table ren) (ren_int_free_list ren) = (u', mt, fl)"
  defines "m \<equiv> mt_map_table (ren_int_map_table ren)" and "p \<equiv> hd (fl_items (ren_int_free_list ren))"
  defines "ren' \<equiv> commit_rename u' (ren\<lparr>ren_int_map_table := mt, ren_int_free_list := fl\<rparr>)"
  shows "rename_quiet ren'" "mt_map_table (ren_int_map_table ren') = m[l := p]"
    "ri_pdst (uop_rename u') = p" "p \<noteq> 0" "unat p < INT_PHYS_REGS" "p \<notin> set m"
proof -
  let ?fl = "ren_int_free_list ren" and ?fl1 = "snd (fl_pop (ren_int_free_list ren))"
  note d = rename_quietD [OF q, folded m_def] and part = quiet_partition [OF q, folded m_def]
  have pin: "p \<in> set (fl_items ?fl)" using part(4) by (simp add: p_def)
  show p: "p \<noteq> 0" "unat p < INT_PHYS_REGS" "p \<notin> set m"
    using pin part(2,5) part(3) [of p] by (auto intro: ccontr)
  note pop = fl_pop_ring [OF d(4) part(4)]
  have c: "unat (fl_count ?fl1) < INT_PHYS_REGS"
  proof -
    have "unat (fl_count ?fl) > 0" "unat (fl_count ?fl) \<le> 51" using d(4) part(7) by (auto simp: fl_ring_def)
    then show ?thesis using unat_minus_one_pos [of "fl_count ?fl"] by (simp add: fl_pop_def Let_def)
  qed
  have "fl_count ?fl > 0" using d(4) by (auto simp: fl_ring_def word_gt_0)
  then have res: "u' = (rename_sources m u)\<lparr>uop_rename := (uop_rename (rename_sources m u))\<lparr>ri_pdst := p\<rparr>\<rparr>"
      "mt = (ren_int_map_table ren)\<lparr>mt_map_table := m[l := p]\<rparr>" "fl = ?fl1"
    using r w l pop unfolding m_def p_def
    by (auto simp: rename_uop_def writes_int_def rename_sources_def Let_def split: prod.splits)
  show pd: "ri_pdst (uop_rename u') = p" by (simp add: res)
  have stale: "ri_stale_pdst (uop_rename u') = m ! l" "ri_ldst (uop_rename u') = ri_ldst (uop_rename u)"
    using l by (simp_all add: res rename_sources_def)
  have lm: "l < length m" "l \<noteq> 0" using l(2) d(1) w l(1) by (auto simp: writes_int_def unat_gt_0)
  have "unat (m ! l) < INT_PHYS_REGS" using part(3) [of "m ! l"] lm by simp
  then have ren': "ren' = ren\<lparr>ren_int_map_table := (ren_int_map_table ren)\<lparr>mt_map_table := m[l := p], mt_committed_map_table := m[l := p]\<rparr>,
      ren_int_free_list := (if m ! l \<noteq> 0 then fl_push (m ! l) ?fl1 else ?fl1)\<rparr>"
    using p(1) l(1) d(3) c unfolding ren'_def res(2,3) by (simp add: commit_rename_def Let_def stale pd)
  then show "mt_map_table (ren_int_map_table ren') = m[l := p]" by simp
  have items: "fl_ring (ren_int_free_list ren')"
    "mset (fl_items (ren_int_free_list ren')) = mset (tl (fl_items ?fl)) + (if m ! l \<noteq> 0 then {#m ! l#} else {#})"
    using pop fl_push_ring [of ?fl1, OF _ c] by (simp_all add: ren')
  have "mset (fl_items ?fl) = add_mset p (mset (tl (fl_items ?fl)))"
    using part(4) unfolding p_def by (metis list.collapse mset.simps(2))
  then have "mset (fl_items (ren_int_free_list ren')) + mset (filter (\<lambda>p. p \<noteq> 0) (m[l := p])) = mset (map word_of_nat [1..<51])"
    unfolding items d(5) [symmetric]
    using mset_filter_update [OF lm(1) p(1)] by (simp add: ac_simps)
  moreover have "m[l := p] ! 0 = 0" using lm(2) d(2) by simp
  ultimately show "rename_quiet ren'" using d(1) items(1) by (simp add: rename_quiet_def Let_def ren')
qed

lemma rename_quiet_initial: "rename_quiet RenameState0"
  by code_simp

section \<open>The queues refine lists\<close>

text \<open>
  C13: The reorder buffer is a bounded FIFO queue: with its contents read from head to tail
  around the ring, allocation appends the entry tagged with its index, retirement removes the
  oldest entry, which is the one the head points at, \<open>n\<close> retirements leave the contents
  without their first \<open>n\<close> entries, and the code's tests for full and empty are exact, so
  all 32 places are used.
\<close>
theorem rob_is_fifo:
  assumes "rob_ring rob"
  shows "(\<not> rob_is_full rob \<longrightarrow> rob_items (rob_push rob u) = rob_items rob @ [rob_entry_of u (rob_tail rob)] \<and> rob_ring (rob_push rob u))
    \<and> (rob_items rob \<noteq> [] \<longrightarrow> rob_items rob = rob_entries rob ! unat (rob_head rob) # rob_items (rob_pop rob) \<and> rob_ring (rob_pop rob))
    \<and> (n \<le> length (rob_items rob) \<longrightarrow> rob_items ((rob_pop ^^ n) rob) = drop n (rob_items rob))
    \<and> (rob_is_full rob \<longleftrightarrow> length (rob_items rob) = ROB_DEPTH) \<and> (rob_is_empty rob \<longleftrightarrow> rob_items rob = [])"
  using rob.items_enq [OF assms] rob.invar_enq [OF assms] rob.deq_conserves [OF assms] rob.invar_deq [OF assms]
    rob.drain_order [OF assms] rob_occupancy_full [OF assms] rob_occupancy_zero [OF assms]
  by (simp add: rob_items_def)

lemma rob_is_fifo_witness:
  "rob_items (rob_push RobInternalState0 MicroOp0) = [rob_entry_of MicroOp0 0]"
proof -
  have v: "rob_ring RobInternalState0" "\<not> rob_is_full RobInternalState0" "rob_items RobInternalState0 = []"
    "rob_tail RobInternalState0 = 0" by code_simp+
  show ?thesis using rob_is_fifo [OF v(1), of MicroOp0 0] v by simp
qed

text \<open>
  C14: The free list is a FIFO queue of physical registers: allocation takes the front
  register, release appends one, and \<open>n\<close> allocations remove the first \<open>n\<close> in order.
\<close>
theorem free_list_is_fifo:
  assumes "fl_ring fl"
  shows "(unat (fl_count fl) < INT_PHYS_REGS \<longrightarrow> fl_items (fl_push r fl) = fl_items fl @ [r] \<and> fl_ring (fl_push r fl))
    \<and> (fl_items fl \<noteq> [] \<longrightarrow> fl_items fl = fst (fl_pop fl) # fl_items (snd (fl_pop fl)) \<and> fl_ring (snd (fl_pop fl)))
    \<and> (n \<le> length (fl_items fl) \<longrightarrow> fl_items (((\<lambda>fl. snd (fl_pop fl)) ^^ n) fl) = drop n (fl_items fl))"
  using fl.items_enq [OF assms] fl.invar_enq [OF assms] fl.deq_conserves [OF assms] fl.invar_deq [OF assms]
    fl.drain_order [OF assms] by simp

lemma free_list_is_fifo_witness:
  "fl_items RenameFreeListState0 = fst (fl_pop RenameFreeListState0) # fl_items (snd (fl_pop RenameFreeListState0))"
proof -
  have v: "fl_ring RenameFreeListState0" "fl_items RenameFreeListState0 \<noteq> []" by code_simp+
  show ?thesis using free_list_is_fifo [OF v(1), of 0 0] v(2) by simp
qed

text \<open>
  C9: Renaming and retiring a writer keeps the register partition: with nothing in flight
  the physical registers 1 to 50 are split between the free list and the map table, each
  once; the destination gets a register no logical register is mapped to, the map table and
  its committed copy agree again after retirement, and the displaced register is free again.
\<close>
theorem renaming_keeps_partition:
  assumes "rename_quiet ren" "writes_int u" "unat (ri_ldst (uop_rename u)) = l" "l < LOGICAL_REG_COUNT"
    "rename_uop u (ren_int_map_table ren) (ren_int_free_list ren) = (u', mt, fl)"
  defines "ren' \<equiv> commit_rename u' (ren\<lparr>ren_int_map_table := mt, ren_int_free_list := fl\<rparr>)"
    and "m \<equiv> mt_map_table (ren_int_map_table ren)"
  shows "rename_quiet ren' \<and> mt_map_table (ren_int_map_table ren') = m[l := ri_pdst (uop_rename u')]
    \<and> ri_pdst (uop_rename u') \<notin> set m \<and> ri_pdst (uop_rename u') \<noteq> 0 \<and> unat (ri_pdst (uop_rename u')) < INT_PHYS_REGS
    \<and> distinct (fl_items (ren_int_free_list ren')) \<and> set (fl_items (ren_int_free_list ren')) \<inter> set (mt_map_table (ren_int_map_table ren')) = {}"
  using quiet_step_write [OF assms(1-5)] quiet_partition [of ren'] unfolding ren'_def m_def by simp

definition rename_example :: "MicroOp \<times> RenameMapTableState \<times> RenameFreeListState" where
  "rename_example = rename_uop (MicroOp0\<lparr>uop_rename := RenameInfo0\<lparr>ri_ldst := 5\<rparr>\<rparr>) RenameMapTableState0 RenameFreeListState0"

lemma renaming_keeps_partition_witness:
  "rename_quiet (commit_rename (fst rename_example) (RenameState0\<lparr>ren_int_map_table := fst (snd rename_example),
     ren_int_free_list := snd (snd rename_example)\<rparr>))"
proof -
  have v: "writes_int (MicroOp0\<lparr>uop_rename := RenameInfo0\<lparr>ri_ldst := 5\<rparr>\<rparr>)"
    "unat (ri_ldst (uop_rename (MicroOp0\<lparr>uop_rename := RenameInfo0\<lparr>ri_ldst := 5\<rparr>\<rparr>))) = 5" "(5 :: nat) < LOGICAL_REG_COUNT"
    by code_simp+
  have "rename_uop (MicroOp0\<lparr>uop_rename := RenameInfo0\<lparr>ri_ldst := 5\<rparr>\<rparr>) (ren_int_map_table RenameState0) (ren_int_free_list RenameState0)
    = (fst rename_example, fst (snd rename_example), snd (snd rename_example))"
    by (simp add: rename_example_def RenameState0_def)
  from renaming_keeps_partition [OF rename_quiet_initial v this] show ?thesis by blast
qed

text \<open>
  The free list in use: registers are allocated while the list holds any, and only a register
  that is in use is released. \<open>fl_reach fl U b\<close>: after such a history from the initial list,
  \<open>U\<close> are the registers in use, and \<open>b\<close> tells whether any was ever released.
\<close>

inductive fl_reach :: "RenameFreeListState \<Rightarrow> u8 list \<Rightarrow> bool \<Rightarrow> bool" where
  fl_initial: "fl_reach RenameFreeListState0 [] False"
| fl_alloc: "fl_reach fl U b \<Longrightarrow> fl_items fl \<noteq> [] \<Longrightarrow> fl_reach (snd (fl_pop fl)) (fst (fl_pop fl) # U) b"
| fl_release: "fl_reach fl U b \<Longrightarrow> p \<in> set U \<Longrightarrow> fl_reach (fl_push p fl) (remove1 p U) True"

definition fl_bounded :: "RenameFreeListState \<Rightarrow> bool \<Rightarrow> bool" where
  "fl_bounded fl b = (if b then \<forall>p \<in> set (fl_free_list fl). unat p < 51
     else fl_free_list fl = fl_free_list RenameFreeListState0 \<and> unat (fl_tail fl) = 51)"

lemma fl_initial_list: "fl_free_list RenameFreeListState0 ! 51 = 51" "length (fl_free_list RenameFreeListState0) = 52"
  "i < 51 \<Longrightarrow> unat (fl_free_list RenameFreeListState0 ! i) < 51"
proof -
  show "fl_free_list RenameFreeListState0 ! 51 = 51" "length (fl_free_list RenameFreeListState0) = 52" by code_simp+
  have "list_all (\<lambda>i. unat (fl_free_list RenameFreeListState0 ! i) < 51) [0..<51]" by code_simp
  then show "i < 51 \<Longrightarrow> unat (fl_free_list RenameFreeListState0 ! i) < 51" by (simp add: list_all_iff)
qed

lemma fl_reach_partition:
  assumes "fl_reach fl U b"
  shows "fl_ring fl" "mset (fl_items fl) + mset U = mset (map word_of_nat [1..<51])" "fl_bounded fl b"
proof -
  have "fl_ring fl \<and> mset (fl_items fl) + mset U = mset (map word_of_nat [1..<51]) \<and> fl_bounded fl b"
    using assms
  proof induction
    case fl_initial
    have "fl_ring RenameFreeListState0" "fl_items RenameFreeListState0 = map word_of_nat [1..<51]" "unat (fl_tail RenameFreeListState0) = 51"
      by code_simp+
    then show ?case by (simp add: fl_bounded_def)
  next
    case (fl_alloc fl U b)
    then have r: "fl_ring fl" and m: "mset (fl_items fl) + mset U = mset (map word_of_nat [1..<51])" and bd: "fl_bounded fl b" by simp_all
    note pop = fl_pop_ring [OF r fl_alloc.hyps(2)]
    have "mset (fl_items fl) = add_mset (fst (fl_pop fl)) (mset (fl_items (snd (fl_pop fl))))"
      using pop fl_alloc.hyps(2) by (metis list.collapse mset.simps(2))
    moreover have "fl_bounded (snd (fl_pop fl)) b" using bd by (simp add: fl_bounded_def fl_pop_def Let_def)
    ultimately show ?case using pop m by (simp add: add.commute)
  next
    case (fl_release fl U b p)
    then have r: "fl_ring fl" and m: "mset (fl_items fl) + mset U = mset (map word_of_nat [1..<51])" and bd: "fl_bounded fl b" by simp_all
    have len: "length (fl_items fl) + length U = 50" using mset_eq_length [of "fl_items fl @ U" "map word_of_nat [1..<51]"] m by simp
    have "length (fl_items fl) = unat (fl_count fl) - 1" by (simp add: fl_items_def)
    then have c: "unat (fl_count fl) < 52" using len by simp
    note push = fl_push_ring [OF r c, of p]
    have p: "unat p < 51"
    proof -
      have "p \<in># mset (fl_items fl) + mset U" using fl_release.hyps(2) by simp
      then have "p \<in> set (map word_of_nat [1..<51])" unfolding m by (simp only: set_mset_mset)
      then show ?thesis using phys_regs_range by blast
    qed
    have up: "fl_free_list (fl_push p fl) = (fl_free_list fl)[unat (fl_tail fl) := p]" by (simp add: fl_push_def)
    have "fl_bounded (fl_push p fl) True"
    proof (cases b)
      case True
      then show ?thesis using bd p set_update_subset_insert [of "fl_free_list fl" "unat (fl_tail fl)" p]
        unfolding fl_bounded_def up by auto
    next
      case False
      then have f: "fl_free_list (fl_push p fl) = (fl_free_list RenameFreeListState0)[51 := p]"
        using bd by (simp add: fl_bounded_def up)
      have "unat ((fl_free_list RenameFreeListState0)[51 := p] ! i) < 51" if "i < 52" for i
        using that p fl_initial_list by (cases "i = 51") auto
      then show ?thesis unfolding fl_bounded_def f by (auto simp: in_set_conv_nth fl_initial_list(2))
    qed
    moreover have "mset (fl_items (fl_push p fl)) + mset (remove1 p U) = mset (map word_of_nat [1..<51])"
    proof -
      have U: "mset (remove1 p U) + {#p#} = mset U" using fl_release.hyps(2) by simp
      show ?thesis unfolding m [symmetric] U [symmetric] using push by simp
    qed
    ultimately show ?case using push by simp
  qed
  then show "fl_ring fl" "mset (fl_items fl) + mset U = mset (map word_of_nat [1..<51])" "fl_bounded fl b" by simp_all
qed

text \<open>
  C23: The free list miscounts in every history. However registers are allocated from the
  initial state, while the list holds any, and released, when in use, the registers in use and those the list holds are together 1 to 50,
  each once: register 51 is never among them, although the initial array contains it, and from
  the first release on it is nowhere in the array any more, so it can never be handed out. The
  counter is always one more than the registers held. So when all fifty are in use the code's
  test still finds the list non-empty, and, if anything was ever released, what it hands out
  then is register 0, the constant zero, or a register that is already in use.
\<close>
theorem free_list_miscounts:
  assumes "fl_reach fl U b"
  shows "mset (fl_items fl) + mset U = mset (map word_of_nat [1..<51]) \<and> unat (fl_count fl) = length (fl_items fl) + 1
    \<and> 51 \<notin> set (fl_items fl) \<and> 51 \<notin> set U \<and> (b \<longrightarrow> 51 \<notin> set (fl_free_list fl))
    \<and> (fl_items fl = [] \<longrightarrow> set U = set (map word_of_nat [1..<51]) \<and> fl_count fl > 0 \<and> (b \<longrightarrow> fst (fl_pop fl) \<in> insert 0 (set U)))"
proof -
  note p = fl_reach_partition [OF assms]
  have c: "unat (fl_count fl) = length (fl_items fl) + 1"
    using p(1) by (simp add: fl_ring_def fl_items_def)
  have all: "set (fl_items fl) \<union> set U = set (map word_of_nat [1..<51])"
    using p(2) by (metis set_mset_mset set_mset_union)
  have no: "(51 :: u8) \<notin> set (map word_of_nat [1..<51])" using phys_regs_range [of 51] by auto
  have b: "51 \<notin> set (fl_free_list fl)" if b using p(3) that by (auto simp: fl_bounded_def)
  have "set U = set (map word_of_nat [1..<51]) \<and> fl_count fl > 0 \<and> (b \<longrightarrow> fst (fl_pop fl) \<in> insert 0 (set U))" if e: "fl_items fl = []"
  proof -
    have U: "set U = set (map word_of_nat [1..<51])" using all e by simp
    have "fst (fl_pop fl) \<in> insert 0 (set U)" if b
    proof -
      let ?q = "fst (fl_pop fl)"
      have "?q \<in> set (fl_free_list fl)" using p(1) by (simp add: fl_pop_def fl_ring_def Let_def)
      then have "unat ?q < 51" using p(3) that by (simp add: fl_bounded_def)
      then have "?q = 0 \<or> ?q \<in> set (map word_of_nat [1..<51])"
        by (cases "?q = 0") (auto simp: Suc_le_eq unat_gt_0 intro!: image_eqI [of _ _ "unat ?q"])
      then show ?thesis using U by blast
    qed
    moreover have "fl_count fl \<noteq> 0" using c by (intro notI) simp
    ultimately show ?thesis using U by (simp add: word_gt_0)
  qed
  then show ?thesis using p(2) c all no b by blast
qed

text \<open>Histories that use up the list after a release exist.\<close>

lemma fl_reach_drained:
  "fl_reach fl U b \<Longrightarrow> length (fl_items fl) = n \<Longrightarrow> \<exists>fl' U'. fl_reach fl' U' b \<and> fl_items fl' = []"
proof (induction n arbitrary: fl U)
  case (Suc n)
  then have ne: "fl_items fl \<noteq> []" by auto
  note pop = fl_pop_ring [OF fl_reach_partition(1) [OF Suc.prems(1)] ne]
  show ?case using Suc.IH [OF fl_alloc [OF Suc.prems(1) ne]] pop Suc.prems(2) by simp
qed auto

lemma free_list_miscounts_witness:
  "\<exists>fl U. fl_reach fl U True \<and> fl_items fl = [] \<and> fl_count fl > 0 \<and> fst (fl_pop fl) \<in> insert 0 (set U)"
proof -
  have "fl_items RenameFreeListState0 \<noteq> []" by code_simp
  from fl_release [OF fl_alloc [OF fl_initial this], of "fst (fl_pop RenameFreeListState0)"]
  obtain fl U where r: "fl_reach fl U True" by auto
  from fl_reach_drained [OF this refl] obtain fl' U' where d: "fl_reach fl' U' True" "fl_items fl' = []" by blast
  then show ?thesis using free_list_miscounts [OF d(1)] by blast
qed

end
