(* ===== verification/Refine.thy ===== *)
theory Refine
  imports Isa Stages Queues
begin

text \<open>
  The core implements the instruction set: from a state with nothing in flight, two cycles
  of \<open>boom_core_step\<close> are one step of the architecture, in registers, program counter,
  commit trace and store requests. The instruction memory is the parameter \<open>code\<close>; the
  core fetches \<open>encode (code pc)\<close>.
\<close>

section \<open>The architecture\<close>

record Arch =
  arch_pc :: u64
  arch_regs :: "5 word \<Rightarrow> u64"
  arch_trace :: "(u64 \<times> u32 \<times> (u8 \<times> u64) option) list"
  arch_stores :: "(u64 \<times> u64 \<times> 2 word) list"

fun arch_read :: "(5 word \<Rightarrow> u64) \<Rightarrow> 5 word option \<Rightarrow> u64" where
  "arch_read R None = 0"
| "arch_read R (Some r) = R r"

definition isa_write :: "Instr \<Rightarrow> u64 \<Rightarrow> (5 word \<Rightarrow> u64) \<Rightarrow> 5 word \<Rightarrow> u64" where
  "isa_write i v R = (if isa_rd i = 0 then R else R(isa_rd i := v))"

definition isa_event :: "Instr \<Rightarrow> u64 \<Rightarrow> u64 \<Rightarrow> u64 \<times> u32 \<times> (u8 \<times> u64) option" where
  "isa_event i pc v = (pc, encode i, if isa_rd i = 0 then None else Some (ucast (isa_rd i), v))"

definition isa_step :: "(u64 \<Rightarrow> Instr) \<Rightarrow> Arch \<Rightarrow> Arch" where
  "isa_step code A =
    (let pc = arch_pc A; i = code pc;
         a = arch_read (arch_regs A) (isa_rs1 i); b = arch_read (arch_regs A) (isa_rs2 i);
         v = isa_value i pc a b
     in \<lparr>arch_pc = isa_next i pc a b, arch_regs = isa_write i v (arch_regs A),
         arch_trace = arch_trace A @ [isa_event i pc v],
         arch_stores = arch_stores A @ (case isa_store i a b of None \<Rightarrow> [] | Some w \<Rightarrow> [w])\<rparr>)"

section \<open>Between instructions\<close>

text \<open>The architectural registers through the map table.\<close>

definition arch_view :: "BoomCoreState \<Rightarrow> 5 word \<Rightarrow> u64" where
  "arch_view s r = read_rf (bs_int_rf s) (mt_map_table (ren_int_map_table (bs_rename s)) ! unat r)"

definition core_quiet :: "BoomCoreState \<Rightarrow> bool" where
  "core_quiet s = (rename_quiet (bs_rename s) \<and> rob_idle (bs_rob s) \<and> iq_idle (iss_alu_iq (bs_issue s))
     \<and> \<not> lsu_load_response_pending (bs_lsu s) \<and> length (bs_int_rf s) = INT_PHYS_REGS
     \<and> length (dec_uops (bs_decode s)) = 1 \<and> length (dec_valids (bs_decode s)) = 1
     \<and> fe_reset_done (bs_frontend s) \<and> \<not> fe_flush (bs_frontend s)
     \<and> \<not> fe_response_received (bs_frontend s)
     \<and> \<not> bs_io_success s \<and> \<not> bs_io_trap s
     \<and> (\<exists>r. exe_alu_results (bs_execute s) = [r] \<and> \<not> ar_valid r))"

lemma commit_rename_cong: "uop_rename u = uop_rename v \<Longrightarrow> commit_rename u = commit_rename v"
  by (intro ext) (simp add: commit_rename_def)

lemma rename_quiet_fields [simp]:
  "rename_quiet (ren\<lparr>ren_renamed_uops := a, ren_renamed_valids := b\<rparr>) = rename_quiet ren"
  by (simp add: rename_quiet_def)

lemma rename_uop_uop:
  assumes "rename_uop u mt fl = (u', mt', fl')"
  shows "u' = u\<lparr>uop_rename := uop_rename u'\<rparr>" "ri_prs1 (uop_rename u') = mt_map_table mt ! unat (ri_lrs1 (uop_rename u))"
    "ri_prs2 (uop_rename u') = mt_map_table mt ! unat (ri_lrs2 (uop_rename u))"
    "ri_dst_rtype (uop_rename u') = ri_dst_rtype (uop_rename u)" "\<not> ri_prs1_busy (uop_rename u')" "\<not> ri_prs2_busy (uop_rename u')"
    "writes_int u \<Longrightarrow> ri_ldst (uop_rename u') = ri_ldst (uop_rename u)"
  using assms by (auto simp: rename_uop_def rename_sources_def writes_int_def Let_def split: if_splits prod.splits)

text \<open>The cycle behind the load/store unit.\<close>

definition after_lsu :: "BoomCoreState \<Rightarrow> PipeSignals \<Rightarrow> BoomCoreState \<times> PipeSignals" where
  "after_lsu s pipe =
    (let (s, pipe) = frontend_module s pipe
     in rob_commit_module (execute_module (issue_module (rob_allocate (rename_module (decode_module s))))) pipe)"

lemma boom_core_step_after:
  "boom_core_step s p = (case lsu_module (branch_module (csr_module (step_begin s))) p of (x, p) \<Rightarrow> after_lsu x p)"
  by (simp add: boom_core_step_def after_lsu_def Let_def)

text \<open>Everything between the load/store unit and commit, when a response arrives.\<close>

lemma stages_until_commit:
  assumes x: "\<not> bs_global_flush x" "\<not> bu_valid (bs_brupdate x)" "rob_state (bs_rob x) = ROB_NORMAL"
      "\<not> rob_is_full (bs_rob x)" "iq_idle (iss_alu_iq (bs_issue x))"
      "length (dec_uops (bs_decode x)) = 1" "length (dec_valids (bs_decode x)) = 1"
    and fe: "fe_reset_done (bs_frontend x)" "\<not> fe_flush (bs_frontend x)" "fe_request_sent (bs_frontend x)"
    and p: "pipe_imem_resp p = [resp]" "irs_fetch_id resp = fe_pending_fetch_id (bs_frontend x)"
    and u: "u = decode_uop (irs_address resp) (irs_instruction resp)"
      "uop_uopc u \<noteq> 0" "uop_iq_type u = IQ_ALU \<or> uop_iq_type u = IQ_MEM"
    and ren: "rename_uop u (ren_int_map_table (bs_rename x)) (ren_int_free_list (bs_rename x)) = (u', mt, fl)"
  defines "v \<equiv> u'\<lparr>uop_queue := (uop_queue u')\<lparr>qi_rob_idx := rob_tail (bs_rob x)\<rparr>\<rparr>"
  shows "\<exists>t. after_lsu x p = rob_commit_module (execute_lane 0 v t) (p\<lparr>pipe_imem_resp := []\<rparr>)
    \<and> exe_alu_results (bs_execute t) = [AluResult0] \<and> bs_int_rf t = bs_int_rf x \<and> bs_lsu t = bs_lsu x
    \<and> bs_rob t = rob_push (bs_rob x) u' \<and> iq_idle (iss_alu_iq (bs_issue t))
    \<and> length (dec_uops (bs_decode t)) = 1 \<and> length (dec_valids (bs_decode t)) = 1
    \<and> \<not> bu_valid (bs_brupdate t) \<and> bs_csr t = bs_csr x
    \<and> bs_io_success t = bs_io_success x \<and> bs_io_trap t = bs_io_trap x
    \<and> bs_rename t = (bs_rename x)\<lparr>ren_int_map_table := mt, ren_int_free_list := fl,
         ren_renamed_uops := ren_renamed_uops (bs_rename t), ren_renamed_valids := ren_renamed_valids (bs_rename t)\<rparr>
    \<and> fe_reset_done (bs_frontend t) \<and> \<not> fe_flush (bs_frontend t) \<and> \<not> fe_response_received (bs_frontend t)
    \<and> \<not> fe_request_sent (bs_frontend t) \<and> fe_pc (bs_frontend t) = irs_address resp + 4"
proof -
  obtain fe where fe': "frontend_module x p = (x\<lparr>bs_frontend := fe\<rparr>, p\<lparr>pipe_imem_resp := []\<rparr>)"
    "fe_reset_done fe" "\<not> fe_flush fe" "\<not> fe_response_received fe" "\<not> fe_request_sent fe"
    "fe_pc fe = irs_address resp + 4" "fe_fetch_packet_valid fe"
    "fe_fetch_uop fe = fetch_packet (irs_address resp) (irs_instruction resp)"
    using frontend_respond [of x "bs_frontend x" p resp] x fe p by auto
  define b where "b = x\<lparr>bs_frontend := fe, bs_decode := \<lparr>dec_uops = [u], dec_valids = [True]\<rparr>\<rparr>"
  have dec: "decode_module (x\<lparr>bs_frontend := fe\<rparr>) = b"
    using x fe' u(1) by (subst decode_packet) (auto simp: b_def fetch_packet_def)
  define c where "c = b\<lparr>bs_rename := (bs_rename x)\<lparr>ren_int_map_table := mt, ren_int_free_list := fl,
    ren_renamed_uops := [u'], ren_renamed_valids := [True]\<rparr>\<rparr>"
  have rn: "rename_module b = c"
    using x ren by (subst rename_one [of _ u u' mt fl]) (auto simp: b_def c_def)
  note uu = rename_uop_uop [OF ren]
  have u'f: "uop_uopc u' = uop_uopc u" "uop_iq_type u' = uop_iq_type u"
    using arg_cong [OF uu(1), of uop_uopc] arg_cong [OF uu(1), of uop_iq_type] by simp_all
  define d where "d = c\<lparr>bs_rob := rob_push (bs_rob x) u', bs_rename := (bs_rename c)\<lparr>ren_renamed_uops := [v]\<rparr>\<rparr>"
  have al: "rob_allocate c = d"
    using x u(2) u'f by (subst allocate_one [of _ u']) (auto simp: b_def c_def d_def v_def)
  obtain iss where iss: "issue_module d = d\<lparr>bs_issue := iss\<rparr>" "iq_idle (iss_alu_iq iss)"
    "iss_issued_valids iss = [True, False, False]" "iss_issued_uops iss ! 0 = v"
    using issue_one [of d v] x u(3) u'f uu(5,6) by (auto simp: b_def c_def d_def v_def)
  define t where "t = d\<lparr>bs_issue := iss, bs_execute := (bs_execute d)\<lparr>exe_alu_results := [AluResult0]\<rparr>\<rparr>"
  have ex: "execute_module (d\<lparr>bs_issue := iss\<rparr>) = execute_lane 0 v t"
    using iss(3,4) by (subst execute_one [of _ v]) (auto simp: t_def)
  have "after_lsu x p = rob_commit_module (execute_lane 0 v t) (p\<lparr>pipe_imem_resp := []\<rparr>)"
    unfolding after_lsu_def by (simp add: fe'(1) dec rn al iss(1) ex)
  then show ?thesis
    using x(2) fe' iss(2) by (intro exI [of _ t]) (auto simp: t_def d_def c_def b_def)
qed

text \<open>With nothing in flight the first stages do nothing.\<close>

lemma quiet_until_lsu:
  assumes q: "core_quiet s" and p: "pipe_dmem_resp p = []"
  shows "boom_core_step s p = after_lsu (csr_module (step_begin s)) p"
proof -
  obtain r where r: "exe_alu_results (bs_execute s) = [r]" "\<not> ar_valid r"
    using q by (auto simp: core_quiet_def)
  define a where "a = csr_module (step_begin s)"
  have a: "\<not> bs_global_flush a" "bs_execute a = bs_execute s" "bs_rob a = bs_rob s" "bs_lsu a = bs_lsu s"
    by (simp_all add: a_def csr_module_def step_begin_def)
  have "branch_module a = a"
    using a r by (intro branch_none) auto
  moreover have "lsu_module a p = (a, p)"
    using a r q p by (intro lsu_idle) (auto simp: core_quiet_def rob_idle_no_loads, auto simp: rob_idle_def)
  ultimately show ?thesis by (simp add: boom_core_step_after a_def [symmetric])
qed

section \<open>The cycle that executes an instruction\<close>

definition retired :: "CommitEntry \<Rightarrow> u64 \<times> u32 \<times> (u8 \<times> u64) option" where
  "retired ce = (ce_pc ce, ce_inst ce, if ce_rd_valid ce then Some (ce_rd ce, ce_rd_value ce) else None)"

text \<open>The operands only matter where the instruction names a register.\<close>

definition same_operand :: "5 word option \<Rightarrow> u64 \<Rightarrow> u64 \<Rightarrow> bool" where
  "same_operand r x a = (r \<noteq> None \<longrightarrow> x = a)"

lemma isa_operands:
  assumes "same_operand (isa_rs1 i) x a" "same_operand (isa_rs2 i) y b"
  shows "isa_value i pc x y = isa_value i pc a b" "isa_target i pc x y = isa_target i pc a b"
    "isa_store i x y = isa_store i a b"
  using assms by (cases i; simp add: same_operand_def)+

text \<open>What is left for the next cycle: a redirect, or a store to be sent.\<close>

definition store_pending :: "Instr \<Rightarrow> u64 \<Rightarrow> u64 \<times> u64 \<times> 2 word \<Rightarrow> AluResult \<Rightarrow> BoomCoreState \<Rightarrow> bool" where
  "store_pending i pc w r s = (case w of (ad, d, sz) \<Rightarrow>
     ar_memory_valid r \<and> ar_is_store r \<and> ar_memory_address r = ad \<and> ar_store_data r = d
     \<and> ar_memory_size r = ucast sz \<and> ar_memory_mask r = mask_for_size (ucast sz)
     \<and> (\<exists>e. rob_single (bs_rob s) e \<and> \<not> re_exception e \<and> \<not> re_is_load e \<and> \<not> re_memory_request_sent e
          \<and> uop_queue (ar_uop r) = uop_queue (re_uop e)
          \<and> \<not> dc_is_load (uop_ctrl (re_uop e)) \<and> uop_inst (re_uop e) = encode i
          \<and> uop_debug_pc (re_uop e) = pc \<and> ri_pdst (uop_rename (re_uop e)) = 0))"

definition executed :: "Instr \<Rightarrow> u64 \<Rightarrow> u64 \<Rightarrow> u64 \<Rightarrow> BoomCoreState \<Rightarrow> bool" where
  "executed i pc a b s = (rename_quiet (bs_rename s) \<and> iq_idle (iss_alu_iq (bs_issue s))
     \<and> \<not> lsu_load_response_pending (bs_lsu s) \<and> length (bs_int_rf s) = INT_PHYS_REGS
     \<and> length (dec_uops (bs_decode s)) = 1 \<and> length (dec_valids (bs_decode s)) = 1
     \<and> fe_reset_done (bs_frontend s) \<and> \<not> fe_flush (bs_frontend s)
     \<and> \<not> fe_response_received (bs_frontend s) \<and> \<not> fe_request_sent (bs_frontend s)
     \<and> fe_pc (bs_frontend s) = pc + 4 \<and> \<not> bs_io_success s \<and> \<not> bs_io_trap s
     \<and> (\<exists>r. exe_alu_results (bs_execute s) = [r] \<and> ar_valid r
          \<and> is_control (ar_uop r) = isa_control i
          \<and> ar_mispredict r = (isa_target i pc a b \<noteq> None)
          \<and> (\<forall>t. isa_target i pc a b = Some t \<longrightarrow> ar_redirect_pc r = t)
          \<and> (case isa_store i a b of None \<Rightarrow> \<not> ar_memory_valid r \<and> rob_idle (bs_rob s)
             | Some w \<Rightarrow> store_pending i pc w r s)))"

lemma execute_lane_state:
  fixes s :: BoomCoreState and u :: MicroOp
  defines "r \<equiv> execute_result u (read_rf (bs_int_rf s) (ri_prs1 (uop_rename u)))
    (read_rf (bs_int_rf s) (ri_prs2 (uop_rename u)))"
  assumes "exe_alu_results (bs_execute s) = [r0]"
  shows "execute_lane 0 u s = s\<lparr>bs_execute := (bs_execute s)\<lparr>exe_alu_results := [r]\<rparr>,
    bs_int_rf := (if \<not> ar_is_load r \<and> ri_dst_rtype (uop_rename u) = DST_INT \<and> ri_pdst (uop_rename u) \<noteq> 0
      then (bs_int_rf s)[unat (ri_pdst (uop_rename u)) := ar_result r] else bs_int_rf s)\<rparr>"
  using assms by (simp add: execute_lane_def Let_def)

lemma arch_view_write:
  assumes "length m = LOGICAL_REG_COUNT" "length rf = INT_PHYS_REGS" "p \<noteq> 0" "unat p < INT_PHYS_REGS" "p \<notin> set m"
  shows "(\<lambda>r :: 5 word. read_rf (rf[unat p := v]) (m[unat d := p] ! unat r))
    = (\<lambda>r. read_rf rf (m ! unat r))(d := v)"
proof
  fix r :: "5 word"
  have "m ! unat r \<noteq> p" using assms(1,5) nth_mem [of "unat r" m] by auto
  then have "unat (m ! unat r) \<noteq> unat p" by (simp add: unat_eq_nat_iff)
  then show "read_rf (rf[unat p := v]) (m[unat d := p] ! unat r) = ((\<lambda>r. read_rf rf (m ! unat r))(d := v)) r"
    using assms by (auto simp: read_rf_def nth_list_update unat_eq_nat_iff)
qed

text \<open>The renamed micro-operation computes what the instruction specifies.\<close>

lemma renamed_operands:
  assumes "rename_uop (decode_uop pc (encode i)) (ren_int_map_table (bs_rename s)) fl = (u', mt, fl')"
  shows "same_operand (isa_rs1 i) (read_rf (bs_int_rf s) (ri_prs1 (uop_rename u'))) (arch_read (arch_view s) (isa_rs1 i))"
    "same_operand (isa_rs2 i) (read_rf (bs_int_rf s) (ri_prs2 (uop_rename u'))) (arch_read (arch_view s) (isa_rs2 i))"
  using rename_uop_uop(2,3) [OF assms] encode_registers(2,3) [of i]
  by (auto simp: same_operand_def arch_view_def)

lemma renamed_result:
  fixes qu :: QueueInfo
  assumes ren: "rename_uop (decode_uop pc (encode i)) (ren_int_map_table (bs_rename s)) fl = (u', mt, fl')"
    and i: "core_supports i"
  defines "a \<equiv> arch_read (arch_view s) (isa_rs1 i)" and "b \<equiv> arch_read (arch_view s) (isa_rs2 i)"
  defines "r \<equiv> execute_result (u'\<lparr>uop_queue := qu\<rparr>) (read_rf (bs_int_rf s) (ri_prs1 (uop_rename u')))
    (read_rf (bs_int_rf s) (ri_prs2 (uop_rename u')))"
  shows "isa_rd i \<noteq> 0 \<Longrightarrow> ar_result r = isa_value i pc a b" "ar_mispredict r = (isa_target i pc a b \<noteq> None)"
    "isa_target i pc a b = Some t \<Longrightarrow> ar_redirect_pc r = t"
    "\<not> ar_is_load r" "\<not> ar_exception r" "ar_is_store r = (isa_store i a b \<noteq> None)"
    "ar_memory_valid r = (isa_store i a b \<noteq> None)"
    "isa_store i a b = Some (ad, d, sz) \<Longrightarrow> ar_memory_address r = ad \<and> ar_store_data r = d
       \<and> ar_memory_size r = ucast sz \<and> ar_memory_mask r = mask_for_size (ucast sz)"
proof -
  obtain X where "u' = (decode_uop pc (encode i))\<lparr>uop_rename := X\<rparr>"
    using rename_uop_uop(1) [OF ren] by blast
  then have v: "u'\<lparr>uop_queue := qu\<rparr> = (decode_uop pc (encode i))\<lparr>uop_rename := X, uop_queue := qu\<rparr>" by simp
  note ops = isa_operands [OF renamed_operands [OF ren], folded a_def b_def]
  show "isa_rd i \<noteq> 0 \<Longrightarrow> ar_result r = isa_value i pc a b" "ar_mispredict r = (isa_target i pc a b \<noteq> None)"
    "isa_target i pc a b = Some t \<Longrightarrow> ar_redirect_pc r = t"
    "isa_store i a b = Some (ad, d, sz) \<Longrightarrow> ar_memory_address r = ad \<and> ar_store_data r = d
       \<and> ar_memory_size r = ucast sz \<and> ar_memory_mask r = mask_for_size (ucast sz)"
    unfolding r_def v by (simp_all add: decode_execute_value [OF i] decode_execute_redirect [OF i]
      decode_execute_target [OF i] decode_execute_store [OF i] ops)
  show "\<not> ar_is_load r" "\<not> ar_exception r" "ar_is_store r = (isa_store i a b \<noteq> None)"
    "ar_memory_valid r = (isa_store i a b \<noteq> None)"
    using decode_execute_kind [OF i, where pc = pc and rn = X and q = qu and a = "read_rf (bs_int_rf s) (ri_prs1 (uop_rename u'))"
        and b = "read_rf (bs_int_rf s) (ri_prs2 (uop_rename u'))"]
    unfolding r_def v by (simp_all add: ops)
qed

lemma renamed_control:
  assumes ren: "rename_uop (decode_uop pc (encode i)) mt0 fl = (u', mt, fl')" and i: "core_supports i"
  shows "\<not> uop_exception u'" "\<not> dc_is_load (uop_ctrl u')" "dc_is_sta (uop_ctrl u') = (isa_store i a b \<noteq> None)"
    "is_control u' = isa_control i" "uop_inst u' = encode i" "uop_debug_pc u' = pc"
    "writes_int (decode_uop pc (encode i)) = (isa_rd i \<noteq> 0)"
    "isa_rd i \<noteq> 0 \<Longrightarrow> ri_ldst (uop_rename u') = ucast (isa_rd i) \<and> ri_dst_rtype (uop_rename u') = DST_INT"
    "isa_rd i \<noteq> 0 \<Longrightarrow> unat (ri_ldst (uop_rename (decode_uop pc (encode i)))) = unat (isa_rd i)"
proof -
  note uu = rename_uop_uop [OF ren] and du = decode_encode [OF i, of pc a b]
  obtain X where u': "u' = (decode_uop pc (encode i))\<lparr>uop_rename := X\<rparr>" using uu(1) by blast
  show "\<not> uop_exception u'" "\<not> dc_is_load (uop_ctrl u')" "dc_is_sta (uop_ctrl u') = (isa_store i a b \<noteq> None)"
    "is_control u' = isa_control i" "uop_inst u' = encode i" "uop_debug_pc u' = pc"
    using du by (simp_all add: u' is_control_def)
  show w: "writes_int (decode_uop pc (encode i)) = (isa_rd i \<noteq> 0)" using du by (simp add: writes_int_def)
  show "ri_ldst (uop_rename u') = ucast (isa_rd i) \<and> ri_dst_rtype (uop_rename u') = DST_INT"
    "unat (ri_ldst (uop_rename (decode_uop pc (encode i)))) = unat (isa_rd i)" if "isa_rd i \<noteq> 0"
    using that w uu(4,7) encode_registers(1) [of i] by (auto simp: writes_int_def)
qed

text \<open>The register file and the rename state after the instruction is written back and retired.\<close>

lemma write_back:
  fixes s :: BoomCoreState and val :: u64
  assumes q: "rename_quiet (bs_rename s)" and rf: "length (bs_int_rf s) = INT_PHYS_REGS"
    and ren: "rename_uop (decode_uop pc (encode i)) (ren_int_map_table (bs_rename s)) (ren_int_free_list (bs_rename s)) = (u', mt, fl)"
    and i: "core_supports i"
    and after: "ren1 = (bs_rename s)\<lparr>ren_int_map_table := mt, ren_int_free_list := fl, ren_renamed_uops := us, ren_renamed_valids := vs\<rparr>"
  defines "wr \<equiv> ri_dst_rtype (uop_rename u') = DST_INT \<and> ri_pdst (uop_rename u') \<noteq> 0"
  defines "rf' \<equiv> (if wr then (bs_int_rf s)[unat (ri_pdst (uop_rename u')) := val] else bs_int_rf s)"
  shows "rename_quiet (commit_rename u' ren1)" "wr = (isa_rd i \<noteq> 0)"
    "(\<lambda>r. read_rf rf' (mt_map_table (ren_int_map_table (commit_rename u' ren1)) ! unat r)) = isa_write i val (arch_view s)"
    "isa_rd i \<noteq> 0 \<Longrightarrow> rf' ! unat (ri_pdst (uop_rename u')) = val"
    "isa_rd i = 0 \<Longrightarrow> ri_pdst (uop_rename u') = 0 \<and> commit_rename u' ren1 = ren1"
proof -
  let ?ren0 = "(bs_rename s)\<lparr>ren_renamed_uops := us, ren_renamed_valids := vs\<rparr>"
  let ?u = "decode_uop pc (encode i)"
  have ren1: "ren1 = ?ren0\<lparr>ren_int_map_table := mt, ren_int_free_list := fl\<rparr>" by (simp add: after)
  have ren0: "rename_uop ?u (ren_int_map_table ?ren0) (ren_int_free_list ?ren0) = (u', mt, fl)" "rename_quiet ?ren0"
    using ren q by simp_all
  note c = renamed_control [OF ren i]
  have "rename_quiet (commit_rename u' ren1) \<and> wr = (isa_rd i \<noteq> 0) \<and>
    (\<lambda>r. read_rf rf' (mt_map_table (ren_int_map_table (commit_rename u' ren1)) ! unat r)) = isa_write i val (arch_view s)
    \<and> (isa_rd i \<noteq> 0 \<longrightarrow> rf' ! unat (ri_pdst (uop_rename u')) = val)
    \<and> (isa_rd i = 0 \<longrightarrow> ri_pdst (uop_rename u') = 0 \<and> commit_rename u' ren1 = ren1)"
  proof (cases "isa_rd i = 0")
    case True
    then have "\<not> writes_int ?u" using c(7) by simp
    from quiet_step_none [OF ren0(1) this] have n: "mt = ren_int_map_table (bs_rename s)" "fl = ren_int_free_list (bs_rename s)"
      "ri_pdst (uop_rename u') = 0" "commit_rename u' ren1 = ren1"
      by (simp_all add: ren1 commit_rename_def)
    then show ?thesis using True q by (simp add: wr_def rf'_def isa_write_def after arch_view_def [abs_def])
  next
    case False
    then have w: "writes_int ?u" and l: "unat (ri_ldst (uop_rename ?u)) = unat (isa_rd i)" using c(7,9) by simp_all
    note st = quiet_step_write [OF ren0(2) w l unat5_less ren0(1), folded ren1]
    have "wr" using False c(8) st(3,4) by (simp add: wr_def)
    then show ?thesis
      using st False arch_view_write [OF rename_quietD(1) [OF ren0(2)] rf st(4,5,6), of val "isa_rd i"] rf
      by (simp add: rf'_def isa_write_def arch_view_def [abs_def])
  qed
  then show "rename_quiet (commit_rename u' ren1)" "wr = (isa_rd i \<noteq> 0)"
    "(\<lambda>r. read_rf rf' (mt_map_table (ren_int_map_table (commit_rename u' ren1)) ! unat r)) = isa_write i val (arch_view s)"
    "isa_rd i \<noteq> 0 \<Longrightarrow> rf' ! unat (ri_pdst (uop_rename u')) = val"
    "isa_rd i = 0 \<Longrightarrow> ri_pdst (uop_rename u') = 0 \<and> commit_rename u' ren1 = ren1" by blast+
qed

text \<open>
  The executing cycle up to commit: the result, the entry at the head of the reorder
  buffer, and the rest of the core quiet.
\<close>

lemma execute_until_commit:
  fixes s :: BoomCoreState
  assumes q: "core_quiet s" and fe: "fe_request_sent (bs_frontend s)"
    and p: "pipe_imem_resp p = [resp]" "irs_fetch_id resp = fe_pending_fetch_id (bs_frontend s)"
      "pipe_dmem_resp p = []"
    and u: "u = decode_uop (irs_address resp) (irs_instruction resp)"
      "uop_uopc u \<noteq> 0" "uop_iq_type u = IQ_ALU \<or> uop_iq_type u = IQ_MEM"
    and ren: "rename_uop u (ren_int_map_table (bs_rename s)) (ren_int_free_list (bs_rename s)) = (u', mt, fl)"
  defines "v \<equiv> u'\<lparr>uop_queue := (uop_queue u')\<lparr>qi_rob_idx := rob_head (bs_rob s)\<rparr>\<rparr>"
  defines "r \<equiv> execute_result v (read_rf (bs_int_rf s) (ri_prs1 (uop_rename u'))) (read_rf (bs_int_rf s) (ri_prs2 (uop_rename u')))"
  shows "\<exists>t us vs. boom_core_step s p = rob_commit_module t (p\<lparr>pipe_imem_resp := []\<rparr>)
    \<and> exe_alu_results (bs_execute t) = [r] \<and> \<not> lsu_load_response_pending (bs_lsu t)
    \<and> rob_single (bs_rob t) (rob_entry_of u' (rob_head (bs_rob s))) \<and> iq_idle (iss_alu_iq (bs_issue t))
    \<and> length (dec_uops (bs_decode t)) = 1 \<and> length (dec_valids (bs_decode t)) = 1
    \<and> \<not> bu_valid (bs_brupdate t) \<and> csr_instret (bs_csr t) = csr_instret (bs_csr s)
    \<and> bs_rename t = (bs_rename s)\<lparr>ren_int_map_table := mt, ren_int_free_list := fl, ren_renamed_uops := us, ren_renamed_valids := vs\<rparr>
    \<and> fe_reset_done (bs_frontend t) \<and> \<not> fe_flush (bs_frontend t) \<and> \<not> fe_response_received (bs_frontend t)
    \<and> \<not> fe_request_sent (bs_frontend t) \<and> fe_pc (bs_frontend t) = irs_address resp + 4
    \<and> \<not> bs_io_success t \<and> \<not> bs_io_trap t
    \<and> bs_int_rf t = (if \<not> ar_is_load r \<and> ri_dst_rtype (uop_rename u') = DST_INT \<and> ri_pdst (uop_rename u') \<noteq> 0
        then (bs_int_rf s)[unat (ri_pdst (uop_rename u')) := ar_result r] else bs_int_rf s)"
proof -
  define x where "x = csr_module (step_begin s)"
  have x: "\<not> bs_global_flush x" "bs_frontend x = bs_frontend s" "bs_rob x = bs_rob s" "bs_lsu x = bs_lsu s"
    "bs_decode x = bs_decode s" "bs_rename x = bs_rename s" "bs_issue x = bs_issue s" "bs_int_rf x = bs_int_rf s"
    "\<not> bu_valid (bs_brupdate x)" "csr_instret (bs_csr x) = csr_instret (bs_csr s)" "\<not> bs_io_success x" "\<not> bs_io_trap x"
    by (simp_all add: x_def csr_module_def step_begin_def)
  have rob: "rob_idle (bs_rob s)" "rob_tail (bs_rob s) = rob_head (bs_rob s)"
    using q by (auto simp: core_quiet_def rob_idle_def rob_is_empty_def)
  note push = rob_push_single [OF rob(1)]
  obtain t where t: "after_lsu x p = rob_commit_module (execute_lane 0 v t) (p\<lparr>pipe_imem_resp := []\<rparr>)"
    "exe_alu_results (bs_execute t) = [AluResult0]" "bs_int_rf t = bs_int_rf s" "bs_lsu t = bs_lsu s"
    "bs_rob t = rob_push (bs_rob s) u'" "iq_idle (iss_alu_iq (bs_issue t))"
    "length (dec_uops (bs_decode t)) = 1" "length (dec_valids (bs_decode t)) = 1"
    "\<not> bu_valid (bs_brupdate t)" "bs_csr t = bs_csr x" "\<not> bs_io_success t" "\<not> bs_io_trap t"
    "bs_rename t = (bs_rename s)\<lparr>ren_int_map_table := mt, ren_int_free_list := fl,
         ren_renamed_uops := ren_renamed_uops (bs_rename t), ren_renamed_valids := ren_renamed_valids (bs_rename t)\<rparr>"
    "fe_reset_done (bs_frontend t)" "\<not> fe_flush (bs_frontend t)" "\<not> fe_response_received (bs_frontend t)"
    "\<not> fe_request_sent (bs_frontend t)" "fe_pc (bs_frontend t) = irs_address resp + 4"
    using stages_until_commit [of x p resp u u' mt fl] x q fe p(1,2) u ren push(2) rob
    by (auto simp: core_quiet_def rob_idle_def v_def)
  have "uop_rename v = uop_rename u'" by (simp add: v_def)
  then have l: "execute_lane 0 v t = t\<lparr>bs_execute := (bs_execute t)\<lparr>exe_alu_results := [r]\<rparr>,
    bs_int_rf := (if \<not> ar_is_load r \<and> ri_dst_rtype (uop_rename u') = DST_INT \<and> ri_pdst (uop_rename u') \<noteq> 0
      then (bs_int_rf t)[unat (ri_pdst (uop_rename u')) := ar_result r] else bs_int_rf t)\<rparr>"
    using execute_lane_state [OF t(2), of v] t(3) unfolding r_def by simp
  show ?thesis
    using t x(10) q push(1) [of u'] rob(2) quiet_until_lsu [OF q p(3)] unfolding l x_def
    by (intro exI [of _ "execute_lane 0 v t"] exI [of _ "ren_renamed_uops (bs_rename t)"]
        exI [of _ "ren_renamed_valids (bs_rename t)"]) (simp add: l core_quiet_def)
qed

lemma cycle_execute_alu:
  fixes s :: BoomCoreState
  assumes q: "core_quiet s" and fe: "fe_request_sent (bs_frontend s)"
    and p: "pipe_imem_resp p = [resp]" "irs_fetch_id resp = fe_pending_fetch_id (bs_frontend s)"
      "pipe_dmem_resp p = []" "pipe_commit_trace p = []"
    and i: "irs_address resp = pc" "irs_instruction resp = encode i" "core_supports i"
  defines "a \<equiv> arch_read (arch_view s) (isa_rs1 i)" and "b \<equiv> arch_read (arch_view s) (isa_rs2 i)"
  assumes st: "isa_store i a b = None"
  shows "\<exists>s' ce. boom_core_step s p = (s', p\<lparr>pipe_imem_resp := [], pipe_commit_trace := [ce]\<rparr>)
    \<and> executed i pc a b s' \<and> arch_view s' = isa_write i (isa_value i pc a b) (arch_view s)
    \<and> retired ce = isa_event i pc (isa_value i pc a b)
    \<and> csr_instret (bs_csr s') = csr_instret (bs_csr s) + 1"
proof -
  obtain u' mt fl where ren: "rename_uop (decode_uop pc (encode i)) (ren_int_map_table (bs_rename s)) (ren_int_free_list (bs_rename s)) = (u', mt, fl)"
    by (metis prod_cases3)
  have u: "decode_uop pc (encode i) = decode_uop (irs_address resp) (irs_instruction resp)"
    "uop_uopc (decode_uop pc (encode i)) \<noteq> 0"
    "uop_iq_type (decode_uop pc (encode i)) = IQ_ALU \<or> uop_iq_type (decode_uop pc (encode i)) = IQ_MEM"
    using i decode_encode [OF i(3), of pc] by simp_all
  define v where "v = u'\<lparr>uop_queue := (uop_queue u')\<lparr>qi_rob_idx := rob_head (bs_rob s)\<rparr>\<rparr>"
  define r where "r = execute_result v (read_rf (bs_int_rf s) (ri_prs1 (uop_rename u'))) (read_rf (bs_int_rf s) (ri_prs2 (uop_rename u')))"
  define e where "e = rob_entry_of u' (rob_head (bs_rob s))"
  obtain t us vs where t: "boom_core_step s p = rob_commit_module t (p\<lparr>pipe_imem_resp := []\<rparr>)"
    "exe_alu_results (bs_execute t) = [r]" "\<not> lsu_load_response_pending (bs_lsu t)" "rob_single (bs_rob t) e"
    "iq_idle (iss_alu_iq (bs_issue t))" "length (dec_uops (bs_decode t)) = 1" "length (dec_valids (bs_decode t)) = 1"
    "\<not> bu_valid (bs_brupdate t)" "csr_instret (bs_csr t) = csr_instret (bs_csr s)"
    "bs_rename t = (bs_rename s)\<lparr>ren_int_map_table := mt, ren_int_free_list := fl, ren_renamed_uops := us, ren_renamed_valids := vs\<rparr>"
    "fe_reset_done (bs_frontend t)" "\<not> fe_flush (bs_frontend t)" "\<not> fe_response_received (bs_frontend t)"
    "\<not> fe_request_sent (bs_frontend t)" "fe_pc (bs_frontend t) = pc + 4"
    "\<not> bs_io_success t" "\<not> bs_io_trap t"
    "bs_int_rf t = (if \<not> ar_is_load r \<and> ri_dst_rtype (uop_rename u') = DST_INT \<and> ri_pdst (uop_rename u') \<noteq> 0
        then (bs_int_rf s)[unat (ri_pdst (uop_rename u')) := ar_result r] else bs_int_rf s)"
    using execute_until_commit [OF q fe p(1-3) u ren, folded v_def, folded r_def, folded e_def, unfolded i(1)] by blast
  have r: "r = execute_result (u'\<lparr>uop_queue := uop_queue v\<rparr>) (read_rf (bs_int_rf s) (ri_prs1 (uop_rename u')))
      (read_rf (bs_int_rf s) (ri_prs2 (uop_rename u')))"
    by (simp add: r_def v_def)
  note res = renamed_result [OF ren i(3), where qu = "uop_queue v", folded a_def b_def, folded r]
  have rf: "bs_int_rf t = (if ri_dst_rtype (uop_rename u') = DST_INT \<and> ri_pdst (uop_rename u') \<noteq> 0
        then (bs_int_rf s)[unat (ri_pdst (uop_rename u')) := ar_result r] else bs_int_rf s)"
    using t(18) res(4) by simp
  note con = renamed_control [OF ren i(3)]
  have q2: "rename_quiet (bs_rename s)" "length (bs_int_rf s) = INT_PHYS_REGS" using q by (simp_all add: core_quiet_def)
  note wb = write_back [OF q2 ren i(3) t(10)]
  have v: "uop_ctrl v = uop_ctrl u'" "is_control v = is_control u'" "qi_rob_idx (uop_queue v) = rob_head (bs_rob t)"
    "uop_rename v = uop_rename u'" "ar_uop r = v" "re_uop e = v" "uop_inst v = encode i" "uop_debug_pc v = pc"
    using t(4) con(5,6) by (simp_all add: v_def is_control_def r_def e_def rob_entry_of_def rob_single_def)
  have mem: "\<not> dc_is_load (uop_ctrl v)" "\<not> dc_is_sta (uop_ctrl v)" "\<not> ar_memory_valid r" "\<not> ar_is_store r"
    using con(2) con(3) [of a b] st res(6,7) by (simp_all add: v(1))
  have "ar_valid r" "\<not> ar_exception r" using con(1) by (simp_all add: r)
  then obtain rob where c1: "rob_commit_module t (p\<lparr>pipe_imem_resp := []\<rparr>) = commit_head (t\<lparr>bs_rob := rob\<rparr>) (p\<lparr>pipe_imem_resp := []\<rparr>)"
    "rob_single rob (e\<lparr>re_busy := False\<rparr>)"
    using commit_module_result [OF t(4,8,2)] mem res(4) v(3,5) by blast
  have ef: "\<not> re_exception e" "\<not> re_is_load e" "\<not> re_is_store e"
    using con(1) by (simp_all add: e_def rob_entry_of_def RobEntry0_def)
  let ?ce = "commit_entry_of (bs_int_rf t) (csr_priv (bs_csr t)) (e\<lparr>re_busy := False\<rparr>)"
  obtain rob' where c2: "commit_head (t\<lparr>bs_rob := rob\<rparr>) (p\<lparr>pipe_imem_resp := []\<rparr>) =
     (t\<lparr>bs_csr := (bs_csr t)\<lparr>csr_instret := csr_instret (bs_csr t) + 1\<rparr>, bs_rename := commit_rename u' (bs_rename t), bs_rob := rob'\<rparr>,
       p\<lparr>pipe_imem_resp := [], pipe_commit_trace := [?ce]\<rparr>)"
    "rob_idle rob'"
    using commit_retires [of "t\<lparr>bs_rob := rob\<rparr>" "e\<lparr>re_busy := False\<rparr>" "p\<lparr>pipe_imem_resp := []\<rparr>"] c1(2) mem(1,2) ef p(4) v(6)
      commit_rename_cong [OF v(4)]
    by auto
  let ?s' = "t\<lparr>bs_csr := (bs_csr t)\<lparr>csr_instret := csr_instret (bs_csr t) + 1\<rparr>, bs_rename := commit_rename u' (bs_rename t), bs_rob := rob'\<rparr>"
  have ret: "retired ?ce = isa_event i pc (isa_value i pc a b)"
    using wb(2) wb(4) [of "ar_result r"] res(1) con(8) v(4,6-8) unfolding rf
    by (auto simp: retired_def commit_entry_of_def isa_event_def Let_def)
  have "executed i pc a b ?s'"
    using t q2 wb(1) res st con(4) mem c2(2) v(2,5) by (auto simp: executed_def r)
  moreover have "isa_write i (ar_result r) (arch_view s) = isa_write i (isa_value i pc a b) (arch_view s)"
    using res(1) by (auto simp: isa_write_def)
  then have "arch_view ?s' = isa_write i (isa_value i pc a b) (arch_view s)"
    using wb(3) [of "ar_result r"] rf by (simp add: arch_view_def [abs_def])
  ultimately show ?thesis
    using t(1,9) c1(1) c2(1) ret by (intro exI [of _ ?s'] exI [of _ ?ce]) simp
qed

lemma isa_store_rd: "isa_store i a b = Some w \<Longrightarrow> isa_rd i = 0"
  by (cases i) auto

lemma isa_store_target: "isa_store i a b = Some w \<Longrightarrow> isa_target i pc a b = None"
  by (cases i) auto

lemma isa_target_control: "isa_target i pc a b = Some t \<Longrightarrow> isa_control i"
  by (cases i) auto

lemma cycle_execute_store:
  fixes s :: BoomCoreState
  assumes q: "core_quiet s" and fe: "fe_request_sent (bs_frontend s)"
    and p: "pipe_imem_resp p = [resp]" "irs_fetch_id resp = fe_pending_fetch_id (bs_frontend s)"
      "pipe_dmem_resp p = []"
    and i: "irs_address resp = pc" "irs_instruction resp = encode i" "core_supports i"
  defines "a \<equiv> arch_read (arch_view s) (isa_rs1 i)" and "b \<equiv> arch_read (arch_view s) (isa_rs2 i)"
  assumes st: "isa_store i a b = Some w"
  shows "\<exists>s'. boom_core_step s p = (s', p\<lparr>pipe_imem_resp := []\<rparr>)
    \<and> executed i pc a b s' \<and> arch_view s' = arch_view s \<and> csr_instret (bs_csr s') = csr_instret (bs_csr s)"
proof -
  obtain u' mt fl where ren: "rename_uop (decode_uop pc (encode i)) (ren_int_map_table (bs_rename s)) (ren_int_free_list (bs_rename s)) = (u', mt, fl)"
    by (metis prod_cases3)
  have u: "decode_uop pc (encode i) = decode_uop (irs_address resp) (irs_instruction resp)"
    "uop_uopc (decode_uop pc (encode i)) \<noteq> 0"
    "uop_iq_type (decode_uop pc (encode i)) = IQ_ALU \<or> uop_iq_type (decode_uop pc (encode i)) = IQ_MEM"
    using i decode_encode [OF i(3), of pc] by simp_all
  define v where "v = u'\<lparr>uop_queue := (uop_queue u')\<lparr>qi_rob_idx := rob_head (bs_rob s)\<rparr>\<rparr>"
  define r where "r = execute_result v (read_rf (bs_int_rf s) (ri_prs1 (uop_rename u'))) (read_rf (bs_int_rf s) (ri_prs2 (uop_rename u')))"
  define e where "e = rob_entry_of u' (rob_head (bs_rob s))"
  obtain t us vs where t: "boom_core_step s p = rob_commit_module t (p\<lparr>pipe_imem_resp := []\<rparr>)"
    "exe_alu_results (bs_execute t) = [r]" "\<not> lsu_load_response_pending (bs_lsu t)" "rob_single (bs_rob t) e"
    "iq_idle (iss_alu_iq (bs_issue t))" "length (dec_uops (bs_decode t)) = 1" "length (dec_valids (bs_decode t)) = 1"
    "\<not> bu_valid (bs_brupdate t)" "csr_instret (bs_csr t) = csr_instret (bs_csr s)"
    "bs_rename t = (bs_rename s)\<lparr>ren_int_map_table := mt, ren_int_free_list := fl, ren_renamed_uops := us, ren_renamed_valids := vs\<rparr>"
    "fe_reset_done (bs_frontend t)" "\<not> fe_flush (bs_frontend t)" "\<not> fe_response_received (bs_frontend t)"
    "\<not> fe_request_sent (bs_frontend t)" "fe_pc (bs_frontend t) = pc + 4"
    "\<not> bs_io_success t" "\<not> bs_io_trap t"
    "bs_int_rf t = (if \<not> ar_is_load r \<and> ri_dst_rtype (uop_rename u') = DST_INT \<and> ri_pdst (uop_rename u') \<noteq> 0
        then (bs_int_rf s)[unat (ri_pdst (uop_rename u')) := ar_result r] else bs_int_rf s)"
    using execute_until_commit [OF q fe p(1-3) u ren, folded v_def, folded r_def, folded e_def, unfolded i(1)] by blast
  have r: "r = execute_result (u'\<lparr>uop_queue := uop_queue v\<rparr>) (read_rf (bs_int_rf s) (ri_prs1 (uop_rename u')))
      (read_rf (bs_int_rf s) (ri_prs2 (uop_rename u')))"
    by (simp add: r_def v_def)
  note res = renamed_result [OF ren i(3), where qu = "uop_queue v", folded a_def b_def, folded r]
  have rf: "bs_int_rf t = (if ri_dst_rtype (uop_rename u') = DST_INT \<and> ri_pdst (uop_rename u') \<noteq> 0
        then (bs_int_rf s)[unat (ri_pdst (uop_rename u')) := ar_result r] else bs_int_rf s)"
    using t(18) res(4) by simp
  note con = renamed_control [OF ren i(3)]
  have q2: "rename_quiet (bs_rename s)" "length (bs_int_rf s) = INT_PHYS_REGS" using q by (simp_all add: core_quiet_def)
  note wb = write_back [OF q2 ren i(3) t(10)]
  have v: "ar_uop r = v" "re_uop e = v" "uop_ctrl v = uop_ctrl u'" "is_control v = is_control u'" "uop_inst v = encode i"
    "uop_debug_pc v = pc" "ri_pdst (uop_rename v) = 0"
    using con(5,6) wb(5) isa_store_rd [OF st] by (simp_all add: v_def r_def e_def rob_entry_of_def is_control_def)
  have ef: "\<not> re_exception e" "\<not> re_is_load e" "\<not> re_memory_request_sent e" "re_busy e"
    using con(1) by (simp_all add: e_def rob_entry_of_def RobEntry0_def)
  let ?s' = "t\<lparr>bs_rob := (bs_rob t)\<lparr>rob_commit_valid := False\<rparr>\<rparr>"
  have mem: "ar_memory_valid r" "ar_is_store r" using res(6,7) st by simp_all
  have step: "boom_core_step s p = (?s', p\<lparr>pipe_imem_resp := []\<rparr>)"
    using t(1) commit_busy [OF t(4) ef(4) t(2) mem(1) t(8)] by simp
  obtain ad d sz where w: "w = (ad, d, sz)" by (cases w)
  have "rob_single (bs_rob ?s') e" using t(4) by simp
  then have "store_pending i pc w r ?s'"
    using mem res(8) [of ad d sz] st ef v con(2) unfolding store_pending_def w by (auto intro!: exI [of _ e])
  then have "executed i pc a b ?s'"
    using t q2 wb(1,5) res(2,3) st con(4) v(1,4) isa_store_rd [OF st] by (auto simp: executed_def r)
  moreover have "arch_view ?s' = arch_view s"
    using wb(3) [of "ar_result r"] wb(5) rf isa_store_rd [OF st] by (simp add: arch_view_def [abs_def] isa_write_def)
  ultimately show ?thesis using step t(9) by (intro exI [of _ ?s']) simp
qed

section \<open>The cycle that requests the next instruction\<close>

lemma rename_restore_quiet:
  assumes "rename_quiet ren"
  shows "rename_quiet (ren\<lparr>ren_int_map_table := rename_restore (ren_int_map_table ren)\<rparr>)"
    "mt_map_table (rename_restore (ren_int_map_table ren)) = mt_map_table (ren_int_map_table ren)"
  using assms by (simp_all add: rename_quiet_def rename_restore_def Let_def)

text \<open>Without a fetch packet nothing enters the pipeline.\<close>

definition drained_rename :: "BoomCoreState \<Rightarrow> RenameState" where
  "drained_rename x = (bs_rename x)\<lparr>ren_int_map_table := (if bu_valid (bs_brupdate x) \<and> bu_mispredict (bs_brupdate x)
        then rename_restore (ren_int_map_table (bs_rename x)) else ren_int_map_table (bs_rename x)),
     ren_renamed_uops := [MicroOp0], ren_renamed_valids := [False]\<rparr>"

lemma drained_rename_quiet:
  assumes "rename_quiet (bs_rename x)"
  shows "rename_quiet (drained_rename x)"
    "mt_map_table (ren_int_map_table (drained_rename x)) = mt_map_table (ren_int_map_table (bs_rename x))"
  using assms rename_restore_quiet [OF assms] by (auto simp: drained_rename_def rename_quiet_def Let_def)

lemma drain_stages:
  assumes "\<not> bs_global_flush x" "\<not> fe_fetch_packet_valid (bs_frontend x)"
    "length (dec_uops (bs_decode x)) = 1" "length (dec_valids (bs_decode x)) = 1"
    "rob_state (bs_rob x) \<noteq> ROB_INIT" "iq_idle (iss_alu_iq (bs_issue x))"
  shows "\<exists>t. execute_module (issue_module (rob_allocate (rename_module (decode_module x)))) = t
    \<and> exe_alu_results (bs_execute t) = [AluResult0] \<and> iq_idle (iss_alu_iq (bs_issue t)) \<and> bs_rob t = bs_rob x
    \<and> bs_int_rf t = bs_int_rf x \<and> bs_lsu t = bs_lsu x \<and> bs_csr t = bs_csr x \<and> bs_frontend t = bs_frontend x
    \<and> bs_brupdate t = bs_brupdate x \<and> length (dec_uops (bs_decode t)) = 1 \<and> length (dec_valids (bs_decode t)) = 1
    \<and> bs_io_success t = bs_io_success x \<and> bs_io_trap t = bs_io_trap x \<and> bs_rename t = drained_rename x"
proof -
  let ?d = "x\<lparr>bs_decode := (bs_decode x)\<lparr>dec_valids := [False]\<rparr>\<rparr>"
  have d: "decode_module x = ?d" using assms(2,4) by (rule decode_nothing)
  define y where "y = rename_module ?d"
  have y: "y = ?d\<lparr>bs_rename := drained_rename x\<rparr>"
    using assms(1) by (simp add: y_def rename_none drained_rename_def)
  have al: "rob_allocate y = y" using assms(5) by (intro allocate_none) (simp_all add: y drained_rename_def)
  obtain iss where iss: "issue_module y = y\<lparr>bs_issue := iss\<rparr>" "iq_idle (iss_alu_iq iss)" "iss_issued_valids iss = [False, False, False]"
    using issue_none [of y] assms(1,6) by (auto simp: y drained_rename_def)
  let ?t = "(y\<lparr>bs_issue := iss\<rparr>)\<lparr>bs_execute := (bs_execute y)\<lparr>exe_alu_results := [AluResult0]\<rparr>\<rparr>"
  have ex: "execute_module (y\<lparr>bs_issue := iss\<rparr>) = ?t" using iss(3) by (subst execute_none) simp_all
  have "execute_module (issue_module (rob_allocate (rename_module (decode_module x)))) = ?t"
    unfolding d y_def [symmetric] al iss(1) ex ..
  then show ?thesis using iss(2) assms(3) by (intro exI [of _ ?t]) (simp add: y)
qed

definition requested :: "PipeSignals \<Rightarrow> u64 \<Rightarrow> BoomCoreState \<Rightarrow> ImemRequest \<Rightarrow> bool" where
  "requested p pc s req = (irq_address req = pc \<and> irq_fetch_id req = fe_pending_fetch_id (bs_frontend s)
     \<and> core_quiet s \<and> fe_request_sent (bs_frontend s))"

lemma cycle_request_alu:
  assumes ex: "executed i pc a b s" and st: "isa_store i a b = None"
    and p: "pipe_imem_req p = []" "pipe_imem_resp p = []" "pipe_dmem_resp p = []"
  shows "\<exists>s' req. boom_core_step s p = (s', p\<lparr>pipe_imem_req := [req]\<rparr>)
    \<and> requested p (case isa_target i pc a b of None \<Rightarrow> pc + 4 | Some t \<Rightarrow> align4 t) s' req
    \<and> arch_view s' = arch_view s \<and> csr_instret (bs_csr s') = csr_instret (bs_csr s)"
proof -
  obtain r where r: "exe_alu_results (bs_execute s) = [r]" "ar_valid r" "is_control (ar_uop r) = isa_control i"
    "ar_mispredict r = (isa_target i pc a b \<noteq> None)" "\<And>t. isa_target i pc a b = Some t \<Longrightarrow> ar_redirect_pc r = t"
    "\<not> ar_memory_valid r" "rob_idle (bs_rob s)"
    using ex st by (auto simp: executed_def)
  let ?next = "case isa_target i pc a b of None \<Rightarrow> pc + 4 | Some t \<Rightarrow> align4 t"
  note e = ex [unfolded executed_def]
  define c where "c = branch_module (csr_module (step_begin s))"
  have c: "\<not> bs_global_flush c" "bs_frontend c = bs_frontend s" "bs_execute c = bs_execute s" "bs_rob c = bs_rob s"
    "bs_lsu c = bs_lsu s" "bs_decode c = bs_decode s" "bs_rename c = bs_rename s" "bs_issue c = bs_issue s"
    "bs_int_rf c = bs_int_rf s" "csr_instret (bs_csr c) = csr_instret (bs_csr s)"
    "bu_valid (bs_brupdate c) = (isa_target i pc a b \<noteq> None)" "bu_mispredict (bs_brupdate c) = (isa_target i pc a b \<noteq> None)"
    "isa_target i pc a b = Some t \<Longrightarrow> bu_jalr_target (bs_brupdate c) = t" "\<not> bs_io_success c" "\<not> bs_io_trap c" for t
    using r isa_target_control [of i pc a b]
    by (auto simp: c_def csr_module_def step_begin_def branch_module_def branch_lane_def Let_def)
  have lsu: "lsu_module c p = (c, p)"
  proof (rule lsu_idle [of _ _ r])
    show "no_loads (bs_rob c)" using c(4) rob_idle_no_loads [OF r(7)] by simp
    show "length (rob_entries (bs_rob c)) = ROB_DEPTH" using c(4) r(7) by (simp add: rob_idle_def)
    show "\<not> lsu_load_response_pending (bs_lsu c)" using c(5) e by simp
  qed (use c(1,3) r(1,6) p(3) in simp_all)
  obtain fe req where fe: "frontend_module c p = (c\<lparr>bs_frontend := fe\<rparr>, p\<lparr>pipe_imem_req := [req]\<rparr>)"
    "fe_reset_done fe" "fe_request_sent fe" "\<not> fe_response_received fe" "\<not> fe_fetch_packet_valid fe" "\<not> fe_flush fe"
    "irq_fetch_id req = fe_pending_fetch_id fe" "irq_address req = ?next"
  proof (cases "isa_target i pc a b")
    case None
    then show thesis using frontend_request [of c "bs_frontend c" p] c e p r(7) that by (auto simp: rob_idle_def)
  next
    case (Some t)
    with frontend_redirected [of c "bs_frontend c" p] c e p r(7)
    show thesis by (intro that) (auto simp: rob_idle_def)
  qed
  obtain t where t: "execute_module (issue_module (rob_allocate (rename_module (decode_module (c\<lparr>bs_frontend := fe\<rparr>))))) = t"
    "exe_alu_results (bs_execute t) = [AluResult0]" "iq_idle (iss_alu_iq (bs_issue t))" "bs_rob t = bs_rob c"
    "bs_int_rf t = bs_int_rf c" "bs_lsu t = bs_lsu c" "bs_csr t = bs_csr c" "bs_frontend t = fe"
    "length (dec_uops (bs_decode t)) = 1" "length (dec_valids (bs_decode t)) = 1"
    "\<not> bs_io_success t" "\<not> bs_io_trap t" "bs_rename t = drained_rename (c\<lparr>bs_frontend := fe\<rparr>)"
    using drain_stages [of "c\<lparr>bs_frontend := fe\<rparr>"] c e fe r(7) by (auto simp: rob_idle_def)
  have ren: "rename_quiet (bs_rename t)"
    "mt_map_table (ren_int_map_table (bs_rename t)) = mt_map_table (ren_int_map_table (bs_rename s))"
    using drained_rename_quiet [of "c\<lparr>bs_frontend := fe\<rparr>"] t(13) c(7) e by simp_all
  obtain rob flag where cm: "rob_commit_module t (p\<lparr>pipe_imem_req := [req]\<rparr>) = (t\<lparr>bs_rob := rob, bs_global_flush := flag\<rparr>, p\<lparr>pipe_imem_req := [req]\<rparr>)"
    "rob_idle rob"
    using commit_idle [of t AluResult0 "p\<lparr>pipe_imem_req := [req]\<rparr>"] t(2,4) c(4) r(7) by auto
  have "boom_core_step s p = (t\<lparr>bs_rob := rob, bs_global_flush := flag\<rparr>, p\<lparr>pipe_imem_req := [req]\<rparr>)"
    unfolding boom_core_step_def by (simp add: lsu fe(1) t(1) cm(1) flip: c_def)
  then show ?thesis
    using t ren cm(2) fe c e by (intro exI [of _ "t\<lparr>bs_rob := rob, bs_global_flush := flag\<rparr>"] exI [of _ req])
      (simp add: requested_def core_quiet_def arch_view_def [abs_def])
qed

text \<open>A store request carries the address, the data and the byte mask of the architectural store.\<close>

definition store_matches :: "u64 \<times> u64 \<times> 2 word \<Rightarrow> DmemRequest \<Rightarrow> bool" where
  "store_matches w req = (case w of (ad, d, sz) \<Rightarrow> drq_address req = ad \<and> drq_write_data req = d \<and> drq_data req = d
     \<and> drq_size req = ucast sz \<and> drq_write_mask req = mask_for_size (ucast sz)
     \<and> drq_is_store req \<and> drq_committed req \<and> drq_command req = DMEM_STORE)"

lemma stq_push_pending [simp]: "lsu_load_response_pending (stq_push r l) = lsu_load_response_pending l"
  by (simp add: stq_push_def Let_def)

lemma cycle_request_store:
  assumes ex: "executed i pc a b s" and st: "isa_store i a b = Some w"
    and p: "pipe_imem_req p = []" "pipe_imem_resp p = []" "pipe_dmem_resp p = []" "pipe_commit_trace p = []"
      "\<not> stream_full (pipe_dmem_req p)"
    and rd: "isa_rd i = 0"
  shows "\<exists>s' req ce dreq. boom_core_step s p = (s', p\<lparr>pipe_imem_req := [req],
        pipe_dmem_req := pipe_dmem_req p @ [dreq], pipe_commit_trace := [ce]\<rparr>)
    \<and> requested p (pc + 4) s' req \<and> arch_view s' = arch_view s \<and> csr_instret (bs_csr s') = csr_instret (bs_csr s) + 1
    \<and> retired ce = (pc, encode i, None) \<and> ce_is_store ce \<and> store_matches w dreq"
proof -
  obtain ad d sz where w: "w = (ad, d, sz)" by (cases w)
  obtain r where r: "exe_alu_results (bs_execute s) = [r]" "ar_valid r" "ar_mispredict r = False" "store_pending i pc w r s"
    using ex st isa_store_target [OF st, of pc] by (auto simp: executed_def)
  obtain e where re: "ar_memory_valid r" "ar_is_store r" "ar_memory_address r = ad" "ar_store_data r = d"
    "ar_memory_size r = ucast sz" "ar_memory_mask r = mask_for_size (ucast sz)"
    "rob_single (bs_rob s) e" "\<not> re_exception e" "\<not> re_is_load e" "\<not> re_memory_request_sent e"
    "uop_queue (ar_uop r) = uop_queue (re_uop e)" "\<not> dc_is_load (uop_ctrl (re_uop e))" "uop_inst (re_uop e) = encode i"
    "uop_debug_pc (re_uop e) = pc" "ri_pdst (uop_rename (re_uop e)) = 0"
    using r(4) unfolding store_pending_def w by auto
  note e = ex [unfolded executed_def]
  let ?h = "unat (rob_head (bs_rob s))"
  have h: "unat (qi_rob_idx (uop_queue (ar_uop r))) = ?h" "?h < ROB_DEPTH" "re_valid (rob_entries (bs_rob s) ! ?h)"
    "rob_entries (bs_rob s) ! ?h = e" "length (rob_entries (bs_rob s)) = ROB_DEPTH" "rob_state (bs_rob s) = ROB_NORMAL"
    using re(7,11) by (auto simp: rob_single_def)
  define e' where "e' = enqueue_store r e"
  define c where "c = csr_module (step_begin s)"
  have c: "\<not> bs_global_flush c" "bs_frontend c = bs_frontend s" "bs_execute c = bs_execute s" "bs_rob c = bs_rob s"
    "bs_lsu c = bs_lsu s" "bs_decode c = bs_decode s" "bs_rename c = bs_rename s" "bs_issue c = bs_issue s"
    "bs_int_rf c = bs_int_rf s" "csr_instret (bs_csr c) = csr_instret (bs_csr s)" "\<not> bu_valid (bs_brupdate c)"
    "\<not> bs_io_success c" "\<not> bs_io_trap c"
    by (simp_all add: c_def csr_module_def step_begin_def)
  have br: "branch_module c = c" using r c by (intro branch_none [of _ r]) auto
  define x where "x = (set_rob_entry ?h e' c)\<lparr>bs_lsu := stq_push r (bs_lsu s)\<rparr>"
  have lsu: "lsu_module c p = (x, p)"
    using lsu_store [of c p r ?h] r re c e h p(3) rob_single_no_loads [OF re(7)] by (simp add: x_def e'_def)
  have e'f: "re_valid e'" "re_uop e' = re_uop e" "\<not> re_busy e'" "\<not> re_exception e'" "\<not> re_is_load e'" "re_is_store e'"
    "re_memory_valid e'" "\<not> re_memory_request_sent e'" "re_memory_address e' = ad" "re_memory_data e' = d"
    "re_memory_size e' = ucast sz" "re_memory_mask e' = mask_for_size (ucast sz)"
    using re h by (auto simp: e'_def enqueue_store_def)
  have single: "rob_single (bs_rob x) e'"
    using rob_single_update [OF re(7) e'f(1,2)] c by (simp add: x_def set_rob_entry_def)
  obtain fe req where fe: "frontend_module x p = (x\<lparr>bs_frontend := fe\<rparr>, p\<lparr>pipe_imem_req := [req]\<rparr>)"
    "fe_reset_done fe" "fe_request_sent fe" "\<not> fe_response_received fe" "\<not> fe_fetch_packet_valid fe" "\<not> fe_flush fe"
    "irq_fetch_id req = fe_pending_fetch_id fe" "irq_address req = pc + 4"
    using frontend_request [of x "bs_frontend x" p] c e p h(6) by (auto simp: x_def set_rob_entry_def)
  obtain t where t: "execute_module (issue_module (rob_allocate (rename_module (decode_module (x\<lparr>bs_frontend := fe\<rparr>))))) = t"
    "exe_alu_results (bs_execute t) = [AluResult0]" "iq_idle (iss_alu_iq (bs_issue t))" "bs_rob t = bs_rob x"
    "bs_int_rf t = bs_int_rf c" "bs_lsu t = bs_lsu x" "bs_csr t = bs_csr c" "bs_frontend t = fe" "\<not> bu_valid (bs_brupdate t)"
    "length (dec_uops (bs_decode t)) = 1" "length (dec_valids (bs_decode t)) = 1"
    "\<not> bs_io_success t" "\<not> bs_io_trap t" "bs_rename t = drained_rename (x\<lparr>bs_frontend := fe\<rparr>)"
    using drain_stages [of "x\<lparr>bs_frontend := fe\<rparr>"] c e fe h(6) by (auto simp: x_def set_rob_entry_def)
  have ren: "rename_quiet (bs_rename t)"
    "mt_map_table (ren_int_map_table (bs_rename t)) = mt_map_table (ren_int_map_table (bs_rename s))"
    using drained_rename_quiet [of "x\<lparr>bs_frontend := fe\<rparr>"] t(14) c(7) e by (simp_all add: x_def set_rob_entry_def)
  let ?p = "p\<lparr>pipe_imem_req := [req]\<rparr>" and ?t = "t\<lparr>bs_rob := (bs_rob t)\<lparr>rob_commit_valid := False\<rparr>\<rparr>"
  let ?ce = "commit_entry_of (bs_int_rf t) (csr_priv (bs_csr t)) e'"
  obtain rob l where cm: "commit_head ?t ?p = (?t\<lparr>bs_csr := (bs_csr t)\<lparr>csr_instret := csr_instret (bs_csr t) + 1\<rparr>,
        bs_rename := commit_rename (re_uop e') (bs_rename t), bs_rob := rob, bs_lsu := l, bs_tohost := re_memory_data e'\<rparr>,
       ?p\<lparr>pipe_dmem_req := pipe_dmem_req p @ [store_request (lsu_next_transaction_id (bs_lsu t)) e'],
         pipe_commit_trace := [?ce]\<rparr>)" "rob_idle rob" "lsu_load_response_pending l = lsu_load_response_pending (bs_lsu t)"
    using commit_retires_store [of ?t e' ?p] single e'f re(12) p(4,5) t(4) by auto
  have cr: "commit_rename (re_uop e') (bs_rename t) = bs_rename t" using re(15) e'f(2) by (simp add: commit_rename_def)
  let ?s' = "?t\<lparr>bs_csr := (bs_csr t)\<lparr>csr_instret := csr_instret (bs_csr t) + 1\<rparr>,
        bs_rename := bs_rename t, bs_rob := rob, bs_lsu := l, bs_tohost := re_memory_data e'\<rparr>"
  have "rob_commit_module t ?p = commit_head ?t ?p"
    using commit_module_ready [of t e' AluResult0 ?p] single t(2,4,9) e'f(3) by simp
  then have step: "boom_core_step s p = (?s', ?p\<lparr>pipe_dmem_req := pipe_dmem_req p @ [store_request (lsu_next_transaction_id (bs_lsu t)) e'],
         pipe_commit_trace := [?ce]\<rparr>)"
    unfolding boom_core_step_def by (simp add: br lsu fe(1) t(1) cm(1) cr flip: c_def)
  have "requested p (pc + 4) ?s' req \<and> arch_view ?s' = arch_view s"
    using t ren cm(2,3) fe c e by (simp add: requested_def core_quiet_def arch_view_def [abs_def] x_def)
  moreover have "retired ?ce = (pc, encode i, None)" "ce_is_store ?ce"
    using re(13-15) e'f(2,6) by (simp_all add: retired_def commit_entry_of_def Let_def)
  moreover have "store_matches w (store_request tx e')" for tx
    using e'f by (simp add: w store_matches_def store_request_def)
  ultimately show ?thesis
    using step t(7) c(10) by (intro exI [of _ ?s'] exI [of _ req] exI [of _ ?ce]
        exI [of _ "store_request (lsu_next_transaction_id (bs_lsu t)) e'"]) simp
qed

end
