(* ===== verification/Ecall.thy ===== *)
theory Ecall
  imports Refine
begin

text \<open>
  The environment call: it raises an exception that commits as the end of the program. The
  core reports success or a trap by register 10 and writes no register.
\<close>

lemma ecall_fields: "opcode_of make_ecall = 0x73" "f3_of make_ecall = 0" "rd_of make_ecall = 0" "drop_bit 20 make_ecall = 0"
  by code_simp+

lemma decode_ecall:
  fixes pc :: u64
  defines "u \<equiv> decode_uop pc make_ecall"
  shows "uop_uopc u = 65" "uop_iq_type u = IQ_ALU" "uop_exception u" "\<not> dc_is_load (uop_ctrl u)" "\<not> dc_is_sta (uop_ctrl u)"
    "ri_ldst (uop_rename u) = 0" "\<not> is_control u"
  unfolding u_def by (simp_all add: decode_defs is_control_def ecall_fields)

lemma execute_ecall:
  fixes pc a b :: u64 and rn :: RenameInfo and q :: QueueInfo
  defines "r \<equiv> execute_result ((decode_uop pc make_ecall)\<lparr>uop_rename := rn, uop_queue := q\<rparr>) a b"
  shows "\<not> ar_memory_valid r" "\<not> ar_is_load r" "\<not> ar_is_store r" "\<not> ar_mispredict r" "ar_exception r"
  unfolding r_def by (simp_all add: decode_ecall exec_defs)

text \<open>The renamed environment call and its result.\<close>

lemma renamed_ecall:
  fixes qu :: QueueInfo
  assumes ren: "rename_uop (decode_uop pc make_ecall) mt0 fl0 = (u', mt, fl)"
  shows "mt = mt0" "fl = fl0" "ri_pdst (uop_rename u') = 0" "uop_uopc u' = 65" "uop_exception u'" "\<not> dc_is_load (uop_ctrl u')"
    "\<not> dc_is_sta (uop_ctrl u')" "\<not> is_control u'"
    "\<not> ar_memory_valid (execute_result (u'\<lparr>uop_queue := qu\<rparr>) a b)" "\<not> ar_is_load (execute_result (u'\<lparr>uop_queue := qu\<rparr>) a b)"
    "\<not> ar_is_store (execute_result (u'\<lparr>uop_queue := qu\<rparr>) a b)" "\<not> ar_mispredict (execute_result (u'\<lparr>uop_queue := qu\<rparr>) a b)"
proof -
  have w: "\<not> writes_int (decode_uop pc make_ecall)" by (simp add: writes_int_def decode_ecall ecall_fields)
  let ?ren = "RenameState0\<lparr>ren_int_map_table := mt0, ren_int_free_list := fl0\<rparr>"
  show "mt = mt0" "fl = fl0" "ri_pdst (uop_rename u') = 0"
    using quiet_step_none [of "decode_uop pc make_ecall" ?ren u' mt fl] w ren by simp_all
  obtain X where X: "u' = (decode_uop pc make_ecall)\<lparr>uop_rename := X\<rparr>" using rename_uop_uop(1) [OF ren] by blast
  then have v: "u'\<lparr>uop_queue := qu\<rparr> = (decode_uop pc make_ecall)\<lparr>uop_rename := X, uop_queue := qu\<rparr>" by simp
  show "uop_uopc u' = 65" "uop_exception u'" "\<not> dc_is_load (uop_ctrl u')" "\<not> dc_is_sta (uop_ctrl u')" "\<not> is_control u'"
    using decode_ecall [of pc] by (simp_all add: X is_control_def)
  show "\<not> ar_memory_valid (execute_result (u'\<lparr>uop_queue := qu\<rparr>) a b)" "\<not> ar_is_load (execute_result (u'\<lparr>uop_queue := qu\<rparr>) a b)"
    "\<not> ar_is_store (execute_result (u'\<lparr>uop_queue := qu\<rparr>) a b)" "\<not> ar_mispredict (execute_result (u'\<lparr>uop_queue := qu\<rparr>) a b)"
    unfolding v by (simp_all add: execute_ecall)
qed

text \<open>The end of the program, by register 10.\<close>

definition ended :: "u64 \<Rightarrow> BoomCoreState \<Rightarrow> bool" where
  "ended a0 s = (bs_io_success s = (a0 = 0) \<and> bs_io_trap s = (a0 \<noteq> 0))"

lemma commit_ecall:
  assumes "rob_single (bs_rob s) e" "re_exception e" "uop_uopc (re_uop e) = 65" "\<not> bs_io_success s" "\<not> bs_io_trap s"
  shows "\<exists>s'. commit_head s p = (s', p) \<and> ended (arch_view s 10) s' \<and> bs_int_rf s' = bs_int_rf s
    \<and> bs_rename s' = bs_rename s \<and> bs_csr s' = bs_csr s"
proof -
  have "rob_entries (bs_rob s) ! unat (rob_head (bs_rob s)) = e" using assms(1) by (simp add: rob_single_def)
  then have "commit_head s p = (commit_exception (re_uop e) s, p)" using assms(2) by (simp add: commit_head_def Let_def)
  then show ?thesis
    using assms(3-5) by (intro exI [of _ "commit_exception (re_uop e) s"])
      (simp add: commit_exception_def ended_def arch_view_def Let_def)
qed

text \<open>With nothing in flight the call ends the program in the cycle that fetches it.\<close>

lemma cycle_ecall:
  fixes s :: BoomCoreState
  assumes q: "core_quiet s" and fe: "fe_request_sent (bs_frontend s)"
    and p: "pipe_imem_resp p = [resp]" "irs_fetch_id resp = fe_pending_fetch_id (bs_frontend s)" "pipe_dmem_resp p = []"
    and i: "irs_instruction resp = make_ecall"
  shows "\<exists>s'. boom_core_step s p = (s', p\<lparr>pipe_imem_resp := []\<rparr>) \<and> ended (arch_view s 10) s' \<and> bs_int_rf s' = bs_int_rf s
    \<and> ren_int_map_table (bs_rename s') = ren_int_map_table (bs_rename s) \<and> csr_instret (bs_csr s') = csr_instret (bs_csr s)"
proof -
  let ?u = "decode_uop (irs_address resp) make_ecall"
  obtain u' mt fl where ren: "rename_uop ?u (ren_int_map_table (bs_rename s)) (ren_int_free_list (bs_rename s)) = (u', mt, fl)"
    by (metis prod_cases3)
  note re = renamed_ecall [OF ren]
  have u: "?u = decode_uop (irs_address resp) (irs_instruction resp)" "uop_uopc ?u \<noteq> 0" "uop_iq_type ?u = IQ_ALU \<or> uop_iq_type ?u = IQ_MEM"
    using i by (simp_all add: decode_ecall)
  define v where "v = u'\<lparr>uop_queue := (uop_queue u')\<lparr>qi_rob_idx := rob_head (bs_rob s)\<rparr>\<rparr>"
  define r where "r = execute_result v (read_rf (bs_int_rf s) (ri_prs1 (uop_rename u'))) (read_rf (bs_int_rf s) (ri_prs2 (uop_rename u')))"
  define e where "e = rob_entry_of u' (rob_head (bs_rob s))"
  obtain t us vs where t: "boom_core_step s p = rob_commit_module t (p\<lparr>pipe_imem_resp := []\<rparr>)"
    "exe_alu_results (bs_execute t) = [r]" "rob_single (bs_rob t) e" "\<not> bu_valid (bs_brupdate t)"
    "csr_instret (bs_csr t) = csr_instret (bs_csr s)" "\<not> bs_io_success t" "\<not> bs_io_trap t"
    "bs_rename t = (bs_rename s)\<lparr>ren_int_map_table := mt, ren_int_free_list := fl, ren_renamed_uops := us, ren_renamed_valids := vs\<rparr>"
    "bs_int_rf t = (if \<not> ar_is_load r \<and> ri_dst_rtype (uop_rename u') = DST_INT \<and> ri_pdst (uop_rename u') \<noteq> 0
        then (bs_int_rf s)[unat (ri_pdst (uop_rename u')) := ar_result r] else bs_int_rf s)"
    using execute_until_commit [OF q fe p u ren, folded v_def, folded r_def, folded e_def] by blast
  have rf: "bs_int_rf t = bs_int_rf s" "arch_view t = arch_view s"
    using t(8,9) re(1,3) by (simp_all add: arch_view_def [abs_def])
  have r: "ar_valid r" "ar_exception r" "\<not> ar_memory_valid r" "\<not> ar_is_load r" "\<not> ar_is_store r"
    "\<not> dc_is_load (uop_ctrl (ar_uop r))" "\<not> dc_is_sta (uop_ctrl (ar_uop r))" "ar_uop r = v"
    using re by (simp_all add: r_def v_def)
  have e: "uop_uopc (re_uop e) = 65" "re_uop e = v" using re(4) by (simp_all add: e_def v_def rob_entry_of_def)
  let ?e = "e\<lparr>re_busy := False, re_exception := True\<rparr>" and ?h = "unat (rob_head (bs_rob t))"
  let ?rob = "(bs_rob t)\<lparr>rob_commit_valid := False, rob_entries := (rob_entries (bs_rob t))[?h := ?e]\<rparr>"
  have single: "rob_single ?rob ?e" using t(3) by (auto simp: rob_single_def)
  have h: "rob_entries (bs_rob t) ! ?h = e" "re_valid e" "?h < ROB_DEPTH" "qi_rob_idx (uop_queue v) = rob_head (bs_rob t)"
    using t(3) e(2) by (auto simp: rob_single_def)
  then have "rob_complete r ((bs_rob t)\<lparr>rob_commit_valid := False\<rparr>) = ?rob"
    using r by (simp add: rob_complete_def Let_def)
  from commit_module_head [OF t(4,2) this single] have "boom_core_step s p = commit_head (t\<lparr>bs_rob := ?rob\<rparr>) (p\<lparr>pipe_imem_resp := []\<rparr>)"
    using t(1) by simp
  moreover obtain s' where "commit_head (t\<lparr>bs_rob := ?rob\<rparr>) (p\<lparr>pipe_imem_resp := []\<rparr>) = (s', p\<lparr>pipe_imem_resp := []\<rparr>)"
    "ended (arch_view t 10) s'" "bs_int_rf s' = bs_int_rf t" "bs_rename s' = bs_rename t" "bs_csr s' = bs_csr t"
    using commit_ecall [of "t\<lparr>bs_rob := ?rob\<rparr>" ?e "p\<lparr>pipe_imem_resp := []\<rparr>"] single e(1) t(6,7) by (auto simp: arch_view_def)
  ultimately show ?thesis using rf t(5,8) re(1) by simp
qed

end
