(* ===== verification/System.thy ===== *)
theory System
  imports Ecall
begin

text \<open>
  Closed systems around the core: the top-level loop \<open>boom_core_top\<close> with an
  instruction memory that answers each request in the next cycle, and the loop in the test
  bench's \<open>run_program\<close> (\<open>tb/tb_boom_core.cpp\<close>). Both run the instruction set.
\<close>

section \<open>The test bench (\<open>tb/tb_boom_core.cpp\<close>)\<close>

text \<open>\<open>IdealMem\<close>: the words from \<open>base\<close> on, zero elsewhere.\<close>

record IdealMem =
  im_base :: u64
  im_words :: "u32 list"

definition ideal_mem_clear :: "u64 \<Rightarrow> IdealMem" where
  "ideal_mem_clear b = \<lparr>im_base = b, im_words = []\<rparr>"

definition ideal_mem_add :: "u32 \<Rightarrow> IdealMem \<Rightarrow> IdealMem" where
  "ideal_mem_add w m = (if length (im_words m) < 256 then m\<lparr>im_words := im_words m @ [w]\<rparr> else m)"

definition ideal_mem_read :: "IdealMem \<Rightarrow> u64 \<Rightarrow> u32" where
  "ideal_mem_read m addr =
    (if addr < im_base m then 0
     else let idx = unat (ucast (drop_bit 2 (addr - im_base m)) :: u32)
          in if idx \<ge> length (im_words m) then 0 else im_words m ! idx)"

definition imem_answer :: "(u64 \<Rightarrow> u32) \<Rightarrow> ImemRequest \<Rightarrow> ImemResponse" where
  "imem_answer mem req = ImemResponse0\<lparr>irs_address := irq_address req, irs_fetch_id := irq_fetch_id req,
     irs_instruction := mem (irq_address req), irs_exception := False, irs_exc_cause := 0\<rparr>"

definition tb_respond :: "(u64 \<Rightarrow> u32) \<Rightarrow> PipeSignals \<Rightarrow> PipeSignals" where
  "tb_respond mem p =
    (if \<not> stream_empty (pipe_imem_req p) then
       (let (req, q) = stream_read (pipe_imem_req p); p = p\<lparr>pipe_imem_req := q\<rparr>
        in if \<not> stream_full (pipe_imem_resp p)
           then p\<lparr>pipe_imem_resp := stream_write (pipe_imem_resp p) (imem_answer mem req)\<rparr> else p)
     else p)"

text \<open>
  One iteration: the committed entries, which the bench counts, are appended to the log.
\<close>

type_synonym tb_state = "BoomCoreState \<times> PipeSignals \<times> CommitEntry list"

definition tb_cycle :: "(u64 \<Rightarrow> u32) \<Rightarrow> tb_state \<Rightarrow> tb_state" where
  "tb_cycle mem st = (case st of (s, p, log) \<Rightarrow>
    (let (s, p) = boom_core_step s (tb_respond mem p)
     in (s, p\<lparr>pipe_commit_trace := []\<rparr>, log @ pipe_commit_trace p)))"

text \<open>The loop of \<open>run_program\<close>: it returns on a trap (\<open>Inl\<close>) and breaks on success.\<close>

fun tb_run :: "(u64 \<Rightarrow> u32) \<Rightarrow> nat \<Rightarrow> tb_state \<Rightarrow> tb_state + tb_state" where
  "tb_run mem 0 st = Inr st"
| "tb_run mem (Suc n) st =
    (let st = tb_cycle mem st; s = fst st
     in if bs_io_trap s \<and> \<not> bs_io_success s then Inl st
        else if bs_io_success s then Inr st
        else tb_run mem n st)"

definition tb_start :: tb_state where
  "tb_start = (BoomCoreState0, PipeSignals0, [])"

section \<open>The top level with an instruction memory\<close>

definition top_respond :: "(u64 \<Rightarrow> u32) \<Rightarrow> TopStreams \<Rightarrow> TopStreams" where
  "top_respond mem t =
    (case top_imem_req_out t of [] \<Rightarrow> t
     | req # q \<Rightarrow> t\<lparr>top_imem_req_out := q, top_imem_resp_in := top_imem_resp_in t @ [imem_answer mem req]\<rparr>)"

type_synonym sys_state = "BoomCoreState \<times> PipeSignals \<times> TopStreams"

definition sys_cycle :: "(u64 \<Rightarrow> u32) \<Rightarrow> sys_state \<Rightarrow> sys_state" where
  "sys_cycle mem st = (case st of (s, p, t) \<Rightarrow>
    (case core_cycle s p (top_respond mem t) of (s, p, t, _) \<Rightarrow> (s, p, t)))"

definition sys_start :: sys_state where
  "sys_start = (BoomCoreState0, PipeSignals0,
     \<lparr>top_imem_req_out = [], top_imem_resp_in = [], top_dmem_req_out = [], top_dmem_resp_in = [],
      top_commit_trace_out = []\<rparr>)"

section \<open>Two cycles are one instruction\<close>

definition aligned :: "u64 \<Rightarrow> bool" where
  "aligned a = (align4 a = a)"

lemma two_cycles:
  fixes s :: BoomCoreState and A :: Arch
  assumes q: "core_quiet s" "fe_request_sent (bs_frontend s)" "arch_view s = arch_regs A"
    and req: "irq_address req = arch_pc A" "irq_fetch_id req = fe_pending_fetch_id (bs_frontend s)"
    and p: "pipe_imem_req p = []" "pipe_imem_resp p = [imem_answer mem req]" "pipe_dmem_resp p = []"
      "pipe_commit_trace p = []" "\<not> stream_full (pipe_dmem_req p)"
    and i: "core_supports (code (arch_pc A))" "aligned (arch_pc (isa_step code A))" "mem (arch_pc A) = encode (code (arch_pc A))"
  shows "\<exists>s1 ces1 s2 ces2 dreqs req'. boom_core_step s p = (s1, p\<lparr>pipe_imem_resp := [], pipe_commit_trace := ces1\<rparr>)
    \<and> boom_core_step s1 (p\<lparr>pipe_imem_resp := []\<rparr>) =
        (s2, p\<lparr>pipe_imem_resp := [], pipe_imem_req := [req'], pipe_dmem_req := pipe_dmem_req p @ dreqs, pipe_commit_trace := ces2\<rparr>)
    \<and> requested p (arch_pc (isa_step code A)) s2 req' \<and> arch_view s2 = arch_regs (isa_step code A)
    \<and> arch_trace (isa_step code A) = arch_trace A @ map retired (ces1 @ ces2) \<and> length (ces1 @ ces2) = 1
    \<and> length ces1 + length dreqs \<le> 1 \<and> (\<exists>ws. arch_stores (isa_step code A) = arch_stores A @ ws \<and> list_all2 store_matches ws dreqs)
    \<and> csr_instret (bs_csr s2) = csr_instret (bs_csr s) + 1 \<and> \<not> bs_io_success s1 \<and> \<not> bs_io_trap s1
    \<and> list_ex ce_is_store ces2 = (dreqs \<noteq> [])"
proof -
  define pc where "pc = arch_pc A"
  define i where "i = code pc"
  define a b where "a = arch_read (arch_view s) (isa_rs1 i)" and "b = arch_read (arch_view s) (isa_rs2 i)"
  have A: "isa_step code A = \<lparr>arch_pc = isa_next i pc a b, arch_regs = isa_write i (isa_value i pc a b) (arch_view s),
     arch_trace = arch_trace A @ [isa_event i pc (isa_value i pc a b)],
     arch_stores = arch_stores A @ (case isa_store i a b of None \<Rightarrow> [] | Some w \<Rightarrow> [w])\<rparr>"
    by (simp add: isa_step_def Let_def pc_def i_def a_def b_def q(3))
  let ?resp = "imem_answer mem req"
  have resp: "irs_address ?resp = pc" "irs_instruction ?resp = encode i"
    "irs_fetch_id ?resp = fe_pending_fetch_id (bs_frontend s)" and sup: "core_supports i"
    using req i(1,3) by (simp_all add: imem_answer_def ImemResponse0_def pc_def i_def)
  have al: "align4 t = t" if "isa_target i pc a b = Some t" for t
    using i(2) that by (simp add: A isa_next_def aligned_def)
  let ?p = "p\<lparr>pipe_imem_resp := []\<rparr>"
  show ?thesis
  proof (cases "isa_store i a b")
    case None
    obtain s1 ce where s1: "boom_core_step s p = (s1, p\<lparr>pipe_imem_resp := [], pipe_commit_trace := [ce]\<rparr>)" "executed i pc a b s1"
      "arch_view s1 = isa_write i (isa_value i pc a b) (arch_view s)" "retired ce = isa_event i pc (isa_value i pc a b)"
      "csr_instret (bs_csr s1) = csr_instret (bs_csr s) + 1"
      using cycle_execute_alu [OF q(1,2) p(2) resp(3) p(3,4) resp(1,2) sup None [unfolded a_def b_def]] unfolding a_def b_def by blast
    obtain s2 req' where s2: "boom_core_step s1 ?p = (s2, ?p\<lparr>pipe_imem_req := [req']\<rparr>)"
      "requested ?p (case isa_target i pc a b of None \<Rightarrow> pc + 4 | Some t \<Rightarrow> align4 t) s2 req'"
      "arch_view s2 = arch_view s1" "csr_instret (bs_csr s2) = csr_instret (bs_csr s1)"
      using cycle_request_alu [OF s1(2) None, of ?p] p by auto
    have "requested p (arch_pc (isa_step code A)) s2 req'"
      using s2(2) al by (auto simp: A isa_next_def requested_def split: option.splits)
    moreover have "\<not> bs_io_success s1" "\<not> bs_io_trap s1" using s1(2) by (simp_all add: executed_def)
    ultimately show ?thesis
      using s1(1,3-5) s2 p(4) None by (intro exI [of _ s1] exI [of _ "[ce]"] exI [of _ s2] exI [of _ "[]"] exI [of _ req'])
        (simp add: A)
  next
    case (Some w)
    obtain s1 where s1: "boom_core_step s p = (s1, p\<lparr>pipe_imem_resp := []\<rparr>)" "executed i pc a b s1"
      "arch_view s1 = arch_view s" "csr_instret (bs_csr s1) = csr_instret (bs_csr s)"
      using cycle_execute_store [OF q(1,2) p(2) resp(3) p(3) resp(1,2) sup Some [unfolded a_def b_def]] unfolding a_def b_def by blast
    have io: "\<not> bs_io_success s1" "\<not> bs_io_trap s1" using s1(2) by (simp_all add: executed_def)
    obtain s2 req' ce dreq where s2: "boom_core_step s1 ?p = (s2, ?p\<lparr>pipe_imem_req := [req'],
        pipe_dmem_req := pipe_dmem_req ?p @ [dreq], pipe_commit_trace := [ce]\<rparr>)"
      "requested ?p (pc + 4) s2 req'" "arch_view s2 = arch_view s1" "csr_instret (bs_csr s2) = csr_instret (bs_csr s1) + 1"
      "retired ce = (pc, encode i, None)" "ce_is_store ce" "store_matches w dreq"
      using cycle_request_store [OF s1(2) Some, of ?p] p isa_store_rd [OF Some] by auto
    have "p\<lparr>pipe_imem_resp := [], pipe_commit_trace := []\<rparr> = ?p" using p(4) by (cases p) simp
    then show ?thesis
      using s1(1,3,4) io s2 Some isa_store_target [OF Some, of pc] isa_store_rd [OF Some]
      by (intro exI [of _ s1] exI [of _ "[]"] exI [of _ s2] exI [of _ "[ce]"] exI [of _ "[dreq]"] exI [of _ req'])
        (simp add: A isa_next_def isa_event_def isa_write_def requested_def)
  qed
qed

section \<open>The systems run the instruction set\<close>

definition arch_at :: "u64 \<Rightarrow> Arch" where
  "arch_at pc = \<lparr>arch_pc = pc, arch_regs = (\<lambda>_. 0), arch_trace = [], arch_stores = []\<rparr>"

definition Arch0 :: Arch where
  "Arch0 = arch_at RESET_VECTOR"

text \<open>Between two instructions: nothing in flight, the request for the next one outstanding.\<close>

definition core_matches :: "Arch \<Rightarrow> BoomCoreState \<Rightarrow> ImemRequest \<Rightarrow> CommitEntry list \<Rightarrow> DmemRequest list \<Rightarrow> bool" where
  "core_matches A s req log dreqs = (requested PipeSignals0 (arch_pc A) s req \<and> arch_view s = arch_regs A
     \<and> map retired log = arch_trace A \<and> list_all2 store_matches (arch_stores A) dreqs
     \<and> csr_instret (bs_csr s) = word_of_nat (length (arch_trace A)))"

definition tb_matches :: "Arch \<Rightarrow> tb_state \<Rightarrow> bool" where
  "tb_matches A st = (case st of (s, p, log) \<Rightarrow>
     \<exists>req. core_matches A s req log (pipe_dmem_req p) \<and> pipe_imem_req p = [req] \<and> pipe_imem_resp p = []
       \<and> pipe_dmem_resp p = [] \<and> pipe_commit_trace p = [])"

definition sys_matches :: "Arch \<Rightarrow> sys_state \<Rightarrow> bool" where
  "sys_matches A st = (case st of (s, p, t) \<Rightarrow> p = PipeSignals0 \<and>
     (\<exists>req log dreqs. core_matches A s req log dreqs \<and>
        t = \<lparr>top_imem_req_out = [req], top_imem_resp_in = [], top_dmem_req_out = dreqs, top_dmem_resp_in = [],
             top_commit_trace_out = log\<rparr>))"

lemma requested_pipe: "requested p pc s req = requested PipeSignals0 pc s req"
  by (simp add: requested_def)

lemma isa_step_trace_length: "length (arch_trace (isa_step code A)) = Suc (length (arch_trace A))"
  by (simp add: isa_step_def Let_def)

text \<open>The part of \<open>two_cycles\<close> both systems use.\<close>

lemma two_cycles_matches:
  assumes m: "core_matches A s req log dreqs"
    and p: "pipe_imem_req p = []" "pipe_imem_resp p = [imem_answer mem req]" "pipe_dmem_resp p = []"
      "pipe_commit_trace p = []" "\<not> stream_full (pipe_dmem_req p)"
    and i: "core_supports (code (arch_pc A))" "aligned (arch_pc (isa_step code A))" "mem (arch_pc A) = encode (code (arch_pc A))"
  shows "\<exists>s1 ces1 s2 ces2 new req'. boom_core_step s p = (s1, p\<lparr>pipe_imem_resp := [], pipe_commit_trace := ces1\<rparr>)
    \<and> boom_core_step s1 (p\<lparr>pipe_imem_resp := []\<rparr>) =
        (s2, p\<lparr>pipe_imem_resp := [], pipe_imem_req := [req'], pipe_dmem_req := pipe_dmem_req p @ new, pipe_commit_trace := ces2\<rparr>)
    \<and> core_matches (isa_step code A) s2 req' (log @ ces1 @ ces2) (dreqs @ new)
    \<and> length (ces1 @ ces2) = 1 \<and> length ces1 + length new \<le> 1
    \<and> \<not> bs_io_success s1 \<and> \<not> bs_io_trap s1 \<and> list_ex ce_is_store ces2 = (new \<noteq> [])"
proof -
  have q: "core_quiet s" "fe_request_sent (bs_frontend s)" "arch_view s = arch_regs A" "irq_address req = arch_pc A"
    "irq_fetch_id req = fe_pending_fetch_id (bs_frontend s)"
    using m by (auto simp: core_matches_def requested_def)
  obtain s1 ces1 s2 ces2 new req' ws where
    "boom_core_step s p = (s1, p\<lparr>pipe_imem_resp := [], pipe_commit_trace := ces1\<rparr>)"
    "boom_core_step s1 (p\<lparr>pipe_imem_resp := []\<rparr>) =
        (s2, p\<lparr>pipe_imem_resp := [], pipe_imem_req := [req'], pipe_dmem_req := pipe_dmem_req p @ new, pipe_commit_trace := ces2\<rparr>)"
    "requested p (arch_pc (isa_step code A)) s2 req'" "arch_view s2 = arch_regs (isa_step code A)"
    "arch_trace (isa_step code A) = arch_trace A @ map retired (ces1 @ ces2)" "length (ces1 @ ces2) = 1" "length ces1 + length new \<le> 1"
    "arch_stores (isa_step code A) = arch_stores A @ ws" "list_all2 store_matches ws new"
    "csr_instret (bs_csr s2) = csr_instret (bs_csr s) + 1"
    "\<not> bs_io_success s1" "\<not> bs_io_trap s1" "list_ex ce_is_store ces2 = (new \<noteq> [])"
    using two_cycles [OF q p i] by blast
  moreover have "length ws \<le> 1"
    using calculation(8) by (auto simp: isa_step_def Let_def split: option.splits)
  ultimately show ?thesis
    using m by (intro exI [of _ s1] exI [of _ ces1] exI [of _ s2] exI [of _ ces2] exI [of _ new] exI [of _ req'])
      (auto simp: core_matches_def requested_pipe [of p] isa_step_trace_length list_all2_appendI
        dest: list_all2_lengthD)
qed

lemma tb_pair:
  assumes "tb_matches A st" "core_supports (code (arch_pc A))" "aligned (arch_pc (isa_step code A))"
    "mem (arch_pc A) = encode (code (arch_pc A))"
    "length (arch_stores A) < 1024"
  defines "cyc \<equiv> tb_cycle mem"
  shows "tb_matches (isa_step code A) (cyc (cyc st))" "\<not> bs_io_success (fst (cyc st))" "\<not> bs_io_trap (fst (cyc st))"
proof -
  obtain s p log req where st: "st = (s, p, log)" and m: "core_matches A s req log (pipe_dmem_req p)"
    and p: "pipe_imem_req p = [req]" "pipe_imem_resp p = []" "pipe_dmem_resp p = []" "pipe_commit_trace p = []"
    using assms(1) by (auto simp: tb_matches_def split: prod.splits)
  let ?p = "p\<lparr>pipe_imem_req := [], pipe_imem_resp := [imem_answer mem req]\<rparr>"
  have resp: "tb_respond mem p = ?p"
    using p by (simp add: tb_respond_def stream_empty_def stream_read_def stream_full_def stream_write_def)
  have c: "pipe_imem_req ?p = []" "pipe_imem_resp ?p = [imem_answer mem req]" "pipe_dmem_resp ?p = []" "pipe_commit_trace ?p = []"
    using p by simp_all
  have full: "\<not> stream_full (pipe_dmem_req ?p)"
    using m assms(5) by (auto simp: core_matches_def stream_full_def dest: list_all2_lengthD)
  obtain s1 ces1 s2 ces2 new req' where
    s1: "boom_core_step s ?p = (s1, ?p\<lparr>pipe_imem_resp := [], pipe_commit_trace := ces1\<rparr>)"
    and s2: "boom_core_step s1 (?p\<lparr>pipe_imem_resp := []\<rparr>) = (s2, ?p\<lparr>pipe_imem_resp := [], pipe_imem_req := [req'],
        pipe_dmem_req := pipe_dmem_req ?p @ new, pipe_commit_trace := ces2\<rparr>)"
    and m2: "core_matches (isa_step code A) s2 req' (log @ ces1 @ ces2) (pipe_dmem_req p @ new)"
    and io: "\<not> bs_io_success s1" "\<not> bs_io_trap s1"
    using two_cycles_matches [OF m c full assms(2-4)] by blast
  let ?p1 = "p\<lparr>pipe_imem_req := [], pipe_imem_resp := []\<rparr>"
  have p1: "tb_respond mem ?p1 = ?p1" "?p1 = ?p\<lparr>pipe_imem_resp := []\<rparr>" "?p1\<lparr>pipe_commit_trace := []\<rparr> = ?p1"
    using p(4) by (cases p; simp add: tb_respond_def stream_empty_def)+
  have c1: "cyc st = (s1, ?p1, log @ ces1)"
    using resp s1 p1(3) by (simp add: cyc_def st tb_cycle_def)
  then show "\<not> bs_io_success (fst (cyc st))" "\<not> bs_io_trap (fst (cyc st))" using io by simp_all
  have "boom_core_step s1 ?p1 = (s2, ?p1\<lparr>pipe_imem_req := [req'], pipe_dmem_req := pipe_dmem_req p @ new,
      pipe_commit_trace := ces2\<rparr>)"
    using s2 by simp
  then have "tb_cycle mem (s1, ?p1, log @ ces1) = (s2, ?p1\<lparr>pipe_imem_req := [req'],
      pipe_dmem_req := pipe_dmem_req p @ new, pipe_commit_trace := []\<rparr>, log @ ces1 @ ces2)"
    unfolding tb_cycle_def by (simp add: p1(1))
  with c1 have "cyc (cyc st) = (s2, ?p1\<lparr>pipe_imem_req := [req'],
      pipe_dmem_req := pipe_dmem_req p @ new, pipe_commit_trace := []\<rparr>, log @ ces1 @ ces2)"
    by (simp only: cyc_def)
  then show "tb_matches (isa_step code A) (cyc (cyc st))" using m2 p by (simp add: tb_matches_def)
qed

lemma sys_pair:
  assumes "sys_matches A st" "core_supports (code (arch_pc A))" "aligned (arch_pc (isa_step code A))"
    "mem (arch_pc A) = encode (code (arch_pc A))"
  defines "cyc \<equiv> sys_cycle mem"
  shows "sys_matches (isa_step code A) (cyc (cyc st))"
proof -
  obtain s req log dreqs where st: "st = (s, PipeSignals0, \<lparr>top_imem_req_out = [req], top_imem_resp_in = [],
      top_dmem_req_out = dreqs, top_dmem_resp_in = [], top_commit_trace_out = log\<rparr>)" and m: "core_matches A s req log dreqs"
    using assms(1) by (auto simp: sys_matches_def split: prod.splits)
  let ?p = "PipeSignals0\<lparr>pipe_imem_resp := [imem_answer mem req]\<rparr>"
  have c: "pipe_imem_req ?p = []" "pipe_imem_resp ?p = [imem_answer mem req]" "pipe_dmem_resp ?p = []" "pipe_commit_trace ?p = []"
    "\<not> stream_full (pipe_dmem_req ?p)"
    by (simp_all add: PipeSignals0_def stream_full_def)
  obtain s1 ces1 s2 ces2 new req' where
    s1: "boom_core_step s ?p = (s1, ?p\<lparr>pipe_imem_resp := [], pipe_commit_trace := ces1\<rparr>)"
    and s2: "boom_core_step s1 (?p\<lparr>pipe_imem_resp := []\<rparr>) = (s2, ?p\<lparr>pipe_imem_resp := [], pipe_imem_req := [req'],
        pipe_dmem_req := pipe_dmem_req ?p @ new, pipe_commit_trace := ces2\<rparr>)"
    and m2: "core_matches (isa_step code A) s2 req' (log @ ces1 @ ces2) (dreqs @ new)"
    and l: "length (ces1 @ ces2) = 1" "length ces1 + length new \<le> 1"
    using two_cycles_matches [OF m c assms(2-4)] by blast
  have p0: "?p\<lparr>pipe_imem_resp := []\<rparr> = PipeSignals0" by (simp add: PipeSignals0_def)
  have ces: "ces1 = [] \<and> (\<exists>ce. ces2 = [ce]) \<or> (\<exists>ce. ces1 = [ce]) \<and> ces2 = []" "new = [] \<or> (\<exists>d. new = [d])"
    using l by (cases ces1; cases new; auto simp: length_Suc_conv)+
  have "cyc st = (s1, PipeSignals0, \<lparr>top_imem_req_out = [], top_imem_resp_in = [],
      top_dmem_req_out = dreqs, top_dmem_resp_in = [], top_commit_trace_out = log @ ces1\<rparr>)"
    using s1 ces(1) by (auto simp: cyc_def st sys_cycle_def top_respond_def core_cycle_def top_feed_def top_drain_def
        stream_empty_def stream_full_def stream_write_def PipeSignals0_def)
  then have "cyc (cyc st) = (s2, PipeSignals0, \<lparr>top_imem_req_out = [req'], top_imem_resp_in = [],
      top_dmem_req_out = dreqs @ new, top_dmem_resp_in = [], top_commit_trace_out = log @ ces1 @ ces2\<rparr>)"
    using s2 ces by (auto simp: cyc_def sys_cycle_def top_respond_def core_cycle_def top_feed_def top_drain_def
        stream_empty_def stream_full_def stream_write_def PipeSignals0_def)
  then show ?thesis using m2 by (auto simp: sys_matches_def)
qed

text \<open>The first cycle after reset requests the reset vector.\<close>

definition reset_state :: BoomCoreState where
  "reset_state = fst (boom_core_step BoomCoreState0 PipeSignals0)"

lemma reset_step: "boom_core_step BoomCoreState0 PipeSignals0 = (reset_state, PipeSignals0\<lparr>pipe_imem_req :=
    [ImemRequest0\<lparr>irq_address := RESET_VECTOR, irq_fetch_id := 0, irq_kill := False\<rparr>]\<rparr>)"
proof -
  have "snd (boom_core_step BoomCoreState0 PipeSignals0) = PipeSignals0\<lparr>pipe_imem_req :=
    [ImemRequest0\<lparr>irq_address := RESET_VECTOR, irq_fetch_id := 0, irq_kill := False\<rparr>]\<rparr>"
    by code_simp
  then show ?thesis unfolding reset_state_def by (metis prod.collapse)
qed

text \<open>
  A state with nothing in flight, its registers zero and its first fetch outstanding, in the
  form the kernel evaluates it.
\<close>

definition fresh_core :: "BoomCoreState \<Rightarrow> bool" where
  "fresh_core s = (rename_quiet (bs_rename s) \<and> rob_idle (bs_rob s) \<and> iq_idle (iss_alu_iq (bs_issue s))
     \<and> \<not> lsu_load_response_pending (bs_lsu s) \<and> length (bs_int_rf s) = INT_PHYS_REGS
     \<and> length (dec_uops (bs_decode s)) = 1 \<and> length (dec_valids (bs_decode s)) = 1
     \<and> fe_reset_done (bs_frontend s) \<and> \<not> fe_flush (bs_frontend s) \<and> \<not> fe_response_received (bs_frontend s)
     \<and> length (exe_alu_results (bs_execute s)) = 1 \<and> \<not> ar_valid (hd (exe_alu_results (bs_execute s)))
     \<and> fe_request_sent (bs_frontend s) \<and> fe_pending_fetch_id (bs_frontend s) = 0
     \<and> mt_map_table (ren_int_map_table (bs_rename s)) = replicate 32 0 \<and> csr_instret (bs_csr s) = 0
     \<and> \<not> bs_io_success s \<and> \<not> bs_io_trap s)"

lemma fresh_matches:
  assumes "fresh_core s" "irq_fetch_id req = 0"
  shows "core_matches (arch_at (irq_address req)) s req [] []"
proof -
  have "\<exists>r. exe_alu_results (bs_execute s) = [r] \<and> \<not> ar_valid r"
    using assms(1) by (cases "exe_alu_results (bs_execute s)") (auto simp: fresh_core_def)
  moreover have "arch_view s = (\<lambda>_. 0)"
    using assms(1) by (simp add: fresh_core_def arch_view_def [abs_def] read_rf_def)
  ultimately show ?thesis
    using assms by (simp add: fresh_core_def core_matches_def requested_def core_quiet_def arch_at_def)
qed

lemma reset_fresh: "fresh_core reset_state"
  unfolding reset_state_def by code_simp

lemma reset_matches:
  "core_matches Arch0 reset_state (ImemRequest0\<lparr>irq_address := RESET_VECTOR, irq_fetch_id := 0, irq_kill := False\<rparr>) [] []"
  using fresh_matches [OF reset_fresh, of "ImemRequest0\<lparr>irq_address := RESET_VECTOR, irq_fetch_id := 0, irq_kill := False\<rparr>"]
  by (simp add: Arch0_def)

lemma tb_reset: "tb_matches Arch0 (tb_cycle mem tb_start)"
proof -
  have "tb_respond mem PipeSignals0 = PipeSignals0"
    by (simp add: tb_respond_def stream_empty_def PipeSignals0_def)
  then have "tb_cycle mem tb_start = (reset_state, PipeSignals0\<lparr>pipe_imem_req :=
    [ImemRequest0\<lparr>irq_address := RESET_VECTOR, irq_fetch_id := 0, irq_kill := False\<rparr>]\<rparr>, [])"
    by (simp add: tb_cycle_def tb_start_def reset_step) (simp add: PipeSignals0_def)
  then show ?thesis using reset_matches by (simp add: tb_matches_def) (simp add: PipeSignals0_def)
qed

lemma sys_reset: "sys_matches Arch0 (sys_cycle mem sys_start)"
  using reset_matches
  by (auto simp: sys_cycle_def sys_start_def top_respond_def core_cycle_def top_feed_def stream_empty_def reset_step)
    (auto simp: sys_matches_def top_drain_def stream_empty_def stream_write_def PipeSignals0_def)

text \<open>
  The memory holds the encodings of the instructions reached in \<open>n\<close> steps, they are
  supported, and the jumps land on word addresses.
\<close>

fun runs_supported :: "(u64 \<Rightarrow> u32) \<Rightarrow> (u64 \<Rightarrow> Instr) \<Rightarrow> nat \<Rightarrow> Arch \<Rightarrow> bool" where
  "runs_supported mem code 0 A = True"
| "runs_supported mem code (Suc n) A =
    (mem (arch_pc A) = encode (code (arch_pc A)) \<and> core_supports (code (arch_pc A))
     \<and> aligned (arch_pc (isa_step code A)) \<and> runs_supported mem code n (isa_step code A))"

lemma funpow_pair: "(f ^^ (2 * Suc n)) x = (f ^^ (2 * n)) (f (f x))"
  by (simp add: funpow_swap1)

lemma sys_pairs:
  assumes "sys_matches A st" "runs_supported mem code n A"
  shows "sys_matches ((isa_step code ^^ n) A) ((sys_cycle mem ^^ (2 * n)) st)"
  using assms
proof (induction n arbitrary: A st)
  case (Suc n)
  then have "sys_matches (isa_step code A) (sys_cycle mem (sys_cycle mem st))"
    by (intro sys_pair) simp_all
  from Suc.IH [OF this] Suc.prems(2) show ?case
    unfolding funpow_pair funpow_Suc_right comp_apply [of "isa_step code ^^ n"] by (simp only: runs_supported.simps)
qed simp

lemma tb_pairs:
  assumes "tb_matches A st" "runs_supported mem code n A" "length (arch_stores A) + n \<le> 1024"
  shows "tb_matches ((isa_step code ^^ n) A) ((tb_cycle mem ^^ (2 * n)) st)"
  using assms
proof (induction n arbitrary: A st)
  case (Suc n)
  then have "tb_matches (isa_step code A) (tb_cycle mem (tb_cycle mem st))"
    by (intro tb_pair) simp_all
  moreover have "length (arch_stores (isa_step code A)) + n \<le> 1024"
    using Suc.prems(3) by (simp add: isa_step_def Let_def split: option.splits)
  ultimately show ?case using Suc.IH Suc.prems(2)
    unfolding funpow_pair funpow_Suc_right comp_apply [of "isa_step code ^^ n"] by (simp only: runs_supported.simps)
qed simp

section \<open>The systems run the instruction set: the statements\<close>

lemma sys_run_matches:
  assumes "runs_supported mem code n Arch0"
  shows "sys_matches ((isa_step code ^^ n) Arch0) ((sys_cycle mem ^^ (2 * n + 1)) sys_start)"
  using sys_pairs [OF sys_reset [of mem] assms] by (simp add: funpow_swap1)

lemma tb_run_matches:
  assumes "runs_supported mem code n Arch0" "n \<le> 1024"
  shows "tb_matches ((isa_step code ^^ n) Arch0) ((tb_cycle mem ^^ (2 * n + 1)) tb_start)"
  using tb_pairs [OF tb_reset [of mem] assms(1)] assms(2) by (simp add: funpow_swap1 Arch0_def arch_at_def)

text \<open>
  C1: The core runs the instruction set. Closed with an instruction memory that answers
  each request in the next cycle, the top-level loop executes one instruction every two
  cycles: if the memory holds, at the program counters an \<open>n\<close>-step run of the instruction
  set reaches, encodings of supported instructions, then after \<open>2 n + 1\<close> cycles from reset
  the commit trace is the architectural trace of that run, the register file read through
  the map table is its register file, the store requests are its stores in order, \<open>n\<close>
  instructions are counted as retired, and the one outstanding fetch is for its program
  counter.
\<close>
theorem core_runs_isa:
  assumes "runs_supported mem code n Arch0"
  defines "A \<equiv> (isa_step code ^^ n) Arch0" and "S \<equiv> (sys_cycle mem ^^ (2 * n + 1)) sys_start"
  shows "map retired (top_commit_trace_out (snd (snd S))) = arch_trace A
    \<and> arch_view (fst S) = arch_regs A
    \<and> list_all2 store_matches (arch_stores A) (top_dmem_req_out (snd (snd S)))
    \<and> csr_instret (bs_csr (fst S)) = word_of_nat (length (arch_trace A))
    \<and> map irq_address (top_imem_req_out (snd (snd S))) = [arch_pc A]"
  using sys_run_matches [OF assms(1)]
  by (auto simp: A_def S_def sys_matches_def core_matches_def requested_def split: prod.splits)

definition demo_code :: "u64 \<Rightarrow> Instr" where
  "demo_code a = (if a = 0x10040 then Imm OpAdd 1 0 5 else if a = 0x10044 then Store 3 0 1 16 else Fence)"

lemma demo_supported: "runs_supported (encode \<circ> demo_code) demo_code 2 Arch0"
  unfolding numeral_2_eq_2 runs_supported.simps
  by (simp add: demo_code_def Arch0_def arch_at_def isa_step_def isa_next_def aligned_def align4_def Let_def)

lemma demo_trace: "map (\<lambda>(pc, w, r). (pc, r)) (arch_trace ((isa_step demo_code ^^ 2) Arch0)) = [(0x10040, Some (1, 5)), (0x10044, None)]"
  unfolding numeral_2_eq_2 funpow.simps
  by (simp add: demo_code_def Arch0_def arch_at_def isa_step_def isa_next_def isa_event_def Let_def)

lemma core_runs_isa_witness:
  "map (\<lambda>(pc, w, r). (pc, r)) (map retired (top_commit_trace_out (snd (snd ((sys_cycle (encode \<circ> demo_code) ^^ 5) sys_start)))))
    = [(0x10040, Some (1, 5)), (0x10044, None)]"
proof -
  have five: "(5 :: nat) = 2 * 2 + 1" by simp
  from core_runs_isa [OF demo_supported]
  have "map retired (top_commit_trace_out (snd (snd ((sys_cycle (encode \<circ> demo_code) ^^ 5) sys_start))))
    = arch_trace ((isa_step demo_code ^^ 2) Arch0)" unfolding five by blast
  then show ?thesis by (simp only: demo_trace)
qed

text \<open>
  C4: The same for the loop of \<open>run_program\<close> in \<open>tb/tb_boom_core.cpp\<close>, which answers the
  fetch before stepping the core and never drains the data requests: the first 1024
  instructions of a supported run are executed as the instruction set says, and the log of
  committed entries is its trace.
\<close>
theorem testbench_runs_isa:
  assumes "runs_supported mem code n Arch0" "n \<le> 1024"
  defines "A \<equiv> (isa_step code ^^ n) Arch0" and "S \<equiv> (tb_cycle mem ^^ (2 * n + 1)) tb_start"
  shows "map retired (snd (snd S)) = arch_trace A \<and> arch_view (fst S) = arch_regs A
    \<and> list_all2 store_matches (arch_stores A) (pipe_dmem_req (fst (snd S)))
    \<and> csr_instret (bs_csr (fst S)) = word_of_nat (length (arch_trace A))
    \<and> map irq_address (pipe_imem_req (fst (snd S))) = [arch_pc A]"
  using tb_run_matches [OF assms(1,2)]
  by (auto simp: A_def S_def tb_matches_def core_matches_def requested_def split: prod.splits)

lemma testbench_runs_isa_witness:
  "map (\<lambda>(pc, w, r). (pc, r)) (map retired (snd (snd ((tb_cycle (encode \<circ> demo_code) ^^ 5) tb_start))))
    = [(0x10040, Some (1, 5)), (0x10044, None)]"
proof -
  have five: "(5 :: nat) = 2 * 2 + 1" and le: "(2 :: nat) \<le> 1024" by simp_all
  from testbench_runs_isa [OF demo_supported le]
  have "map retired (snd (snd ((tb_cycle (encode \<circ> demo_code) ^^ 5) tb_start))) = arch_trace ((isa_step demo_code ^^ 2) Arch0)"
    unfolding five by blast
  then show ?thesis by (simp only: demo_trace)
qed

end
