(* ===== verification/Programs.thy ===== *)
theory Programs
  imports System
begin

text \<open>
  The test programs of \<open>tb/tb_boom_core.cpp\<close>: \<open>run_program\<close>, the five programs and
  \<open>main\<close>. A supported program that ends in an environment call is run to its end, and
  what the bench then reads are the architectural registers; the programs are evaluated on
  the instruction set.
\<close>

section \<open>The end of a program\<close>

text \<open>The bench reads the registers through the committed map table.\<close>

datatype tb_verdict = Tb_pass | Tb_fail string

definition committed_reg :: "BoomCoreState \<Rightarrow> nat \<Rightarrow> u64" where
  "committed_reg s r =
    (let p = mt_committed_map_table (ren_int_map_table (bs_rename s)) ! r
     in if p > 0 then bs_int_rf s ! unat p else 0)"

lemma committed_reg_view:
  assumes "rename_quiet (bs_rename s)"
  shows "committed_reg s (unat (r :: 5 word)) = arch_view s r"
  using rename_quietD(3) [OF assms] by (simp add: committed_reg_def arch_view_def read_rf_def Let_def word_gt_0)

definition tb_ends :: "tb_state \<Rightarrow> bool" where
  "tb_ends st = (bs_io_success (fst st) \<or> bs_io_trap (fst st))"

lemma tb_run_skip:
  assumes "\<And>j. j < m \<Longrightarrow> \<not> tb_ends ((tb_cycle mem ^^ Suc j) st)"
  shows "tb_run mem (m + k) st = tb_run mem k ((tb_cycle mem ^^ m) st)"
  using assms
proof (induction m arbitrary: st)
  case (Suc m)
  have "\<not> tb_ends (tb_cycle mem st)" using Suc.prems [of 0] by simp
  then have "tb_run mem (Suc m + k) st = tb_run mem (m + k) (tb_cycle mem st)"
    by (simp add: tb_ends_def Let_def)
  also have "\<dots> = tb_run mem k ((tb_cycle mem ^^ m) (tb_cycle mem st))"
  proof (rule Suc.IH)
    fix j assume "j < m"
    then show "\<not> tb_ends ((tb_cycle mem ^^ Suc j) (tb_cycle mem st))"
      using Suc.prems [of "Suc j"] by (simp add: funpow_swap1)
  qed
  finally show ?case by (simp add: funpow_swap1)
qed simp

lemma tb_matches_runs: "tb_matches A st \<Longrightarrow> \<not> tb_ends st"
  by (auto simp: tb_matches_def core_matches_def requested_def core_quiet_def tb_ends_def split: prod.splits)

lemma runs_supported_add:
  "runs_supported mem code (m + n) A = (runs_supported mem code m A \<and> runs_supported mem code n ((isa_step code ^^ m) A))"
  by (induction m arbitrary: A) (simp_all add: funpow_swap1)

text \<open>During a supported run the loop does not stop.\<close>

lemma tb_keeps_running:
  assumes "runs_supported mem code n Arch0" "n \<le> 1024" "j \<le> 2 * n"
  shows "\<not> tb_ends ((tb_cycle mem ^^ Suc j) tb_start)"
proof -
  obtain k where k: "j = 2 * k \<or> j = Suc (2 * k)" "k \<le> n" using assms(3) by (metis Suc_leD div_le_mono mult_2 nonzero_mult_div_cancel_left odd_two_times_div_two_succ even_two_times_div_two Suc_eq_plus1 zero_neq_numeral)
  obtain d where n: "n = k + d" using k(2) le_Suc_ex by blast
  have run: "runs_supported mem code k Arch0" "runs_supported mem code d ((isa_step code ^^ k) Arch0)"
    using assms(1) by (simp_all add: n runs_supported_add)
  have odd: "tb_matches ((isa_step code ^^ k) Arch0) ((tb_cycle mem ^^ (2 * k + 1)) tb_start)"
    using tb_run_matches [OF run(1)] assms(2) k(2) by simp
  show ?thesis
  proof (cases "j = 2 * k")
    case True
    then show ?thesis using tb_matches_runs [OF odd] by simp
  next
    case False
    then have j: "j = Suc (2 * k)" "0 < d" using k assms(3) n by auto
    obtain d' where d: "d = Suc d'" using j(2) gr0_implies_Suc by blast
    let ?A = "(isa_step code ^^ k) Arch0"
    have "length (arch_stores ?A) \<le> k"
      by (induction k) (auto simp: Arch0_def arch_at_def isa_step_def Let_def split: option.splits)
    then have len: "length (arch_stores ?A) < 1024" using assms(2) n d by simp
    have i: "core_supports (code (arch_pc ?A))" "aligned (arch_pc (isa_step code ?A))" "mem (arch_pc ?A) = encode (code (arch_pc ?A))"
      using run(2) by (simp_all add: d)
    show ?thesis using tb_pair(2,3) [where mem = mem and code = code, OF odd i len] by (simp add: j(1) tb_ends_def)
  qed
qed

text \<open>The counter of cycles.\<close>

lemma tb_cycle_count: "csr_cycle (bs_csr (fst ((tb_cycle mem ^^ m) tb_start))) = word_of_nat m"
proof (induction m)
  case 0
  then show ?case by (simp add: tb_start_def BoomCoreState0_def CsrState0_def)
next
  case (Suc m)
  have "csr_cycle (bs_csr (fst (tb_cycle mem st))) = csr_cycle (bs_csr (fst st)) + 1" for st
    using step_counts [of "fst st" "tb_respond mem (fst (snd st))", OF prod.collapse [symmetric]]
    by (simp add: tb_cycle_def case_prod_beta Let_def)
  then show ?case using Suc by (simp add: add.commute)
qed

text \<open>
  A supported program that ends in an environment call is run to its end.
\<close>

lemma tb_reaches_end:
  assumes run: "runs_supported mem code n Arch0" "n \<le> 1024"
    and A: "A = (isa_step code ^^ n) Arch0" "mem (arch_pc A) = make_ecall"
  defines "st \<equiv> (tb_cycle mem ^^ (2 * n + 2)) tb_start"
  shows "2 * n + 2 \<le> N \<Longrightarrow> tb_run mem N tb_start = (if arch_regs A 10 = 0 then Inr st else Inl st)"
    "map retired (snd (snd st)) = arch_trace A" "committed_reg (fst st) (unat (r :: 5 word)) = arch_regs A r"
    "csr_instret (bs_csr (fst st)) = word_of_nat n" "csr_cycle (bs_csr (fst st)) = word_of_nat (2 * n + 2)"
proof -
  define st0 where "st0 = (tb_cycle mem ^^ (2 * n + 1)) tb_start"
  have st: "st = tb_cycle mem st0" by (simp add: st_def st0_def)
  have "tb_matches A st0" using tb_run_matches [OF run] by (simp add: st0_def A(1))
  then obtain s p log req where st0: "st0 = (s, p, log)" and m: "core_matches A s req log (pipe_dmem_req p)"
    and p: "pipe_imem_req p = [req]" "pipe_imem_resp p = []" "pipe_dmem_resp p = []" "pipe_commit_trace p = []"
    by (auto simp: tb_matches_def split: prod.splits)
  have q: "core_quiet s" "fe_request_sent (bs_frontend s)" "arch_view s = arch_regs A" "irq_address req = arch_pc A"
    "irq_fetch_id req = fe_pending_fetch_id (bs_frontend s)" "map retired log = arch_trace A"
    "csr_instret (bs_csr s) = word_of_nat (length (arch_trace A))"
    using m by (auto simp: core_matches_def requested_def)
  let ?p = "p\<lparr>pipe_imem_req := [], pipe_imem_resp := [imem_answer mem req]\<rparr>"
  have resp: "tb_respond mem p = ?p"
    using p by (simp add: tb_respond_def stream_empty_def stream_read_def stream_full_def stream_write_def)
  have a: "irs_instruction (imem_answer mem req) = make_ecall" "irs_fetch_id (imem_answer mem req) = fe_pending_fetch_id (bs_frontend s)"
    using A(2) q(4,5) by (simp_all add: imem_answer_def ImemResponse0_def)
  obtain s' where s': "boom_core_step s ?p = (s', ?p\<lparr>pipe_imem_resp := []\<rparr>)" "ended (arch_view s 10) s'" "bs_int_rf s' = bs_int_rf s"
    "ren_int_map_table (bs_rename s') = ren_int_map_table (bs_rename s)" "csr_instret (bs_csr s') = csr_instret (bs_csr s)"
    using cycle_ecall [OF q(1,2), of ?p "imem_answer mem req"] a p(3) by auto
  have st': "fst st = s'" "snd (snd st) = log" using s'(1) p(4) by (simp_all add: st st0 tb_cycle_def resp)
  show "map retired (snd (snd st)) = arch_trace A" using st'(2) q(6) by simp
  have "committed_reg s' k = committed_reg s k" for k by (simp only: committed_reg_def Let_def s'(3,4))
  then show "committed_reg (fst st) (unat r) = arch_regs A r"
    using committed_reg_view [of s r] q(1,3) st'(1) by (simp add: core_quiet_def)
  have "length (arch_trace A) = n"
    unfolding A(1) by (induction n) (simp_all add: Arch0_def arch_at_def isa_step_trace_length)
  then show "csr_instret (bs_csr (fst st)) = word_of_nat n" using s'(5) q(7) st'(1) by simp
  show "csr_cycle (bs_csr (fst st)) = word_of_nat (2 * n + 2)" unfolding st_def by (rule tb_cycle_count)
  assume "2 * n + 2 \<le> N"
  define k where "k = N - (2 * n + 2)"
  have N: "N = (2 * n + 1) + Suc k" using \<open>2 * n + 2 \<le> N\<close> by (simp add: k_def)
  have "tb_run mem N tb_start = tb_run mem (Suc k) st0"
    unfolding N st0_def by (rule tb_run_skip) (use tb_keeps_running [OF run] in simp)
  also have "\<dots> = (if arch_regs A 10 = 0 then Inr st else Inl st)"
  proof -
    have "tb_run mem (Suc k) st0 = (if bs_io_trap s' \<and> \<not> bs_io_success s' then Inl st
        else if bs_io_success s' then Inr st else tb_run mem k st)"
      by (simp only: tb_run.simps Let_def st [symmetric] st'(1))
    then show ?thesis using s'(2) q(3) by (simp add: ended_def)
  qed
  finally show "tb_run mem N tb_start = (if arch_regs A 10 = 0 then Inr st else Inl st)" .
qed

section \<open>The test programs\<close>

text \<open>Instructions from the reset vector on.\<close>

definition asm :: "Instr list \<Rightarrow> u64 \<Rightarrow> Instr" where
  "asm is a = (let k = unat (drop_bit 2 (a - RESET_VECTOR)) in if k < length is then is ! k else Fence)"


text \<open>
  The whole of \<open>run_program\<close>: the loop, then the checks on the commit count, the three
  registers read through the committed map table, and the counters.
\<close>

definition run_program :: "IdealMem \<Rightarrow> nat \<Rightarrow> int \<Rightarrow> int \<Rightarrow> int \<Rightarrow> tb_verdict" where
  "run_program mem max_cycles expected_x1 expected_x2 expected_x3 =
    (case tb_run (ideal_mem_read mem) max_cycles tb_start of
       Inl _ \<Rightarrow> Tb_fail ''io_trap set without success''
     | Inr (s, p, log) \<Rightarrow>
         if \<not> length log > 0 then Tb_fail ''no commits''
         else if committed_reg s 1 \<noteq> word_of_int expected_x1 then Tb_fail ''x1 mismatch''
         else if committed_reg s 2 \<noteq> word_of_int expected_x2 then Tb_fail ''x2 mismatch''
         else if committed_reg s 3 \<noteq> word_of_int expected_x3 then Tb_fail ''x3 mismatch''
         else if \<not> csr_instret (bs_csr s) > 0 then Tb_fail ''instret unchanged''
         else if \<not> csr_cycle (bs_csr s) > 0 then Tb_fail ''cycle unchanged''
         else Tb_pass)"

definition test_addi_add_ecall :: tb_verdict where
  "test_addi_add_ecall =
    (let mem = ideal_mem_clear RESET_VECTOR;
         mem = ideal_mem_add (make_itype 5 0 0 1 0x13) mem;
         mem = ideal_mem_add (make_itype 7 1 0 2 0x13) mem;
         mem = ideal_mem_add (make_rtype 0 2 1 0 3 0x33) mem;
         mem = ideal_mem_add make_ecall mem
     in run_program mem 200 5 12 17)"

definition test_alu_chain :: tb_verdict where
  "test_alu_chain =
    (let mem = ideal_mem_clear RESET_VECTOR;
         mem = ideal_mem_add (make_itype 3 0 0 1 0x13) mem;
         mem = ideal_mem_add (make_itype 2 1 0 2 0x13) mem;
         mem = ideal_mem_add (make_rtype 0 1 2 0 3 0x33) mem;
         mem = ideal_mem_add make_ecall mem
     in run_program mem 200 3 5 8)"

definition test_jump :: tb_verdict where
  "test_jump =
    (let mem = ideal_mem_clear RESET_VECTOR;
         mem = ideal_mem_add (make_jtype 8 0 0x6F) mem;
         mem = ideal_mem_add (make_itype 99 0 0 1 0x13) mem;
         mem = ideal_mem_add (make_itype 1 0 0 1 0x13) mem;
         mem = ideal_mem_add make_ecall mem
     in run_program mem 200 1 0 0)"

text \<open>The branch word of the last two programs, written out there: its offset bits.\<close>

definition branch_bits :: "u32 \<Rightarrow> u32" where
  "branch_bits imm =
     push_bit 31 (drop_bit 12 imm AND 1) OR push_bit 25 (drop_bit 5 imm AND 0x3F)
     OR push_bit 8 (drop_bit 1 imm AND 0xF) OR push_bit 7 (drop_bit 11 imm AND 1)"

definition test_branch_beq :: tb_verdict where
  "test_branch_beq =
    (let mem = ideal_mem_clear RESET_VECTOR;
         mem = ideal_mem_add (make_itype 5 0 0 1 0x13) mem;
         mem = ideal_mem_add (make_itype 5 0 0 2 0x13) mem;
         beq_inst = branch_bits 8 OR push_bit 20 2 OR push_bit 15 1 OR push_bit 12 0 OR 0x63;
         mem = ideal_mem_add beq_inst mem;
         mem = ideal_mem_add (make_itype 99 0 0 3 0x13) mem;
         mem = ideal_mem_add (make_itype 10 0 0 3 0x13) mem;
         mem = ideal_mem_add make_ecall mem
     in run_program mem 200 5 5 10)"

definition test_branch_not_taken :: tb_verdict where
  "test_branch_not_taken =
    (let mem = ideal_mem_clear RESET_VECTOR;
         mem = ideal_mem_add (make_itype 3 0 0 1 0x13) mem;
         mem = ideal_mem_add (make_itype 7 0 0 2 0x13) mem;
         bne_inst = branch_bits 8 OR push_bit 20 2 OR push_bit 15 1 OR push_bit 12 1 OR 0x63;
         mem = ideal_mem_add bne_inst mem;
         mem = ideal_mem_add (make_itype 99 0 0 3 0x13) mem;
         mem = ideal_mem_add (make_itype 10 0 0 3 0x13) mem;
         mem = ideal_mem_add make_ecall mem
     in run_program mem 200 3 7 10)"

text \<open>\<open>main\<close>: the number of failed tests decides the exit code.\<close>

definition tb_main :: int where
  "tb_main =
    (let results = [test_addi_add_ecall, test_alu_chain, test_jump, test_branch_beq, test_branch_not_taken];
         tests_failed = length (filter (\<lambda>v. v \<noteq> Tb_pass) results)
     in if tests_failed > 0 then 1 else 0)"

text \<open>The run and its conditions in the form the kernel evaluates them.\<close>

fun checked_run :: "(u64 \<Rightarrow> u32) \<Rightarrow> (u64 \<Rightarrow> Instr) \<Rightarrow> nat \<Rightarrow> Arch \<Rightarrow> Arch option" where
  "checked_run mem code 0 A = Some A"
| "checked_run mem code (Suc n) A =
    (let i = code (arch_pc A); B = isa_step code A
     in if mem (arch_pc A) = encode i \<and> core_supports i \<and> aligned (arch_pc B) then checked_run mem code n B else None)"

lemma checked_run_supported:
  "checked_run mem code n A = Some B \<Longrightarrow> runs_supported mem code n A \<and> B = (isa_step code ^^ n) A"
  by (induction n arbitrary: A) (auto simp: Let_def funpow_swap1 split: if_splits)

definition ends_with :: "(u64 \<Rightarrow> u32) \<Rightarrow> (u64 \<Rightarrow> Instr) \<Rightarrow> nat \<Rightarrow> (Arch \<Rightarrow> bool) \<Rightarrow> bool" where
  "ends_with mem code n P = (case checked_run mem code n Arch0 of None \<Rightarrow> False
     | Some A \<Rightarrow> mem (arch_pc A) = make_ecall \<and> P A)"

lemma ends_withD:
  assumes "ends_with mem code n P"
  defines "A \<equiv> (isa_step code ^^ n) Arch0"
  shows "runs_supported mem code n Arch0" "mem (arch_pc A) = make_ecall" "P A"
  using assms checked_run_supported [of mem code n Arch0] by (auto simp: ends_with_def split: option.splits)

lemma run_program_passes:
  assumes "ends_with (ideal_mem_read m) code n (\<lambda>A. arch_regs A 10 = 0 \<and> arch_regs A 1 = word_of_int x1
      \<and> arch_regs A 2 = word_of_int x2 \<and> arch_regs A 3 = word_of_int x3)" "0 < n \<and> n \<le> 1024 \<and> 2 * n + 2 \<le> N"
  shows "run_program m N x1 x2 x3 = Tb_pass"
proof -
  let ?st = "(tb_cycle (ideal_mem_read m) ^^ (2 * n + 2)) tb_start"
  define A where "A = (isa_step code ^^ n) Arch0"
  note w = ends_withD [OF assms(1), folded A_def] and b = assms(2) [THEN conjunct1] assms(2) [THEN conjunct2, THEN conjunct1]
    assms(2) [THEN conjunct2, THEN conjunct2]
  note e = tb_reaches_end [OF w(1) b(2) A_def w(2)]
  obtain s p log where st: "?st = (s, p, log)" by (metis prod_cases3)
  have reg: "committed_reg s 1 = word_of_int x1" "committed_reg s 2 = word_of_int x2" "committed_reg s 3 = word_of_int x3"
    using e(3) [of 1] e(3) [of 2] e(3) [of 3] w(3) unfolding st by simp_all
  have pos: "(word_of_nat k :: u64) > 0" if "0 < k" "k < 3000" for k
    using that by (simp add: word_less_nat_alt unat_of_nat take_bit_nat_eq_self)
  have "length (arch_trace A) = n"
    unfolding A_def by (induction n) (simp_all add: Arch0_def arch_at_def isa_step_trace_length)
  then have "length log = n" using e(2) unfolding st by (metis fst_conv length_map snd_conv)
  moreover have "csr_instret (bs_csr s) > 0" "csr_cycle (bs_csr s) > 0"
    using e(4,5) pos [of n] pos [of "2 * n + 2"] b(1,2) unfolding st by simp_all
  moreover have "tb_run (ideal_mem_read m) N tb_start = Inr (s, p, log)"
    using e(1) [OF b(3)] w(3) unfolding st by simp
  moreover have "log \<noteq> []" using calculation(1) b(1) by auto
  ultimately show ?thesis using reg by (simp add: run_program_def)
qed

text \<open>
  The test bench's own programs pass on the model: the two chains of additions, the jump
  over an instruction and the two taken branches; the bench exits with 0.
\<close>
lemma test_programs_pass:
  "test_addi_add_ecall = Tb_pass \<and> test_alu_chain = Tb_pass \<and> test_jump = Tb_pass \<and> test_branch_beq = Tb_pass
   \<and> test_branch_not_taken = Tb_pass \<and> tb_main = 0"
proof -
  have "test_addi_add_ecall = Tb_pass"
    unfolding test_addi_add_ecall_def Let_def
    by (rule run_program_passes [where n = 3 and code = "asm [Imm OpAdd 1 0 5, Imm OpAdd 2 1 7, Reg OpAdd 3 1 2]"]) code_simp+
  moreover have "test_alu_chain = Tb_pass"
    unfolding test_alu_chain_def Let_def
    by (rule run_program_passes [where n = 3 and code = "asm [Imm OpAdd 1 0 3, Imm OpAdd 2 1 2, Reg OpAdd 3 2 1]"]) code_simp+
  moreover have "test_jump = Tb_pass"
    unfolding test_jump_def Let_def
    by (rule run_program_passes [where n = 2 and code = "asm [Jal 0 4, Fence, Imm OpAdd 1 0 1]"]) code_simp+
  moreover have "test_branch_beq = Tb_pass"
    unfolding test_branch_beq_def Let_def
    by (rule run_program_passes [where n = 4
          and code = "asm [Imm OpAdd 1 0 5, Imm OpAdd 2 0 5, Branch Beq 1 2 4, Fence, Imm OpAdd 3 0 10]"]) code_simp+
  moreover have "test_branch_not_taken = Tb_pass"
    unfolding test_branch_not_taken_def Let_def
    by (rule run_program_passes [where n = 4
          and code = "asm [Imm OpAdd 1 0 3, Imm OpAdd 2 0 7, Branch Bne 1 2 4, Fence, Imm OpAdd 3 0 10]"]) code_simp+
  ultimately show ?thesis by (simp add: tb_main_def)
qed

end
