(* ===== verification/LsuTests.thy ===== *)
theory LsuTests
  imports Programs
begin

text \<open>
  \<open>tb/differential/lsu_minimal_tests.cpp\<close>: its data memory model \<open>DMemModel\<close>, the loop
  \<open>run\<close> that closes the core with an instruction and a data memory, the fourteen tests
  and \<open>main\<close>. \<open>IMem\<close> is \<open>IdealMem\<close> of the core test bench, the encoders are those of
  Asm.
\<close>

section \<open>The data memory\<close>

record DMemModel =
  dm_bytes :: "u8 list"
  dm_store_count :: int
  dm_load_count :: int
  dm_saw_tohost :: bool
  dm_store_before_commit :: bool
  dm_tohost_addr :: u64
  dm_tohost_value :: u64
  dm_delay_load :: bool
  dm_send_stale_first :: bool
  dm_stale_sent :: bool
  dm_pending_valid :: bool
  dm_pending_delay :: int
  dm_pending_req :: DmemRequest

definition dmem_clear :: "u64 \<Rightarrow> DMemModel" where
  "dmem_clear th = \<lparr>dm_bytes = replicate 256 0, dm_store_count = 0, dm_load_count = 0,
     dm_saw_tohost = False, dm_store_before_commit = False, dm_tohost_addr = th,
     dm_tohost_value = 0, dm_delay_load = False, dm_send_stale_first = False,
     dm_stale_sent = False, dm_pending_valid = False, dm_pending_delay = 0,
     dm_pending_req = DmemRequest0\<rparr>"

definition dmem_set_byte :: "nat \<Rightarrow> u8 \<Rightarrow> DMemModel \<Rightarrow> DMemModel" where
  "dmem_set_byte i b d = d\<lparr>dm_bytes := (dm_bytes d)[i := b]\<rparr>"

text \<open>\<open>read64\<close>: the aligned double word; a byte past the end of the array reads as zero.\<close>

definition read64 :: "u8 list \<Rightarrow> u64 \<Rightarrow> u64" where
  "read64 bytes addr =
    (let b = addr AND NOT 7
     in foldl (\<lambda>v i. if b + word_of_nat i < word_of_nat (length bytes)
                     then v OR push_bit (8 * i) (ucast (bytes ! unat (b + word_of_nat i))) else v) 0 [0..<8])"

definition write_masked :: "u64 \<Rightarrow> u64 \<Rightarrow> u8 \<Rightarrow> u8 list \<Rightarrow> u8 list" where
  "write_masked addr data msk bytes =
    foldl (\<lambda>bs i. if bit msk i \<and> addr + word_of_nat i < word_of_nat (length bs)
                  then bs[unat (addr + word_of_nat i) := ucast (drop_bit (8 * i) data AND 0xFF)] else bs)
      bytes [0..<8]"

definition make_load_response :: "u8 list \<Rightarrow> DmemRequest \<Rightarrow> u32 \<Rightarrow> PipeSignals \<Rightarrow> PipeSignals" where
  "make_load_response bytes req tx_override p =
    (let data = read64 bytes (drq_address req);
         resp = DmemResponse0\<lparr>drs_transaction_id := (if tx_override \<noteq> 0 then tx_override else drq_transaction_id req),
                  drs_data := data, drs_read_data := data, drs_exception := False\<rparr>
     in if \<not> stream_full (pipe_dmem_resp p)
        then p\<lparr>pipe_dmem_resp := stream_write (pipe_dmem_resp p) resp\<rparr> else p)"

text \<open>\<open>step\<close>: first the delayed load counts down, then one request is taken.\<close>

definition dmem_pending :: "DMemModel \<Rightarrow> PipeSignals \<Rightarrow> DMemModel \<times> PipeSignals" where
  "dmem_pending d p =
    (if dm_pending_valid d then
       (let d = (if dm_pending_delay d > 0 then d\<lparr>dm_pending_delay := dm_pending_delay d - 1\<rparr> else d)
        in if dm_pending_delay d = 0
           then (d\<lparr>dm_pending_valid := False\<rparr>, make_load_response (dm_bytes d) (dm_pending_req d) 0 p)
           else (d, p))
     else (d, p))"

definition dmem_store :: "bool \<Rightarrow> DmemRequest \<Rightarrow> DMemModel \<Rightarrow> DMemModel" where
  "dmem_store store_commit_seen req d =
    (let d = d\<lparr>dm_store_count := dm_store_count d + 1\<rparr>;
         d = (if \<not> store_commit_seen then d\<lparr>dm_store_before_commit := True\<rparr> else d);
         d = d\<lparr>dm_bytes := write_masked (drq_address req) (drq_write_data req)
                 (if drq_write_mask req \<noteq> 0 then drq_write_mask req else drq_mask req) (dm_bytes d)\<rparr>
     in if drq_address req = dm_tohost_addr d
        then d\<lparr>dm_saw_tohost := True, dm_tohost_value := drq_write_data req\<rparr> else d)"

definition dmem_load :: "DmemRequest \<Rightarrow> DMemModel \<Rightarrow> PipeSignals \<Rightarrow> DMemModel \<times> PipeSignals" where
  "dmem_load req d p =
    (let d = d\<lparr>dm_load_count := dm_load_count d + 1\<rparr>;
         stale = dm_send_stale_first d \<and> \<not> dm_stale_sent d;
         p = (if stale then make_load_response (dm_bytes d) req (drq_transaction_id req + 999) p else p);
         d = (if stale then d\<lparr>dm_stale_sent := True\<rparr> else d)
     in if dm_delay_load d
        then (d\<lparr>dm_pending_req := req, dm_pending_valid := True, dm_pending_delay := 3\<rparr>, p)
        else (d, make_load_response (dm_bytes d) req 0 p))"

definition dmem_step :: "bool \<Rightarrow> DMemModel \<Rightarrow> PipeSignals \<Rightarrow> DMemModel \<times> PipeSignals" where
  "dmem_step store_commit_seen d p =
    (let (d, p) = dmem_pending d p
     in if \<not> stream_empty (pipe_dmem_req p) then
          (let (req, q) = stream_read (pipe_dmem_req p); p = p\<lparr>pipe_dmem_req := q\<rparr>
           in if drq_is_store req then (dmem_store store_commit_seen req d, p) else dmem_load req d p)
        else (d, p))"

section \<open>The loop\<close>

text \<open>The state of \<open>run\<close>: the result record, the streams and the local flag.\<close>

record RunResult =
  rr_state :: BoomCoreState
  rr_commits :: "CommitEntry list"
  rr_dmem :: DMemModel
  rr_pipe :: PipeSignals
  rr_store_commit_seen :: bool

definition lsu_run_cycle :: "(u64 \<Rightarrow> u32) \<Rightarrow> RunResult \<Rightarrow> RunResult" where
  "lsu_run_cycle imem r =
    (let (s, p) = boom_core_step (rr_state r) (tb_respond imem (rr_pipe r));
         entries = pipe_commit_trace p; p = p\<lparr>pipe_commit_trace := []\<rparr>;
         seen = (rr_store_commit_seen r \<or> list_ex ce_is_store entries);
         (d, p) = dmem_step seen (rr_dmem r) p
     in \<lparr>rr_state = s, rr_commits = rr_commits r @ entries, rr_dmem = d, rr_pipe = p,
         rr_store_commit_seen = seen\<rparr>)"

definition run_ends :: "bool \<Rightarrow> RunResult \<Rightarrow> bool" where
  "run_ends stop_on_tohost r =
    (stop_on_tohost \<and> dm_saw_tohost (rr_dmem r) \<or> bs_io_success (rr_state r) \<or> bs_io_trap (rr_state r))"

fun lsu_run_loop :: "(u64 \<Rightarrow> u32) \<Rightarrow> bool \<Rightarrow> nat \<Rightarrow> RunResult \<Rightarrow> RunResult" where
  "lsu_run_loop imem stop_on_tohost 0 r = r"
| "lsu_run_loop imem stop_on_tohost (Suc n) r =
    (let r = lsu_run_cycle imem r
     in if run_ends stop_on_tohost r then r else lsu_run_loop imem stop_on_tohost n r)"

definition lsu_run :: "IdealMem \<Rightarrow> DMemModel \<Rightarrow> nat \<Rightarrow> bool \<Rightarrow> RunResult" where
  "lsu_run imem dmem max_cycles stop_on_tohost =
    lsu_run_loop (ideal_mem_read imem) stop_on_tohost max_cycles
      \<lparr>rr_state = BoomCoreState0, rr_commits = [], rr_dmem = dmem, rr_pipe = PipeSignals0,
       rr_store_commit_seen = False\<rparr>"

definition last_rd :: "CommitEntry list \<Rightarrow> u8 \<Rightarrow> u64" where
  "last_rd commits rd =
    foldl (\<lambda>v e. if ce_rd_valid e \<and> ce_rd e = rd then ce_rd_value e else v) 0 commits"

section \<open>The tests\<close>

text \<open>\<open>IMem\<close> after \<open>clear(RESET_VECTOR)\<close> and the calls of \<open>add\<close>; the \<open>CHECK\<close> macro.\<close>

definition program_mem :: "u32 list \<Rightarrow> IdealMem" where
  "program_mem ws = foldl (\<lambda>m w. ideal_mem_add w m) (ideal_mem_clear RESET_VECTOR) ws"

definition check_that :: "bool \<Rightarrow> string \<Rightarrow> tb_verdict \<Rightarrow> tb_verdict" where
  "check_that c m rest = (if c then rest else Tb_fail m)"

definition t_sd_tohost_success :: tb_verdict where
  "t_sd_tohost_success =
    (let im = program_mem [make_itype 64 0 0 5 0x13, make_itype 1 0 0 6 0x13, make_stype 0 6 5 3, make_jtype 0 0 0x6F];
         rr = lsu_run im (dmem_clear 64) 100 True
     in check_that (dm_saw_tohost (rr_dmem rr)) ''tohost store not observed''
        (check_that (dm_tohost_value (rr_dmem rr) = 1) ''tohost value not 1'' Tb_pass))"

definition t_store_address_data :: tb_verdict where
  "t_store_address_data =
    (let im = program_mem [make_itype 40 0 0 5 0x13, make_itype 0x2a 0 0 6 0x13, make_stype 0 6 5 3, make_ecall];
         rr = lsu_run im (dmem_clear 64) 100 False
     in check_that (dm_bytes (rr_dmem rr) ! 40 = 0x2a) ''store byte 0 wrong''
        (check_that (dm_store_count (rr_dmem rr) = 1) ''store count wrong'' Tb_pass))"

definition t_store_not_before_commit :: tb_verdict where
  "t_store_not_before_commit =
    (let im = program_mem [make_itype 48 0 0 5 0x13, make_itype 7 0 0 6 0x13, make_stype 0 6 5 3, make_ecall];
         rr = lsu_run im (dmem_clear 64) 100 False
     in check_that (\<not> dm_store_before_commit (rr_dmem rr)) ''store issued before commit trace was visible'' Tb_pass)"

definition t_wrong_path_store_flush :: tb_verdict where
  "t_wrong_path_store_flush =
    (let im = program_mem [make_itype 1 0 0 1 0x13, make_itype 1 0 0 2 0x13, make_btype 8 2 1 0, make_stype 0 6 5 3, make_ecall];
         rr = lsu_run im (dmem_clear 64) 150 False
     in check_that (dm_store_count (rr_dmem rr) = 0) ''wrong-path store reached dmem'' Tb_pass)"

definition t_exception_younger_store_flush :: tb_verdict where
  "t_exception_younger_store_flush =
    (let im = program_mem [0x00000000, make_itype 64 0 0 5 0x13, make_itype 1 0 0 6 0x13, make_stype 0 6 5 3];
         rr = lsu_run im (dmem_clear 64) 100 False
     in check_that (bs_io_trap (rr_state rr)) ''illegal instruction did not trap''
        (check_that (dm_store_count (rr_dmem rr) = 0) ''younger store after exception reached dmem'' Tb_pass))"

definition t_store_not_duplicate :: tb_verdict where
  "t_store_not_duplicate =
    (let im = program_mem [make_itype 40 0 0 5 0x13, make_itype 3 0 0 6 0x13, make_stype 0 6 5 3, make_ecall];
         rr = lsu_run im (dmem_clear 64) 120 False
     in check_that (dm_store_count (rr_dmem rr) = 1) ''store duplicated'' Tb_pass)"

definition t_load_sign_extension :: tb_verdict where
  "t_load_sign_extension =
    (let im = program_mem [make_itype 32 0 0 5 0x13, make_load 0 5 0 1, make_ecall];
         rr = lsu_run im (dmem_set_byte 32 0x80 (dmem_clear 64)) 150 False
     in check_that (last_rd (rr_commits rr) 1 = 0xffffffffffffff80) ''LB did not sign extend'' Tb_pass)"

definition t_load_zero_extension :: tb_verdict where
  "t_load_zero_extension =
    (let im = program_mem [make_itype 32 0 0 5 0x13, make_load 0 5 4 1, make_ecall];
         rr = lsu_run im (dmem_set_byte 32 0x80 (dmem_clear 64)) 150 False
     in check_that (last_rd (rr_commits rr) 1 = 0x80) ''LBU did not zero extend'' Tb_pass)"

definition t_lb_lh_lw_ld :: tb_verdict where
  "t_lb_lh_lw_ld =
    (let im = program_mem [make_itype 32 0 0 5 0x13, make_load 0 5 4 1, make_load 0 5 5 2, make_load 0 5 6 3, make_load 0 5 3 4, make_ecall];
         dm = foldl (\<lambda>d i. dmem_set_byte (32 + i) (word_of_nat (i + 1)) d) (dmem_clear 64) [0..<8];
         rr = lsu_run im dm 250 False
     in check_that (last_rd (rr_commits rr) 1 = 1) ''LB/LBU wrong''
        (check_that (last_rd (rr_commits rr) 2 = 0x0201) ''LH/LHU wrong''
        (check_that (last_rd (rr_commits rr) 3 = 0x04030201) ''LW/LWU wrong''
        (check_that (last_rd (rr_commits rr) 4 = 0x0807060504030201) ''LD wrong'' Tb_pass))))"

definition t_load_response_delay :: tb_verdict where
  "t_load_response_delay =
    (let im = program_mem [make_itype 32 0 0 5 0x13, make_load 0 5 3 1, make_ecall];
         dm = (dmem_set_byte 32 9 (dmem_clear 64))\<lparr>dm_delay_load := True\<rparr>;
         rr = lsu_run im dm 200 False
     in check_that (last_rd (rr_commits rr) 1 = 9) ''delayed load result wrong'' Tb_pass)"

definition t_stale_load_response_rejection :: tb_verdict where
  "t_stale_load_response_rejection =
    (let im = program_mem [make_itype 32 0 0 5 0x13, make_load 0 5 3 1, make_ecall];
         dm = (dmem_set_byte 32 11 (dmem_clear 64))\<lparr>dm_send_stale_first := True\<rparr>;
         rr = lsu_run im dm 200 False
     in check_that (last_rd (rr_commits rr) 1 = 11) ''stale response corrupted load'' Tb_pass)"

definition t_older_store_blocks_load :: tb_verdict where
  "t_older_store_blocks_load =
    (let im = program_mem [make_itype 40 0 0 5 0x13, make_itype 42 0 0 6 0x13, make_stype 0 6 5 3, make_load 0 5 3 1, make_ecall];
         rr = lsu_run im (dmem_clear 64) 250 False
     in check_that (last_rd (rr_commits rr) 1 = 42) ''load read old value before older store'' Tb_pass)"

definition t_dmem_exception :: tb_verdict where
  "t_dmem_exception =
    (let s = BoomCoreState0
     in check_that (\<not> lsu_load_response_pending (bs_lsu s)) ''reset pending load not clear'' Tb_pass)"

definition t_reset_clears_outstanding :: tb_verdict where
  "t_reset_clears_outstanding =
    (let s = BoomCoreState0;
         s = s\<lparr>bs_lsu := (bs_lsu s)\<lparr>lsu_load_response_pending := True\<rparr>\<rparr>;
         s = BoomCoreState0
     in check_that (\<not> lsu_load_response_pending (bs_lsu s)) ''pending load survived reset'' Tb_pass)"

text \<open>\<open>main\<close>: the exit code, from the number of failed tests.\<close>

definition lsu_tests :: "tb_verdict list" where
  "lsu_tests = [t_sd_tohost_success, t_store_address_data, t_store_not_before_commit,
     t_wrong_path_store_flush, t_exception_younger_store_flush, t_store_not_duplicate,
     t_load_sign_extension, t_load_zero_extension, t_lb_lh_lw_ld, t_load_response_delay,
     t_stale_load_response_rejection, t_older_store_blocks_load, t_dmem_exception,
     t_reset_clears_outstanding]"

definition lsu_tests_main :: int where
  "lsu_tests_main = (if length (filter (\<lambda>v. v \<noteq> Tb_pass) lsu_tests) \<noteq> 0 then 1 else 0)"

end
