(* ===== verification/MemIsa.thy ===== *)
theory MemIsa
  imports LsuTests
begin

text \<open>
  The instruction set with loads: the architecture of \<open>Refine\<close> with a byte memory, loads as
  an independent statement over its bytes, and the proof that the core's decoder, execute
  stage, byte extraction and the data memory of the LSU tests implement it.
\<close>

section \<open>Instructions and memory\<close>

text \<open>A load: signed or not, the size code (\<open>2 ^ size\<close> bytes), destination, base, offset.\<close>

datatype Op = Plain Instr | Load bool "2 word" "5 word" "5 word" "12 word"

definition load_f3 :: "bool \<Rightarrow> 2 word \<Rightarrow> u8" where
  "load_f3 sg sz = ucast sz + (if sg then 0 else 4)"

fun encode_op :: "Op \<Rightarrow> u32" where
  "encode_op (Plain i) = encode i"
| "encode_op (Load sg sz rd rs1 imm) = make_load (scast imm) (ucast rs1) (load_f3 sg sz) (ucast rd)"

text \<open>There is no unsigned load of a double word.\<close>

fun op_supports :: "Op \<Rightarrow> bool" where
  "op_supports (Plain i) = core_supports i"
| "op_supports (Load sg sz _ _ _) = (sg \<or> sz \<noteq> 3)"

definition byte_at :: "u8 list \<Rightarrow> u64 \<Rightarrow> u8" where
  "byte_at M a = (if unat a < length M then M ! unat a else 0)"

definition load_spec :: "u8 list \<Rightarrow> bool \<Rightarrow> 2 word \<Rightarrow> u64 \<Rightarrow> u64" where
  "load_spec M sg sz a =
    (let n = 2 ^ unat sz; v = horner_sum uint 256 (map (\<lambda>i. byte_at M (a + word_of_nat i)) [0..<n])
     in if sg then word_of_int (signed_take_bit (8 * n - 1) v) else word_of_int v)"

definition store_spec :: "u64 \<times> u64 \<times> 2 word \<Rightarrow> u8 list \<Rightarrow> u8 list" where
  "store_spec w M = (case w of (a, d, sz) \<Rightarrow>
     map (\<lambda>j. let i = unat (word_of_nat j - a)
              in if i < 2 ^ unat sz then ucast (drop_bit (8 * i) d) else M ! j) [0..<length M])"

section \<open>The data memory returns the bytes\<close>

lemma bit_bytes:
  "bit (horner_sum uint 256 bs :: int) n \<longleftrightarrow> n < 8 * length bs \<and> bit (bs ! (n div 8) :: u8) (n mod 8)"
proof (induction bs arbitrary: n)
  case (Cons b bs)
  have "horner_sum uint 256 (b # bs) = uint b + push_bit 8 (horner_sum uint 256 bs)"
    by (simp add: push_bit_eq_mult mult.commute)
  also have "\<dots> = uint b OR push_bit 8 (horner_sum uint 256 bs)"
    by (rule disjunctive_add) (auto simp: bit_simps dest: bit_imp_le_length)
  finally have eq: "horner_sum uint 256 (b # bs) = uint b OR push_bit 8 (horner_sum uint 256 bs)" .
  show ?case
  proof (cases "n < 8")
    case True
    then show ?thesis unfolding eq by (auto simp: bit_simps)
  next
    case False
    then have "n div 8 = Suc ((n - 8) div 8)" "n mod 8 = (n - 8) mod 8"
      by (simp_all add: le_div_geq le_mod_geq)
    then show ?thesis using False unfolding eq by (auto simp: bit_simps Cons.IH dest: bit_imp_le_length)
  qed
qed simp

text \<open>\<open>read64\<close>: the double word around the address, byte by byte.\<close>

lemma bit_read64:
  assumes "length M < 2 ^ 64" "n < 64"
  shows "bit (read64 M a) n \<longleftrightarrow> bit (byte_at M ((a AND NOT 7) + word_of_nat (n div 8))) (n mod 8)"
proof -
  define b where "b = a AND NOT 7"
  define t where "t = (\<lambda>i :: nat. if b + word_of_nat i < word_of_nat (length M)
    then push_bit (8 * i) (ucast (M ! unat (b + word_of_nat i))) else (0 :: u64))"
  have lt: "b + word_of_nat i < word_of_nat (length M) \<longleftrightarrow> unat (b + word_of_nat i) < length M" for i
    using assms(1) by (simp add: word_less_nat_alt unat_of_nat take_bit_nat_eq_self)
  have t: "bit (t i) n \<longleftrightarrow> i = n div 8 \<and> bit (byte_at M (b + word_of_nat (n div 8))) (n mod 8)" if "i < 8" for i
  proof -
    have "8 * i \<le> n \<and> n - 8 * i < 8 \<longleftrightarrow> i = n div 8" by auto
    moreover have "i = n div 8 \<Longrightarrow> n - 8 * i = n mod 8" by (simp add: minus_mult_div_eq_mod)
    ultimately show ?thesis
      using that assms(2) by (auto simp: t_def byte_at_def lt bit_simps dest: bit_imp_le_length)
  qed
  have eight: "[0..<8] = [0, 1, 2, 3, 4, 5, 6, 7 :: nat]" by (simp add: upt_rec)
  have "read64 M a = foldl (\<lambda>v i. v OR t i) 0 [0..<8]"
    unfolding read64_def Let_def b_def [symmetric] t_def by (intro foldl_cong) auto
  then have "read64 M a = t 0 OR t 1 OR t 2 OR t 3 OR t 4 OR t 5 OR t 6 OR t 7"
    by (simp only: eight foldl.simps or.left_neutral or.assoc)
  then show ?thesis using assms(2) by (auto simp: bit_or_iff t b_def)
qed

lemma align8_offset: "(a :: u64) = (a AND NOT 7) + word_of_nat (unat a mod 8)"
proof -
  have "unat (a AND 7) = take_bit 3 (unat a)"
    by (simp add: unsigned_and_eq take_bit_eq_mask mask_numeral)
  then have "unat (a AND 7) = unat a mod 8" by (simp add: take_bit_eq_mod)
  then have "a AND 7 = word_of_nat (unat a mod 8)"
    by (metis of_nat_unat unsigned_ucast_eq ucast_id)
  moreover have "(a AND NOT 7) + (a AND 7) = a"
    by (subst disjunctive_add) (auto simp: bit_simps intro: bit_word_eqI)
  ultimately show ?thesis by simp
qed

text \<open>A naturally aligned load returns the bytes at its address.\<close>

lemma aligned_offset:
  assumes "unat (a :: u64) mod 2 ^ unat (sz :: 2 word) = 0" "i < 2 ^ unat sz"
  shows "unat a mod 8 + i < 8"
proof -
  have "unat sz < 4" using unsigned_less [of sz, where ?'a = nat] by simp
  then have "unat sz = 0 \<or> unat sz = 1 \<or> unat sz = 2 \<or> unat sz = 3" by auto
  then show ?thesis using assms by (elim disjE) (simp_all, presburger+)
qed

lemma load_value_spec:
  assumes "length M < 2 ^ 64" "unat a mod 2 ^ unat sz = 0"
  shows "load_value (read64 M a) a (ucast sz) sg = load_spec M sg sz a"
proof -
  let ?o = "unat a mod 8" and ?n = "2 ^ unat sz :: nat" and ?b = "a AND NOT 7"
  define v where "v = drop_bit (byte_offset a) (read64 M a)"
  define h where "h = horner_sum uint 256 (map (\<lambda>i. byte_at M (a + word_of_nat i)) [0..<?n])"
  have sz: "(ucast sz :: u8) < 4" "unat (ucast sz :: u8) = unat sz"
    using unsigned_less [of sz, where ?'a = nat]
    by (simp_all add: word_less_nat_alt unsigned_ucast_eq take_bit_nat_eq_self)
  have bits: "bit (uint v) k = bit h k" if "k < 8 * ?n" for k
  proof -
    have k: "k div 8 < ?n" using that by (simp add: less_mult_imp_div_less mult.commute)
    note o = aligned_offset [OF assms(2) k]
    have "k = 8 * (k div 8) + k mod 8" "k mod 8 < 8" by simp_all
    then have "8 * ?o + k < 64" using o by linarith
    moreover have "(8 * ?o + k) div 8 = ?o + k div 8" "(8 * ?o + k) mod 8 = k mod 8" by simp_all
    moreover have "?b + word_of_nat (?o + k div 8) = a + word_of_nat (k div 8)"
      by (subst (2) align8_offset) simp
    ultimately have "bit (read64 M a) (8 * ?o + k) = bit (byte_at M (a + word_of_nat (k div 8))) (k mod 8)"
      using bit_read64 [OF assms(1), of "8 * ?o + k" a] by (simp only:)
    then show ?thesis
      using that k \<open>8 * ?o + k < 64\<close> by (simp add: v_def h_def bit_bytes bit_simps byte_offset_def)
  qed
  have n: "Suc (8 * ?n - 1) = 8 * ?n" by simp
  have eq: "take_bit (8 * ?n) (uint v) = take_bit (8 * ?n) h"
    by (rule bit_eqI) (auto simp: bit_take_bit_iff bits)
  have h: "take_bit (8 * ?n) h = h"
    by (rule bit_eqI) (auto simp: bit_take_bit_iff h_def bit_bytes)
  have "load_value (read64 M a) a (ucast sz) sg =
    (if sg then word_of_int (signed_take_bit (8 * ?n - 1) (uint v)) else take_bit (8 * ?n) v)"
    using load_value_field [OF sz(1), of "read64 M a" a sg] by (simp only: sz(2) n v_def)
  also have "signed_take_bit (8 * ?n - 1) (uint v) = signed_take_bit (8 * ?n - 1) h"
    by (simp only: signed_take_bit_eq_iff_take_bit_eq n eq)
  also have "take_bit (8 * ?n) v = word_of_int h"
    using eq h by (metis unsigned_take_bit_eq word_of_int_uint)
  finally show ?thesis by (simp only: load_spec_def h_def Let_def)
qed

text \<open>A masked write stores the bytes of the data.\<close>

lemma bit_mask_for_size: "bit (mask_for_size (ucast (sz :: 2 word))) i \<longleftrightarrow> i < 2 ^ unat sz"
proof -
  have "mask_for_size 0 = mask 1" "mask_for_size 1 = mask 2" "mask_for_size 2 = mask 4" "mask_for_size 3 = mask 8"
    by code_simp+
  then show ?thesis
    using word2_cases [of sz] by (elim disjE) (auto simp: bit_mask_iff min_def simp del: mask_Suc_0 mask_numeral)
qed

lemma write_masked_nth:
  fixes a :: u64 and f :: "nat \<Rightarrow> u8" and msk :: u8
  defines "wr \<equiv> \<lambda>bs i. if bit msk i \<and> a + word_of_nat i < word_of_nat (length bs)
    then bs[unat (a + word_of_nat i) := f i] else bs"
  assumes "length bs < 2 ^ 64" "list_all (\<lambda>i. i < 8) is" "j < length bs"
  shows "length (foldl wr bs is) = length bs"
    "foldl wr bs is ! j = (let i = unat (word_of_nat j - a) in if i \<in> set is \<and> bit msk i then f i else bs ! j)"
proof -
  have "length (foldl wr bs is) = length bs
    \<and> foldl wr bs is ! j = (let i = unat (word_of_nat j - a) in if i \<in> set is \<and> bit msk i then f i else bs ! j)"
    using assms(2-)
  proof (induction "is" rule: rev_induct)
  case (snoc i "is")
  let ?bs = "foldl wr bs is" and ?k = "unat (word_of_nat j - a)"
  have i: "unat (word_of_nat i :: u64) = i" using snoc.prems(2) by (simp add: unat_of_nat take_bit_nat_eq_self)
  have j: "unat (word_of_nat j :: u64) = j"
    using snoc.prems by (simp add: unat_of_nat take_bit_nat_eq_self)
  have len: "length ?bs = length bs"
    and IH: "?bs ! j = (if ?k \<in> set is \<and> bit msk ?k then f ?k else bs ! j)"
    using snoc by (simp_all add: Let_def)
  have lt: "a + word_of_nat i < word_of_nat (length bs) \<longleftrightarrow> unat (a + word_of_nat i) < length bs"
    using snoc.prems(1) by (simp add: word_less_nat_alt unat_of_nat take_bit_nat_eq_self)
  have "unat (a + word_of_nat i) = j \<longleftrightarrow> a + word_of_nat i = word_of_nat j"
    using j by (metis unat_eq_nat_iff)
  also have "\<dots> \<longleftrightarrow> word_of_nat j - a = word_of_nat i" by (metis add_diff_cancel_left' diff_add_cancel add.commute)
  also have "\<dots> \<longleftrightarrow> ?k = i" using i by (metis unat_eq_nat_iff)
  finally have hit: "unat (a + word_of_nat i) = j \<longleftrightarrow> ?k = i" .
  have "foldl wr bs (is @ [i]) ! j = (if ?k \<in> set (is @ [i]) \<and> bit msk ?k then f ?k else bs ! j)"
    using snoc.prems(3) hit len IH by (auto simp: wr_def lt nth_list_update)
  then show ?case using len by (simp add: wr_def Let_def)
  qed (simp add: wr_def Let_def)
  then show "length (foldl wr bs is) = length bs"
    "foldl wr bs is ! j = (let i = unat (word_of_nat j - a) in if i \<in> set is \<and> bit msk i then f i else bs ! j)"
    by blast+
qed

lemma write_masked_length [simp]: "length (write_masked a d m M) = length M"
proof -
  have "length (foldl (\<lambda>bs i. if bit m i \<and> a + word_of_nat i < word_of_nat (length bs)
                  then bs[unat (a + word_of_nat i) := ucast (drop_bit (8 * i) d AND 0xFF)] else bs) M is) = length M" for "is"
    by (induction "is" arbitrary: M) auto
  then show ?thesis unfolding write_masked_def .
qed

lemma write_masked_spec:
  assumes "length M < 2 ^ 64"
  shows "write_masked a d (mask_for_size (ucast sz)) M = store_spec (a, d, sz) M"
proof -
  let ?f = "\<lambda>i. ucast (drop_bit (8 * i) d AND 0xFF) :: u8"
  have f: "?f i = ucast (drop_bit (8 * i) d)" for i
  proof -
    have m: "(0xFF :: u64) = mask 8" by (simp add: mask_numeral)
    show ?thesis unfolding m by (rule bit_word_eqI) (auto simp: bit_simps)
  qed
  have eight: "i < 2 ^ unat sz \<Longrightarrow> i < 8" for i :: nat
    using aligned_offset [of 0 sz i] by simp
  have is8: "list_all (\<lambda>i. i < 8) [0..<8]" by (simp add: list_all_iff)
  show ?thesis
  proof (rule nth_equalityI)
    show len: "length (write_masked a d (mask_for_size (ucast sz)) M) = length (store_spec (a, d, sz) M)"
      by (simp add: write_masked_length store_spec_def)
    fix j assume "j < length (write_masked a d (mask_for_size (ucast sz)) M)"
    then have j: "j < length M" by (simp add: write_masked_length)
    show "write_masked a d (mask_for_size (ucast sz)) M ! j = store_spec (a, d, sz) M ! j"
      unfolding write_masked_def write_masked_nth(2) [OF assms is8 j]
      using j eight by (auto simp: store_spec_def Let_def bit_mask_for_size f)
  qed
qed

section \<open>Decoding and executing a load\<close>

lemma load_cases [consumes 1]:
  fixes sz :: "2 word"
  assumes "sg \<or> sz \<noteq> 3"
  obtains (lb) "sg" "sz = 0" | (lh) "sg" "sz = 1" | (lw) "sg" "sz = 2" | (ld) "sg" "sz = 3"
  | (lbu) "\<not> sg" "sz = 0" | (lhu) "\<not> sg" "sz = 1" | (lwu) "\<not> sg" "sz = 2"
  using assms word2_cases [of sz] by blast

lemma decode_load_control:
  fixes pc :: u64 and rd rs1 :: "5 word" and imm :: "12 word"
  assumes "sg \<or> sz \<noteq> 3"
  defines "u \<equiv> decode_uop pc (encode_op (Load sg sz rd rs1 imm))"
  shows "\<not> uop_exception u \<and> uop_uopc u \<noteq> 0 \<and> uop_iq_type u = IQ_MEM \<and> dc_is_load (uop_ctrl u)
    \<and> \<not> dc_is_sta (uop_ctrl u) \<and> \<not> is_control u \<and> ri_dst_rtype (uop_rename u) = DST_INT"
  using assms(1) unfolding u_def
  by (cases rule: load_cases) (simp_all add: make_load_def load_f3_def encode_simps decode_defs is_control_def)

lemma load_registers:
  assumes "sg \<or> sz \<noteq> 3"
  shows "rd_of (encode_op (Load sg sz rd rs1 imm)) = ucast rd" "rs1_of (encode_op (Load sg sz rd rs1 imm)) = ucast rs1"
  using assms by (cases rule: load_cases; simp add: make_load_def load_f3_def field_lemmas)+

lemma decode_load_executes:
  fixes pc a b :: u64 and rd rs1 :: "5 word" and imm :: "12 word" and rn :: RenameInfo and q :: QueueInfo
  assumes "sg \<or> sz \<noteq> 3"
  defines "r \<equiv> execute_result ((decode_uop pc (encode_op (Load sg sz rd rs1 imm)))\<lparr>uop_rename := rn, uop_queue := q\<rparr>) a b"
  shows "ar_memory_valid r \<and> ar_is_load r \<and> \<not> ar_is_store r \<and> \<not> ar_mispredict r \<and> \<not> ar_exception r
    \<and> ar_signed_load r = sg \<and> ar_memory_size r = ucast sz \<and> ar_memory_address r = word_of_int (uint a + sint imm)"
  using assms(1) unfolding r_def
  by (cases rule: load_cases) (simp_all add: make_load_def load_f3_def encode_simps decode_defs exec_defs)

end
