(* ===== verification/Loads.thy ===== *)
theory Loads
  imports MemIsa
begin

text \<open>
  Loads in the pipeline: a load retires two cycles after it executes, in the cycle that
  executes the next instruction. The lemmas follow a load through its three cycles, with the
  next instruction behind it, for a data memory that answers in the next cycle.
\<close>

section \<open>A destination still to be written\<close>

text \<open>
  The micro-operation \<open>u\<close> is the only one in flight: once it has retired the rename state is
  quiet, and writing its physical register updates \<open>rd\<close> in the architectural registers \<open>R\<close>.
\<close>

definition rename_view :: "RenameState \<Rightarrow> u64 list \<Rightarrow> 5 word \<Rightarrow> u64" where
  "rename_view ren rf r = read_rf rf (mt_map_table (ren_int_map_table ren) ! unat r)"

definition writes_back :: "RenameState \<Rightarrow> u64 list \<Rightarrow> MicroOp \<Rightarrow> 5 word \<Rightarrow> (5 word \<Rightarrow> u64) \<Rightarrow> bool" where
  "writes_back ren rf u rd R = (length rf = INT_PHYS_REGS \<and> rename_quiet (commit_rename u ren)
     \<and> (if rd = 0 then ri_pdst (uop_rename u) = 0 \<and> rename_view ren rf = R
        else ri_dst_rtype (uop_rename u) = DST_INT \<and> ri_pdst (uop_rename u) \<noteq> 0
          \<and> unat (ri_pdst (uop_rename u)) < INT_PHYS_REGS \<and> ri_ldst (uop_rename u) = ucast rd
          \<and> ri_pdst (uop_rename u) \<in> set (mt_map_table (ren_int_map_table ren))
          \<and> (\<forall>v. rename_view ren (rf[unat (ri_pdst (uop_rename u)) := v]) = R(rd := v))
          \<and> fl_ring (ren_int_free_list ren) \<and> fl_items (ren_int_free_list ren) \<noteq> []
          \<and> unat (fl_count (ren_int_free_list ren)) < INT_PHYS_REGS
          \<and> ri_stale_pdst (uop_rename u) \<notin> set (fl_items (ren_int_free_list ren))))"

lemma arch_view_rename: "arch_view s = rename_view (bs_rename s) (bs_int_rf s)"
  by (simp add: arch_view_def [abs_def] rename_view_def [abs_def])

lemma commit_rename_fields [simp]:
  "mt_map_table (ren_int_map_table (commit_rename u ren)) = mt_map_table (ren_int_map_table ren)"
  "commit_rename u (ren\<lparr>ren_renamed_uops := us, ren_renamed_valids := vs\<rparr>)
    = (commit_rename u ren)\<lparr>ren_renamed_uops := us, ren_renamed_valids := vs\<rparr>"
  by (simp_all add: commit_rename_def Let_def)

lemma commit_rename_view [simp]: "rename_view (commit_rename u ren) = rename_view ren"
  by (intro ext) (simp add: rename_view_def)

lemma rename_view_fields [simp]:
  "rename_view (ren\<lparr>ren_renamed_uops := us, ren_renamed_valids := vs\<rparr>) = rename_view ren"
  by (intro ext) (simp add: rename_view_def)

lemma writes_back_fields [simp]:
  "writes_back (ren\<lparr>ren_renamed_uops := us, ren_renamed_valids := vs\<rparr>) rf u rd R = writes_back ren rf u rd R"
  by (simp add: writes_back_def)

lemma writes_back_cong: "uop_rename v = uop_rename u \<Longrightarrow> writes_back ren rf v rd R = writes_back ren rf u rd R"
  by (simp add: writes_back_def commit_rename_cong [of v u])

text \<open>With nothing in flight at least 18 registers are free.\<close>

lemma quiet_free:
  assumes "rename_quiet ren"
  shows "18 \<le> length (fl_items (ren_int_free_list ren))"
proof -
  note q = rename_quietD [OF assms]
  let ?m = "mt_map_table (ren_int_map_table ren)"
  have "length (fl_items (ren_int_free_list ren)) + length (filter (\<lambda>p. p \<noteq> 0) ?m) = 50"
    using arg_cong [OF q(5), of size] by (simp flip: mset_filter)
  then show ?thesis using length_filter_le [of "\<lambda>p. p \<noteq> 0" ?m] q(1) by simp
qed

lemma fl_count_items: "fl_ring fl \<Longrightarrow> unat (fl_count fl) = length (fl_items fl) + 1"
  by (simp add: fl_ring_def fl_items_def)

lemma renamed_writes_back:
  assumes q: "rename_quiet ren" and rf: "length rf = INT_PHYS_REGS"
    and ren: "rename_uop u (ren_int_map_table ren) (ren_int_free_list ren) = (u', mt, fl)"
    and w: "writes_int u = (rd \<noteq> 0)" "rd \<noteq> 0 \<Longrightarrow> ri_ldst (uop_rename u) = ucast rd"
  defines "ren' \<equiv> ren\<lparr>ren_int_map_table := mt, ren_int_free_list := fl\<rparr>"
  shows "writes_back ren' rf u' rd (rename_view ren rf)"
proof -
  let ?fl = "ren_int_free_list ren" and ?m = "mt_map_table (ren_int_map_table ren)"
  note part = quiet_partition [OF q] and ring = rename_quietD(4) [OF q]
  have c: "unat (fl_count ?fl) < INT_PHYS_REGS" using part(7) by simp
  note uu = rename_uop_uop [OF ren]
  show ?thesis
  proof (cases "rd = 0")
    case True
    then have "\<not> writes_int u" using w(1) by simp
    note n = quiet_step_none [OF ren this]
    show ?thesis
      using True n q rf by (simp add: writes_back_def ren'_def commit_rename_def)
  next
    case False
    then have wi: "writes_int u" and l: "unat (ri_ldst (uop_rename u)) = unat rd" using w by simp_all
    note st = quiet_step_write [OF q wi l unat5_less ren, folded ren'_def]
    have "fl_count ?fl > 0" using ring by (auto simp: fl_ring_def word_gt_0)
    then have res: "ri_stale_pdst (uop_rename u') = ?m ! unat rd" "ri_ldst (uop_rename u') = ucast rd"
        "ri_dst_rtype (uop_rename u') = DST_INT" "mt_map_table mt = ?m[unat rd := ri_pdst (uop_rename u')]" "fl = snd (fl_pop ?fl)"
      using ren wi l w(2) [OF False] by (auto simp: rename_uop_def writes_int_def rename_sources_def Let_def split: prod.splits)
    note pop = fl_pop_ring [OF ring part(4)]
    have items: "fl_items fl = tl (fl_items ?fl)" "fl_ring fl" using pop by (simp_all add: res(5))
    have n: "18 \<le> length (fl_items ?fl)" by (rule quiet_free [OF q])
    have m: "unat rd < length ?m" using rename_quietD(1) [OF q] unat5_less [of rd] by simp
    have "?m ! unat rd \<notin> set (fl_items ?fl)" using part(2) m nth_mem by blast
    then have "?m ! unat rd \<notin> set (fl_items fl)" unfolding items by (meson list.set_sel(2) part(4))
    moreover have "fl_items fl \<noteq> []" "unat (fl_count fl) < INT_PHYS_REGS"
      using n fl_count_items [OF items(2)] fl_count_items [OF ring] c by (auto simp: items(1) dest: arg_cong [of _ _ length])
    moreover have "rename_view ren' (rf[unat (ri_pdst (uop_rename u')) := v]) = (rename_view ren rf)(rd := v)" for v
      using arch_view_write [OF rename_quietD(1) [OF q] rf st(4,5,6), of v rd]
      by (simp add: rename_view_def [abs_def] ren'_def res(4) st(3))
    moreover have "ri_pdst (uop_rename u') \<in> set (?m[unat rd := ri_pdst (uop_rename u')])"
      using m by (rule set_update_memI)
    ultimately show ?thesis
      using False st rf items(2) by (simp add: writes_back_def ren'_def res)
  qed
qed

text \<open>
  Renaming the next micro-operation commutes with retiring the one in flight: allocation
  takes the front of the free list, release appends at its end.
\<close>

lemma fl_pop_push:
  assumes "fl_ring fl" "fl_items fl \<noteq> []" "unat (fl_count fl) < INT_PHYS_REGS" "p \<notin> set (fl_items fl)"
  shows "fl_pop (fl_push p fl) = (fst (fl_pop fl), fl_push p (snd (fl_pop fl)))"
proof -
  let ?h = "unat (fl_head fl)" and ?t = "unat (fl_tail fl)"
  have len: "length (fl_items fl) = unat (fl_count fl) - 1" by (simp add: fl_items_def)
  have c: "0 < unat (fl_count fl) - 1" using assms(2) len by (cases "fl_items fl") simp_all
  have r: "?t = (?h + unat (fl_count fl) - 1) mod 52" "?h < 52" using assms(1) by (simp_all add: fl_ring_def)
  have "?t = (?h + (unat (fl_count fl) - 1)) mod 52" using r(1) c by simp
  then have ne: "?t \<noteq> ?h" using c assms(3) r(2) by (cases "?h + (unat (fl_count fl) - 1) < 52") (auto simp: mod_if)
  have "fl_free_list fl ! ?h = hd (fl_items fl)"
    using fl_pop_ring [OF assms(1,2)] by (simp add: fl_pop_def Let_def)
  then have "fl_free_list fl ! ?h \<noteq> p" using assms(2,4) hd_in_set by metis
  then have "unat (fl_free_list fl ! ?h) \<noteq> unat p" by (simp add: unat_eq_nat_iff)
  then show ?thesis
    using ne by (simp add: fl_pop_def fl_push_def Let_def list_update_swap)
qed

lemma rename_commit_swap:
  assumes wb: "writes_back ren rf u rd R"
    and r: "rename_uop u2 (ren_int_map_table ren) (ren_int_free_list ren) = (u2', mt2, fl2)"
  shows "\<exists>mt3 fl3. rename_uop u2 (ren_int_map_table (commit_rename u ren)) (ren_int_free_list (commit_rename u ren)) = (u2', mt3, fl3)
    \<and> commit_rename u (ren\<lparr>ren_int_map_table := mt2, ren_int_free_list := fl2\<rparr>)
      = (commit_rename u ren)\<lparr>ren_int_map_table := mt3, ren_int_free_list := fl3\<rparr>"
proof (cases "rd = 0")
  case True
  then have "commit_rename u x = x" for x using wb by (simp add: writes_back_def commit_rename_def)
  then show ?thesis using r by simp
next
  case False
  let ?fl = "ren_int_free_list ren" and ?mt = "ren_int_map_table ren" and ?ri = "uop_rename u"
  let ?push = "ri_stale_pdst ?ri \<noteq> 0 \<and> unat (ri_stale_pdst ?ri) < INT_PHYS_REGS"
  have f: "fl_ring ?fl" "fl_items ?fl \<noteq> []" "unat (fl_count ?fl) < INT_PHYS_REGS" "ri_stale_pdst ?ri \<notin> set (fl_items ?fl)"
    "ri_pdst ?ri \<noteq> 0"
    using wb False by (simp_all add: writes_back_def)
  note pop = fl_pop_ring [OF f(1,2)]
  have c: "1 < unat (fl_count ?fl)" using f(1,2) fl_count_items by (cases "fl_items ?fl") fastforce+
  then have "unat (fl_count ?fl - 1) = unat (fl_count ?fl) - 1" "unat (fl_count ?fl + 1) = unat (fl_count ?fl) + 1" "fl_count ?fl \<noteq> 0"
    using f(3) unat_minus_one_pos [of "fl_count ?fl"] unat_plus_one [of "fl_count ?fl"] by auto
  then have c1: "unat (fl_count (snd (fl_pop ?fl))) < INT_PHYS_REGS" "fl_count ?fl > 0" "fl_count ?fl + 1 > 0"
    using f(3) by (auto simp: fl_pop_def Let_def word_gt_0 dest: arg_cong [of _ _ unat])
  have cm: "commit_rename u (ren\<lparr>ren_int_map_table := mt, ren_int_free_list := fl\<rparr>) =
      ren\<lparr>ren_int_map_table := mt\<lparr>mt_committed_map_table := (mt_committed_map_table mt)[unat (ri_ldst ?ri) := ri_pdst ?ri]\<rparr>,
        ren_int_free_list := (if ?push then fl_push (ri_stale_pdst ?ri) fl else fl)\<rparr>"
    if "unat (fl_count fl) < INT_PHYS_REGS" for mt fl
    using f(5) that by (simp add: commit_rename_def Let_def)
  note cm0 = cm [OF f(3), of ?mt, simplified]
  note pp = fl_pop_push [OF f(1-4)]
  have pc: "fl_count (fl_push q ?fl) = fl_count ?fl + 1" for q by (simp add: fl_push_def)
  show ?thesis
  proof (cases "writes_int u2")
    case False
    then have "mt2 = ?mt" "fl2 = ?fl" "rename_uop u2 (?mt\<lparr>mt_committed_map_table := x\<rparr>) fl = (u2', ?mt\<lparr>mt_committed_map_table := x\<rparr>, fl)" for x fl
      using r by (auto simp: rename_uop_def rename_sources_def writes_int_def Let_def)
    then show ?thesis using cm0 by simp
  next
    case True
    then have "fl2 = snd (fl_pop ?fl)" "mt_committed_map_table mt2 = mt_committed_map_table ?mt"
      "0 < fl_count fl \<Longrightarrow> fst (fl_pop fl) = fst (fl_pop ?fl) \<Longrightarrow> rename_uop u2 (?mt\<lparr>mt_committed_map_table := x\<rparr>) fl
        = (u2', mt2\<lparr>mt_committed_map_table := x\<rparr>, snd (fl_pop fl))" for x fl
      using r c1(2) by (auto simp: rename_uop_def rename_sources_def writes_int_def Let_def split: prod.splits)
    then show ?thesis
      using cm0 cm [of fl2 mt2] c1 pp by (auto simp: pc)
  qed
qed

section \<open>The load/store unit\<close>

lemma issue_loads_none:
  assumes "list_all (\<lambda>e. re_valid e \<and> re_is_load e \<longrightarrow> re_memory_request_sent e) (rob_entries (bs_rob s))"
    "length (rob_entries (bs_rob s)) = ROB_DEPTH"
  shows "issue_loads is s pipe = (s, pipe)"
proof (induction "is")
  case (Cons i "is")
  let ?k = "(unat (rob_head (bs_rob s)) + i) mod ROB_DEPTH"
  have "unat (word_of_nat ?k :: u8) = ?k" by (simp add: unat_of_nat take_bit_nat_eq_self)
  then have "\<not> can_issue_load s pipe (word_of_nat ?k)"
    using assms by (auto simp: can_issue_load_def list_all_length Let_def)
  then show ?case by (simp add: try_issue_load_def Cons)
qed simp

lemma rob_single_all:
  assumes "rob_single rob e" "P e" "\<And>x. \<not> re_valid x \<Longrightarrow> P x"
  shows "list_all P (rob_entries rob)"
  using assms by (auto simp: rob_single_def list_all_length)

lemma set_rob_entry_twice [simp]: "set_rob_entry h e' (set_rob_entry h e s) = set_rob_entry h e' s"
  by (simp add: set_rob_entry_def)

lemma ldq_push_fields [simp]:
  "lsu_load_response_pending (ldq_push r l) = lsu_load_response_pending l"
  "lsu_next_transaction_id (ldq_push r l) = lsu_next_transaction_id l"
  by (simp_all add: ldq_push_def Let_def)

text \<open>The result of the address calculation enters the entry and the request goes out.\<close>

lemma lsu_sends_load:
  assumes c: "\<not> bs_global_flush c" "exe_alu_results (bs_execute c) = [r]" "ar_valid r" "ar_memory_valid r" "ar_is_load r"
      "\<not> ar_is_store r" "rob_single (bs_rob c) e" "qi_rob_idx (uop_queue (ar_uop r)) = rob_head (bs_rob c)"
      "\<not> re_memory_request_sent e" "\<not> lsu_load_response_pending (bs_lsu c)"
    and p: "pipe_dmem_resp p = []" "\<not> stream_full (pipe_dmem_req p)"
  defines "tx \<equiv> lsu_next_transaction_id (bs_lsu c)" and "h \<equiv> rob_head (bs_rob c)"
  defines "e' \<equiv> (enqueue_load r e)\<lparr>re_memory_request_sent := True, re_memory_transaction_id := tx\<rparr>"
  shows "\<exists>l. lsu_module c p = ((set_rob_entry (unat h) e' c)\<lparr>bs_lsu := l\<rparr>,
        p\<lparr>pipe_dmem_req := pipe_dmem_req p @ [load_request tx h (enqueue_load r e)]\<rparr>)
    \<and> lsu_load_response_pending l \<and> lsu_pending_load_transaction_id l = tx \<and> lsu_pending_load_rob_idx l = h"
proof -
  let ?e = "enqueue_load r e"
  have h: "unat h < ROB_DEPTH" "re_valid (rob_entries (bs_rob c) ! unat h)" "rob_entries (bs_rob c) ! unat h = e"
    "length (rob_entries (bs_rob c)) = ROB_DEPTH" "re_valid e" "(word_of_nat (unat h mod ROB_DEPTH) :: u8) = h"
    using c(7) by (simp_all add: rob_single_def h_def)
  define s where "s = (set_rob_entry (unat h) ?e c)\<lparr>bs_lsu := ldq_push r (bs_lsu c)\<rparr>"
  have en: "lsu_enqueue_lane 0 c = s"
    using c h by (simp add: lsu_enqueue_lane_def s_def Let_def h_def)
  have f: "rob_entries (bs_rob s) ! unat h = ?e" "re_valid ?e" "re_is_load ?e" "re_memory_valid ?e" "\<not> re_memory_request_sent ?e"
    "\<not> lsu_load_response_pending (bs_lsu s)" "rob_head (bs_rob s) = h" "lsu_next_transaction_id (bs_lsu s) = tx"
    using c h by (simp_all add: s_def set_rob_entry_def enqueue_load_def tx_def h_def)
  have "\<not> older_store_in_rob (bs_rob s) h" by (simp add: older_store_in_rob_def f(7) numeral_eq_Suc)
  then have "can_issue_load s p h"
    using f p(2) by (simp add: can_issue_load_def)
  then have t: "try_issue_load s p h = ((set_rob_entry (unat h) e' s)\<lparr>bs_lsu := (bs_lsu s)\<lparr>lsu_next_transaction_id := tx + 1,
        lsu_load_response_pending := True, lsu_pending_load_transaction_id := tx, lsu_pending_load_rob_idx := h\<rparr>\<rparr>,
        p\<lparr>pipe_dmem_req := pipe_dmem_req p @ [load_request tx h ?e]\<rparr>)"
    using f by (simp add: try_issue_load_def e'_def stream_write_def Let_def)
  have "[0..<ROB_DEPTH] = 0 # [1..<ROB_DEPTH]" by (simp add: upt_rec)
  then have "issue_loads [0..<ROB_DEPTH] s p = try_issue_load s p h"
    using h(6) by (simp add: f(7) t)
  then have "lsu_module c p = try_issue_load s p h"
    using c(1) p(1) en by (simp add: lsu_module_def lsu_response_def stream_empty_def)
  then show ?thesis unfolding t
    by (intro exI [of _ "(ldq_push r (bs_lsu c))\<lparr>lsu_next_transaction_id := tx + 1,
        lsu_load_response_pending := True, lsu_pending_load_transaction_id := tx, lsu_pending_load_rob_idx := h\<rparr>"])
      (simp add: s_def set_rob_entry_def)
qed

text \<open>The response completes the entry and writes the register.\<close>

lemma lsu_completes_load:
  assumes c: "\<not> bs_global_flush c" "exe_alu_results (bs_execute c) = [r]" "\<not> ar_valid r"
      "rob_single (bs_rob c) e" "re_is_load e" "re_memory_request_sent e"
      "lsu_load_response_pending (bs_lsu c)" "lsu_pending_load_rob_idx (bs_lsu c) = rob_head (bs_rob c)"
    and p: "pipe_dmem_resp p = [resp]" "drs_transaction_id resp = lsu_pending_load_transaction_id (bs_lsu c)" "\<not> drs_exception resp"
  defines "v \<equiv> load_value (response_data resp) (re_memory_address e) (re_memory_size e) (re_signed_load e)"
    and "q \<equiv> ri_pdst (uop_rename (re_uop e))"
  shows "\<exists>l. lsu_module c p = ((set_rob_entry (unat (rob_head (bs_rob c)))
        (e\<lparr>re_memory_data := v, re_memory_completed := True, re_busy := False\<rparr>) c)
        \<lparr>bs_int_rf := (if q \<noteq> 0 then (bs_int_rf c)[unat q := v] else bs_int_rf c), bs_lsu := l\<rparr>, p\<lparr>pipe_dmem_resp := []\<rparr>)
    \<and> \<not> lsu_load_response_pending l"
proof -
  let ?h = "unat (rob_head (bs_rob c))" and ?e = "e\<lparr>re_memory_data := v, re_memory_completed := True, re_busy := False\<rparr>"
  have h: "rob_entries (bs_rob c) ! ?h = e" "re_valid e" "length (rob_entries (bs_rob c)) = ROB_DEPTH"
    using c(4) by (simp_all add: rob_single_def)
  let ?l = "(bs_lsu c)\<lparr>lsu_load_response_pending := False, lsu_pending_load_transaction_id := 0\<rparr>"
  let ?s = "(set_rob_entry ?h ?e c)\<lparr>bs_int_rf := (if q \<noteq> 0 then (bs_int_rf c)[unat q := v] else bs_int_rf c), bs_lsu := ?l\<rparr>"
  have r: "lsu_response c p = (?s, p\<lparr>pipe_dmem_resp := []\<rparr>)"
    using c(5-8) p h by (simp add: lsu_response_def stream_empty_def stream_read_def complete_load_def set_rob_entry_def
        Let_def v_def q_def)
  have en: "lsu_enqueue_lane 0 ?s = ?s"
    using c(2,3) by (simp add: lsu_enqueue_lane_def set_rob_entry_def)
  have "rob_single (bs_rob ?s) ?e"
    using rob_single_update [OF c(4), of ?e] h(2) by (simp add: set_rob_entry_def)
  from rob_single_all [OF this, of "\<lambda>e. re_valid e \<and> re_is_load e \<longrightarrow> re_memory_request_sent e"]
  have "issue_loads [0..<ROB_DEPTH] ?s (p\<lparr>pipe_dmem_resp := []\<rparr>) = (?s, p\<lparr>pipe_dmem_resp := []\<rparr>)"
    using c(6) h(3) by (intro issue_loads_none) (simp_all add: set_rob_entry_def)
  then have "lsu_module c p = (?s, p\<lparr>pipe_dmem_resp := []\<rparr>)"
    using c(1) r en by (simp add: lsu_module_def)
  then show ?thesis by (intro exI [of _ ?l]) simp
qed

section \<open>A load in flight\<close>

record LoadOp =
  lo_pc :: u64
  lo_inst :: u32
  lo_rd :: "5 word"
  lo_signed :: bool
  lo_size :: "2 word"
  lo_addr :: u64

text \<open>The core between the fetch of \<open>pc\<close> and the request for the next instruction.\<close>

definition fetched :: "u64 \<Rightarrow> BoomCoreState \<Rightarrow> bool" where
  "fetched pc s = (iq_idle (iss_alu_iq (bs_issue s)) \<and> \<not> lsu_load_response_pending (bs_lsu s)
     \<and> length (dec_uops (bs_decode s)) = 1 \<and> length (dec_valids (bs_decode s)) = 1
     \<and> fe_reset_done (bs_frontend s) \<and> \<not> fe_flush (bs_frontend s) \<and> \<not> fe_response_received (bs_frontend s)
     \<and> \<not> fe_request_sent (bs_frontend s) \<and> fe_pc (bs_frontend s) = pc + 4 \<and> \<not> bs_io_success s \<and> \<not> bs_io_trap s)"

definition load_entry :: "LoadOp \<Rightarrow> RobEntry \<Rightarrow> bool" where
  "load_entry L e = (uop_inst (re_uop e) = lo_inst L \<and> uop_debug_pc (re_uop e) = lo_pc L \<and> \<not> re_exception e
     \<and> \<not> re_is_store e \<and> \<not> dc_is_sta (uop_ctrl (re_uop e)))"

text \<open>First cycle: the address is computed, the entry waits.\<close>

definition load_executed :: "LoadOp \<Rightarrow> (5 word \<Rightarrow> u64) \<Rightarrow> BoomCoreState \<Rightarrow> bool" where
  "load_executed L R s = (fetched (lo_pc L) s \<and> (\<exists>r e. exe_alu_results (bs_execute s) = [r] \<and> ar_valid r
     \<and> \<not> ar_mispredict r \<and> ar_memory_valid r \<and> ar_is_load r \<and> \<not> ar_is_store r \<and> ar_signed_load r = lo_signed L
     \<and> ar_memory_size r = ucast (lo_size L) \<and> ar_memory_address r = lo_addr L
     \<and> qi_rob_idx (uop_queue (ar_uop r)) = rob_head (bs_rob s) \<and> rob_single (bs_rob s) e \<and> re_busy e
     \<and> \<not> re_memory_request_sent e \<and> load_entry L e
     \<and> writes_back (bs_rename s) (bs_int_rf s) (re_uop e) (lo_rd L) R))"

text \<open>Second cycle: the request is out, and so is the request for the next instruction.\<close>

definition load_sent :: "LoadOp \<Rightarrow> (5 word \<Rightarrow> u64) \<Rightarrow> ImemRequest \<Rightarrow> DmemRequest \<Rightarrow> BoomCoreState \<Rightarrow> bool" where
  "load_sent L R req dreq s = (iq_idle (iss_alu_iq (bs_issue s)) \<and> lsu_load_response_pending (bs_lsu s)
     \<and> lsu_pending_load_transaction_id (bs_lsu s) = drq_transaction_id dreq
     \<and> lsu_pending_load_rob_idx (bs_lsu s) = rob_head (bs_rob s)
     \<and> \<not> drq_is_store dreq \<and> drq_address dreq = lo_addr L
     \<and> irq_address req = lo_pc L + 4 \<and> irq_fetch_id req = fe_pending_fetch_id (bs_frontend s)
     \<and> length (dec_uops (bs_decode s)) = 1 \<and> length (dec_valids (bs_decode s)) = 1
     \<and> fe_reset_done (bs_frontend s) \<and> \<not> fe_flush (bs_frontend s) \<and> \<not> fe_response_received (bs_frontend s)
     \<and> fe_request_sent (bs_frontend s) \<and> \<not> bs_io_success s \<and> \<not> bs_io_trap s
     \<and> (\<exists>r e. exe_alu_results (bs_execute s) = [r] \<and> \<not> ar_valid r
          \<and> rob_single (bs_rob s) e \<and> re_is_load e \<and> re_memory_request_sent e \<and> load_entry L e
          \<and> re_memory_address e = lo_addr L \<and> re_memory_size e = ucast (lo_size L) \<and> re_signed_load e = lo_signed L
          \<and> writes_back (bs_rename s) (bs_int_rf s) (re_uop e) (lo_rd L) R))"

section \<open>The cycle that executes a load\<close>

lemma renamed_load:
  fixes qu :: QueueInfo and pc :: u64
  assumes ren: "rename_uop (decode_uop pc w) (ren_int_map_table (bs_rename s)) fl = (u', mt, fl')"
    and w: "w = encode_op (Load sg sz rd rs1 imm)" "sg \<or> sz \<noteq> 3"
  defines "r \<equiv> execute_result (u'\<lparr>uop_queue := qu\<rparr>) (read_rf (bs_int_rf s) (ri_prs1 (uop_rename u')))
    (read_rf (bs_int_rf s) (ri_prs2 (uop_rename u')))"
  shows "ar_memory_valid r \<and> ar_is_load r \<and> \<not> ar_is_store r \<and> \<not> ar_mispredict r \<and> \<not> ar_exception r
      \<and> ar_signed_load r = sg \<and> ar_memory_size r = ucast sz \<and> ar_memory_address r = word_of_int (uint (arch_view s rs1) + sint imm)"
    "\<not> uop_exception u' \<and> dc_is_load (uop_ctrl u') \<and> \<not> dc_is_sta (uop_ctrl u') \<and> uop_inst u' = w \<and> uop_debug_pc u' = pc"
    "writes_int (decode_uop pc w) = (rd \<noteq> 0)" "ri_ldst (uop_rename (decode_uop pc w)) = ucast rd"
    "uop_uopc (decode_uop pc w) \<noteq> 0" "uop_iq_type (decode_uop pc w) = IQ_MEM"
proof -
  note du = decode_load_control [OF w(2), of pc rd rs1 imm, folded w(1)] and regs = load_registers [OF w(2), of rd rs1 imm, folded w(1)]
  note uu = rename_uop_uop [OF ren]
  obtain X where X: "u' = (decode_uop pc w)\<lparr>uop_rename := X\<rparr>" using uu(1) by blast
  then have v: "u'\<lparr>uop_queue := qu\<rparr> = (decode_uop pc (encode_op (Load sg sz rd rs1 imm)))\<lparr>uop_rename := X, uop_queue := qu\<rparr>"
    using w(1) by simp
  have a: "read_rf (bs_int_rf s) (ri_prs1 (uop_rename u')) = arch_view s rs1"
    using uu(2) regs(2) by (simp add: arch_view_def)
  show "ar_memory_valid r \<and> ar_is_load r \<and> \<not> ar_is_store r \<and> \<not> ar_mispredict r \<and> \<not> ar_exception r
      \<and> ar_signed_load r = sg \<and> ar_memory_size r = ucast sz \<and> ar_memory_address r = word_of_int (uint (arch_view s rs1) + sint imm)"
    unfolding r_def v a by (rule decode_load_executes [OF w(2)])
  show "\<not> uop_exception u' \<and> dc_is_load (uop_ctrl u') \<and> \<not> dc_is_sta (uop_ctrl u') \<and> uop_inst u' = w \<and> uop_debug_pc u' = pc"
    using du by (simp add: X)
  show "writes_int (decode_uop pc w) = (rd \<noteq> 0)" "ri_ldst (uop_rename (decode_uop pc w)) = ucast rd"
    "uop_uopc (decode_uop pc w) \<noteq> 0" "uop_iq_type (decode_uop pc w) = IQ_MEM"
    using du regs(1) by (simp_all add: writes_int_def)
qed

lemma cycle_execute_load:
  fixes s :: BoomCoreState
  assumes q: "core_quiet s" and fe: "fe_request_sent (bs_frontend s)"
    and p: "pipe_imem_resp p = [resp]" "irs_fetch_id resp = fe_pending_fetch_id (bs_frontend s)"
      "pipe_dmem_resp p = []"
    and i: "irs_address resp = pc" "irs_instruction resp = encode_op (Load sg sz rd rs1 imm)" "sg \<or> sz \<noteq> 3"
  shows "\<exists>s'. boom_core_step s p = (s', p\<lparr>pipe_imem_resp := []\<rparr>)
    \<and> load_executed \<lparr>lo_pc = pc, lo_inst = encode_op (Load sg sz rd rs1 imm), lo_rd = rd, lo_signed = sg, lo_size = sz,
        lo_addr = word_of_int (uint (arch_view s rs1) + sint imm)\<rparr> (arch_view s) s'"
proof -
  define w where "w = encode_op (Load sg sz rd rs1 imm)"
  obtain u' mt fl where ren: "rename_uop (decode_uop pc w) (ren_int_map_table (bs_rename s)) (ren_int_free_list (bs_rename s)) = (u', mt, fl)"
    by (metis prod_cases3)
  note ld = renamed_load [OF ren w_def i(3)]
  define v where "v = u'\<lparr>uop_queue := (uop_queue u')\<lparr>qi_rob_idx := rob_head (bs_rob s)\<rparr>\<rparr>"
  define r where "r = execute_result v (read_rf (bs_int_rf s) (ri_prs1 (uop_rename u'))) (read_rf (bs_int_rf s) (ri_prs2 (uop_rename u')))"
  define e where "e = rob_entry_of u' (rob_head (bs_rob s))"
  have u: "decode_uop pc w = decode_uop (irs_address resp) (irs_instruction resp)"
    "uop_iq_type (decode_uop pc w) = IQ_ALU \<or> uop_iq_type (decode_uop pc w) = IQ_MEM"
    using i ld(6) by (simp_all add: w_def)
  obtain t us vs where t: "boom_core_step s p = rob_commit_module t (p\<lparr>pipe_imem_resp := []\<rparr>)"
    "exe_alu_results (bs_execute t) = [r]" "\<not> lsu_load_response_pending (bs_lsu t)" "rob_single (bs_rob t) e"
    "iq_idle (iss_alu_iq (bs_issue t))" "length (dec_uops (bs_decode t)) = 1" "length (dec_valids (bs_decode t)) = 1"
    "\<not> bu_valid (bs_brupdate t)"
    "bs_rename t = (bs_rename s)\<lparr>ren_int_map_table := mt, ren_int_free_list := fl, ren_renamed_uops := us, ren_renamed_valids := vs\<rparr>"
    "fe_reset_done (bs_frontend t)" "\<not> fe_flush (bs_frontend t)" "\<not> fe_response_received (bs_frontend t)"
    "\<not> fe_request_sent (bs_frontend t)" "fe_pc (bs_frontend t) = pc + 4" "\<not> bs_io_success t" "\<not> bs_io_trap t"
    "bs_int_rf t = (if \<not> ar_is_load r \<and> ri_dst_rtype (uop_rename u') = DST_INT \<and> ri_pdst (uop_rename u') \<noteq> 0
        then (bs_int_rf s)[unat (ri_pdst (uop_rename u')) := ar_result r] else bs_int_rf s)"
    using execute_until_commit [OF q fe p u(1) ld(5) u(2) ren, folded v_def, folded r_def, folded e_def, unfolded i(1)] by blast
  have r: "r = execute_result (u'\<lparr>uop_queue := uop_queue v\<rparr>) (read_rf (bs_int_rf s) (ri_prs1 (uop_rename u')))
      (read_rf (bs_int_rf s) (ri_prs2 (uop_rename u')))"
    by (simp add: r_def v_def)
  note res = ld(1) [where qu = "uop_queue v", folded r]
  have q2: "rename_quiet (bs_rename s)" "length (bs_int_rf s) = INT_PHYS_REGS" using q by (simp_all add: core_quiet_def)
  have e: "re_uop e = v" "re_busy e" "\<not> re_memory_request_sent e" "load_entry
      \<lparr>lo_pc = pc, lo_inst = w, lo_rd = rd, lo_signed = sg, lo_size = sz, lo_addr = word_of_int (uint (arch_view s rs1) + sint imm)\<rparr> e"
    using ld(2) by (simp_all add: e_def v_def rob_entry_of_def RobEntry0_def load_entry_def)
  have "qi_rob_idx (uop_queue v) = rob_head (bs_rob t)" using t(4) e(1) by (auto simp: rob_single_def)
  let ?s' = "t\<lparr>bs_rob := (bs_rob t)\<lparr>rob_commit_valid := False\<rparr>\<rparr>"
  have step: "boom_core_step s p = (?s', p\<lparr>pipe_imem_resp := []\<rparr>)"
    using t(1) commit_busy [OF t(4) e(2) t(2) _ t(8)] res by simp
  have "writes_back ((bs_rename s)\<lparr>ren_int_map_table := mt, ren_int_free_list := fl\<rparr>) (bs_int_rf s) u' rd (rename_view (bs_rename s) (bs_int_rf s))"
    using renamed_writes_back [OF q2 ren ld(3)] ld(4) by simp
  then have "writes_back (bs_rename t) (bs_int_rf t) v rd (arch_view s)"
    using res t(9,17) writes_back_cong [of v u']
    by (simp add: v_def arch_view_rename)
  then show ?thesis
    using step t e res \<open>qi_rob_idx (uop_queue v) = rob_head (bs_rob t)\<close>
    by (intro exI [of _ ?s']) (auto simp: load_executed_def fetched_def w_def r_def)
qed

section \<open>The cycle that sends the load\<close>

lemma cycle_request_load:
  assumes ex: "load_executed L R s"
    and p: "pipe_imem_req p = []" "pipe_imem_resp p = []" "pipe_dmem_resp p = []" "\<not> stream_full (pipe_dmem_req p)"
  shows "\<exists>s' req dreq. boom_core_step s p = (s', p\<lparr>pipe_imem_req := [req], pipe_dmem_req := pipe_dmem_req p @ [dreq]\<rparr>)
    \<and> load_sent L R req dreq s'"
proof -
  obtain r e where r: "exe_alu_results (bs_execute s) = [r]" "ar_valid r" "\<not> ar_mispredict r" "ar_memory_valid r" "ar_is_load r"
    "\<not> ar_is_store r" "ar_signed_load r = lo_signed L" "ar_memory_size r = ucast (lo_size L)" "ar_memory_address r = lo_addr L"
    "qi_rob_idx (uop_queue (ar_uop r)) = rob_head (bs_rob s)" "rob_single (bs_rob s) e" "re_busy e" "\<not> re_memory_request_sent e"
    "load_entry L e" "writes_back (bs_rename s) (bs_int_rf s) (re_uop e) (lo_rd L) R" and f: "fetched (lo_pc L) s"
    using ex by (auto simp: load_executed_def)
  define c where "c = csr_module (step_begin s)"
  have c: "\<not> bs_global_flush c" "bs_frontend c = bs_frontend s" "bs_execute c = bs_execute s" "bs_rob c = bs_rob s"
    "bs_lsu c = bs_lsu s" "bs_decode c = bs_decode s" "bs_rename c = bs_rename s" "bs_issue c = bs_issue s"
    "bs_int_rf c = bs_int_rf s" "\<not> bu_valid (bs_brupdate c)" "\<not> bs_io_success c" "\<not> bs_io_trap c"
    by (simp_all add: c_def csr_module_def step_begin_def)
  have br: "branch_module c = c" using r c by (intro branch_none [of _ r]) auto
  let ?h = "rob_head (bs_rob s)" and ?tx = "lsu_next_transaction_id (bs_lsu s)"
  define e' where "e' = (enqueue_load r e)\<lparr>re_memory_request_sent := True, re_memory_transaction_id := ?tx\<rparr>"
  let ?dreq = "load_request ?tx ?h (enqueue_load r e)"
  obtain l where lsu: "lsu_module c p = ((set_rob_entry (unat ?h) e' c)\<lparr>bs_lsu := l\<rparr>, p\<lparr>pipe_dmem_req := pipe_dmem_req p @ [?dreq]\<rparr>)"
    "lsu_load_response_pending l" "lsu_pending_load_transaction_id l = ?tx" "lsu_pending_load_rob_idx l = ?h"
    using lsu_sends_load [of c r e p] c r p(3,4) f by (auto simp: e'_def fetched_def)
  define x where "x = (set_rob_entry (unat ?h) e' c)\<lparr>bs_lsu := l\<rparr>"
  let ?p = "p\<lparr>pipe_dmem_req := pipe_dmem_req p @ [?dreq]\<rparr>"
  have x: "bs_rob x = (bs_rob s)\<lparr>rob_entries := (rob_entries (bs_rob s))[unat ?h := e']\<rparr>" "bs_frontend x = bs_frontend s"
    "bs_lsu x = l" "bs_decode x = bs_decode s" "bs_rename x = bs_rename s" "bs_issue x = bs_issue s" "bs_int_rf x = bs_int_rf s"
    "\<not> bs_global_flush x" "\<not> bu_valid (bs_brupdate x)" "\<not> bs_io_success x" "\<not> bs_io_trap x"
    using c by (simp_all add: x_def set_rob_entry_def)
  have e': "re_valid e'" "re_uop e' = re_uop e" "re_busy e'" "re_is_load e'" "re_memory_request_sent e'" "load_entry L e'"
    "re_memory_address e' = lo_addr L" "re_memory_size e' = ucast (lo_size L)" "re_signed_load e' = lo_signed L"
    using r by (auto simp: e'_def enqueue_load_def load_entry_def rob_single_def)
  have single: "rob_single (bs_rob x) e'" using rob_single_update [OF r(11) e'(1,2)] x(1) by simp
  have st: "rob_state (bs_rob x) = ROB_NORMAL" using single by (simp add: rob_single_def)
  obtain fe req where fe: "frontend_module x ?p = (x\<lparr>bs_frontend := fe\<rparr>, ?p\<lparr>pipe_imem_req := [req]\<rparr>)"
    "fe_reset_done fe" "fe_request_sent fe" "\<not> fe_response_received fe" "\<not> fe_fetch_packet_valid fe" "\<not> fe_flush fe"
    "irq_fetch_id req = fe_pending_fetch_id fe" "irq_address req = lo_pc L + 4"
    using frontend_request [of x "bs_frontend x" ?p] x f p st by (auto simp: fetched_def)
  obtain t where t: "execute_module (issue_module (rob_allocate (rename_module (decode_module (x\<lparr>bs_frontend := fe\<rparr>))))) = t"
    "exe_alu_results (bs_execute t) = [AluResult0]" "iq_idle (iss_alu_iq (bs_issue t))" "bs_rob t = bs_rob x"
    "bs_int_rf t = bs_int_rf x" "bs_lsu t = bs_lsu x" "bs_frontend t = fe" "\<not> bu_valid (bs_brupdate t)"
    "length (dec_uops (bs_decode t)) = 1" "length (dec_valids (bs_decode t)) = 1" "\<not> bs_io_success t" "\<not> bs_io_trap t"
    "bs_rename t = drained_rename (x\<lparr>bs_frontend := fe\<rparr>)"
    using drain_stages [of "x\<lparr>bs_frontend := fe\<rparr>"] x f fe st by (auto simp: fetched_def)
  have ren: "bs_rename t = (bs_rename s)\<lparr>ren_renamed_uops := [MicroOp0], ren_renamed_valids := [False]\<rparr>"
    using t(13) x(5,9) by (simp add: drained_rename_def)
  let ?s' = "t\<lparr>bs_rob := (bs_rob t)\<lparr>rob_commit_valid := False\<rparr>\<rparr>"
  have "rob_commit_module t q = (?s', q)" for q
    using single t(2,4,8) e'(3) by (auto simp: rob_commit_module_def Let_def rob_complete_def rob_single_def)
  then have step: "boom_core_step s p = (?s', ?p\<lparr>pipe_imem_req := [req]\<rparr>)"
    by (simp add: boom_core_step_after after_lsu_def br lsu(1) fe(1) t(1) flip: c_def x_def)
  have "load_sent L R req ?dreq ?s'"
    using t(2-7,9-12) x fe lsu(2-4) e' single ren r(9,15)
    by (auto simp: load_sent_def load_request_def DmemRequest0_def enqueue_load_def)
  then show ?thesis using step by (intro exI [of _ ?s'] exI [of _ req] exI [of _ ?dreq]) simp
qed

section \<open>The cycle that completes the load\<close>

text \<open>The entry of the instruction behind the load when its result arrives.\<close>

definition completed_entry :: "AluResult \<Rightarrow> RobEntry \<Rightarrow> RobEntry" where
  "completed_entry r e =
    (if ar_memory_valid r \<or> ar_is_load r \<or> ar_is_store r \<or> dc_is_load (uop_ctrl (ar_uop r)) \<or> dc_is_sta (uop_ctrl (ar_uop r))
     then e else if ar_exception r then e\<lparr>re_busy := False, re_exception := True\<rparr> else e\<lparr>re_busy := False\<rparr>)"

lemma completed_entry_fields [simp]:
  "re_uop (completed_entry r e) = re_uop e" "re_valid (completed_entry r e) = re_valid e"
  by (simp_all add: completed_entry_def)

lemma rob_single_not_full: "rob_single rob e \<Longrightarrow> \<not> rob_is_full rob"
  by (simp add: rob_single_def rob_is_full_def)

lemma inc_mod_32_twice: "unat h < 32 \<Longrightarrow> inc_mod 32 (inc_mod 32 h) \<noteq> h"
proof
  assume h: "unat h < 32" and "inc_mod 32 (inc_mod 32 h) = h"
  then have "unat (inc_mod 32 (inc_mod 32 h)) = unat h" by simp
  then have "((unat h + 1) mod 32 + 1) mod 32 = unat h" by simp
  then have "(unat h + 2) mod 32 = unat h" by (simp add: mod_simps)
  moreover have "unat h + 2 < 32 \<or> unat h = 30 \<or> unat h = 31" using h by arith
  ultimately show False by (elim disjE) simp_all
qed

lemma rob_pair:
  fixes u :: MicroOp
  assumes e: "rob_single rob e1" and r: "ar_valid r" "qi_rob_idx (uop_queue (ar_uop r)) = rob_tail rob"
  defines "rob2 \<equiv> rob_complete r ((rob_push rob u)\<lparr>rob_commit_valid := False\<rparr>)"
  shows "rob_entries rob2 ! unat (rob_head rob2) = e1" "\<not> rob_is_empty rob2" "re_valid e1"
    "rob_head (rob_pop (rob2\<lparr>rob_last_commit := ce, rob_commit_valid := True\<rparr>)) = rob_tail rob"
    "rob_single (rob_pop (rob2\<lparr>rob_last_commit := ce, rob_commit_valid := True\<rparr>)) (completed_entry r (rob_entry_of u (rob_tail rob)))"
proof -
  let ?h = "rob_head rob" and ?e2 = "rob_entry_of u (rob_tail rob)"
  have h: "rob_tail rob = inc_mod 32 ?h" "unat ?h < 32" "length (rob_entries rob) = 32" "rob_entries rob ! unat ?h = e1" "re_valid e1"
    "\<not> rob_maybe_full rob" "rob_state rob = ROB_NORMAL" "\<And>i. i < 32 \<Longrightarrow> i \<noteq> unat ?h \<Longrightarrow> \<not> re_valid (rob_entries rob ! i)"
    using e by (simp_all add: rob_single_def)
  have ne: "inc_mod 32 ?h \<noteq> ?h" "inc_mod 32 (inc_mod 32 ?h) \<noteq> ?h" "unat (inc_mod 32 ?h) < 32"
    using inc_mod_32_neq [OF h(2)] inc_mod_32_twice [OF h(2)] by simp_all
  have ue: "unat (inc_mod 32 ?h) \<noteq> unat ?h" using ne(1) by (simp only: unat_eq_nat_iff not_False_eq_True)
  have push: "rob_push rob u = rob\<lparr>rob_entries := (rob_entries rob)[unat (inc_mod 32 ?h) := ?e2], rob_tail := inc_mod 32 (inc_mod 32 ?h)\<rparr>"
    using ne by (simp add: rob_push_def h(1))
  have rob2: "rob2 = rob\<lparr>rob_entries := (rob_entries rob)[unat (inc_mod 32 ?h) := completed_entry r ?e2],
      rob_tail := inc_mod 32 (inc_mod 32 ?h), rob_commit_valid := False\<rparr>"
    using r h(3) ne(3) unfolding rob2_def push
    by (auto simp: rob_complete_def completed_entry_def h(1) rob_entry_of_def Let_def)
  show "rob_entries rob2 ! unat (rob_head rob2) = e1" "\<not> rob_is_empty rob2" "re_valid e1"
    "rob_head (rob_pop (rob2\<lparr>rob_last_commit := ce, rob_commit_valid := True\<rparr>)) = rob_tail rob"
    using h ne ue by (simp_all add: rob2 rob_is_empty_def rob_pop_def)
  have "re_valid ?e2" "qi_rob_idx (uop_queue (re_uop ?e2)) = inc_mod 32 ?h" by (simp_all add: rob_entry_of_def h(1))
  then show "rob_single (rob_pop (rob2\<lparr>rob_last_commit := ce, rob_commit_valid := True\<rparr>)) (completed_entry r (rob_entry_of u (rob_tail rob)))"
    using h ne ue by (auto simp: rob2 rob_single_def rob_pop_def nth_list_update)
qed

lemma commit_load_retires:
  assumes "rob_entries (bs_rob s) ! unat (rob_head (bs_rob s)) = e" "\<not> re_exception e" "re_memory_completed e"
    "\<not> dc_is_sta (uop_ctrl (re_uop e))" "\<not> re_is_store e" "pipe_commit_trace p = []"
  defines "ce \<equiv> commit_entry_of (bs_int_rf s) (csr_priv (bs_csr s)) e"
  shows "commit_head s p = (s\<lparr>bs_csr := (bs_csr s)\<lparr>csr_instret := csr_instret (bs_csr s) + 1\<rparr>,
      bs_rename := commit_rename (re_uop e) (bs_rename s),
      bs_rob := rob_pop ((bs_rob s)\<lparr>rob_last_commit := ce, rob_commit_valid := True\<rparr>)\<rparr>, p\<lparr>pipe_commit_trace := [ce]\<rparr>)"
  using assms by (simp add: commit_head_def commit_store_def commit_retire_def stream_full_def stream_write_def Let_def)

text \<open>
  The register file with the loaded value, and the registers seen through it once the load
  has retired: the next instruction renames and executes as if it had been alone.
\<close>

definition loaded_rf :: "BoomCoreState \<Rightarrow> MicroOp \<Rightarrow> u64 \<Rightarrow> u64 list" where
  "loaded_rf s u v = (if ri_pdst (uop_rename u) \<noteq> 0 then (bs_int_rf s)[unat (ri_pdst (uop_rename u)) := v] else bs_int_rf s)"

definition load_result :: "LoadOp \<Rightarrow> DmemResponse \<Rightarrow> u64" where
  "load_result L dresp = load_value (response_data dresp) (lo_addr L) (ucast (lo_size L)) (lo_signed L)"

definition load_write :: "LoadOp \<Rightarrow> u64 \<Rightarrow> (5 word \<Rightarrow> u64) \<Rightarrow> 5 word \<Rightarrow> u64" where
  "load_write L v R = (if lo_rd L = 0 then R else R(lo_rd L := v))"

lemma loaded_view:
  assumes "writes_back ren (bs_int_rf s) u (lo_rd L) R"
  shows "rename_view ren (loaded_rf s u v) = load_write L v R" "length (loaded_rf s u v) = INT_PHYS_REGS"
    "lo_rd L \<noteq> 0 \<Longrightarrow> loaded_rf s u v ! unat (ri_pdst (uop_rename u)) = v"
  using assms by (auto simp: writes_back_def loaded_rf_def load_write_def split: if_splits)

text \<open>The next micro-operation does not overwrite the loaded register.\<close>

lemma next_pdst_fresh:
  assumes wb: "writes_back ren rf u rd R"
    and r: "rename_uop u2 (ren_int_map_table (commit_rename u ren)) (ren_int_free_list (commit_rename u ren)) = (u2', mt, fl)"
    and w: "writes_int u2 = (rd2 \<noteq> 0)" "rd2 \<noteq> 0 \<Longrightarrow> ri_ldst (uop_rename u2) = ucast (rd2 :: 5 word)"
    and ne: "rd \<noteq> 0" "ri_pdst (uop_rename u2') \<noteq> 0"
  shows "ri_pdst (uop_rename u2') \<noteq> ri_pdst (uop_rename u)"
proof -
  have q: "rename_quiet (commit_rename u ren)" "ri_pdst (uop_rename u) \<in> set (mt_map_table (ren_int_map_table ren))"
    using wb ne(1) by (simp_all add: writes_back_def)
  have "writes_int u2" using quiet_step_none(3) [OF r] ne(2) by auto
  then have "rd2 \<noteq> 0" and l: "unat (ri_ldst (uop_rename u2)) = unat rd2" using w by simp_all
  then show ?thesis
    using quiet_step_write(3,6) [OF q(1) \<open>writes_int u2\<close> l unat5_less r] q(2) by auto
qed

text \<open>Up to commit: the load is complete, the next instruction is at its execution.\<close>

lemma load_until_commit:
  assumes ld: "load_sent L R req dreq s"
    and p: "pipe_imem_resp p = [resp]" "irs_fetch_id resp = irq_fetch_id req" "pipe_dmem_resp p = [dresp]"
      "drs_transaction_id dresp = drq_transaction_id dreq" "\<not> drs_exception dresp"
    and u: "u = decode_uop (irs_address resp) (irs_instruction resp)" "uop_uopc u \<noteq> 0"
      "uop_iq_type u = IQ_ALU \<or> uop_iq_type u = IQ_MEM"
    and ren: "rename_uop u (ren_int_map_table (bs_rename s)) (ren_int_free_list (bs_rename s)) = (u', mt, fl)"
  shows "\<exists>t rob e us vs. boom_core_step s p = rob_commit_module (execute_lane 0 (u'\<lparr>uop_queue := (uop_queue u')\<lparr>qi_rob_idx := rob_tail rob\<rparr>\<rparr>) t)
        (p\<lparr>pipe_dmem_resp := [], pipe_imem_resp := []\<rparr>)
    \<and> exe_alu_results (bs_execute t) = [AluResult0] \<and> bs_rob t = rob_push rob u' \<and> rob_single rob e
    \<and> bs_int_rf t = loaded_rf s (re_uop e) (load_result L dresp)
    \<and> load_entry L e \<and> \<not> re_busy e \<and> re_memory_completed e \<and> writes_back (bs_rename s) (bs_int_rf s) (re_uop e) (lo_rd L) R
    \<and> bs_rename t = (bs_rename s)\<lparr>ren_int_map_table := mt, ren_int_free_list := fl, ren_renamed_uops := us, ren_renamed_valids := vs\<rparr>
    \<and> \<not> bu_valid (bs_brupdate t) \<and> fetched (irs_address resp) t"
proof -
  obtain r0 e where s: "exe_alu_results (bs_execute s) = [r0]" "\<not> ar_valid r0" "rob_single (bs_rob s) e" "re_is_load e"
    "re_memory_request_sent e" "load_entry L e" "re_memory_address e = lo_addr L" "re_memory_size e = ucast (lo_size L)"
    "re_signed_load e = lo_signed L" "writes_back (bs_rename s) (bs_int_rf s) (re_uop e) (lo_rd L) R"
    using ld by (auto simp: load_sent_def)
  have f: "iq_idle (iss_alu_iq (bs_issue s))" "lsu_load_response_pending (bs_lsu s)"
    "lsu_pending_load_transaction_id (bs_lsu s) = drq_transaction_id dreq" "lsu_pending_load_rob_idx (bs_lsu s) = rob_head (bs_rob s)"
    "irq_fetch_id req = fe_pending_fetch_id (bs_frontend s)" "length (dec_uops (bs_decode s)) = 1" "length (dec_valids (bs_decode s)) = 1"
    "fe_reset_done (bs_frontend s)" "\<not> fe_flush (bs_frontend s)" "fe_request_sent (bs_frontend s)"
    using ld by (simp_all add: load_sent_def)
  define c where "c = csr_module (step_begin s)"
  have c: "\<not> bs_global_flush c" "bs_frontend c = bs_frontend s" "bs_execute c = bs_execute s" "bs_rob c = bs_rob s"
    "bs_lsu c = bs_lsu s" "bs_decode c = bs_decode s" "bs_rename c = bs_rename s" "bs_issue c = bs_issue s"
    "bs_int_rf c = bs_int_rf s" "\<not> bu_valid (bs_brupdate c)" "\<not> bs_io_success c" "\<not> bs_io_trap c"
    by (simp_all add: c_def csr_module_def step_begin_def)
  have br: "branch_module c = c" using s c by (intro branch_none [of _ r0]) auto
  let ?val = "load_result L dresp"
  let ?h = "unat (rob_head (bs_rob s))" and ?rf = "loaded_rf s (re_uop e) ?val"
  have val: "load_value (response_data dresp) (re_memory_address e) (re_memory_size e) (re_signed_load e) = ?val"
    by (simp add: s(7-9) load_result_def)
  have rf: "(if ri_pdst (uop_rename (re_uop e)) \<noteq> 0 then (bs_int_rf c)[unat (ri_pdst (uop_rename (re_uop e))) := ?val] else bs_int_rf c) = ?rf"
    by (simp add: loaded_rf_def c)
  define e' where "e' = e\<lparr>re_memory_data := ?val, re_memory_completed := True, re_busy := False\<rparr>"
  obtain l where lsu: "lsu_module c p = ((set_rob_entry ?h e' c)\<lparr>bs_int_rf := ?rf, bs_lsu := l\<rparr>, p\<lparr>pipe_dmem_resp := []\<rparr>)"
    "\<not> lsu_load_response_pending l"
    using lsu_completes_load [of c r0 e p dresp, unfolded val rf c(3-5)] c(1) s(1-5) p(3-5) f(2-4)
    unfolding e'_def by auto
  define y where "y = (set_rob_entry ?h e' c)\<lparr>bs_int_rf := ?rf, bs_lsu := l\<rparr>"
  have e': "re_uop e' = re_uop e" "re_valid e'" "\<not> re_busy e'" "re_memory_completed e'" "load_entry L e'"
    using s(3,6) by (simp_all add: e'_def load_entry_def rob_single_def)
  have y: "bs_rob y = (bs_rob s)\<lparr>rob_entries := (rob_entries (bs_rob s))[?h := e']\<rparr>" "bs_frontend y = bs_frontend s"
    "bs_lsu y = l" "bs_decode y = bs_decode s" "bs_rename y = bs_rename s" "bs_issue y = bs_issue s" "bs_int_rf y = ?rf"
    "\<not> bs_global_flush y" "\<not> bu_valid (bs_brupdate y)" "\<not> bs_io_success y" "\<not> bs_io_trap y"
    using c by (simp_all add: y_def set_rob_entry_def)
  have single: "rob_single (bs_rob y) e'" using rob_single_update [OF s(3) e'(2,1)] y(1) by simp
  have st: "rob_state (bs_rob y) = ROB_NORMAL" using single by (simp add: rob_single_def)
  have step: "boom_core_step s p = after_lsu y (p\<lparr>pipe_dmem_resp := []\<rparr>)"
    by (simp add: boom_core_step_after br lsu(1) flip: c_def y_def)
  obtain t where t: "after_lsu y (p\<lparr>pipe_dmem_resp := []\<rparr>) =
      rob_commit_module (execute_lane 0 (u'\<lparr>uop_queue := (uop_queue u')\<lparr>qi_rob_idx := rob_tail (bs_rob y)\<rparr>\<rparr>) t)
        (p\<lparr>pipe_dmem_resp := [], pipe_imem_resp := []\<rparr>)"
    "exe_alu_results (bs_execute t) = [AluResult0]" "bs_int_rf t = ?rf" "bs_lsu t = l"
    "bs_rob t = rob_push (bs_rob y) u'" "iq_idle (iss_alu_iq (bs_issue t))"
    "length (dec_uops (bs_decode t)) = 1" "length (dec_valids (bs_decode t)) = 1"
    "\<not> bu_valid (bs_brupdate t)" "\<not> bs_io_success t" "\<not> bs_io_trap t"
    "bs_rename t = (bs_rename s)\<lparr>ren_int_map_table := mt, ren_int_free_list := fl,
         ren_renamed_uops := ren_renamed_uops (bs_rename t), ren_renamed_valids := ren_renamed_valids (bs_rename t)\<rparr>"
    "fe_reset_done (bs_frontend t)" "\<not> fe_flush (bs_frontend t)" "\<not> fe_response_received (bs_frontend t)"
    "\<not> fe_request_sent (bs_frontend t)" "fe_pc (bs_frontend t) = irs_address resp + 4"
    using stages_until_commit [of y "p\<lparr>pipe_dmem_resp := []\<rparr>" resp u u' mt fl] y f p u ren st rob_single_not_full [OF single] by auto
  have "fetched (irs_address resp) t" using t lsu(2) by (simp add: fetched_def)
  then show ?thesis
    using step t(1-3,5,9,12) single e' s(10)
    by (intro exI [of _ t] exI [of _ "bs_rob y"] exI [of _ e'] exI [of _ "ren_renamed_uops (bs_rename t)"]
        exI [of _ "ren_renamed_valids (bs_rename t)"]) simp
qed

lemma cycle_load_completes:
  fixes u :: MicroOp and rd2 :: "5 word"
  assumes ld: "load_sent L R req dreq s"
    and p: "pipe_imem_resp p = [resp]" "irs_fetch_id resp = irq_fetch_id req" "pipe_dmem_resp p = [dresp]"
      "drs_transaction_id dresp = drq_transaction_id dreq" "\<not> drs_exception dresp" "pipe_commit_trace p = []"
    and u: "u = decode_uop (irs_address resp) (irs_instruction resp)" "uop_uopc u \<noteq> 0"
      "uop_iq_type u = IQ_ALU \<or> uop_iq_type u = IQ_MEM" "writes_int u = (rd2 \<noteq> 0)" "rd2 \<noteq> 0 \<Longrightarrow> ri_ldst (uop_rename u) = ucast rd2"
  defines "val \<equiv> load_result L dresp"
  shows "\<exists>s' ce x u' mt fl r. boom_core_step s p = (s', p\<lparr>pipe_dmem_resp := [], pipe_imem_resp := [], pipe_commit_trace := [ce]\<rparr>)
    \<and> retired ce = (lo_pc L, lo_inst L, if lo_rd L = 0 then None else Some (ucast (lo_rd L), val))
    \<and> arch_view x = load_write L val R \<and> length (bs_int_rf x) = INT_PHYS_REGS
    \<and> rename_uop u (ren_int_map_table (bs_rename x)) (ren_int_free_list (bs_rename x)) = (u', mt, fl)
    \<and> r = execute_result (u'\<lparr>uop_queue := (uop_queue u')\<lparr>qi_rob_idx := rob_head (bs_rob s')\<rparr>\<rparr>)
        (read_rf (bs_int_rf x) (ri_prs1 (uop_rename u'))) (read_rf (bs_int_rf x) (ri_prs2 (uop_rename u')))
    \<and> exe_alu_results (bs_execute s') = [r] \<and> fetched (irs_address resp) s'
    \<and> rob_single (bs_rob s') (completed_entry r (rob_entry_of u' (rob_head (bs_rob s'))))
    \<and> writes_back (bs_rename s') (bs_int_rf x) u' rd2 (arch_view x)
    \<and> bs_int_rf s' = (if \<not> ar_is_load r \<and> ri_dst_rtype (uop_rename u') = DST_INT \<and> ri_pdst (uop_rename u') \<noteq> 0
        then (bs_int_rf x)[unat (ri_pdst (uop_rename u')) := ar_result r] else bs_int_rf x)"
proof -
  obtain u' mt2 fl2 where ren: "rename_uop u (ren_int_map_table (bs_rename s)) (ren_int_free_list (bs_rename s)) = (u', mt2, fl2)"
    by (metis prod_cases3)
  let ?p = "p\<lparr>pipe_dmem_resp := [], pipe_imem_resp := []\<rparr>"
  obtain t rob e us vs where t: "boom_core_step s p = rob_commit_module (execute_lane 0 (u'\<lparr>uop_queue := (uop_queue u')\<lparr>qi_rob_idx := rob_tail rob\<rparr>\<rparr>) t) ?p"
    "exe_alu_results (bs_execute t) = [AluResult0]" "bs_rob t = rob_push rob u'" "rob_single rob e" "bs_int_rf t = loaded_rf s (re_uop e) val"
    "load_entry L e" "\<not> re_busy e" "re_memory_completed e" "writes_back (bs_rename s) (bs_int_rf s) (re_uop e) (lo_rd L) R"
    "bs_rename t = (bs_rename s)\<lparr>ren_int_map_table := mt2, ren_int_free_list := fl2, ren_renamed_uops := us, ren_renamed_valids := vs\<rparr>"
    "\<not> bu_valid (bs_brupdate t)" "fetched (irs_address resp) t"
    using load_until_commit [OF ld p(1-5) u(1-3) ren] unfolding val_def by blast
  let ?ren = "commit_rename (re_uop e) (bs_rename s)"
  define x where "x = t\<lparr>bs_rename := ?ren\<rparr>"
  obtain mt3 fl3 where sw: "rename_uop u (ren_int_map_table ?ren) (ren_int_free_list ?ren) = (u', mt3, fl3)"
    "commit_rename (re_uop e) ((bs_rename s)\<lparr>ren_int_map_table := mt2, ren_int_free_list := fl2\<rparr>)
      = ?ren\<lparr>ren_int_map_table := mt3, ren_int_free_list := fl3\<rparr>"
    using rename_commit_swap [OF t(9) ren] by blast
  define v where "v = u'\<lparr>uop_queue := (uop_queue u')\<lparr>qi_rob_idx := rob_tail rob\<rparr>\<rparr>"
  define r where "r = execute_result v (read_rf (bs_int_rf x) (ri_prs1 (uop_rename u'))) (read_rf (bs_int_rf x) (ri_prs2 (uop_rename u')))"
  have x: "bs_rename x = ?ren" "bs_int_rf x = loaded_rf s (re_uop e) val" "uop_rename v = uop_rename u'"
    by (simp_all add: x_def t(5) v_def)
  note view = loaded_view [OF t(9), of val, folded x(2)]
  define rf where "rf = (if \<not> ar_is_load r \<and> ri_dst_rtype (uop_rename u') = DST_INT \<and> ri_pdst (uop_rename u') \<noteq> 0
        then (bs_int_rf x)[unat (ri_pdst (uop_rename u')) := ar_result r] else bs_int_rf x)"
  have l: "execute_lane 0 v t = t\<lparr>bs_execute := (bs_execute t)\<lparr>exe_alu_results := [r]\<rparr>, bs_int_rf := rf\<rparr>"
    using execute_lane_state [OF t(2), of v] x t(5) by (simp add: r_def rf_def)
  have rd: "lo_rd L \<noteq> 0 \<Longrightarrow> rf ! unat (ri_pdst (uop_rename (re_uop e))) = val"
    using view(3) next_pdst_fresh [OF t(9) sw(1) u(4,5)] by (simp add: rf_def nth_list_update unat_eq_nat_iff)
  define rob2 where "rob2 = rob_complete r ((rob_push rob u')\<lparr>rob_commit_valid := False\<rparr>)"
  have rv: "ar_valid r" "qi_rob_idx (uop_queue (ar_uop r)) = rob_tail rob" by (simp_all add: r_def v_def)
  note pair = rob_pair(1,2) [OF t(4) rv, where u = u', folded rob2_def] rob_pair(3) [OF t(4) rv]
    rob_pair(4,5) [OF t(4) rv, where u = u', folded rob2_def]
  let ?t = "t\<lparr>bs_execute := (bs_execute t)\<lparr>exe_alu_results := [r]\<rparr>, bs_int_rf := rf\<rparr>"
  let ?ce = "commit_entry_of rf (csr_priv (bs_csr t)) e"
  let ?rob' = "rob_pop (rob2\<lparr>rob_last_commit := ?ce, rob_commit_valid := True\<rparr>)"
  let ?s' = "?t\<lparr>bs_csr := (bs_csr t)\<lparr>csr_instret := csr_instret (bs_csr t) + 1\<rparr>, bs_rename := commit_rename (re_uop e) (bs_rename t), bs_rob := ?rob'\<rparr>"
  have "rob_commit_module ?t ?p = commit_head (?t\<lparr>bs_rob := rob2\<rparr>) ?p"
    using pair(1-3) t(3,7,11) by (simp add: rob_commit_module_def rob2_def Let_def)
  also have "\<dots> = (?s', ?p\<lparr>pipe_commit_trace := [?ce]\<rparr>)"
    using commit_load_retires [of "?t\<lparr>bs_rob := rob2\<rparr>" e ?p] pair(1) t(6,8) p(6) by (simp add: load_entry_def)
  finally have step: "boom_core_step s p = (?s', ?p\<lparr>pipe_commit_trace := [?ce]\<rparr>)"
    using t(1) by (simp add: l flip: v_def)
  have ret: "retired ?ce = (lo_pc L, lo_inst L, if lo_rd L = 0 then None else Some (ucast (lo_rd L), val))"
    using t(6,9) rd by (auto simp: retired_def commit_entry_of_def load_entry_def writes_back_def Let_def)
  have "writes_back (?ren\<lparr>ren_int_map_table := mt3, ren_int_free_list := fl3\<rparr>) (bs_int_rf x) u' rd2 (rename_view ?ren (bs_int_rf x))"
    using t(9) view(2) by (intro renamed_writes_back [OF _ _ sw(1) u(4,5)]) (simp_all add: writes_back_def)
  moreover have "bs_rename ?s' = ?ren\<lparr>ren_int_map_table := mt3, ren_int_free_list := fl3, ren_renamed_uops := us, ren_renamed_valids := vs\<rparr>"
    using sw(2) by (simp add: t(10))
  ultimately have wb: "writes_back (bs_rename ?s') (bs_int_rf x) u' rd2 (arch_view x)"
    by (simp add: arch_view_rename x(1))
  have "fetched (irs_address resp) ?s'" using t(12) by (simp add: fetched_def)
  then show ?thesis
    using step ret view(1,2) sw(1) wb pair(4,5) x(1)
    by (intro exI [of _ ?s'] exI [of _ ?ce] exI [of _ x] exI [of _ u'] exI [of _ mt3] exI [of _ fl3] exI [of _ r])
      (simp add: arch_view_rename r_def v_def rf_def)
qed

section \<open>The instruction behind the load\<close>

text \<open>Executed, its result in the register file, waiting to retire.\<close>

definition finished :: "Instr \<Rightarrow> u64 \<Rightarrow> u64 \<Rightarrow> (5 word \<Rightarrow> u64) \<Rightarrow> BoomCoreState \<Rightarrow> bool" where
  "finished i pc v R s = (fetched pc s \<and> length (bs_int_rf s) = INT_PHYS_REGS \<and> arch_view s = isa_write i v R
     \<and> (\<exists>r e. exe_alu_results (bs_execute s) = [r] \<and> ar_valid r \<and> \<not> ar_mispredict r \<and> \<not> ar_memory_valid r
          \<and> rob_single (bs_rob s) e \<and> \<not> re_busy e \<and> \<not> re_exception e \<and> \<not> re_is_load e \<and> \<not> re_is_store e
          \<and> \<not> dc_is_load (uop_ctrl (re_uop e)) \<and> \<not> dc_is_sta (uop_ctrl (re_uop e))
          \<and> (\<forall>pr. retired (commit_entry_of (bs_int_rf s) pr e) = isa_event i pc v)
          \<and> rename_quiet (commit_rename (re_uop e) (bs_rename s))))"

text \<open>A result written to the register of its micro-operation.\<close>

lemma writes_back_view:
  fixes v :: u64
  assumes wb: "writes_back ren rf u rd R" and d: "rd \<noteq> 0 \<Longrightarrow> ri_dst_rtype (uop_rename u) = DST_INT"
  defines "rf' \<equiv> (if ri_dst_rtype (uop_rename u) = DST_INT \<and> ri_pdst (uop_rename u) \<noteq> 0
    then rf[unat (ri_pdst (uop_rename u)) := v] else rf)"
  shows "rename_view ren rf' = (if rd = 0 then R else R(rd := v))" "length rf' = INT_PHYS_REGS"
    "rename_quiet (commit_rename u ren)"
    "(ri_dst_rtype (uop_rename u) = DST_INT \<and> ri_pdst (uop_rename u) \<noteq> 0) = (rd \<noteq> 0)"
    "rd \<noteq> 0 \<Longrightarrow> rf' ! unat (ri_pdst (uop_rename u)) = v \<and> ri_ldst (uop_rename u) = ucast rd"
  using assms by (auto simp: writes_back_def split: if_splits)

lemma load_then_alu:
  assumes ld: "load_sent L R req dreq s"
    and p: "pipe_imem_resp p = [resp]" "irs_fetch_id resp = irq_fetch_id req" "pipe_dmem_resp p = [dresp]"
      "drs_transaction_id dresp = drq_transaction_id dreq" "\<not> drs_exception dresp" "pipe_commit_trace p = []"
    and i: "irs_address resp = pc" "irs_instruction resp = encode i" "core_supports i"
  defines "R1 \<equiv> load_write L (load_result L dresp) R"
  defines "a \<equiv> arch_read R1 (isa_rs1 i)" and "b \<equiv> arch_read R1 (isa_rs2 i)"
  assumes st: "isa_store i a b = None" and tg: "isa_target i pc a b = None"
  shows "\<exists>s' ce. boom_core_step s p = (s', p\<lparr>pipe_dmem_resp := [], pipe_imem_resp := [], pipe_commit_trace := [ce]\<rparr>)
    \<and> retired ce = (lo_pc L, lo_inst L, if lo_rd L = 0 then None else Some (ucast (lo_rd L), load_result L dresp))
    \<and> finished i pc (isa_value i pc a b) R1 s'"
proof -
  let ?u = "decode_uop pc (encode i)" and ?v = "isa_value i pc a b"
  have u: "?u = decode_uop (irs_address resp) (irs_instruction resp)" "uop_uopc ?u \<noteq> 0"
    "uop_iq_type ?u = IQ_ALU \<or> uop_iq_type ?u = IQ_MEM" "writes_int ?u = (isa_rd i \<noteq> 0)"
    "isa_rd i \<noteq> 0 \<Longrightarrow> ri_ldst (uop_rename ?u) = ucast (isa_rd i)"
    using i decode_encode [OF i(3), of pc] encode_registers(1) [of i] by (simp_all add: writes_int_def)
  obtain s' ce x u' mt fl r where c: "boom_core_step s p = (s', p\<lparr>pipe_dmem_resp := [], pipe_imem_resp := [], pipe_commit_trace := [ce]\<rparr>)"
    "retired ce = (lo_pc L, lo_inst L, if lo_rd L = 0 then None else Some (ucast (lo_rd L), load_result L dresp))"
    "arch_view x = R1" "rename_uop ?u (ren_int_map_table (bs_rename x)) (ren_int_free_list (bs_rename x)) = (u', mt, fl)"
    "r = execute_result (u'\<lparr>uop_queue := (uop_queue u')\<lparr>qi_rob_idx := rob_head (bs_rob s')\<rparr>\<rparr>)
        (read_rf (bs_int_rf x) (ri_prs1 (uop_rename u'))) (read_rf (bs_int_rf x) (ri_prs2 (uop_rename u')))"
    "exe_alu_results (bs_execute s') = [r]" "fetched pc s'"
    "rob_single (bs_rob s') (completed_entry r (rob_entry_of u' (rob_head (bs_rob s'))))"
    "writes_back (bs_rename s') (bs_int_rf x) u' (isa_rd i) R1"
    "bs_int_rf s' = (if \<not> ar_is_load r \<and> ri_dst_rtype (uop_rename u') = DST_INT \<and> ri_pdst (uop_rename u') \<noteq> 0
        then (bs_int_rf x)[unat (ri_pdst (uop_rename u')) := ar_result r] else bs_int_rf x)"
    using cycle_load_completes [OF ld p u, folded R1_def, unfolded i(1)] unfolding R1_def by auto
  note res = renamed_result [OF c(4) i(3), where qu = "(uop_queue u')\<lparr>qi_rob_idx := rob_head (bs_rob s')\<rparr>",
      unfolded c(3), folded a_def b_def, folded c(5)]
  note con = renamed_control [OF c(4) i(3)]
  let ?e = "completed_entry r (rob_entry_of u' (rob_head (bs_rob s')))"
  let ?w = "u'\<lparr>uop_queue := (uop_queue u')\<lparr>qi_rob_idx := rob_head (bs_rob s')\<rparr>\<rparr>"
  have r: "ar_uop r = ?w" "ar_valid r" "\<not> ar_mispredict r" "\<not> ar_memory_valid r" "\<not> ar_is_store r" "\<not> ar_is_load r" "\<not> ar_exception r"
    using res st tg by (simp_all add: c(5))
  have ctl: "\<not> dc_is_load (uop_ctrl u')" "\<not> dc_is_sta (uop_ctrl u')" using con(2) con(3) [of a b] st by simp_all
  then have e: "?e = (rob_entry_of u' (rob_head (bs_rob s')))\<lparr>re_busy := False\<rparr>"
    using r by (simp add: completed_entry_def)
  have ef: "re_uop ?e = ?w" "\<not> re_busy ?e" "\<not> re_exception ?e" "\<not> re_is_load ?e" "\<not> re_is_store ?e"
    using con(1) unfolding e by (simp_all add: rob_entry_of_def RobEntry0_def)
  have rf: "bs_int_rf s' = (if ri_dst_rtype (uop_rename u') = DST_INT \<and> ri_pdst (uop_rename u') \<noteq> 0
        then (bs_int_rf x)[unat (ri_pdst (uop_rename u')) := ar_result r] else bs_int_rf x)"
    using c(10) r(6) by simp
  have d: "isa_rd i \<noteq> 0 \<Longrightarrow> ri_dst_rtype (uop_rename u') = DST_INT" using con(8) by blast
  note view = writes_back_view(1,2,5) [OF c(9) d, where v = "ar_result r", folded rf] and quiet = writes_back_view(3,4) [OF c(9) d]
  have "retired (commit_entry_of (bs_int_rf s') pr ?e) = isa_event i pc ?v" for pr
    using quiet(2) view(3) res(1) con(5,6) ef(1)
    by (auto simp: retired_def commit_entry_of_def isa_event_def Let_def)
  moreover have "arch_view s' = isa_write i ?v R1"
    using view(1) res(1) by (auto simp: arch_view_rename isa_write_def)
  moreover have "rename_quiet (commit_rename (re_uop ?e) (bs_rename s'))"
    using quiet(1) commit_rename_cong [of ?w u'] unfolding ef(1) by simp
  ultimately have "finished i pc ?v R1 s'"
    using c(6-8) r ctl ef view(2) unfolding finished_def by (auto intro!: exI [of _ ?e])
  then show ?thesis using c(1,2) by blast
qed

lemma load_then_store:
  assumes ld: "load_sent L R req dreq s"
    and p: "pipe_imem_resp p = [resp]" "irs_fetch_id resp = irq_fetch_id req" "pipe_dmem_resp p = [dresp]"
      "drs_transaction_id dresp = drq_transaction_id dreq" "\<not> drs_exception dresp" "pipe_commit_trace p = []"
    and i: "irs_address resp = pc" "irs_instruction resp = encode i" "core_supports i"
  defines "R1 \<equiv> load_write L (load_result L dresp) R"
  defines "a \<equiv> arch_read R1 (isa_rs1 i)" and "b \<equiv> arch_read R1 (isa_rs2 i)"
  assumes st: "isa_store i a b = Some w"
  shows "\<exists>s' ce. boom_core_step s p = (s', p\<lparr>pipe_dmem_resp := [], pipe_imem_resp := [], pipe_commit_trace := [ce]\<rparr>)
    \<and> retired ce = (lo_pc L, lo_inst L, if lo_rd L = 0 then None else Some (ucast (lo_rd L), load_result L dresp))
    \<and> executed i pc a b s' \<and> arch_view s' = R1"
proof -
  let ?u = "decode_uop pc (encode i)"
  have u: "?u = decode_uop (irs_address resp) (irs_instruction resp)" "uop_uopc ?u \<noteq> 0"
    "uop_iq_type ?u = IQ_ALU \<or> uop_iq_type ?u = IQ_MEM" "writes_int ?u = (isa_rd i \<noteq> 0)"
    "isa_rd i \<noteq> 0 \<Longrightarrow> ri_ldst (uop_rename ?u) = ucast (isa_rd i)"
    using i decode_encode [OF i(3), of pc] encode_registers(1) [of i] by (simp_all add: writes_int_def)
  obtain s' ce x u' mt fl r where c: "boom_core_step s p = (s', p\<lparr>pipe_dmem_resp := [], pipe_imem_resp := [], pipe_commit_trace := [ce]\<rparr>)"
    "retired ce = (lo_pc L, lo_inst L, if lo_rd L = 0 then None else Some (ucast (lo_rd L), load_result L dresp))"
    "arch_view x = R1" "rename_uop ?u (ren_int_map_table (bs_rename x)) (ren_int_free_list (bs_rename x)) = (u', mt, fl)"
    "r = execute_result (u'\<lparr>uop_queue := (uop_queue u')\<lparr>qi_rob_idx := rob_head (bs_rob s')\<rparr>\<rparr>)
        (read_rf (bs_int_rf x) (ri_prs1 (uop_rename u'))) (read_rf (bs_int_rf x) (ri_prs2 (uop_rename u')))"
    "exe_alu_results (bs_execute s') = [r]" "fetched pc s'"
    "rob_single (bs_rob s') (completed_entry r (rob_entry_of u' (rob_head (bs_rob s'))))"
    "writes_back (bs_rename s') (bs_int_rf x) u' (isa_rd i) R1"
    "bs_int_rf s' = (if \<not> ar_is_load r \<and> ri_dst_rtype (uop_rename u') = DST_INT \<and> ri_pdst (uop_rename u') \<noteq> 0
        then (bs_int_rf x)[unat (ri_pdst (uop_rename u')) := ar_result r] else bs_int_rf x)"
    using cycle_load_completes [OF ld p u, folded R1_def, unfolded i(1)] unfolding R1_def by auto
  note res = renamed_result [OF c(4) i(3), where qu = "(uop_queue u')\<lparr>qi_rob_idx := rob_head (bs_rob s')\<rparr>",
      unfolded c(3), folded a_def b_def, folded c(5)]
  note con = renamed_control [OF c(4) i(3)] and rd = isa_store_rd [OF st]
  obtain ad d sz where w: "w = (ad, d, sz)" by (cases w)
  let ?e = "rob_entry_of u' (rob_head (bs_rob s'))"
  let ?w = "u'\<lparr>uop_queue := (uop_queue u')\<lparr>qi_rob_idx := rob_head (bs_rob s')\<rparr>\<rparr>"
  have r: "ar_uop r = ?w" "ar_valid r" "\<not> ar_mispredict r" "ar_memory_valid r" "ar_is_store r"
    using res st isa_store_target [OF st, of pc] by (simp_all add: c(5))
  have e: "rob_single (bs_rob s') ?e" "re_uop ?e = ?w" "\<not> re_exception ?e" "\<not> re_is_load ?e" "\<not> re_memory_request_sent ?e"
    using c(8) r(4) con(1) by (simp_all add: completed_entry_def rob_entry_of_def RobEntry0_def)
  have wb: "ri_pdst (uop_rename u') = 0" "rename_view (bs_rename s') (bs_int_rf x) = R1" "length (bs_int_rf x) = INT_PHYS_REGS"
    "rename_quiet (commit_rename u' (bs_rename s'))"
    using c(9) rd by (simp_all add: writes_back_def)
  then have q: "rename_quiet (bs_rename s')" "bs_int_rf s' = bs_int_rf x" using c(10) by (simp_all add: commit_rename_def)
  have "is_control ?w = isa_control i" using con(4) by (simp add: is_control_def)
  moreover have "store_pending i pc w r s'"
    using r(1,4,5) e res(8) [of ad d sz] st con(2,5,6) wb(1) unfolding store_pending_def w
    by (auto intro!: exI [of _ ?e])
  ultimately have "executed i pc a b s'"
    using c(6,7) q wb(3) r(1-3) st isa_store_target [OF st, of pc] by (simp add: executed_def fetched_def)
  then show ?thesis using c(1,2) wb(2) q(2) by (auto simp: arch_view_rename)
qed

lemma load_then_load:
  assumes ld: "load_sent L R req dreq s"
    and p: "pipe_imem_resp p = [resp]" "irs_fetch_id resp = irq_fetch_id req" "pipe_dmem_resp p = [dresp]"
      "drs_transaction_id dresp = drq_transaction_id dreq" "\<not> drs_exception dresp" "pipe_commit_trace p = []"
    and i: "irs_address resp = pc" "irs_instruction resp = encode_op (Load sg sz rd rs1 imm)" "sg \<or> sz \<noteq> 3"
  defines "R1 \<equiv> load_write L (load_result L dresp) R"
  shows "\<exists>s' ce. boom_core_step s p = (s', p\<lparr>pipe_dmem_resp := [], pipe_imem_resp := [], pipe_commit_trace := [ce]\<rparr>)
    \<and> retired ce = (lo_pc L, lo_inst L, if lo_rd L = 0 then None else Some (ucast (lo_rd L), load_result L dresp))
    \<and> load_executed \<lparr>lo_pc = pc, lo_inst = encode_op (Load sg sz rd rs1 imm), lo_rd = rd, lo_signed = sg, lo_size = sz,
        lo_addr = word_of_int (uint (R1 rs1) + sint imm)\<rparr> R1 s'"
proof -
  define wd where "wd = encode_op (Load sg sz rd rs1 imm)"
  let ?u = "decode_uop pc wd"
  obtain u0 mt0 fl0 where ren0: "rename_uop ?u (ren_int_map_table (bs_rename s)) (ren_int_free_list (bs_rename s)) = (u0, mt0, fl0)"
    by (metis prod_cases3)
  note ld0 = renamed_load(3-6) [OF ren0 wd_def i(3)]
  have u: "?u = decode_uop (irs_address resp) (irs_instruction resp)" "uop_uopc ?u \<noteq> 0"
    "uop_iq_type ?u = IQ_ALU \<or> uop_iq_type ?u = IQ_MEM" "writes_int ?u = (rd \<noteq> 0)"
    "rd \<noteq> 0 \<Longrightarrow> ri_ldst (uop_rename ?u) = ucast rd"
    using i ld0 by (simp_all add: wd_def)
  obtain s' ce x u' mt fl r where c: "boom_core_step s p = (s', p\<lparr>pipe_dmem_resp := [], pipe_imem_resp := [], pipe_commit_trace := [ce]\<rparr>)"
    "retired ce = (lo_pc L, lo_inst L, if lo_rd L = 0 then None else Some (ucast (lo_rd L), load_result L dresp))"
    "arch_view x = R1" "rename_uop ?u (ren_int_map_table (bs_rename x)) (ren_int_free_list (bs_rename x)) = (u', mt, fl)"
    "r = execute_result (u'\<lparr>uop_queue := (uop_queue u')\<lparr>qi_rob_idx := rob_head (bs_rob s')\<rparr>\<rparr>)
        (read_rf (bs_int_rf x) (ri_prs1 (uop_rename u'))) (read_rf (bs_int_rf x) (ri_prs2 (uop_rename u')))"
    "exe_alu_results (bs_execute s') = [r]" "fetched pc s'"
    "rob_single (bs_rob s') (completed_entry r (rob_entry_of u' (rob_head (bs_rob s'))))"
    "writes_back (bs_rename s') (bs_int_rf x) u' rd R1"
    "bs_int_rf s' = (if \<not> ar_is_load r \<and> ri_dst_rtype (uop_rename u') = DST_INT \<and> ri_pdst (uop_rename u') \<noteq> 0
        then (bs_int_rf x)[unat (ri_pdst (uop_rename u')) := ar_result r] else bs_int_rf x)"
    using cycle_load_completes [OF ld p u, folded R1_def, unfolded i(1)] unfolding R1_def by auto
  note res = renamed_load(1) [OF c(4) wd_def i(3), where qu = "(uop_queue u')\<lparr>qi_rob_idx := rob_head (bs_rob s')\<rparr>",
      unfolded c(3), folded c(5)]
  note con = renamed_load(2) [OF c(4) wd_def i(3)]
  let ?e = "rob_entry_of u' (rob_head (bs_rob s'))"
  let ?w = "u'\<lparr>uop_queue := (uop_queue u')\<lparr>qi_rob_idx := rob_head (bs_rob s')\<rparr>\<rparr>"
  let ?L = "\<lparr>lo_pc = pc, lo_inst = wd, lo_rd = rd, lo_signed = sg, lo_size = sz, lo_addr = word_of_int (uint (R1 rs1) + sint imm)\<rparr>"
  have r: "ar_uop r = ?w" "ar_valid r" by (simp_all add: c(5))
  have e: "rob_single (bs_rob s') ?e" "re_uop ?e = ?w" "re_busy ?e" "\<not> re_memory_request_sent ?e" "load_entry ?L ?e"
    using c(8) res con by (simp_all add: completed_entry_def rob_entry_of_def RobEntry0_def load_entry_def)
  have "writes_back (bs_rename s') (bs_int_rf s') (re_uop ?e) rd R1"
    using c(9,10) res writes_back_cong [of ?w u'] by (simp add: e(2))
  then have "load_executed ?L R1 s'"
    using c(6,7) r res e unfolding load_executed_def by (auto intro!: exI [of _ ?e])
  then show ?thesis using c(1,2) unfolding wd_def by blast
qed

section \<open>The cycle that retires the instruction behind the load\<close>

text \<open>The cycle up to commit, when only the finished instruction is left.\<close>

lemma cycle_commits_head:
  assumes g: "fetched pc s"
    and r: "exe_alu_results (bs_execute s) = [r]" "ar_valid r" "\<not> ar_mispredict r" "\<not> ar_memory_valid r"
    and e: "rob_single (bs_rob s) e" "\<not> re_busy e" "\<not> re_is_load e"
    and p: "pipe_imem_req p = []" "pipe_imem_resp p = []" "pipe_dmem_resp p = []"
  shows "\<exists>t req. boom_core_step s p = commit_head t (p\<lparr>pipe_imem_req := [req]\<rparr>) \<and> rob_single (bs_rob t) e
    \<and> exe_alu_results (bs_execute t) = [AluResult0] \<and> iq_idle (iss_alu_iq (bs_issue t))
    \<and> bs_int_rf t = bs_int_rf s \<and> bs_lsu t = bs_lsu s \<and> length (dec_uops (bs_decode t)) = 1 \<and> length (dec_valids (bs_decode t)) = 1
    \<and> bs_rename t = (bs_rename s)\<lparr>ren_renamed_uops := [MicroOp0], ren_renamed_valids := [False]\<rparr>
    \<and> fe_reset_done (bs_frontend t) \<and> fe_request_sent (bs_frontend t) \<and> \<not> fe_response_received (bs_frontend t)
    \<and> \<not> fe_flush (bs_frontend t) \<and> irq_fetch_id req = fe_pending_fetch_id (bs_frontend t) \<and> irq_address req = pc + 4
    \<and> \<not> bs_io_success t \<and> \<not> bs_io_trap t"
proof -
  note g = g [unfolded fetched_def]
  define c where "c = branch_module (csr_module (step_begin s))"
  have c: "\<not> bs_global_flush c" "bs_frontend c = bs_frontend s" "bs_execute c = bs_execute s" "bs_rob c = bs_rob s"
    "bs_lsu c = bs_lsu s" "bs_decode c = bs_decode s" "bs_rename c = bs_rename s" "bs_issue c = bs_issue s"
    "bs_int_rf c = bs_int_rf s" "\<not> bu_valid (bs_brupdate c)" "\<not> bs_io_success c" "\<not> bs_io_trap c"
    using r by (auto simp: c_def csr_module_def step_begin_def branch_module_def branch_lane_def Let_def)
  have rob: "rob_state (bs_rob s) = ROB_NORMAL" "length (rob_entries (bs_rob s)) = ROB_DEPTH"
    using e(1) by (simp_all add: rob_single_def)
  have lsu: "lsu_module c p = (c, p)"
    using r c p(3) g rob(2) rob_single_no_loads [OF e(1,3)] by (intro lsu_idle [of _ _ r]) auto
  obtain fe req where fe: "frontend_module c p = (c\<lparr>bs_frontend := fe\<rparr>, p\<lparr>pipe_imem_req := [req]\<rparr>)"
    "fe_reset_done fe" "fe_request_sent fe" "\<not> fe_response_received fe" "\<not> fe_fetch_packet_valid fe" "\<not> fe_flush fe"
    "irq_fetch_id req = fe_pending_fetch_id fe" "irq_address req = pc + 4"
    using frontend_request [of c "bs_frontend c" p] c g p rob(1) by auto
  obtain t where t: "execute_module (issue_module (rob_allocate (rename_module (decode_module (c\<lparr>bs_frontend := fe\<rparr>))))) = t"
    "exe_alu_results (bs_execute t) = [AluResult0]" "iq_idle (iss_alu_iq (bs_issue t))" "bs_rob t = bs_rob c"
    "bs_int_rf t = bs_int_rf c" "bs_lsu t = bs_lsu c" "bs_frontend t = fe" "\<not> bu_valid (bs_brupdate t)"
    "length (dec_uops (bs_decode t)) = 1" "length (dec_valids (bs_decode t)) = 1" "\<not> bs_io_success t" "\<not> bs_io_trap t"
    "bs_rename t = drained_rename (c\<lparr>bs_frontend := fe\<rparr>)"
    using drain_stages [of "c\<lparr>bs_frontend := fe\<rparr>"] c g fe rob(1) by auto
  have ren: "bs_rename t = (bs_rename s)\<lparr>ren_renamed_uops := [MicroOp0], ren_renamed_valids := [False]\<rparr>"
    using t(13) c(7,10) by (simp add: drained_rename_def)
  let ?p = "p\<lparr>pipe_imem_req := [req]\<rparr>" and ?t = "t\<lparr>bs_rob := (bs_rob t)\<lparr>rob_commit_valid := False\<rparr>\<rparr>"
  have "rob_commit_module t ?p = commit_head ?t ?p"
    using commit_module_ready [of t e AluResult0 ?p] e(1,2) t(2,4,8) c(4) by simp
  then have "boom_core_step s p = commit_head ?t ?p"
    unfolding boom_core_step_def by (simp add: lsu fe(1) t(1) flip: c_def)
  then show ?thesis
    using t(2-12) fe(2-8) e(1) c(4,5,9) ren by (intro exI [of _ ?t] exI [of _ req]) simp
qed

lemma cycle_retire_alu:
  assumes f: "finished i pc v R s"
    and p: "pipe_imem_req p = []" "pipe_imem_resp p = []" "pipe_dmem_resp p = []" "pipe_commit_trace p = []"
  shows "\<exists>s' req ce. boom_core_step s p = (s', p\<lparr>pipe_imem_req := [req], pipe_commit_trace := [ce]\<rparr>)
    \<and> requested p (pc + 4) s' req \<and> arch_view s' = isa_write i v R \<and> retired ce = isa_event i pc v"
proof -
  obtain r e where r: "exe_alu_results (bs_execute s) = [r]" "ar_valid r" "\<not> ar_mispredict r" "\<not> ar_memory_valid r"
    and e: "rob_single (bs_rob s) e" "\<not> re_busy e" "\<not> re_is_load e" "\<not> re_exception e" "\<not> re_is_store e"
      "\<not> dc_is_load (uop_ctrl (re_uop e))" "\<not> dc_is_sta (uop_ctrl (re_uop e))"
      "\<And>pr. retired (commit_entry_of (bs_int_rf s) pr e) = isa_event i pc v" "rename_quiet (commit_rename (re_uop e) (bs_rename s))"
    and f: "fetched pc s" "length (bs_int_rf s) = INT_PHYS_REGS" "arch_view s = isa_write i v R"
    using f by (auto simp: finished_def)
  obtain t req where t: "boom_core_step s p = commit_head t (p\<lparr>pipe_imem_req := [req]\<rparr>)" "rob_single (bs_rob t) e"
    "exe_alu_results (bs_execute t) = [AluResult0]" "iq_idle (iss_alu_iq (bs_issue t))"
    "bs_int_rf t = bs_int_rf s" "bs_lsu t = bs_lsu s" "length (dec_uops (bs_decode t)) = 1" "length (dec_valids (bs_decode t)) = 1"
    "bs_rename t = (bs_rename s)\<lparr>ren_renamed_uops := [MicroOp0], ren_renamed_valids := [False]\<rparr>"
    "fe_reset_done (bs_frontend t)" "fe_request_sent (bs_frontend t)" "\<not> fe_response_received (bs_frontend t)"
    "\<not> fe_flush (bs_frontend t)" "irq_fetch_id req = fe_pending_fetch_id (bs_frontend t)" "irq_address req = pc + 4"
    "\<not> bs_io_success t" "\<not> bs_io_trap t"
    using cycle_commits_head [OF f(1) r e(1-3) p(1-3)] by blast
  let ?ce = "commit_entry_of (bs_int_rf t) (csr_priv (bs_csr t)) e"
  obtain rob' where cm: "commit_head t (p\<lparr>pipe_imem_req := [req]\<rparr>) = (t\<lparr>bs_csr := (bs_csr t)\<lparr>csr_instret := csr_instret (bs_csr t) + 1\<rparr>,
        bs_rename := commit_rename (re_uop e) (bs_rename t), bs_rob := rob'\<rparr>, p\<lparr>pipe_imem_req := [req], pipe_commit_trace := [?ce]\<rparr>)"
    "rob_idle rob'"
    using commit_retires [of t e "p\<lparr>pipe_imem_req := [req]\<rparr>"] t(2) e p(4) by auto
  let ?s' = "t\<lparr>bs_csr := (bs_csr t)\<lparr>csr_instret := csr_instret (bs_csr t) + 1\<rparr>,
        bs_rename := commit_rename (re_uop e) (bs_rename t), bs_rob := rob'\<rparr>"
  have "requested p (pc + 4) ?s' req \<and> arch_view ?s' = isa_write i v R"
    using t(3-17) e(9) cm(2) f by (simp add: requested_def core_quiet_def arch_view_rename fetched_def)
  moreover have "retired ?ce = isa_event i pc v" using e(8) t(5) by simp
  ultimately show ?thesis using t(1) cm(1) by (intro exI [of _ ?s'] exI [of _ req] exI [of _ ?ce]) simp
qed

end
