(* ===== verification/LsuSystem.thy ===== *)
theory LsuSystem
  imports Loads
begin

text \<open>
  The core closed with an instruction memory and a data memory that answers in the next
  cycle, the loop \<open>run\<close> of \<open>tb/differential/lsu_minimal_tests.cpp\<close>: it runs the instruction
  set with loads and stores, and what the memory holds is the memory of the instruction set.
\<close>

section \<open>The architecture with a byte memory\<close>

text \<open>\<open>ma_load\<close>: the last instruction was a load, which retires together with the next.\<close>

record MArch =
  ma_arch :: Arch
  ma_bytes :: "u8 list"
  ma_load :: bool

definition load_address :: "Arch \<Rightarrow> 5 word \<Rightarrow> 12 word \<Rightarrow> u64" where
  "load_address B rs1 imm = word_of_int (uint (arch_regs B rs1) + sint imm)"

definition plain_store :: "Arch \<Rightarrow> Instr \<Rightarrow> (u64 \<times> u64 \<times> 2 word) option" where
  "plain_store B i = isa_store i (arch_read (arch_regs B) (isa_rs1 i)) (arch_read (arch_regs B) (isa_rs2 i))"

definition plain_target :: "Arch \<Rightarrow> Instr \<Rightarrow> u64 option" where
  "plain_target B i = isa_target i (arch_pc B) (arch_read (arch_regs B) (isa_rs1 i)) (arch_read (arch_regs B) (isa_rs2 i))"

definition mem_step :: "(u64 \<Rightarrow> Op) \<Rightarrow> MArch \<Rightarrow> MArch" where
  "mem_step code A =
    (let B = ma_arch A; pc = arch_pc B
     in case code pc of
          Plain i \<Rightarrow> \<lparr>ma_arch = isa_step (\<lambda>_. i) B,
            ma_bytes = (case plain_store B i of None \<Rightarrow> ma_bytes A | Some w \<Rightarrow> store_spec w (ma_bytes A)), ma_load = False\<rparr>
        | Load sg sz rd rs1 imm \<Rightarrow>
            (let v = load_spec (ma_bytes A) sg sz (load_address B rs1 imm)
             in \<lparr>ma_arch = B\<lparr>arch_pc := pc + 4, arch_regs := (if rd = 0 then arch_regs B else (arch_regs B)(rd := v)),
                   arch_trace := arch_trace B @ [(pc, encode_op (code pc), if rd = 0 then None else Some (ucast rd, v))]\<rparr>,
                 ma_bytes = ma_bytes A, ma_load = True\<rparr>))"

text \<open>
  The conditions on an instruction: the memory holds its encoding, the core supports it, the
  next address is a word address, loads are naturally aligned, and a jump or taken branch
  does not follow a load.
\<close>

definition op_ready :: "MArch \<Rightarrow> Op \<Rightarrow> bool" where
  "op_ready A op = (case op of
     Plain i \<Rightarrow> \<not> ma_load A \<or> plain_target (ma_arch A) i = None
   | Load sg sz rd rs1 imm \<Rightarrow> unat (load_address (ma_arch A) rs1 imm) mod 2 ^ unat sz = 0)"

definition mem_ready :: "(u64 \<Rightarrow> u32) \<Rightarrow> (u64 \<Rightarrow> Op) \<Rightarrow> MArch \<Rightarrow> bool" where
  "mem_ready imem code A = (let op = code (arch_pc (ma_arch A))
     in imem (arch_pc (ma_arch A)) = encode_op op \<and> op_supports op \<and> op_ready A op
        \<and> aligned (arch_pc (ma_arch (mem_step code A))))"

fun mem_runs :: "(u64 \<Rightarrow> u32) \<Rightarrow> (u64 \<Rightarrow> Op) \<Rightarrow> nat \<Rightarrow> MArch \<Rightarrow> bool" where
  "mem_runs imem code 0 A = True"
| "mem_runs imem code (Suc n) A = (mem_ready imem code A \<and> mem_runs imem code n (mem_step code A))"

section \<open>The data memory\<close>

definition prompt :: "DMemModel \<Rightarrow> bool" where
  "prompt d = (\<not> dm_delay_load d \<and> \<not> dm_send_stale_first d \<and> \<not> dm_pending_valid d)"

abbreviation signals :: "ImemRequest list \<Rightarrow> ImemResponse list \<Rightarrow> DmemRequest list \<Rightarrow> DmemResponse list \<Rightarrow> CommitEntry list \<Rightarrow> PipeSignals" where
  "signals iq ip dq dp ct \<equiv> \<lparr>pipe_imem_req = iq, pipe_imem_resp = ip, pipe_dmem_req = dq, pipe_dmem_resp = dp, pipe_commit_trace = ct\<rparr>"

definition load_answer :: "u8 list \<Rightarrow> DmemRequest \<Rightarrow> DmemResponse" where
  "load_answer bytes req = DmemResponse0\<lparr>drs_transaction_id := drq_transaction_id req,
     drs_data := read64 bytes (drq_address req), drs_read_data := read64 bytes (drq_address req), drs_exception := False\<rparr>"

lemma dmem_step_idle: "prompt d \<Longrightarrow> dmem_step seen d (signals iq ip [] dp ct) = (d, signals iq ip [] dp ct)"
  by (simp add: prompt_def dmem_step_def dmem_pending_def stream_empty_def)

lemma dmem_step_load:
  assumes "prompt d" "\<not> drq_is_store dreq"
  shows "dmem_step seen d (signals iq ip [dreq] [] ct)
    = (d\<lparr>dm_load_count := dm_load_count d + 1\<rparr>, signals iq ip [] [load_answer (dm_bytes d) dreq] ct)"
  using assms by (simp add: prompt_def dmem_step_def dmem_pending_def stream_empty_def stream_read_def dmem_load_def
      make_load_response_def load_answer_def stream_full_def stream_write_def Let_def)

lemma dmem_step_store:
  assumes "prompt d" "store_matches w dreq"
  shows "dmem_step seen d (signals iq ip [dreq] [] ct) = (dmem_store seen dreq d, signals iq ip [] [] ct)"
  using assms by (simp add: prompt_def dmem_step_def dmem_pending_def stream_empty_def stream_read_def
      store_matches_def split: prod.splits)

text \<open>What the tests read of the memory, as a function of the stores.\<close>

definition tohost_of :: "u64 \<Rightarrow> bool \<times> u64 \<Rightarrow> (u64 \<times> u64 \<times> 2 word) list \<Rightarrow> bool \<times> u64" where
  "tohost_of th = foldl (\<lambda>st w. if fst w = th then (True, fst (snd w)) else st)"

definition dmem_matches :: "DMemModel \<Rightarrow> MArch \<Rightarrow> DMemModel \<Rightarrow> bool" where
  "dmem_matches d0 A d = (prompt d \<and> dm_bytes d = ma_bytes A \<and> length (ma_bytes A) < 2 ^ 64
     \<and> dm_tohost_addr d = dm_tohost_addr d0 \<and> dm_store_before_commit d = dm_store_before_commit d0
     \<and> dm_store_count d = dm_store_count d0 + int (length (arch_stores (ma_arch A)))
     \<and> (dm_saw_tohost d, dm_tohost_value d)
         = tohost_of (dm_tohost_addr d0) (dm_saw_tohost d0, dm_tohost_value d0) (arch_stores (ma_arch A)))"

lemma dmem_matches_store:
  assumes m: "dmem_matches d0 A d" and w: "store_matches w dreq"
    and B: "arch_stores (ma_arch B) = arch_stores (ma_arch A) @ [w]" "ma_bytes B = store_spec w (ma_bytes A)"
  shows "dmem_matches d0 B (dmem_store True dreq d)"
proof -
  obtain a x sz where wd: "w = (a, x, sz)" by (cases w)
  have r: "drq_address dreq = a" "drq_write_data dreq = x" "drq_write_mask dreq = mask_for_size (ucast sz)"
    using w by (simp_all add: store_matches_def wd)
  have "bit (mask_for_size (ucast sz)) 0" by (simp only: bit_mask_for_size) simp
  then have nz: "mask_for_size (ucast sz) \<noteq> 0" by (metis bit_0_eq bot_apply bot_bool_def)
  have len: "length (dm_bytes d) < 2 ^ 64" using m by (simp add: dmem_matches_def)
  have b: "dm_bytes (dmem_store True dreq d) = store_spec w (dm_bytes d)"
    using nz write_masked_spec [OF len, of a x sz] by (auto simp: dmem_store_def r wd Let_def)
  have l: "length (ma_bytes B) = length (ma_bytes A)" by (simp add: B(2) store_spec_def wd)
  then show ?thesis
    using m b B by (auto simp: dmem_matches_def dmem_store_def prompt_def tohost_of_def r wd Let_def)
qed

lemma dmem_matches_same:
  assumes "dmem_matches d0 A d" "arch_stores (ma_arch B) = arch_stores (ma_arch A)" "ma_bytes B = ma_bytes A"
  shows "dmem_matches d0 B d" "dmem_matches d0 B (d\<lparr>dm_load_count := n\<rparr>)"
  using assms by (simp_all add: dmem_matches_def prompt_def)

section \<open>Two cycles\<close>

text \<open>Between two instructions: nothing in flight, or a load whose answer has just arrived.\<close>

definition load_event :: "LoadOp \<Rightarrow> u64 \<Rightarrow> u64 \<times> u32 \<times> (u8 \<times> u64) option" where
  "load_event L v = (lo_pc L, lo_inst L, if lo_rd L = 0 then None else Some (ucast (lo_rd L), v))"

definition rests :: "Arch \<Rightarrow> ImemRequest \<Rightarrow> CommitEntry list \<Rightarrow> BoomCoreState \<Rightarrow> bool" where
  "rests B req log s = (requested PipeSignals0 (arch_pc B) s req \<and> arch_view s = arch_regs B \<and> map retired log = arch_trace B)"

definition awaits :: "Arch \<Rightarrow> ImemRequest \<Rightarrow> CommitEntry list \<Rightarrow> DmemResponse \<Rightarrow> BoomCoreState \<Rightarrow> bool" where
  "awaits B req log dresp s = (\<exists>L R dreq. load_sent L R req dreq s \<and> drs_transaction_id dresp = drq_transaction_id dreq
     \<and> \<not> drs_exception dresp \<and> arch_pc B = lo_pc L + 4 \<and> arch_regs B = load_write L (load_result L dresp) R
     \<and> arch_trace B = map retired log @ [load_event L (load_result L dresp)])"

definition lsu_matches :: "DMemModel \<Rightarrow> MArch \<Rightarrow> RunResult \<Rightarrow> bool" where
  "lsu_matches d0 A r = (dmem_matches d0 A (rr_dmem r) \<and> (\<exists>req.
     if ma_load A
     then \<exists>dresp. rr_pipe r = signals [req] [] [] [dresp] [] \<and> awaits (ma_arch A) req (rr_commits r) dresp (rr_state r)
     else rr_pipe r = signals [req] [] [] [] [] \<and> rests (ma_arch A) req (rr_commits r) (rr_state r)))"

definition runs_on :: "RunResult \<Rightarrow> RunResult \<Rightarrow> bool" where
  "runs_on r r1 = (rr_dmem r1 = rr_dmem r \<and> \<not> bs_io_success (rr_state r1) \<and> \<not> bs_io_trap (rr_state r1))"

lemma two_lsu_cycles:
  assumes r: "rr_pipe r = signals [req] [] [] X []" "prompt (rr_dmem r)"
    and s1: "boom_core_step (rr_state r) (signals [] [imem_answer imem req] [] X []) = (s1, signals [] [] [] [] ces1)"
      "\<not> bs_io_success s1" "\<not> bs_io_trap s1"
    and s2: "boom_core_step s1 (signals [] [] [] [] []) = (s2, signals [req'] [] dreqs [] ces2)"
    and d: "dmem_step (rr_store_commit_seen r \<or> list_ex ce_is_store ces1 \<or> list_ex ce_is_store ces2) (rr_dmem r)
      (signals [req'] [] dreqs [] []) = (d2, signals [req'] [] [] Y [])"
  defines "cyc \<equiv> lsu_run_cycle imem"
  shows "runs_on r (cyc r)" "cyc (cyc r) = \<lparr>rr_state = s2, rr_commits = rr_commits r @ ces1 @ ces2, rr_dmem = d2,
    rr_pipe = signals [req'] [] [] Y [], rr_store_commit_seen = rr_store_commit_seen r \<or> list_ex ce_is_store ces1 \<or> list_ex ce_is_store ces2\<rparr>"
proof -
  have "tb_respond imem (rr_pipe r) = signals [] [imem_answer imem req] [] X []"
    by (simp add: r(1) tb_respond_def stream_empty_def stream_read_def stream_full_def stream_write_def)
  then have c: "cyc r = \<lparr>rr_state = s1, rr_commits = rr_commits r @ ces1, rr_dmem = rr_dmem r,
      rr_pipe = signals [] [] [] [] [], rr_store_commit_seen = rr_store_commit_seen r \<or> list_ex ce_is_store ces1\<rparr>"
    by (simp add: cyc_def lsu_run_cycle_def s1(1) dmem_step_idle [OF r(2)])
  then show "runs_on r (cyc r)" using s1(2,3) by (simp add: runs_on_def)
  have "tb_respond imem (signals [] [] [] [] []) = signals [] [] [] [] []"
    by (simp add: tb_respond_def stream_empty_def)
  then show "cyc (cyc r) = \<lparr>rr_state = s2, rr_commits = rr_commits r @ ces1 @ ces2, rr_dmem = d2,
    rr_pipe = signals [req'] [] [] Y [], rr_store_commit_seen = rr_store_commit_seen r \<or> list_ex ce_is_store ces1 \<or> list_ex ce_is_store ces2\<rparr>"
    using d by (simp add: c) (simp add: cyc_def lsu_run_cycle_def s2)
qed

text \<open>The memory after the two cycles: unchanged, or with the store of the instruction.\<close>

lemma dmem_after_plain:
  assumes m: "dmem_matches d0 A d" and i: "code (arch_pc (ma_arch A)) = Plain i"
    and w: "arch_stores (isa_step (\<lambda>_. i) (ma_arch A)) = arch_stores (ma_arch A) @ ws" "list_all2 store_matches ws dreqs"
      "length dreqs \<le> 1" "dreqs \<noteq> [] \<Longrightarrow> seen"
  shows "\<exists>d2. dmem_step seen d (signals iq [] dreqs [] []) = (d2, signals iq [] [] [] []) \<and> dmem_matches d0 (mem_step code A) d2"
proof -
  have p: "prompt d" using m by (simp add: dmem_matches_def)
  let ?w = "plain_store (ma_arch A) i"
  have ws: "ws = (case ?w of None \<Rightarrow> [] | Some w \<Rightarrow> [w])"
    using w(1) by (simp add: isa_step_def plain_store_def Let_def)
  have B: "arch_stores (ma_arch (mem_step code A)) = arch_stores (ma_arch A) @ ws"
    "ma_bytes (mem_step code A) = (case ?w of None \<Rightarrow> ma_bytes A | Some w \<Rightarrow> store_spec w (ma_bytes A))"
    using w(1) by (simp_all add: mem_step_def i Let_def)
  show ?thesis
  proof (cases ?w)
    case None
    then have "dreqs = []" using w(2) ws by simp
    then show ?thesis using dmem_step_idle [OF p] dmem_matches_same(1) [OF m] B None ws by simp
  next
    case (Some w')
    then obtain dreq where dr: "dreqs = [dreq]" "store_matches w' dreq" using w(2) ws by (auto simp: list_all2_Cons1)
    have seen using w(4) dr(1) by simp
    then show ?thesis
      using dmem_step_store [OF p dr(2), of seen iq "[]" "[]"] dmem_matches_store [OF m dr(2), of "mem_step code A"] B Some ws
      by (simp add: dr(1))
  qed
qed

lemma pair_plain:
  assumes m: "lsu_matches d0 A r" "\<not> ma_load A" and i: "code (arch_pc (ma_arch A)) = Plain i" "mem_ready imem code A"
  defines "cyc \<equiv> lsu_run_cycle imem"
  shows "runs_on r (cyc r) \<and> lsu_matches d0 (mem_step code A) (cyc (cyc r))"
proof -
  define B where "B = ma_arch A"
  obtain req where r: "rr_pipe r = signals [req] [] [] [] []" "rests B req (rr_commits r) (rr_state r)"
    and dm: "dmem_matches d0 A (rr_dmem r)"
    using m by (auto simp: lsu_matches_def B_def)
  let ?s = "rr_state r" and ?p = "signals [] [imem_answer imem req] [] [] []"
  have q: "core_quiet ?s" "fe_request_sent (bs_frontend ?s)" "arch_view ?s = arch_regs B" "irq_address req = arch_pc B"
    "irq_fetch_id req = fe_pending_fetch_id (bs_frontend ?s)" "map retired (rr_commits r) = arch_trace B"
    using r(2) by (auto simp: rests_def requested_def)
  have step: "ma_arch (mem_step code A) = isa_step (\<lambda>_. i) B" "\<not> ma_load (mem_step code A)"
    using i(1) by (simp_all add: mem_step_def B_def Let_def)
  have sup: "core_supports i" "aligned (arch_pc (isa_step (\<lambda>_. i) B))" "imem (arch_pc B) = encode i"
    using i step(1) by (simp_all add: mem_ready_def B_def Let_def)
  have p: "pipe_imem_req ?p = []" "pipe_imem_resp ?p = [imem_answer imem req]" "pipe_dmem_resp ?p = []" "pipe_commit_trace ?p = []"
    "\<not> stream_full (pipe_dmem_req ?p)"
    by (simp_all add: stream_full_def)
  obtain s1 ces1 s2 ces2 dreqs req' ws where
    s1: "boom_core_step ?s ?p = (s1, ?p\<lparr>pipe_imem_resp := [], pipe_commit_trace := ces1\<rparr>)" "\<not> bs_io_success s1" "\<not> bs_io_trap s1"
    and s2: "boom_core_step s1 (?p\<lparr>pipe_imem_resp := []\<rparr>) =
        (s2, ?p\<lparr>pipe_imem_resp := [], pipe_imem_req := [req'], pipe_dmem_req := pipe_dmem_req ?p @ dreqs, pipe_commit_trace := ces2\<rparr>)"
    and n: "requested ?p (arch_pc (isa_step (\<lambda>_. i) B)) s2 req'" "arch_view s2 = arch_regs (isa_step (\<lambda>_. i) B)"
      "arch_trace (isa_step (\<lambda>_. i) B) = arch_trace B @ map retired (ces1 @ ces2)"
    and w: "arch_stores (isa_step (\<lambda>_. i) B) = arch_stores B @ ws" "list_all2 store_matches ws dreqs" "length ces1 + length dreqs \<le> 1"
      "list_ex ce_is_store ces2 = (dreqs \<noteq> [])"
    using two_cycles [OF q(1-5) p, of "\<lambda>_. i", OF sup] by blast
  let ?seen = "rr_store_commit_seen r \<or> list_ex ce_is_store ces1 \<or> list_ex ce_is_store ces2"
  obtain d2 where d2: "dmem_step ?seen (rr_dmem r) (signals [req'] [] dreqs [] []) = (d2, signals [req'] [] [] [] [])"
    "dmem_matches d0 (mem_step code A) d2"
    using dmem_after_plain [where code = code, OF dm i(1), of ws dreqs ?seen "[req']"] w by (auto simp: B_def)
  have pr: "prompt (rr_dmem r)" using dm by (simp add: dmem_matches_def)
  have s1': "boom_core_step ?s ?p = (s1, signals [] [] [] [] ces1)"
    and s2': "boom_core_step s1 (signals [] [] [] [] []) = (s2, signals [req'] [] dreqs [] ces2)"
    using s1(1) s2 by simp_all
  note c = two_lsu_cycles [OF r(1) pr s1' s1(2,3) s2' d2(1), folded cyc_def]
  have "rests (isa_step (\<lambda>_. i) B) req' (rr_commits r @ ces1 @ ces2) s2"
    using n q(6) by (simp add: rests_def requested_pipe [of ?p])
  then show ?thesis
    using c d2(2) step by (simp add: lsu_matches_def)
qed

lemma mem_step_load:
  assumes "code (arch_pc (ma_arch A)) = Load sg sz rd rs1 imm"
  defines "B \<equiv> ma_arch A" and "v \<equiv> load_spec (ma_bytes A) sg sz (load_address (ma_arch A) rs1 imm)"
  shows "mem_step code A = \<lparr>ma_arch = B\<lparr>arch_pc := arch_pc B + 4, arch_regs := (if rd = 0 then arch_regs B else (arch_regs B)(rd := v)),
      arch_trace := arch_trace B @ [(arch_pc B, encode_op (Load sg sz rd rs1 imm), if rd = 0 then None else Some (ucast rd, v))]\<rparr>,
    ma_bytes = ma_bytes A, ma_load = True\<rparr>"
  using assms(1) by (simp add: mem_step_def B_def v_def Let_def)

text \<open>The second cycle of a load: the request goes out and is answered.\<close>

lemma load_goes_out:
  assumes dm: "dmem_matches d0 A d" and i: "code (arch_pc (ma_arch A)) = Load sg sz rd rs1 imm" "mem_ready imem code A"
  defines "B \<equiv> ma_arch A"
  defines "L \<equiv> \<lparr>lo_pc = arch_pc B, lo_inst = encode_op (Load sg sz rd rs1 imm), lo_rd = rd, lo_signed = sg, lo_size = sz,
      lo_addr = load_address B rs1 imm\<rparr>"
  assumes ex: "load_executed L (arch_regs B) s1" and log: "map retired log = arch_trace B"
  shows "\<exists>s2 req dreq d2. boom_core_step s1 (signals [] [] [] [] []) = (s2, signals [req] [] [dreq] [] [])
    \<and> dmem_step seen d (signals [req] [] [dreq] [] []) = (d2, signals [req] [] [] [load_answer (dm_bytes d) dreq] [])
    \<and> dmem_matches d0 (mem_step code A) d2 \<and> awaits (ma_arch (mem_step code A)) req log (load_answer (dm_bytes d) dreq) s2"
proof -
  have pr: "prompt d" "dm_bytes d = ma_bytes A" "length (ma_bytes A) < 2 ^ 64" using dm by (simp_all add: dmem_matches_def)
  obtain s2 req dreq where s2: "boom_core_step s1 (signals [] [] [] [] []) = (s2, signals [req] [] [dreq] [] [])"
    "load_sent L (arch_regs B) req dreq s2"
    using cycle_request_load [OF ex, of "signals [] [] [] [] []"] by (auto simp: stream_full_def)
  let ?ans = "load_answer (dm_bytes d) dreq"
  have dr: "\<not> drq_is_store dreq" "drq_address dreq = lo_addr L" using s2(2) by (auto simp: load_sent_def)
  have al: "unat (lo_addr L) mod 2 ^ unat sz = 0" using i by (simp add: mem_ready_def op_ready_def L_def B_def)
  have "response_data ?ans = read64 (ma_bytes A) (lo_addr L)"
    using pr(2) dr(2) by (simp add: load_answer_def response_data_def)
  then have v: "load_result L ?ans = load_spec (ma_bytes A) sg sz (lo_addr L)"
    using load_value_spec [OF pr(3) al, of sg] by (simp add: load_result_def L_def)
  have step: "ma_arch (mem_step code A) = B\<lparr>arch_pc := arch_pc B + 4, arch_regs := load_write L (load_result L ?ans) (arch_regs B),
      arch_trace := arch_trace B @ [load_event L (load_result L ?ans)]\<rparr>"
    "arch_stores (ma_arch (mem_step code A)) = arch_stores B" "ma_bytes (mem_step code A) = ma_bytes A"
    unfolding v by (simp_all add: mem_step_load [where code = code, OF i(1)] load_write_def load_event_def L_def B_def)
  have "awaits (ma_arch (mem_step code A)) req log ?ans s2"
    unfolding awaits_def step using s2(2) log
    by (intro exI [of _ L] exI [of _ "arch_regs B"] exI [of _ dreq]) (simp add: load_answer_def L_def)
  then show ?thesis
    using s2(1) dmem_step_load [OF pr(1) dr(1), of seen "[req]" "[]" "[]"]
      dmem_matches_same(2) [OF dm step(2) [unfolded B_def] step(3)] by blast
qed

lemma pair_load:
  assumes m: "lsu_matches d0 A r" "\<not> ma_load A" and i: "code (arch_pc (ma_arch A)) = Load sg sz rd rs1 imm" "mem_ready imem code A"
  defines "cyc \<equiv> lsu_run_cycle imem"
  shows "runs_on r (cyc r) \<and> lsu_matches d0 (mem_step code A) (cyc (cyc r))"
proof -
  define B where "B = ma_arch A"
  obtain req where r: "rr_pipe r = signals [req] [] [] [] []" "rests B req (rr_commits r) (rr_state r)"
    and dm: "dmem_matches d0 A (rr_dmem r)"
    using m by (auto simp: lsu_matches_def B_def)
  let ?s = "rr_state r" and ?p = "signals [] [imem_answer imem req] [] [] []" and ?w = "encode_op (Load sg sz rd rs1 imm)"
  have q: "core_quiet ?s" "fe_request_sent (bs_frontend ?s)" "arch_view ?s = arch_regs B" "map retired (rr_commits r) = arch_trace B"
    "irq_address req = arch_pc B" "irq_fetch_id req = fe_pending_fetch_id (bs_frontend ?s)"
    using r(2) by (auto simp: rests_def requested_def)
  have sup: "imem (arch_pc B) = ?w" "sg \<or> sz \<noteq> 3" using i by (simp_all add: mem_ready_def B_def Let_def)
  have resp: "irs_address (imem_answer imem req) = arch_pc B" "irs_instruction (imem_answer imem req) = ?w"
    "irs_fetch_id (imem_answer imem req) = fe_pending_fetch_id (bs_frontend ?s)"
    using q sup(1) by (simp_all add: imem_answer_def ImemResponse0_def)
  define L where "L = \<lparr>lo_pc = arch_pc B, lo_inst = ?w, lo_rd = rd, lo_signed = sg, lo_size = sz, lo_addr = load_address B rs1 imm\<rparr>"
  obtain s1 where s1: "boom_core_step ?s ?p = (s1, signals [] [] [] [] [])" "load_executed L (arch_regs B) s1"
    using cycle_execute_load [OF q(1,2), of ?p "imem_answer imem req", OF _ resp(3) _ resp(1,2) sup(2)] q(3)
    by (auto simp: L_def load_address_def)
  have io: "\<not> bs_io_success s1" "\<not> bs_io_trap s1" using s1(2) by (auto simp: load_executed_def fetched_def)
  let ?seen = "rr_store_commit_seen r \<or> list_ex ce_is_store ([] :: CommitEntry list) \<or> list_ex ce_is_store ([] :: CommitEntry list)"
  obtain s2 req' dreq d2 where s2: "boom_core_step s1 (signals [] [] [] [] []) = (s2, signals [req'] [] [dreq] [] [])"
    and d2: "dmem_step ?seen (rr_dmem r) (signals [req'] [] [dreq] [] []) = (d2, signals [req'] [] [] [load_answer (dm_bytes (rr_dmem r)) dreq] [])"
    "dmem_matches d0 (mem_step code A) d2" "awaits (ma_arch (mem_step code A)) req' (rr_commits r) (load_answer (dm_bytes (rr_dmem r)) dreq) s2"
    using load_goes_out [where code = code, OF dm i, folded B_def, folded L_def, OF s1(2) q(4)] by blast
  have pr: "prompt (rr_dmem r)" using dm by (simp add: dmem_matches_def)
  note c = two_lsu_cycles [OF r(1) pr s1(1) io s2 d2(1), folded cyc_def]
  have "ma_load (mem_step code A)" by (simp add: mem_step_load [where code = code, OF i(1)])
  then show ?thesis using c d2(2,3) by (simp add: lsu_matches_def)
qed

text \<open>Behind a load: its answer and the next instruction arrive in the same cycle.\<close>

lemma awaitsE:
  assumes "awaits B req log dresp s"
  obtains L R dreq where "load_sent L R req dreq s" "drs_transaction_id dresp = drq_transaction_id dreq" "\<not> drs_exception dresp"
    "arch_pc B = lo_pc L + 4" "arch_regs B = load_write L (load_result L dresp) R"
    "arch_trace B = map retired log @ [load_event L (load_result L dresp)]"
    "irs_address (imem_answer imem req) = arch_pc B" "irs_instruction (imem_answer imem req) = imem (arch_pc B)"
    "irs_fetch_id (imem_answer imem req) = irq_fetch_id req"
proof -
  from assms obtain L R dreq where a: "load_sent L R req dreq s" "drs_transaction_id dresp = drq_transaction_id dreq" "\<not> drs_exception dresp"
    "arch_pc B = lo_pc L + 4" "arch_regs B = load_write L (load_result L dresp) R"
    "arch_trace B = map retired log @ [load_event L (load_result L dresp)]"
    unfolding awaits_def by blast
  then have "irq_address req = arch_pc B" by (simp add: load_sent_def)
  then show thesis using that [OF a] by (simp add: imem_answer_def ImemResponse0_def)
qed

lemma awaits_plain:
  assumes aw: "awaits B req log dresp s" and i: "core_supports i" "imem (arch_pc B) = encode i" "plain_target B i = None"
  defines "C \<equiv> isa_step (\<lambda>_. i) B"
  shows "\<exists>s1 ces1 s2 ces2 dreqs req' ws. boom_core_step s (signals [] [imem_answer imem req] [] [dresp] []) = (s1, signals [] [] [] [] ces1)
    \<and> \<not> bs_io_success s1 \<and> \<not> bs_io_trap s1
    \<and> boom_core_step s1 (signals [] [] [] [] []) = (s2, signals [req'] [] dreqs [] ces2)
    \<and> rests C req' (log @ ces1 @ ces2) s2 \<and> arch_stores C = arch_stores B @ ws \<and> list_all2 store_matches ws dreqs
    \<and> length dreqs \<le> 1 \<and> (dreqs \<noteq> [] \<longrightarrow> list_ex ce_is_store ces2)"
proof -
  let ?p = "signals [] [imem_answer imem req] [] [dresp] []"
  obtain L R dreq where a: "load_sent L R req dreq s" "drs_transaction_id dresp = drq_transaction_id dreq" "\<not> drs_exception dresp"
    "arch_pc B = lo_pc L + 4" "arch_regs B = load_write L (load_result L dresp) R"
    "arch_trace B = map retired log @ [load_event L (load_result L dresp)]"
    and q: "irs_address (imem_answer imem req) = arch_pc B" "irs_instruction (imem_answer imem req) = encode i"
      "irs_fetch_id (imem_answer imem req) = irq_fetch_id req"
    using awaitsE [OF aw, of imem] unfolding i(2) by blast
  define pc a b where "pc = arch_pc B" and "a = arch_read (arch_regs B) (isa_rs1 i)" and "b = arch_read (arch_regs B) (isa_rs2 i)"
  have tg: "isa_target i pc a b = None" using i(3) by (simp add: plain_target_def pc_def a_def b_def)
  have C: "C = \<lparr>arch_pc = pc + 4, arch_regs = isa_write i (isa_value i pc a b) (arch_regs B),
      arch_trace = arch_trace B @ [isa_event i pc (isa_value i pc a b)],
      arch_stores = arch_stores B @ (case isa_store i a b of None \<Rightarrow> [] | Some w \<Rightarrow> [w])\<rparr>"
    using tg by (simp add: C_def isa_step_def Let_def pc_def a_def b_def isa_next_def)
  show ?thesis
  proof (cases "isa_store i a b")
    case None
    obtain s1 ce1 where s1: "boom_core_step s ?p = (s1, signals [] [] [] [] [ce1])" "retired ce1 = load_event L (load_result L dresp)"
      "finished i pc (isa_value i pc a b) (arch_regs B) s1"
      using load_then_alu [OF a(1), of ?p "imem_answer imem req" dresp pc i] q a(2,3,5) i(1) None tg
      by (auto simp: load_event_def pc_def a_def b_def)
    obtain s2 req' ce2 where s2: "boom_core_step s1 (signals [] [] [] [] []) = (s2, signals [req'] [] [] [] [ce2])"
      "requested (signals [] [] [] [] []) (pc + 4) s2 req'" "arch_view s2 = isa_write i (isa_value i pc a b) (arch_regs B)"
      "retired ce2 = isa_event i pc (isa_value i pc a b)"
      using cycle_retire_alu [OF s1(3), of "signals [] [] [] [] []"] by auto
    have "rests C req' (log @ [ce1] @ [ce2]) s2"
      using s1(2) s2(2-4) a(6) by (simp add: rests_def C requested_pipe [of "signals [] [] [] [] []"])
    moreover have "\<not> bs_io_success s1" "\<not> bs_io_trap s1" using s1(3) by (simp_all add: finished_def fetched_def)
    ultimately show ?thesis using s1(1) s2(1) None
      by (intro exI [of _ s1] exI [of _ "[ce1]"] exI [of _ s2] exI [of _ "[ce2]"] exI [of _ "[]"] exI [of _ req'] exI [of _ "[]"])
        (simp add: C)
  next
    case (Some w)
    obtain s1 ce1 where s1: "boom_core_step s ?p = (s1, signals [] [] [] [] [ce1])" "retired ce1 = load_event L (load_result L dresp)"
      "executed i pc a b s1" "arch_view s1 = arch_regs B"
      using load_then_store [OF a(1), of ?p "imem_answer imem req" dresp pc i w] q a(2,3,5) i(1) Some
      by (auto simp: load_event_def pc_def a_def b_def)
    obtain s2 req' ce2 dreq where s2: "boom_core_step s1 (signals [] [] [] [] []) = (s2, signals [req'] [] [dreq] [] [ce2])"
      "requested (signals [] [] [] [] []) (pc + 4) s2 req'" "arch_view s2 = arch_view s1"
      "retired ce2 = (pc, encode i, None)" "ce_is_store ce2" "store_matches w dreq"
      using cycle_request_store [OF s1(3) Some, of "signals [] [] [] [] []"] isa_store_rd [OF Some] by (auto simp: stream_full_def)
    have "rests C req' (log @ [ce1] @ [ce2]) s2"
      using s1(2,4) s2(2-4) a(6) isa_store_rd [OF Some]
      by (simp add: rests_def C requested_pipe [of "signals [] [] [] [] []"] isa_event_def isa_write_def)
    moreover have "\<not> bs_io_success s1" "\<not> bs_io_trap s1" using s1(3) by (simp_all add: executed_def)
    ultimately show ?thesis using s1(1) s2(1,5,6) Some
      by (intro exI [of _ s1] exI [of _ "[ce1]"] exI [of _ s2] exI [of _ "[ce2]"] exI [of _ "[dreq]"] exI [of _ req'] exI [of _ "[w]"])
        (simp add: C)
  qed
qed

lemma pair_load_plain:
  assumes m: "lsu_matches d0 A r" "ma_load A" and i: "code (arch_pc (ma_arch A)) = Plain i" "mem_ready imem code A"
  defines "cyc \<equiv> lsu_run_cycle imem"
  shows "runs_on r (cyc r) \<and> lsu_matches d0 (mem_step code A) (cyc (cyc r))"
proof -
  define B where "B = ma_arch A"
  obtain req dresp where r: "rr_pipe r = signals [req] [] [] [dresp] []" "awaits B req (rr_commits r) dresp (rr_state r)"
    and dm: "dmem_matches d0 A (rr_dmem r)"
    using m by (auto simp: lsu_matches_def B_def)
  have step: "ma_arch (mem_step code A) = isa_step (\<lambda>_. i) B" "\<not> ma_load (mem_step code A)"
    using i(1) by (simp_all add: mem_step_def B_def Let_def)
  have sup: "core_supports i" "imem (arch_pc B) = encode i" "plain_target B i = None"
    using i m(2) by (simp_all add: mem_ready_def op_ready_def B_def Let_def)
  obtain s1 ces1 s2 ces2 dreqs req' ws where
    s1: "boom_core_step (rr_state r) (signals [] [imem_answer imem req] [] [dresp] []) = (s1, signals [] [] [] [] ces1)"
      "\<not> bs_io_success s1" "\<not> bs_io_trap s1"
    and s2: "boom_core_step s1 (signals [] [] [] [] []) = (s2, signals [req'] [] dreqs [] ces2)"
    and n: "rests (isa_step (\<lambda>_. i) B) req' (rr_commits r @ ces1 @ ces2) s2"
    and w: "arch_stores (isa_step (\<lambda>_. i) B) = arch_stores B @ ws" "list_all2 store_matches ws dreqs"
      "length dreqs \<le> 1" "dreqs \<noteq> [] \<longrightarrow> list_ex ce_is_store ces2"
    using awaits_plain [where imem = imem, OF r(2) sup] by blast
  let ?seen = "rr_store_commit_seen r \<or> list_ex ce_is_store ces1 \<or> list_ex ce_is_store ces2"
  obtain d2 where d2: "dmem_step ?seen (rr_dmem r) (signals [req'] [] dreqs [] []) = (d2, signals [req'] [] [] [] [])"
    "dmem_matches d0 (mem_step code A) d2"
    using dmem_after_plain [where code = code, OF dm i(1), of ws dreqs ?seen "[req']"] w by (auto simp: B_def)
  have pr: "prompt (rr_dmem r)" using dm by (simp add: dmem_matches_def)
  note c = two_lsu_cycles [OF r(1) pr s1 s2 d2(1), folded cyc_def]
  show ?thesis using c d2(2) step n by (simp add: lsu_matches_def)
qed

lemma pair_load_load:
  assumes m: "lsu_matches d0 A r" "ma_load A" and i: "code (arch_pc (ma_arch A)) = Load sg sz rd rs1 imm" "mem_ready imem code A"
  defines "cyc \<equiv> lsu_run_cycle imem"
  shows "runs_on r (cyc r) \<and> lsu_matches d0 (mem_step code A) (cyc (cyc r))"
proof -
  define B where "B = ma_arch A"
  obtain req dresp where r: "rr_pipe r = signals [req] [] [] [dresp] []" "awaits B req (rr_commits r) dresp (rr_state r)"
    and dm: "dmem_matches d0 A (rr_dmem r)"
    using m by (auto simp: lsu_matches_def B_def)
  let ?p = "signals [] [imem_answer imem req] [] [dresp] []" and ?w = "encode_op (Load sg sz rd rs1 imm)"
  have sup: "imem (arch_pc B) = ?w" "sg \<or> sz \<noteq> 3" using i by (simp_all add: mem_ready_def B_def Let_def)
  obtain L R dreq where a: "load_sent L R req dreq (rr_state r)" "drs_transaction_id dresp = drq_transaction_id dreq" "\<not> drs_exception dresp"
    "arch_pc B = lo_pc L + 4" "arch_regs B = load_write L (load_result L dresp) R"
    "arch_trace B = map retired (rr_commits r) @ [load_event L (load_result L dresp)]"
    and q: "irs_address (imem_answer imem req) = arch_pc B" "irs_instruction (imem_answer imem req) = ?w"
      "irs_fetch_id (imem_answer imem req) = irq_fetch_id req"
    using awaitsE [OF r(2), of imem] unfolding sup(1) by blast
  define L2 where "L2 = \<lparr>lo_pc = arch_pc B, lo_inst = ?w, lo_rd = rd, lo_signed = sg, lo_size = sz, lo_addr = load_address B rs1 imm\<rparr>"
  obtain s1 ce1 where s1: "boom_core_step (rr_state r) ?p = (s1, signals [] [] [] [] [ce1])" "retired ce1 = load_event L (load_result L dresp)"
      "load_executed L2 (arch_regs B) s1"
    using load_then_load [OF a(1), of ?p "imem_answer imem req" dresp "arch_pc B" sg sz rd rs1 imm] q a(2,3,5) sup(2)
    by (auto simp: load_event_def L2_def load_address_def)
  have io: "\<not> bs_io_success s1" "\<not> bs_io_trap s1" using s1(3) by (auto simp: load_executed_def fetched_def)
  have log: "map retired (rr_commits r @ [ce1]) = arch_trace B" using s1(2) a(6) by simp
  let ?seen = "rr_store_commit_seen r \<or> list_ex ce_is_store [ce1] \<or> list_ex ce_is_store ([] :: CommitEntry list)"
    and ?ans = "\<lambda>dreq. load_answer (dm_bytes (rr_dmem r)) dreq"
  obtain s2 req' dreq' d2 where s2: "boom_core_step s1 (signals [] [] [] [] []) = (s2, signals [req'] [] [dreq'] [] [])"
    and d2: "dmem_step ?seen (rr_dmem r) (signals [req'] [] [dreq'] [] []) = (d2, signals [req'] [] [] [?ans dreq'] [])"
    "dmem_matches d0 (mem_step code A) d2" "awaits (ma_arch (mem_step code A)) req' (rr_commits r @ [ce1]) (?ans dreq') s2"
    using load_goes_out [where code = code, OF dm i, folded B_def, folded L2_def, OF s1(3) log] by blast
  have pr: "prompt (rr_dmem r)" using dm by (simp add: dmem_matches_def)
  note c = two_lsu_cycles [OF r(1) pr s1(1) io s2 d2(1), folded cyc_def]
  have "ma_load (mem_step code A)" by (simp add: mem_step_load [where code = code, OF i(1)])
  then show ?thesis using c d2(2,3) by (simp add: lsu_matches_def)
qed

lemma lsu_pair:
  assumes "lsu_matches d0 A r" "mem_ready imem code A"
  shows "runs_on r (lsu_run_cycle imem r)" "lsu_matches d0 (mem_step code A) (lsu_run_cycle imem (lsu_run_cycle imem r))"
proof -
  have "runs_on r (lsu_run_cycle imem r) \<and> lsu_matches d0 (mem_step code A) (lsu_run_cycle imem (lsu_run_cycle imem r))"
    using pair_plain [OF assms(1)] pair_load [OF assms(1)] pair_load_plain [OF assms(1)] pair_load_load [OF assms(1)] assms(2)
    by (cases "code (arch_pc (ma_arch A))"; cases "ma_load A") auto
  then show "runs_on r (lsu_run_cycle imem r)" "lsu_matches d0 (mem_step code A) (lsu_run_cycle imem (lsu_run_cycle imem r))"
    by blast+
qed

section \<open>Runs\<close>

definition lsu_start :: "DMemModel \<Rightarrow> RunResult" where
  "lsu_start d = \<lparr>rr_state = BoomCoreState0, rr_commits = [], rr_dmem = d, rr_pipe = PipeSignals0, rr_store_commit_seen = False\<rparr>"

definition march_at_reset :: "DMemModel \<Rightarrow> MArch" where
  "march_at_reset d = \<lparr>ma_arch = Arch0, ma_bytes = dm_bytes d, ma_load = False\<rparr>"

lemma lsu_first_cycle:
  fixes imem :: "u64 \<Rightarrow> u32"
  assumes "prompt d" "length (dm_bytes d) < 2 ^ 64"
  defines "r \<equiv> lsu_run_cycle imem (lsu_start d)"
  shows "lsu_matches d (march_at_reset d) r" "runs_on (lsu_start d) r"
proof -
  let ?req = "ImemRequest0\<lparr>irq_address := RESET_VECTOR, irq_fetch_id := 0, irq_kill := False\<rparr>"
  have p0: "PipeSignals0 = signals [] [] [] [] []" by (simp add: PipeSignals0_def)
  have "tb_respond imem PipeSignals0 = PipeSignals0" by (simp add: tb_respond_def stream_empty_def PipeSignals0_def)
  then have r: "r = \<lparr>rr_state = reset_state, rr_commits = [], rr_dmem = d, rr_pipe = signals [?req] [] [] [] [], rr_store_commit_seen = False\<rparr>"
    by (simp add: r_def lsu_start_def lsu_run_cycle_def reset_step) (simp add: p0 dmem_step_idle [OF assms(1)])
  have m: "rests Arch0 ?req [] reset_state"
    using reset_matches by (simp add: core_matches_def rests_def)
  have "dmem_matches d (march_at_reset d) d"
    using assms(1,2) by (simp add: dmem_matches_def march_at_reset_def Arch0_def arch_at_def tohost_of_def)
  then show "lsu_matches d (march_at_reset d) r" using m by (simp add: lsu_matches_def march_at_reset_def r)
  have "core_quiet reset_state" using m by (simp add: rests_def requested_def)
  then show "runs_on (lsu_start d) r" by (simp add: runs_on_def r lsu_start_def core_quiet_def)
qed

lemma lsu_pairs:
  assumes "lsu_matches d0 A r" "mem_runs imem code n A"
  shows "lsu_matches d0 ((mem_step code ^^ n) A) ((lsu_run_cycle imem ^^ (2 * n)) r)"
  using assms
proof (induction n arbitrary: A r)
  case (Suc n)
  then have "lsu_matches d0 (mem_step code A) (lsu_run_cycle imem (lsu_run_cycle imem r))"
    by (intro lsu_pair(2)) simp_all
  from Suc.IH [OF this] Suc.prems(2) show ?case
    unfolding funpow_pair funpow_Suc_right comp_apply [of "mem_step code ^^ n"] by (simp only: mem_runs.simps)
qed simp

lemma lsu_run_matches:
  assumes "mem_runs imem code n (march_at_reset d)" "prompt d" "length (dm_bytes d) < 2 ^ 64"
  shows "lsu_matches d ((mem_step code ^^ n) (march_at_reset d)) ((lsu_run_cycle imem ^^ (2 * n + 1)) (lsu_start d))"
  using lsu_pairs [OF lsu_first_cycle(1) [OF assms(2,3)] assms(1)] by (simp add: funpow_swap1)

text \<open>The flags of the core and of the memory between two instructions.\<close>

lemma lsu_matches_flags:
  assumes "lsu_matches d0 A r"
  shows "\<not> bs_io_success (rr_state r)" "\<not> bs_io_trap (rr_state r)"
    "dm_saw_tohost (rr_dmem r) = (dm_saw_tohost d0 \<or> list_ex (\<lambda>w. fst w = dm_tohost_addr d0) (arch_stores (ma_arch A)))"
proof -
  show "\<not> bs_io_success (rr_state r)" "\<not> bs_io_trap (rr_state r)"
    using assms by (auto simp: lsu_matches_def rests_def requested_def core_quiet_def awaits_def load_sent_def split: if_splits)
  have "fst (tohost_of th st ws) = (fst st \<or> list_ex (\<lambda>w. fst w = th) ws)" for th st ws
    unfolding tohost_of_def by (induction ws arbitrary: st) auto
  from this [of "dm_tohost_addr d0" "(dm_saw_tohost d0, dm_tohost_value d0)" "arch_stores (ma_arch A)"]
  show "dm_saw_tohost (rr_dmem r) = (dm_saw_tohost d0 \<or> list_ex (\<lambda>w. fst w = dm_tohost_addr d0) (arch_stores (ma_arch A)))"
    using assms by (auto simp: lsu_matches_def dmem_matches_def split: prod.splits dest: arg_cong [of _ _ fst])
qed

lemma mem_steps_stores: "\<exists>ws. arch_stores (ma_arch ((mem_step code ^^ n) A)) = arch_stores (ma_arch A) @ ws"
proof (induction n arbitrary: A)
  case (Suc n)
  have "\<exists>ws. arch_stores (ma_arch (mem_step code A)) = arch_stores (ma_arch A) @ ws"
    by (simp add: mem_step_def isa_step_def Let_def split: Op.split option.split)
  then show ?case using Suc [of "mem_step code A"] by (auto simp: funpow_swap1)
qed simp

text \<open>The loop of the bench does not stop during a supported run.\<close>

definition tohost_written :: "DMemModel \<Rightarrow> MArch \<Rightarrow> bool" where
  "tohost_written d A = (dm_saw_tohost d \<or> list_ex (\<lambda>w. fst w = dm_tohost_addr d) (arch_stores (ma_arch A)))"

lemma tohost_written_keeps: "tohost_written d A \<Longrightarrow> tohost_written d ((mem_step code ^^ n) A)"
  using mem_steps_stores [of n code A] by (auto simp: tohost_written_def)

lemma lsu_loop_skip:
  assumes "lsu_matches d0 A r" "mem_runs imem code n A" "stop \<Longrightarrow> \<not> tohost_written d0 ((mem_step code ^^ n) A)"
  shows "lsu_run_loop imem stop (2 * n + k) r = lsu_run_loop imem stop k ((lsu_run_cycle imem ^^ (2 * n)) r)"
  using assms
proof (induction n arbitrary: A r)
  case (Suc n)
  define cyc where "cyc = lsu_run_cycle imem"
  let ?r1 = "cyc r" and ?r2 = "cyc (cyc r)"
  have m: "runs_on r ?r1" "lsu_matches d0 (mem_step code A) ?r2"
    using lsu_pair [OF Suc.prems(1), of imem code] Suc.prems(2) by (simp_all add: cyc_def)
  have saw: "stop \<Longrightarrow> \<not> tohost_written d0 A \<and> \<not> tohost_written d0 (mem_step code A)"
    using Suc.prems(3) tohost_written_keeps [of d0 A "Suc n" code] tohost_written_keeps [of d0 "mem_step code A" n code]
    by (auto simp: funpow_swap1)
  have e: "\<not> run_ends stop ?r1" "\<not> run_ends stop ?r2"
    using m(1) lsu_matches_flags [OF Suc.prems(1)] lsu_matches_flags [OF m(2)] saw
    by (auto simp: run_ends_def runs_on_def tohost_written_def)
  have "lsu_run_loop imem stop (Suc (Suc (2 * n + k))) r = lsu_run_loop imem stop (2 * n + k) ?r2"
    using e by (simp add: Let_def cyc_def)
  also have "\<dots> = lsu_run_loop imem stop k ((cyc ^^ (2 * n)) ?r2)"
    unfolding cyc_def by (rule Suc.IH [OF m(2) [unfolded cyc_def]]) (use Suc.prems(2,3) in \<open>simp_all add: funpow_swap1\<close>)
  finally show ?case by (simp add: funpow_swap1 cyc_def)
qed simp

section \<open>The environment call\<close>

text \<open>Behind a load the call waits for a cycle at the head of the reorder buffer.\<close>

definition call_waits :: "(5 word \<Rightarrow> u64) \<Rightarrow> BoomCoreState \<Rightarrow> bool" where
  "call_waits R s = (\<exists>pc r e. fetched pc s \<and> arch_view s = R \<and> exe_alu_results (bs_execute s) = [r] \<and> ar_valid r
     \<and> \<not> ar_mispredict r \<and> \<not> ar_memory_valid r \<and> rob_single (bs_rob s) e \<and> \<not> re_busy e \<and> re_exception e
     \<and> \<not> re_is_load e \<and> uop_uopc (re_uop e) = 65)"

lemma load_then_ecall:
  assumes ld: "load_sent L R req dreq s"
    and p: "pipe_imem_resp p = [resp]" "irs_fetch_id resp = irq_fetch_id req" "pipe_dmem_resp p = [dresp]"
      "drs_transaction_id dresp = drq_transaction_id dreq" "\<not> drs_exception dresp" "pipe_commit_trace p = []"
    and i: "irs_instruction resp = make_ecall"
  defines "R1 \<equiv> load_write L (load_result L dresp) R"
  shows "\<exists>s' ce. boom_core_step s p = (s', p\<lparr>pipe_dmem_resp := [], pipe_imem_resp := [], pipe_commit_trace := [ce]\<rparr>)
    \<and> retired ce = load_event L (load_result L dresp) \<and> call_waits R1 s'"
proof -
  let ?u = "decode_uop (irs_address resp) make_ecall"
  have u: "?u = decode_uop (irs_address resp) (irs_instruction resp)" "uop_uopc ?u \<noteq> 0"
    "uop_iq_type ?u = IQ_ALU \<or> uop_iq_type ?u = IQ_MEM" "writes_int ?u = ((0 :: 5 word) \<noteq> 0)"
    "(0 :: 5 word) \<noteq> 0 \<Longrightarrow> ri_ldst (uop_rename ?u) = ucast (0 :: 5 word)"
    using i by (simp_all add: decode_ecall ecall_fields writes_int_def)
  obtain s' ce x u' mt fl r where c: "boom_core_step s p = (s', p\<lparr>pipe_dmem_resp := [], pipe_imem_resp := [], pipe_commit_trace := [ce]\<rparr>)"
    "retired ce = (lo_pc L, lo_inst L, if lo_rd L = 0 then None else Some (ucast (lo_rd L), load_result L dresp))"
    "arch_view x = R1" "rename_uop ?u (ren_int_map_table (bs_rename x)) (ren_int_free_list (bs_rename x)) = (u', mt, fl)"
    "r = execute_result (u'\<lparr>uop_queue := (uop_queue u')\<lparr>qi_rob_idx := rob_head (bs_rob s')\<rparr>\<rparr>)
        (read_rf (bs_int_rf x) (ri_prs1 (uop_rename u'))) (read_rf (bs_int_rf x) (ri_prs2 (uop_rename u')))"
    "exe_alu_results (bs_execute s') = [r]" "fetched (irs_address resp) s'"
    "rob_single (bs_rob s') (completed_entry r (rob_entry_of u' (rob_head (bs_rob s'))))"
    "writes_back (bs_rename s') (bs_int_rf x) u' (0 :: 5 word) R1"
    "bs_int_rf s' = (if \<not> ar_is_load r \<and> ri_dst_rtype (uop_rename u') = DST_INT \<and> ri_pdst (uop_rename u') \<noteq> 0
        then (bs_int_rf x)[unat (ri_pdst (uop_rename u')) := ar_result r] else bs_int_rf x)"
    using cycle_load_completes [OF ld p u, folded R1_def] unfolding R1_def by auto
  note re = renamed_ecall [OF c(4)]
  let ?e = "completed_entry r (rob_entry_of u' (rob_head (bs_rob s')))"
  have r: "ar_valid r" "ar_exception r" "\<not> ar_memory_valid r" "\<not> ar_is_load r" "\<not> ar_is_store r" "\<not> ar_mispredict r"
    "\<not> dc_is_load (uop_ctrl (ar_uop r))" "\<not> dc_is_sta (uop_ctrl (ar_uop r))"
    using re by (simp_all add: c(5))
  then have e: "?e = (rob_entry_of u' (rob_head (bs_rob s')))\<lparr>re_busy := False, re_exception := True\<rparr>"
    by (simp add: completed_entry_def)
  have ef: "\<not> re_busy ?e" "re_exception ?e" "\<not> re_is_load ?e" "uop_uopc (re_uop ?e) = 65"
    using re(4) unfolding e by (simp_all add: rob_entry_of_def RobEntry0_def)
  have "arch_view s' = R1" using c(9,10) re(3) by (auto simp: arch_view_rename writes_back_def)
  then have "call_waits R1 s'" unfolding call_waits_def
    using c(6-8) r ef by (intro exI [of _ "irs_address resp"] exI [of _ r] exI [of _ ?e]) simp
  then show ?thesis using c(1,2) by (auto simp: load_event_def)
qed

lemma cycle_call_ends:
  assumes f: "call_waits R s"
    and p: "pipe_imem_req p = []" "pipe_imem_resp p = []" "pipe_dmem_resp p = []"
  shows "\<exists>s' req. boom_core_step s p = (s', p\<lparr>pipe_imem_req := [req]\<rparr>) \<and> ended (R 10) s'"
proof -
  obtain pc r e where r: "exe_alu_results (bs_execute s) = [r]" "ar_valid r" "\<not> ar_mispredict r" "\<not> ar_memory_valid r"
    and e: "rob_single (bs_rob s) e" "\<not> re_busy e" "re_exception e" "\<not> re_is_load e" "uop_uopc (re_uop e) = 65"
    and f: "fetched pc s" "arch_view s = R"
    using f by (auto simp: call_waits_def)
  obtain t req where t: "boom_core_step s p = commit_head t (p\<lparr>pipe_imem_req := [req]\<rparr>)" "rob_single (bs_rob t) e"
    "bs_int_rf t = bs_int_rf s" "bs_rename t = (bs_rename s)\<lparr>ren_renamed_uops := [MicroOp0], ren_renamed_valids := [False]\<rparr>"
    "\<not> bs_io_success t" "\<not> bs_io_trap t"
    using cycle_commits_head [OF f(1) r e(1,2,4) p] by blast
  have "arch_view t = R" using f(2) t(3,4) by (simp add: arch_view_rename)
  then show ?thesis using commit_ecall [OF t(2) e(3,5) t(5,6), of "p\<lparr>pipe_imem_req := [req]\<rparr>"] t(1) by auto
qed

lemma tb_respond_fetch:
  "tb_respond imem (signals [req] [] dq dp ct) = signals [] [imem_answer imem req] dq dp ct"
  by (simp add: tb_respond_def stream_empty_def stream_read_def stream_full_def stream_write_def)

lemma run_ends_ended: "ended a (rr_state r) \<Longrightarrow> run_ends stop r"
  by (auto simp: run_ends_def ended_def)

lemma lsu_call_ends:
  assumes m: "lsu_matches d0 A r" and i: "imem (arch_pc (ma_arch A)) = make_ecall"
    and stop: "stop \<Longrightarrow> \<not> tohost_written d0 A" and k: "2 \<le> k"
  defines "r' \<equiv> lsu_run_loop imem stop k r"
  shows "map retired (rr_commits r') = arch_trace (ma_arch A) \<and> rr_dmem r' = rr_dmem r \<and> ended (arch_regs (ma_arch A) 10) (rr_state r')"
proof -
  define B where "B = ma_arch A"
  obtain k' where k': "k = Suc (Suc k')" using k by (metis add_2_eq_Suc le_Suc_ex)
  have pr: "prompt (rr_dmem r)" using m by (simp add: lsu_matches_def dmem_matches_def)
  show ?thesis
  proof (cases "ma_load A")
    case False
    then obtain req where r: "rr_pipe r = signals [req] [] [] [] []" "rests B req (rr_commits r) (rr_state r)"
      using m by (auto simp: lsu_matches_def B_def)
    have q: "core_quiet (rr_state r)" "fe_request_sent (bs_frontend (rr_state r))" "arch_view (rr_state r) = arch_regs B"
      "map retired (rr_commits r) = arch_trace B" "irs_instruction (imem_answer imem req) = make_ecall"
      "irs_fetch_id (imem_answer imem req) = fe_pending_fetch_id (bs_frontend (rr_state r))"
      using r(2) i by (auto simp: rests_def requested_def imem_answer_def ImemResponse0_def B_def)
    obtain s' where s': "boom_core_step (rr_state r) (signals [] [imem_answer imem req] [] [] []) = (s', signals [] [] [] [] [])"
      "ended (arch_regs B 10) s'"
      using cycle_ecall [OF q(1,2), of "signals [] [imem_answer imem req] [] [] []" "imem_answer imem req"] q(3,5,6) by auto
    define r1 where "r1 = lsu_run_cycle imem r"
    have r1: "rr_commits r1 = rr_commits r" "rr_dmem r1 = rr_dmem r" "rr_state r1 = s'"
      by (simp_all add: r1_def lsu_run_cycle_def r(1) tb_respond_fetch s'(1) dmem_step_idle [OF pr])
    have "r' = r1" using run_ends_ended [of "arch_regs B 10" r1 stop] s'(2) r1(3) by (simp add: r'_def k' Let_def flip: r1_def)
    then show ?thesis using r1 s'(2) q(4) by (simp add: B_def)
  next
    case True
    then obtain req dresp where r: "rr_pipe r = signals [req] [] [] [dresp] []" "awaits B req (rr_commits r) dresp (rr_state r)"
      using m by (auto simp: lsu_matches_def B_def)
    let ?p = "signals [] [imem_answer imem req] [] [dresp] []"
    obtain L R dreq where a: "load_sent L R req dreq (rr_state r)" "drs_transaction_id dresp = drq_transaction_id dreq" "\<not> drs_exception dresp"
      "arch_regs B = load_write L (load_result L dresp) R" "arch_trace B = map retired (rr_commits r) @ [load_event L (load_result L dresp)]"
      and q: "irs_instruction (imem_answer imem req) = make_ecall" "irs_fetch_id (imem_answer imem req) = irq_fetch_id req"
      using awaitsE [OF r(2), of imem] i unfolding B_def by metis
    obtain s1 ce where s1: "boom_core_step (rr_state r) ?p = (s1, signals [] [] [] [] [ce])"
      "retired ce = load_event L (load_result L dresp)" "call_waits (arch_regs B) s1"
      using load_then_ecall [OF a(1), of ?p "imem_answer imem req" dresp] q a(2-4) by auto
    obtain s2 req' where s2: "boom_core_step s1 (signals [] [] [] [] []) = (s2, signals [req'] [] [] [] [])" "ended (arch_regs B 10) s2"
      using cycle_call_ends [OF s1(3), of "signals [] [] [] [] []"] by auto
    have io: "\<not> bs_io_success s1" "\<not> bs_io_trap s1" using s1(3) by (auto simp: call_waits_def fetched_def)
    let ?seen = "rr_store_commit_seen r \<or> list_ex ce_is_store [ce] \<or> list_ex ce_is_store ([] :: CommitEntry list)"
    have d: "dmem_step ?seen (rr_dmem r) (signals [req'] [] [] [] []) = (rr_dmem r, signals [req'] [] [] [] [])"
      by (rule dmem_step_idle [OF pr])
    define r1 r2 where "r1 = lsu_run_cycle imem r" and "r2 = lsu_run_cycle imem r1"
    note c = two_lsu_cycles [OF r(1) pr s1(1) io s2(1) d, folded r1_def, folded r2_def]
    have "\<not> run_ends stop r1"
      using c(1) stop lsu_matches_flags(3) [OF m] by (auto simp: run_ends_def runs_on_def tohost_written_def)
    moreover have "run_ends stop r2" using run_ends_ended [of "arch_regs B 10" r2] s2(2) c(2) by simp
    ultimately have "r' = r2" by (simp add: r'_def k' Let_def flip: r1_def r2_def)
    then show ?thesis using c(2) s1(2) s2(2) a(5) by (simp add: B_def)
  qed
qed

text \<open>A supported program that ends in an environment call is run to its end.\<close>

lemma lsu_reaches_end:
  assumes run: "mem_runs imem code n (march_at_reset d)" "prompt d" "length (dm_bytes d) < 2 ^ 64"
    and A: "A = (mem_step code ^^ n) (march_at_reset d)" "imem (arch_pc (ma_arch A)) = make_ecall"
    and stop: "stop \<Longrightarrow> \<not> tohost_written d A" and N: "2 * n + 3 \<le> N"
  defines "rr \<equiv> lsu_run_loop imem stop N (lsu_start d)"
  shows "map retired (rr_commits rr) = arch_trace (ma_arch A)" "dmem_matches d A (rr_dmem rr)"
    "ended (arch_regs (ma_arch A) 10) (rr_state rr)"
proof -
  define k where "k = N - (2 * n + 1)"
  have N: "N = Suc (2 * n + k)" "2 \<le> k" using N by (simp_all add: k_def)
  let ?r1 = "lsu_run_cycle imem (lsu_start d)"
  note f = lsu_first_cycle [OF run(2,3), of imem]
  have "stop \<Longrightarrow> \<not> dm_saw_tohost d" using stop by (auto simp: tohost_written_def)
  then have "\<not> run_ends stop ?r1" using f(2) by (auto simp: run_ends_def runs_on_def lsu_start_def)
  then have "rr = lsu_run_loop imem stop (2 * n + k) ?r1" by (simp add: rr_def N(1) Let_def)
  also have "\<dots> = lsu_run_loop imem stop k ((lsu_run_cycle imem ^^ (2 * n)) ?r1)"
    using lsu_loop_skip [OF f(1) run(1), of stop k] stop A(1) by blast
  finally have rr: "rr = lsu_run_loop imem stop k ((lsu_run_cycle imem ^^ (2 * n)) ?r1)" .
  have m: "lsu_matches d A ((lsu_run_cycle imem ^^ (2 * n)) ?r1)"
    using lsu_pairs [OF f(1) run(1)] by (simp add: A(1))
  show "map retired (rr_commits rr) = arch_trace (ma_arch A)" "dmem_matches d A (rr_dmem rr)"
    "ended (arch_regs (ma_arch A) 10) (rr_state rr)"
    using lsu_call_ends [where imem = imem, OF m A(2) stop N(2)] m by (auto simp: rr lsu_matches_def)
qed

lemma mem_runs_Suc:
  "mem_runs imem code (Suc n) A \<Longrightarrow> mem_runs imem code n A \<and> mem_ready imem code ((mem_step code ^^ n) A)"
  by (induction n arbitrary: A) (auto simp: funpow_swap1)

text \<open>Told to stop at it, the loop ends with the cycle in which the first store to tohost arrives.\<close>

lemma tohost_step:
  assumes "\<not> tohost_written d A" "tohost_written d (mem_step code A)"
  shows "\<not> ma_load (mem_step code A)"
  using assms by (auto simp: mem_step_def tohost_written_def Let_def split: Op.splits)

lemma lsu_reaches_tohost:
  assumes run: "mem_runs imem code (Suc n) (march_at_reset d)" "prompt d" "length (dm_bytes d) < 2 ^ 64"
    and B: "B = (mem_step code ^^ n) (march_at_reset d)" and w: "\<not> tohost_written d B" "tohost_written d (mem_step code B)"
    and N: "2 * Suc n + 1 \<le> N"
  defines "A \<equiv> mem_step code B" and "rr \<equiv> lsu_run_loop imem True N (lsu_start d)"
  shows "map retired (rr_commits rr) = arch_trace (ma_arch A)" "dmem_matches d A (rr_dmem rr)" "dm_saw_tohost (rr_dmem rr)"
    "\<not> bs_io_success (rr_state rr)" "\<not> bs_io_trap (rr_state rr)"
proof -
  define k where "k = N - (2 * n + 3)"
  have N: "N = Suc (2 * n + Suc (Suc k))" using N by (simp add: k_def)
  let ?r1 = "lsu_run_cycle imem (lsu_start d)"
  note f = lsu_first_cycle [OF run(2,3), of imem]
  have runs: "mem_runs imem code n (march_at_reset d)" "mem_ready imem code B"
    using mem_runs_Suc [OF run(1)] B by simp_all
  have "\<not> dm_saw_tohost d" using w(1) by (auto simp: tohost_written_def)
  then have "\<not> run_ends True ?r1" using f(2) by (auto simp: run_ends_def runs_on_def lsu_start_def)
  then have "rr = lsu_run_loop imem True (2 * n + Suc (Suc k)) ?r1" by (simp add: rr_def N Let_def)
  also have "\<dots> = lsu_run_loop imem True (Suc (Suc k)) ((lsu_run_cycle imem ^^ (2 * n)) ?r1)"
    using lsu_loop_skip [OF f(1) runs(1), of True "Suc (Suc k)"] w(1) B by blast
  finally have rr: "rr = lsu_run_loop imem True (Suc (Suc k)) ((lsu_run_cycle imem ^^ (2 * n)) ?r1)" .
  define r where "r = (lsu_run_cycle imem ^^ (2 * n)) ?r1"
  have m: "lsu_matches d B r" using lsu_pairs [OF f(1) runs(1)] by (simp add: B r_def)
  define r1 r2 where "r1 = lsu_run_cycle imem r" and "r2 = lsu_run_cycle imem r1"
  have p: "runs_on r r1" "lsu_matches d A r2"
    using lsu_pair [OF m runs(2)] by (simp_all add: A_def r1_def r2_def)
  note fl = lsu_matches_flags [OF m] and fl2 = lsu_matches_flags [OF p(2)]
  have e1: "\<not> run_ends True r1" using p(1) fl w(1) by (auto simp: run_ends_def runs_on_def tohost_written_def)
  have saw: "dm_saw_tohost (rr_dmem r2)" using fl2(3) w(2) by (simp add: tohost_written_def A_def)
  then have "run_ends True r2" by (simp add: run_ends_def)
  then have "rr = r2" using e1 rr by (simp add: Let_def flip: r_def r1_def r2_def)
  moreover have "\<not> ma_load A" unfolding A_def by (rule tohost_step [OF w])
  ultimately show "map retired (rr_commits rr) = arch_trace (ma_arch A)" "dmem_matches d A (rr_dmem rr)" "dm_saw_tohost (rr_dmem rr)"
    "\<not> bs_io_success (rr_state rr)" "\<not> bs_io_trap (rr_state rr)"
    using p(2) fl2 saw by (auto simp: lsu_matches_def rests_def)
qed

section \<open>The memory system runs the instruction set: the statements\<close>

text \<open>
  C2: The core and its memories run the instruction set with loads and stores. Closed with
  an instruction memory and with the bench's data memory, both answering in the next cycle,
  the loop executes one instruction every two cycles: if the instruction memory holds, at the
  addresses an \<open>n\<close>-step run of the instruction set reaches, encodings of supported
  instructions, loads are aligned, jumps go to word addresses and none is taken right behind
  a load, and the data memory has less than \<open>2 ^ 64\<close> bytes, then after
  \<open>2 n + 1\<close> cycles the committed instructions are the run's, except that a load still waits
  for its successor, the bytes of the data memory are those of the run, every store has been
  sent once, after its commit, the registers are the run's unless a load is still waiting, and
  the outstanding fetch is for its program counter.
\<close>
theorem lsu_bench_runs_isa:
  assumes "mem_runs imem code n (march_at_reset d)" "prompt d" "length (dm_bytes d) < 2 ^ 64"
  defines "A \<equiv> (mem_step code ^^ n) (march_at_reset d)" and "S \<equiv> (lsu_run_cycle imem ^^ (2 * n + 1)) (lsu_start d)"
  shows "map retired (rr_commits S) = (if ma_load A then butlast (arch_trace (ma_arch A)) else arch_trace (ma_arch A))
    \<and> dm_bytes (rr_dmem S) = ma_bytes A
    \<and> dm_store_count (rr_dmem S) = dm_store_count d + int (length (arch_stores (ma_arch A)))
    \<and> dm_store_before_commit (rr_dmem S) = dm_store_before_commit d
    \<and> (ma_load A \<or> arch_view (rr_state S) = arch_regs (ma_arch A))
    \<and> map irq_address (pipe_imem_req (rr_pipe S)) = [arch_pc (ma_arch A)]"
  using lsu_run_matches [OF assms(1-3)]
  by (auto simp: A_def S_def lsu_matches_def dmem_matches_def rests_def requested_def awaits_def load_sent_def split: if_splits)

text \<open>
  C3: The bench ends. Let \<open>d\<close> be a data memory of less than \<open>2 ^ 64\<close> bytes that answers every
  load in the next cycle and sends no stale answers (nothing pending, neither \<open>delay_load\<close> nor \<open>send_stale_first\<close>), and let the instruction
  set run the program for \<open>n\<close> instructions, all of them supported, loads aligned, no jump taken
  right behind a load, jumps to word addresses. If then an environment call follows, and the
  loop is either told not to stop on tohost or tohost has not been written, or if the loop is
  told to stop on tohost, as it is by default, and the \<open>n\<close>-th instruction is the first to store
  there, then \<open>run\<close> ends within \<open>2 n + 3\<close> cycles, with exactly the \<open>n\<close> instructions of the run
  committed, its bytes in the data memory and one request per store. Ended by tohost it has
  seen the store and reports neither success nor trap; ended by the call it reports success
  or trap by register 10.
\<close>
theorem lsu_program_ends:
  fixes stop :: bool
  assumes "mem_runs (ideal_mem_read m) code n (march_at_reset d)" "prompt d" "length (dm_bytes d) < 2 ^ 64" "2 * n + 3 \<le> N"
  defines "A \<equiv> (mem_step code ^^ n) (march_at_reset d)" and "rr \<equiv> lsu_run m d N stop"
  assumes "ideal_mem_read m (arch_pc (ma_arch A)) = make_ecall \<and> (stop \<longrightarrow> \<not> tohost_written d A)
    \<or> stop \<and> 0 < n \<and> \<not> tohost_written d ((mem_step code ^^ (n - 1)) (march_at_reset d)) \<and> tohost_written d A"
  shows "map retired (rr_commits rr) = arch_trace (ma_arch A) \<and> dm_bytes (rr_dmem rr) = ma_bytes A
    \<and> dm_store_count (rr_dmem rr) = dm_store_count d + int (length (arch_stores (ma_arch A)))
    \<and> dm_store_before_commit (rr_dmem rr) = dm_store_before_commit d
    \<and> (if stop \<and> tohost_written d A then dm_saw_tohost (rr_dmem rr) \<and> \<not> bs_io_success (rr_state rr) \<and> \<not> bs_io_trap (rr_state rr)
       else bs_io_success (rr_state rr) = (arch_regs (ma_arch A) 10 = 0) \<and> bs_io_trap (rr_state rr) = (arch_regs (ma_arch A) 10 \<noteq> 0))"
  using assms(7)
proof
  assume c: "ideal_mem_read m (arch_pc (ma_arch A)) = make_ecall \<and> (stop \<longrightarrow> \<not> tohost_written d A)"
  then show ?thesis
    using lsu_reaches_end [where stop = stop, OF assms(1-3) A_def [THEN meta_eq_to_obj_eq] _ _ assms(4)]
    by (auto simp: rr_def lsu_run_def lsu_start_def dmem_matches_def ended_def)
next
  assume c: "stop \<and> 0 < n \<and> \<not> tohost_written d ((mem_step code ^^ (n - 1)) (march_at_reset d)) \<and> tohost_written d A"
  then obtain n' where n: "n = Suc n'" by (cases n) auto
  have A: "A = mem_step code ((mem_step code ^^ n') (march_at_reset d))" by (simp add: A_def n)
  show ?thesis
    using lsu_reaches_tohost [OF assms(1) [unfolded n] assms(2,3) refl, of N] c assms(4)
    by (simp add: rr_def lsu_run_def lsu_start_def dmem_matches_def n flip: A)
qed

text \<open>The run and its conditions in the form the kernel evaluates them.\<close>

definition mem_step_bytes :: "(u64 \<Rightarrow> Op) \<Rightarrow> MArch \<Rightarrow> MArch" where
  "mem_step_bytes code A =
    (let B = ma_arch A; pc = arch_pc B
     in case code pc of
          Plain i \<Rightarrow> \<lparr>ma_arch = isa_step (\<lambda>_. i) B,
            ma_bytes = (case plain_store B i of None \<Rightarrow> ma_bytes A
              | Some (a, d, sz) \<Rightarrow> write_masked a d (mask_for_size (ucast sz)) (ma_bytes A)), ma_load = False\<rparr>
        | Load sg sz rd rs1 imm \<Rightarrow>
            (let a = load_address B rs1 imm; v = load_value (read64 (ma_bytes A) a) a (ucast sz) sg
             in \<lparr>ma_arch = B\<lparr>arch_pc := pc + 4, arch_regs := (if rd = 0 then arch_regs B else (arch_regs B)(rd := v)),
                   arch_trace := arch_trace B @ [(pc, encode_op (code pc), if rd = 0 then None else Some (ucast rd, v))]\<rparr>,
                 ma_bytes = ma_bytes A, ma_load = True\<rparr>))"

lemma mem_step_bytes:
  assumes "length (ma_bytes A) < 2 ^ 64" "op_ready A (code (arch_pc (ma_arch A)))"
  shows "mem_step_bytes code A = mem_step code A" "length (ma_bytes (mem_step code A)) < 2 ^ 64"
proof -
  have w: "(case w of (a, d, sz) \<Rightarrow> write_masked a d (mask_for_size (ucast sz)) (ma_bytes A)) = store_spec w (ma_bytes A)" for w
    using write_masked_spec [OF assms(1)] by (cases w) simp
  show "mem_step_bytes code A = mem_step code A"
    using assms(2) load_value_spec [OF assms(1)]
    by (auto simp: mem_step_bytes_def mem_step_def op_ready_def Let_def w split: Op.splits option.splits)
  show "length (ma_bytes (mem_step code A)) < 2 ^ 64"
    using assms(1) by (simp add: mem_step_def store_spec_def Let_def split: Op.splits option.splits prod.splits)
qed

fun checked_mem_run :: "(u64 \<Rightarrow> u32) \<Rightarrow> (u64 \<Rightarrow> Op) \<Rightarrow> nat \<Rightarrow> MArch \<Rightarrow> MArch option" where
  "checked_mem_run imem code 0 A = Some A"
| "checked_mem_run imem code (Suc n) A =
    (let op = code (arch_pc (ma_arch A)); B = mem_step_bytes code A
     in if imem (arch_pc (ma_arch A)) = encode_op op \<and> op_supports op \<and> op_ready A op \<and> aligned (arch_pc (ma_arch B))
        then checked_mem_run imem code n B else None)"

lemma checked_mem_run_supported:
  "checked_mem_run imem code n A = Some B \<Longrightarrow> length (ma_bytes A) < 2 ^ 64 \<Longrightarrow> mem_runs imem code n A \<and> B = (mem_step code ^^ n) A"
proof (induction n arbitrary: A)
  case (Suc n)
  let ?op = "code (arch_pc (ma_arch A))" and ?C = "mem_step_bytes code A"
  have c: "imem (arch_pc (ma_arch A)) = encode_op ?op" "op_supports ?op" "op_ready A ?op" "aligned (arch_pc (ma_arch ?C))"
    "checked_mem_run imem code n ?C = Some B"
    using Suc.prems(1) by (auto simp: Let_def split: if_splits)
  note b = mem_step_bytes [where code = code, OF Suc.prems(2) c(3)]
  have "mem_runs imem code n (mem_step code A) \<and> B = (mem_step code ^^ n) (mem_step code A)"
    using Suc.IH [OF c(5)] b by (simp only:)
  then show ?case using c(1-4) b(1) by (simp add: mem_ready_def funpow_swap1)
qed simp

definition mem_ends_with :: "(u64 \<Rightarrow> u32) \<Rightarrow> (u64 \<Rightarrow> Op) \<Rightarrow> nat \<Rightarrow> DMemModel \<Rightarrow> (MArch \<Rightarrow> bool) \<Rightarrow> bool" where
  "mem_ends_with imem code n d P = (prompt d \<and> length (dm_bytes d) = 256 \<and>
     (case checked_mem_run imem code n (march_at_reset d) of None \<Rightarrow> False
      | Some A \<Rightarrow> imem (arch_pc (ma_arch A)) = make_ecall \<and> P A))"

lemma mem_ends_withD:
  assumes "mem_ends_with imem code n d P"
  defines "A \<equiv> (mem_step code ^^ n) (march_at_reset d)"
  shows "mem_runs imem code n (march_at_reset d)" "prompt d" "length (dm_bytes d) < 2 ^ 64"
    "imem (arch_pc (ma_arch A)) = make_ecall" "P A"
  using assms checked_mem_run_supported [of imem code n "march_at_reset d"]
  by (auto simp: mem_ends_with_def march_at_reset_def split: option.splits)

definition ops :: "Op list \<Rightarrow> u64 \<Rightarrow> Op" where
  "ops os a = (let k = unat (drop_bit 2 (a - RESET_VECTOR)) in if k < length os then os ! k else Plain Fence)"

definition store_load_ops :: "u64 \<Rightarrow> Op" where
  "store_load_ops = ops [Plain (Imm OpAdd 5 0 40), Plain (Imm OpAdd 6 0 42), Plain (Store 3 5 6 0), Load True 3 1 5 0]"

definition store_load_mem :: IdealMem where
  "store_load_mem = program_mem [make_itype 40 0 0 5 0x13, make_itype 42 0 0 6 0x13, make_stype 0 6 5 3, make_load 0 5 3 1, make_ecall]"

lemma store_load_ends:
  "mem_ends_with (ideal_mem_read store_load_mem) store_load_ops 4 (dmem_clear 64)
    (\<lambda>A. map (snd \<circ> snd) (arch_trace (ma_arch A)) = [Some (5, 40), Some (6, 42), None, Some (1, 42)] \<and> ma_bytes A ! 40 = 42
       \<and> arch_regs (ma_arch A) 10 = 0 \<and> ma_load A)"
  by code_simp

lemma lsu_bench_runs_isa_witness:
  "map (snd \<circ> snd) (map retired (rr_commits ((lsu_run_cycle (ideal_mem_read store_load_mem) ^^ 9) (lsu_start (dmem_clear 64)))))
    = [Some (5, 40), Some (6, 42), None]"
proof -
  have nine: "(9 :: nat) = 2 * 4 + 1" by simp
  note w = mem_ends_withD [OF store_load_ends]
  show ?thesis
    unfolding nine lsu_bench_runs_isa [OF w(1-3), THEN conjunct1] using w(5) by (simp add: map_butlast)
qed

text \<open>The program of \<open>t_sd_tohost_success\<close>: its third instruction stores to tohost.\<close>

definition tohost_ops :: "u64 \<Rightarrow> Op" where
  "tohost_ops = ops [Plain (Imm OpAdd 5 0 64), Plain (Imm OpAdd 6 0 1), Plain (Store 3 5 6 0), Plain (Jal 0 0)]"

definition tohost_mem :: IdealMem where
  "tohost_mem = program_mem [make_itype 64 0 0 5 0x13, make_itype 1 0 0 6 0x13, make_stype 0 6 5 3, make_jtype 0 0 0x6F]"

lemma tohost_run:
  "case checked_mem_run (ideal_mem_read tohost_mem) tohost_ops 2 (march_at_reset (dmem_clear 64)) of None \<Rightarrow> False
   | Some A \<Rightarrow> arch_stores (ma_arch A) = []"
  "case checked_mem_run (ideal_mem_read tohost_mem) tohost_ops 3 (march_at_reset (dmem_clear 64)) of None \<Rightarrow> False
   | Some A \<Rightarrow> arch_stores (ma_arch A) = [(64, 1, 3)] \<and> length (arch_trace (ma_arch A)) = 3"
  by code_simp+

lemma lsu_program_ends_witness:
  "map (snd \<circ> snd) (map retired (rr_commits (lsu_run store_load_mem (dmem_clear 64) 250 False)))
    = [Some (5, 40), Some (6, 42), None, Some (1, 42)]
   \<and> dm_bytes (rr_dmem (lsu_run store_load_mem (dmem_clear 64) 250 False)) ! 40 = 42
   \<and> dm_saw_tohost (rr_dmem (lsu_run tohost_mem (dmem_clear 64) 100 True))
   \<and> length (rr_commits (lsu_run tohost_mem (dmem_clear 64) 100 True)) = 3"
proof -
  note w = mem_ends_withD [OF store_load_ends]
  let ?d = "dmem_clear 64"
  have d: "prompt ?d" "length (dm_bytes ?d) < 2 ^ 64" "\<not> dm_saw_tohost ?d" "dm_tohost_addr ?d = 64" "length (ma_bytes (march_at_reset ?d)) < 2 ^ 64"
    by (simp_all add: prompt_def dmem_clear_def march_at_reset_def)
  have r3: "mem_runs (ideal_mem_read tohost_mem) tohost_ops 3 (march_at_reset ?d)"
    "arch_stores (ma_arch ((mem_step tohost_ops ^^ 3) (march_at_reset ?d))) = [(64, 1, 3)]"
    "length (arch_trace (ma_arch ((mem_step tohost_ops ^^ 3) (march_at_reset ?d)))) = 3"
    using tohost_run(2) checked_mem_run_supported [OF _ d(5)] by (auto split: option.splits)
  have r2: "arch_stores (ma_arch ((mem_step tohost_ops ^^ 2) (march_at_reset ?d))) = []"
    using tohost_run(1) checked_mem_run_supported [OF _ d(5)] by (auto split: option.splits)
  have t: "tohost_written ?d ((mem_step tohost_ops ^^ 3) (march_at_reset ?d))" "\<not> tohost_written ?d ((mem_step tohost_ops ^^ (3 - 1)) (march_at_reset ?d))"
    using r2 r3(2) d(3,4) by (simp_all add: tohost_written_def)
  from lsu_program_ends [OF r3(1) d(1,2), of 100 True] t
  have "dm_saw_tohost (rr_dmem (lsu_run tohost_mem ?d 100 True))"
    "map retired (rr_commits (lsu_run tohost_mem ?d 100 True)) = arch_trace (ma_arch ((mem_step tohost_ops ^^ 3) (march_at_reset ?d)))"
    by simp_all
  then show ?thesis using lsu_program_ends [OF w(1-3), of 250 False] w(4,5) r3(3) by (auto dest: arg_cong [where f = length])
qed

end
