(* ===== verification/RegressionTests.thy ===== *)
theory RegressionTests
  imports LsuTests
begin

text \<open>
  The regression programs \<open>tb/differential/directed_tests.cpp\<close> (25 tests) and
  \<open>tb/differential/gate1_regression_tests.cpp\<close> (13 tests): their instruction memory, their
  loop, every test and both \<open>main\<close> functions.
\<close>

abbreviation (input) DECODE_WIDTH :: nat where "DECODE_WIDTH \<equiv> 1"

section \<open>The loop of the directed tests\<close>

text \<open>The trace element \<open>TR\<close>.\<close>

record TR =
  tr_pc :: u64
  tr_rd_v :: u64
  tr_inst :: u32
  tr_rd :: u8
  tr_rd_ok :: bool
  tr_exc :: bool

definition tr_of :: "CommitEntry \<Rightarrow> TR" where
  "tr_of ce = \<lparr>tr_pc = ce_pc ce, tr_rd_v = ce_rd_value ce, tr_inst = ce_inst ce, tr_rd = ce_rd ce,
     tr_rd_ok = ce_rd_valid ce, tr_exc = ce_exception ce\<rparr>"

text \<open>The fetch of \<open>run\<close> in the directed tests, without the test against the base.\<close>

definition directed_fetch :: "IdealMem \<Rightarrow> u64 \<Rightarrow> u32" where
  "directed_fetch m a =
    (let ii = unat (ucast (drop_bit 2 (a - im_base m)) :: u32)
     in if ii < length (im_words m) then im_words m ! ii else 0)"

type_synonym regr_state = "BoomCoreState \<times> PipeSignals \<times> TR list"

definition regr_cycle :: "(u64 \<Rightarrow> u32) \<Rightarrow> regr_state \<Rightarrow> regr_state" where
  "regr_cycle mem st = (case st of (s, p, trace) \<Rightarrow>
    (let (s, p) = boom_core_step s (tb_respond mem p)
     in (s, p\<lparr>pipe_commit_trace := []\<rparr>, trace @ map tr_of (pipe_commit_trace p))))"

fun regr_loop :: "(u64 \<Rightarrow> u32) \<Rightarrow> nat \<Rightarrow> regr_state \<Rightarrow> regr_state" where
  "regr_loop mem 0 st = st"
| "regr_loop mem (Suc n) st =
    (let st = regr_cycle mem st
     in if bs_io_success (fst st) then st else if bs_io_trap (fst st) then st else regr_loop mem n st)"

definition directed_run :: "IdealMem \<Rightarrow> nat \<Rightarrow> TR list" where
  "directed_run m mc = snd (snd (regr_loop (directed_fetch m) mc (BoomCoreState0, PipeSignals0, [])))"

definition writes_of :: "u8 \<Rightarrow> TR list \<Rightarrow> u64 list" where
  "writes_of rd tr = map tr_rd_v (filter (\<lambda>t. tr_rd t = rd) tr)"

section \<open>The directed tests\<close>

definition t1_basic :: tb_verdict where
  "t1_basic =
    (let tr = directed_run (program_mem [make_itype 5 0 0 1 0x13, make_ecall]) 50
     in check_that (length tr \<ge> 1) ''no commits''
        (check_that (tr_rd (tr ! 0) = 1) ''rd not x1''
        (check_that (tr_rd_v (tr ! 0) = 5) ''wrong x1''
        (check_that (\<not> tr_exc (tr ! 0)) ''unexpected exception'' Tb_pass))))"

definition t2_raw :: tb_verdict where
  "t2_raw =
    (let tr = directed_run (program_mem [make_itype 3 0 0 1 0x13, make_itype 2 1 0 2 0x13, make_ecall]) 100
     in check_that (length tr \<ge> 2) ''insufficient commits''
        (check_that (tr_rd_v (tr ! 1) = 5) ''x2 != 5'' Tb_pass))"

definition t3_waw :: tb_verdict where
  "t3_waw =
    (let tr = directed_run (program_mem [make_itype 3 0 0 1 0x13, make_itype 7 0 0 1 0x13, make_ecall]) 100
     in check_that (length tr \<ge> 2) ''insufficient''
        (check_that (tr_rd_v (tr ! 1) = 7) ''wrong x1'' Tb_pass))"

definition t4_war :: tb_verdict where
  "t4_war =
    (let tr = directed_run (program_mem [make_itype 3 0 0 1 0x13, make_rtype 0 0 1 0 2 0x33, make_itype 7 0 0 1 0x13, make_ecall]) 100
     in check_that (length tr \<ge> 3) ''insufficient''
        (case writes_of 2 tr of
           [] \<Rightarrow> Tb_fail ''x2 never committed''
         | v # _ \<Rightarrow> check_that (v = 3) ''x2!=3 (saw future x1)'' Tb_pass))"

definition t5_x0 :: tb_verdict where
  "t5_x0 =
    (let tr = directed_run (program_mem [make_itype 99 0 0 0 0x13, make_itype 1 0 0 1 0x13, make_ecall]) 100
     in check_that (list_all (\<lambda>t. tr_rd t = 0 \<longrightarrow> \<not> tr_rd_ok t \<or> tr_rd_v t = 0) tr) ''x0 corrupted'' Tb_pass)"

text \<open>A full reorder buffer with nothing finished: one cycle with a response waiting.\<close>

definition rob_full_state :: BoomCoreState where
  "rob_full_state = BoomCoreState0
    \<lparr>bs_frontend := (bs_frontend BoomCoreState0)\<lparr>fe_reset_done := True\<rparr>,
     bs_rob := (bs_rob BoomCoreState0)\<lparr>rob_state := ROB_NORMAL, rob_head := 0, rob_tail := 0,
       rob_maybe_full := True,
       rob_entries := map (\<lambda>e. e\<lparr>re_valid := True, re_busy := True\<rparr>) (rob_entries (bs_rob BoomCoreState0))\<rparr>\<rparr>"

definition t6_rob_full :: tb_verdict where
  "t6_rob_full =
    (let rs = ImemResponse0\<lparr>irs_address := RESET_VECTOR, irs_fetch_id := 0, irs_instruction := make_itype 1 0 0 1 0x13\<rparr>;
         (s, p) = boom_core_step rob_full_state (PipeSignals0\<lparr>pipe_imem_resp := stream_write (pipe_imem_resp PipeSignals0) rs\<rparr>)
     in check_that (rob_head (bs_rob s) = 0) ''ROB head changed while full''
        (check_that (rob_tail (bs_rob s) = 0) ''ROB tail advanced while full''
        (check_that (rob_maybe_full (bs_rob s)) ''ROB full flag cleared''
        (check_that (\<not> ren_renamed_valids (bs_rename s) ! 0) ''rename valid was not backpressured'' Tb_pass))))"

definition t7_rob_wrap :: tb_verdict where
  "t7_rob_wrap =
    (let tr = directed_run (program_mem (map (\<lambda>i. make_itype (word_of_nat i + 1) 0 0 1 0x13) [0..<33] @ [make_ecall])) 500
     in check_that (length tr \<ge> 1) ''no commits'' Tb_pass)"

definition t8_iq_full :: tb_verdict where
  "t8_iq_full =
    (let tr = directed_run (program_mem (map (\<lambda>i. make_rtype 0 (word_of_nat i + 2) (word_of_nat i + 1) 0 (word_of_nat i + 3) 0x33) [0..<10] @ [make_ecall])) 300
     in check_that (length tr > 0) ''no commits'' Tb_pass)"

definition branch_skip_program :: "u32 list" where
  "branch_skip_program = [make_itype 5 0 0 1 0x13, make_itype 5 0 0 2 0x13, make_btype 8 2 1 0,
     make_itype 99 0 0 3 0x13, make_itype 10 0 0 3 0x13, make_ecall]"

definition t9_taken_branch :: tb_verdict where
  "t9_taken_branch =
    (let tr = directed_run (program_mem branch_skip_program) 200
     in check_that (list_all (\<lambda>v. v = 10) (writes_of 3 tr)) ''x3!=10''
        (check_that (writes_of 3 tr \<noteq> []) ''x3 never wrote'' Tb_pass))"

definition t10_nt_branch :: tb_verdict where
  "t10_nt_branch =
    (let tr = directed_run (program_mem [make_itype 3 0 0 1 0x13, make_itype 7 0 0 2 0x13, make_btype 8 2 1 0,
                make_itype 99 0 0 3 0x13, make_itype 10 0 0 3 0x13, make_ecall]) 200;
         x3 = writes_of 3 tr
     in check_that (case x3 of [] \<Rightarrow> True | v # _ \<Rightarrow> v = 99) ''fall-through x3 write missing''
        (check_that (length x3 \<ge> 2) ''x3 should be written by fall-through and following instruction''
        (check_that (last x3 = 10) ''final x3!=10'' Tb_pass)))"

definition t11_jal :: tb_verdict where
  "t11_jal =
    (let tr = directed_run (program_mem [make_jtype 8 0 0x6F, make_itype 99 0 0 1 0x13, make_itype 1 0 0 1 0x13, make_ecall]) 100
     in check_that (list_all (\<lambda>v. v = 1) (writes_of 1 tr)) ''x1!=1 (JAL failed)''
        (check_that (writes_of 1 tr \<noteq> []) ''x1 not committed'' Tb_pass))"

definition t12_jalr :: tb_verdict where
  "t12_jalr =
    (let tr = directed_run (program_mem [make_utype 0 2 0x17, make_itype 16 2 0 2 0x13, make_itype 0 2 0 1 0x67,
                make_itype 99 0 0 3 0x13, make_itype 5 0 0 3 0x13, make_ecall]) 200
     in check_that (list_all (\<lambda>v. v = 5) (writes_of 3 tr)) ''x3!=5''
        (check_that (writes_of 3 tr \<noteq> []) ''JALR redirect failed'' Tb_pass))"

definition t13_flush_rob :: tb_verdict where
  "t13_flush_rob =
    (let tr = directed_run (program_mem branch_skip_program) 200
     in check_that (list_all (\<lambda>t. tr_rd_v t \<noteq> 99) tr) ''wrong-path instruction committed (x3=99)'' Tb_pass)"

text \<open>The loops of the tests that look at the core's flags after each cycle.\<close>

fun core_reaches :: "(u64 \<Rightarrow> u32) \<Rightarrow> (BoomCoreState \<Rightarrow> bool) \<Rightarrow> nat \<Rightarrow> BoomCoreState \<times> PipeSignals \<Rightarrow> bool" where
  "core_reaches mem goal 0 st = False"
| "core_reaches mem goal (Suc n) st =
    (case st of (s, p) \<Rightarrow>
      (let (s, p) = boom_core_step s (tb_respond mem p)
       in if goal s then True else core_reaches mem goal n (s, p)))"

definition t14_illegal :: tb_verdict where
  "t14_illegal =
    check_that (core_reaches (ideal_mem_read (program_mem [0x00000000, make_ecall])) bs_io_trap 100
      (BoomCoreState0, PipeSignals0)) ''no io_trap from illegal'' Tb_pass"

definition t15_ecall :: tb_verdict where
  "t15_ecall =
    check_that (core_reaches (ideal_mem_read (program_mem [make_ecall])) bs_io_success 100
      (BoomCoreState0, PipeSignals0)) ''io_success not set'' Tb_pass"

definition t16_commit_trace :: tb_verdict where
  "t16_commit_trace =
    (let m = program_mem [make_itype 1 0 0 1 0x13, make_itype 2 0 0 2 0x13, make_ecall];
         tr = directed_run m 100
     in check_that (length tr \<ge> 2) ''<2 trace entries''
        (check_that (tr_pc (tr ! 0) = RESET_VECTOR) ''wrong PC''
        (check_that (tr_inst (tr ! 0) = im_words m ! 0) ''wrong inst'' Tb_pass)))"

text \<open>Each instruction response is held back for three cycles.\<close>

definition delayed_respond :: "(u64 \<Rightarrow> u32) \<Rightarrow> int \<times> ImemRequest \<times> PipeSignals \<Rightarrow> int \<times> ImemRequest \<times> PipeSignals" where
  "delayed_respond mem st = (case st of (resp_delay, delayed_req, p) \<Rightarrow>
    (let (resp_delay, delayed_req, p) =
           (if \<not> stream_empty (pipe_imem_req p) \<and> resp_delay = 0
            then (3, fst (stream_read (pipe_imem_req p)), p\<lparr>pipe_imem_req := snd (stream_read (pipe_imem_req p))\<rparr>)
            else (resp_delay, delayed_req, p))
     in if resp_delay > 0 then
          (let resp_delay = resp_delay - 1
           in if resp_delay = 0 \<and> \<not> stream_full (pipe_imem_resp p)
              then (resp_delay, delayed_req, p\<lparr>pipe_imem_resp := stream_write (pipe_imem_resp p) (imem_answer mem delayed_req)\<rparr>)
              else (resp_delay, delayed_req, p))
        else (resp_delay, delayed_req, p)))"

fun delayed_reaches :: "(u64 \<Rightarrow> u32) \<Rightarrow> nat \<Rightarrow> int \<Rightarrow> ImemRequest \<Rightarrow> BoomCoreState \<times> PipeSignals \<Rightarrow> bool" where
  "delayed_reaches mem 0 resp_delay delayed_req st = False"
| "delayed_reaches mem (Suc n) resp_delay delayed_req st =
    (case st of (s, p) \<Rightarrow>
      (let (resp_delay, delayed_req, p) = delayed_respond mem (resp_delay, delayed_req, p);
           (s, p) = boom_core_step s p
       in if bs_io_success s then True else delayed_reaches mem n resp_delay delayed_req (s, p)))"

definition t17_imem_backpressure :: tb_verdict where
  "t17_imem_backpressure =
    check_that (delayed_reaches (ideal_mem_read (program_mem [make_itype 42 0 0 1 0x13, make_ecall])) 200 0 ImemRequest0
      (BoomCoreState0, PipeSignals0)) ''timeout'' Tb_pass"

definition t18_reset :: tb_verdict where
  "t18_reset =
    (let (s, p) = boom_core_step BoomCoreState0 PipeSignals0;
         (s, p) = boom_core_step s p;
         s = BoomCoreState0
     in check_that (fe_pc (bs_frontend s) = RESET_VECTOR) ''PC not reset''
        (check_that (csr_cycle (bs_csr s) = 0) ''cycle not reset'' Tb_pass))"

fun core_steps :: "nat \<Rightarrow> BoomCoreState \<times> PipeSignals \<Rightarrow> BoomCoreState \<times> PipeSignals" where
  "core_steps 0 st = st"
| "core_steps (Suc n) st = core_steps n (boom_core_step (fst st) (snd st))"

definition t19_cycle_count :: tb_verdict where
  "t19_cycle_count =
    (let (s, p) = core_steps 50 (BoomCoreState0, PipeSignals0)
     in check_that (csr_cycle (bs_csr s) = 50) ''cycle wrong'' Tb_pass)"

definition t20_instret :: tb_verdict where
  "t20_instret =
    (let tr = directed_run (program_mem [make_itype 1 0 0 1 0x13, make_itype 2 0 0 2 0x13, make_ecall]) 200
     in check_that (length tr \<ge> 2) ''not enough commits'' Tb_pass)"

definition t21_signed_comp :: tb_verdict where
  "t21_signed_comp =
    (let tr = directed_run (program_mem [make_itype (- 2) 0 0 1 0x13, make_itype 5 1 2 2 0x13, make_ecall]) 200
     in check_that (list_all (\<lambda>v. v = 1) (writes_of 2 tr)) ''SLTI -2<5 should be 1''
        (check_that (writes_of 2 tr \<noteq> []) ''x2 not committed'' Tb_pass))"

definition t22_shift :: tb_verdict where
  "t22_shift =
    (let si = push_bit 20 (63 AND 0x3F) OR push_bit 15 1 OR push_bit 12 1 OR push_bit 7 1 OR 0x13;
         tr = directed_run (program_mem [make_itype 1 0 0 1 0x13, si, make_ecall]) 200
     in check_that (list_ex (\<lambda>t. tr_rd_v t = 0x8000000000000000) tr \<or> tr = []) ''shift mismatch'' Tb_pass)"

definition t23_mul :: tb_verdict where
  "t23_mul =
    (let tr = directed_run (program_mem [make_itype 6 0 0 1 0x13, make_itype 7 0 0 2 0x13, make_rtype 1 2 1 0 3 0x33, make_ecall]) 200
     in check_that (list_all (\<lambda>v. v = 42) (writes_of 3 tr)) ''6*7!=42''
        (check_that (writes_of 3 tr \<noteq> []) ''MUL result missing'' Tb_pass))"

definition t24_32bit_ops :: tb_verdict where
  "t24_32bit_ops =
    (let tr = directed_run (program_mem [make_itype (- 1) 0 0 2 0x13, make_itype 1 2 0 3 0x1B, make_ecall]) 200
     in check_that (list_all (\<lambda>v. v = 0) (writes_of 3 tr)) ''ADDW overflow wrong''
        (check_that (writes_of 3 tr \<noteq> []) ''ADDW missing'' Tb_pass))"

definition t25_rob_younger_first :: tb_verdict where
  "t25_rob_younger_first =
    (let tr = directed_run (program_mem [make_itype 3 0 0 1 0x13, make_itype 7 0 0 2 0x13, make_ecall]) 200
     in check_that (length tr \<ge> 2) ''<2 commits''
        (check_that (tr_rd (tr ! 0) = 1) ''older should commit first''
        (check_that (tr_rd (tr ! 1) = 2) ''younger after'' Tb_pass)))"

definition directed_tests :: "tb_verdict list" where
  "directed_tests = [t1_basic, t2_raw, t3_waw, t4_war, t5_x0, t6_rob_full, t7_rob_wrap, t8_iq_full,
     t9_taken_branch, t10_nt_branch, t11_jal, t12_jalr, t13_flush_rob, t14_illegal, t15_ecall,
     t16_commit_trace, t17_imem_backpressure, t18_reset, t19_cycle_count, t20_instret,
     t21_signed_comp, t22_shift, t23_mul, t24_32bit_ops, t25_rob_younger_first]"

definition directed_main :: int where
  "directed_main = (if length (filter (\<lambda>v. v \<noteq> Tb_pass) directed_tests) > 0 then 1 else 0)"

section \<open>The regression tests of the first gate\<close>

definition gate_mem_add :: "u32 \<Rightarrow> IdealMem \<Rightarrow> IdealMem" where
  "gate_mem_add w m = (if length (im_words m) < 512 then m\<lparr>im_words := im_words m @ [w]\<rparr> else m)"

definition gate_mem :: "u32 list \<Rightarrow> IdealMem" where
  "gate_mem ws = foldl (\<lambda>m w. gate_mem_add w m) (ideal_mem_clear RESET_VECTOR) ws"

definition gate_run :: "IdealMem \<Rightarrow> nat \<Rightarrow> BoomCoreState \<times> TR list" where
  "gate_run m mc =
    (case regr_loop (ideal_mem_read m) mc (BoomCoreState0, PipeSignals0, []) of (s, _, tr) \<Rightarrow> (s, tr))"

definition saw_rd_value :: "TR list \<Rightarrow> u8 \<Rightarrow> u64 \<Rightarrow> bool" where
  "saw_rd_value tr rd v = list_ex (\<lambda>t. tr_rd t = rd \<and> tr_rd_v t = v) tr"

definition last_rd_value :: "TR list \<Rightarrow> u8 \<Rightarrow> u64" where
  "last_rd_value tr rd = foldl (\<lambda>v t. if tr_rd t = rd then tr_rd_v t else v) 0 tr"

definition make_iq_uop :: "u64 \<Rightarrow> u8 \<Rightarrow> MicroOp" where
  "make_iq_uop pc rob_idx = MicroOp0
    \<lparr>uop_uopc := 1, uop_iq_type := IQ_ALU, uop_fu_code := FU_ALU, uop_debug_pc := pc,
     uop_queue := (uop_queue MicroOp0)\<lparr>qi_rob_idx := rob_idx\<rparr>,
     uop_rename := (uop_rename MicroOp0)\<lparr>ri_dst_rtype := DST_INT\<rparr>\<rparr>"

definition t_war_chain :: tb_verdict where
  "t_war_chain =
    (let (_, tr) = gate_run (gate_mem [make_itype 3 0 0 1 0x13, make_rtype 0 0 1 0 2 0x33, make_rtype 0 0 1 0 3 0x33,
                     make_itype 7 0 0 1 0x13, make_ecall]) 200
     in check_that (saw_rd_value tr 2 3) ''x2 did not read old x1=3''
        (check_that (saw_rd_value tr 3 3) ''x3 did not read old x1=3''
        (check_that (last_rd_value tr 1 = 7) ''final x1 WAW value not 7'' Tb_pass)))"

definition t_multi_waw :: tb_verdict where
  "t_multi_waw =
    (let (_, tr) = gate_run (gate_mem [make_itype 1 0 0 1 0x13, make_itype 2 0 0 1 0x13, make_itype 3 0 0 1 0x13,
                     make_rtype 0 0 1 0 2 0x33, make_ecall]) 200
     in check_that (last_rd_value tr 1 = 3) ''final x1 not newest WAW value''
        (check_that (last_rd_value tr 2 = 3) ''consumer did not see newest x1'' Tb_pass))"

definition t_raw_chain :: tb_verdict where
  "t_raw_chain =
    (let (_, tr) = gate_run (gate_mem [make_itype 5 0 0 1 0x13, make_itype 2 1 0 2 0x13, make_itype 4 2 0 3 0x13, make_ecall]) 200
     in check_that (last_rd_value tr 3 = 11) ''RAW chain result x3!=11'' Tb_pass)"

definition t_stale_pdst_recycle :: tb_verdict where
  "t_stale_pdst_recycle =
    (let (s, tr) = gate_run (gate_mem (map (\<lambda>i. make_itype (word_of_nat i) 0 0 1 0x13) [1..<81] @ [make_ecall])) 500
     in check_that (last_rd_value tr 1 = 80) ''final WAW value after recycle wrong''
        (check_that (fl_count (ren_int_free_list (bs_rename s)) \<ge> 49) ''free list did not recover stale pdsts'' Tb_pass))"

definition t_branch_after_allocs :: tb_verdict where
  "t_branch_after_allocs =
    (let (_, tr) = gate_run (gate_mem [make_itype 1 0 0 1 0x13, make_itype 2 0 0 1 0x13, make_itype 2 0 0 2 0x13,
                     make_btype 8 2 1 0, make_itype 99 0 0 1 0x13, make_itype 5 0 0 3 0x13, make_ecall]) 250
     in check_that (\<not> saw_rd_value tr 1 99) ''wrong-path x1=99 committed''
        (check_that (last_rd_value tr 1 = 2) ''x1 did not recover committed mapping''
        (check_that (last_rd_value tr 3 = 5) ''branch target did not commit'' Tb_pass)))"

definition t_nested_taken_branches :: tb_verdict where
  "t_nested_taken_branches =
    (let (_, tr) = gate_run (gate_mem [make_itype 1 0 0 1 0x13, make_itype 1 0 0 2 0x13, make_btype 8 2 1 0,
                     make_itype 11 0 0 3 0x13, make_btype 8 2 1 0, make_itype 22 0 0 3 0x13,
                     make_itype 33 0 0 3 0x13, make_ecall]) 300
     in check_that (\<not> saw_rd_value tr 3 11) ''first wrong-path write committed''
        (check_that (\<not> saw_rd_value tr 3 22) ''second wrong-path write committed''
        (check_that (last_rd_value tr 3 = 33) ''nested branch final target missing'' Tb_pass)))"

definition t_branch_commit_trace :: tb_verdict where
  "t_branch_commit_trace =
    (let (_, tr) = gate_run (gate_mem branch_skip_program) 250
     in check_that (list_ex (\<lambda>t. tr_inst t = make_btype 8 2 1 0 \<and> tr_pc t = RESET_VECTOR + 8) tr)
          ''taken branch did not appear in commit trace''
        (check_that (\<not> saw_rd_value tr 3 99) ''wrong-path commit after branch'' Tb_pass))"

text \<open>The issue queue tests fill the queue by hand and run \<open>issue_module\<close> once.\<close>

definition filled_slot :: "nat \<Rightarrow> IssueSlotEntry \<Rightarrow> IssueSlotEntry" where
  "filled_slot i e = e\<lparr>is_valid := True, is_request := True,
     is_uop := make_iq_uop (RESET_VECTOR + 4 * word_of_nat i) (word_of_nat i)\<rparr>"

definition with_alu_iq :: "(IssueQueueState \<Rightarrow> IssueQueueState) \<Rightarrow> BoomCoreState \<Rightarrow> BoomCoreState" where
  "with_alu_iq f s = s\<lparr>bs_issue := (bs_issue s)\<lparr>iss_alu_iq := f (iss_alu_iq (bs_issue s))\<rparr>\<rparr>"

definition iq_three :: BoomCoreState where
  "iq_three = with_alu_iq (\<lambda>q. q\<lparr>iq_entries := map (\<lambda>i. if i < 3 then filled_slot i (iq_entries q ! i) else iq_entries q ! i)
      [0..<length (iq_entries q)], iq_count := 3, iq_tail := 3\<rparr>) BoomCoreState0"

definition t_iq_port_conflict :: tb_verdict where
  "t_iq_port_conflict =
    (let s = issue_module iq_three; iss = bs_issue s
     in check_that (iss_issued_valids iss ! 0) ''no IQ grant''
        (check_that (\<not> iss_issued_valids iss ! 1 \<and> \<not> iss_issued_valids iss ! 2) ''more than one uop granted to one execute lane''
        (check_that (iq_count (iss_alu_iq iss) = 2) ''unissued IQ entries were dropped''
        (check_that (uop_debug_pc (is_uop (iq_entries (iss_alu_iq iss) ! 0)) = RESET_VECTOR + 4) ''oldest remaining entry wrong'' Tb_pass))))"

definition t_iq_oldest_ready :: tb_verdict where
  "t_iq_oldest_ready =
    (let s = with_alu_iq (\<lambda>q. q\<lparr>iq_entries := (iq_entries q)[0 := (iq_entries q ! 0)\<lparr>is_prs1_busy := True\<rparr>]\<rparr>) iq_three;
         s = issue_module s; iss = bs_issue s
     in check_that (iss_issued_valids iss ! 0) ''no ready grant''
        (check_that (uop_debug_pc (iss_issued_uops iss ! 0) = RESET_VECTOR + 4) ''did not select oldest ready entry''
        (check_that (iq_count (iss_alu_iq iss) = 2) ''wrong IQ count after grant''
        (check_that (uop_debug_pc (is_uop (iq_entries (iss_alu_iq iss) ! 0)) = RESET_VECTOR) ''older blocked entry not retained'' Tb_pass))))"

definition t_iq_dispatch_issue_same_cycle :: tb_verdict where
  "t_iq_dispatch_issue_same_cycle =
    (let s = BoomCoreState0\<lparr>bs_rename := (bs_rename BoomCoreState0)
               \<lparr>ren_renamed_valids := (ren_renamed_valids (bs_rename BoomCoreState0))[0 := True],
                ren_renamed_uops := (ren_renamed_uops (bs_rename BoomCoreState0))[0 := make_iq_uop RESET_VECTOR 0]\<rparr>\<rparr>;
         s = issue_module s; iss = bs_issue s
     in check_that (iss_issued_valids iss ! 0) ''dispatched uop did not issue from empty IQ''
        (check_that (iq_count (iss_alu_iq iss) = 0) ''same-cycle issued uop left in IQ'' Tb_pass))"

definition t_iq_flush_clear :: tb_verdict where
  "t_iq_flush_clear =
    (let s = with_alu_iq (\<lambda>q. q\<lparr>iq_entries := map (\<lambda>i. if i < 4 then (iq_entries q ! i)\<lparr>is_valid := True, is_request := True\<rparr>
                 else iq_entries q ! i) [0..<length (iq_entries q)], iq_count := 4, iq_tail := 4\<rparr>) BoomCoreState0;
         s = issue_module (s\<lparr>bs_global_flush := True\<rparr>); iss = bs_issue s
     in check_that (iq_count (iss_alu_iq iss) = 0) ''IQ count not cleared''
        (check_that (list_all (\<lambda>i. \<not> is_valid (iq_entries (iss_alu_iq iss) ! i)) [0..<ISSUE_QUEUE_ALU_DEPTH]) ''IQ valid not cleared'' Tb_pass))"

text \<open>The last test drives the instruction port by hand: a stale answer, then the right ones.\<close>

definition imem_put :: "u64 \<Rightarrow> u32 \<Rightarrow> u32 \<Rightarrow> PipeSignals \<Rightarrow> PipeSignals" where
  "imem_put addr fid inst p = p\<lparr>pipe_imem_resp := stream_write (pipe_imem_resp p)
     (ImemResponse0\<lparr>irs_address := addr, irs_fetch_id := fid, irs_instruction := inst\<rparr>)\<rparr>"

definition t_stale_imem_response :: tb_verdict where
  "t_stale_imem_response =
    (let (s, p) = boom_core_step BoomCoreState0 PipeSignals0
     in check_that (\<not> stream_empty (pipe_imem_req p)) ''no initial imem request''
        (let (r0, q) = stream_read (pipe_imem_req p);
             (s, p) = boom_core_step s (imem_put (irq_address r0) (irq_fetch_id r0 + 99) make_ecall (p\<lparr>pipe_imem_req := q\<rparr>))
         in check_that (\<not> bs_io_success s \<and> \<not> bs_io_trap s) ''stale response was executed''
            (check_that (fe_request_sent (bs_frontend s)) ''request was cleared by stale response''
            (let (s, p) = boom_core_step s (imem_put (irq_address r0) (irq_fetch_id r0) (make_itype 42 0 0 1 0x13) p);
                 (s, p) = boom_core_step s p
             in check_that (\<not> stream_empty (pipe_imem_req p)) ''no second imem request''
                (let (r1, q) = stream_read (pipe_imem_req p);
                     (s, p) = boom_core_step s (imem_put (irq_address r1) (irq_fetch_id r1) make_ecall (p\<lparr>pipe_imem_req := q\<rparr>))
                 in check_that (bs_io_success s) ''correct response stream did not reach ECALL'' Tb_pass)))))"

definition t_single_lane_config :: tb_verdict where
  "t_single_lane_config =
    check_that (DISPATCH_WIDTH = 1) ''this regression expects SmallBoom single dispatch lane''
      (check_that (DECODE_WIDTH = 1) ''this regression expects SmallBoom single decode lane'' Tb_pass)"

definition gate_tests :: "tb_verdict list" where
  "gate_tests = [t_war_chain, t_multi_waw, t_raw_chain, t_stale_pdst_recycle, t_branch_after_allocs,
     t_nested_taken_branches, t_branch_commit_trace, t_iq_port_conflict, t_iq_oldest_ready,
     t_iq_dispatch_issue_same_cycle, t_iq_flush_clear, t_stale_imem_response, t_single_lane_config]"

definition gate_main :: int where
  "gate_main = (if length (filter (\<lambda>v. v \<noteq> Tb_pass) gate_tests) > 0 then 1 else 0)"

end
