(* ===== verification/WellFormed.thy ===== *)
theory WellFormed
  imports CoreStep
begin

text \<open>
  Memory safety of the cycle function: \<open>wf_core\<close> bounds every array length, ring index
  and register number the code uses as a subscript; every stage, the whole step and the
  top-level loop keep it. Under \<open>wf_core\<close> each \<open>xs ! i\<close> of the model is in range,
  so the lists of the model are the arrays of the code.
\<close>

section \<open>The invariant\<close>

definition wf_uop :: "MicroOp \<Rightarrow> bool" where
  "wf_uop u = (unat (ri_prs1 (uop_rename u)) < INT_PHYS_REGS \<and> unat (ri_prs2 (uop_rename u)) < INT_PHYS_REGS
     \<and> unat (ri_pdst (uop_rename u)) < INT_PHYS_REGS \<and> unat (ri_stale_pdst (uop_rename u)) < INT_PHYS_REGS
     \<and> unat (ri_lrs1 (uop_rename u)) < LOGICAL_REG_COUNT \<and> unat (ri_lrs2 (uop_rename u)) < LOGICAL_REG_COUNT
     \<and> unat (ri_ldst (uop_rename u)) < LOGICAL_REG_COUNT \<and> unat (qi_rob_idx (uop_queue u)) < ROB_DEPTH)"

definition phys :: "u8 \<Rightarrow> bool" where
  "phys p = (unat p < INT_PHYS_REGS)"

definition wf_dec :: "DecodeState \<Rightarrow> bool" where
  "wf_dec d = (length (dec_uops d) = DISPATCH_WIDTH \<and> length (dec_valids d) = DISPATCH_WIDTH
     \<and> list_all wf_uop (dec_uops d))"

definition wf_map :: "RenameMapTableState \<Rightarrow> bool" where
  "wf_map mt = (length (mt_map_table mt) = LOGICAL_REG_COUNT \<and> list_all phys (mt_map_table mt)
     \<and> length (mt_committed_map_table mt) = LOGICAL_REG_COUNT \<and> list_all phys (mt_committed_map_table mt))"

definition wf_fl :: "RenameFreeListState \<Rightarrow> bool" where
  "wf_fl fl = (length (fl_free_list fl) = INT_PHYS_REGS \<and> list_all phys (fl_free_list fl)
     \<and> length (fl_busy_table fl) = INT_PHYS_REGS \<and> unat (fl_head fl) < INT_PHYS_REGS
     \<and> unat (fl_tail fl) < INT_PHYS_REGS \<and> unat (fl_count fl) \<le> INT_PHYS_REGS)"

definition wf_ren :: "RenameState \<Rightarrow> bool" where
  "wf_ren r = (wf_map (ren_int_map_table r) \<and> wf_fl (ren_int_free_list r)
     \<and> length (ren_renamed_uops r) = DISPATCH_WIDTH \<and> length (ren_renamed_valids r) = DISPATCH_WIDTH
     \<and> list_all wf_uop (ren_renamed_uops r))"

definition wf_iq :: "IssueQueueState \<Rightarrow> bool" where
  "wf_iq q = (length (iq_entries q) = ISSUE_QUEUE_ALU_DEPTH \<and> list_all (\<lambda>e. wf_uop (is_uop e)) (iq_entries q)
     \<and> unat (iq_tail q) < ISSUE_QUEUE_ALU_DEPTH \<and> unat (iq_count q) \<le> ISSUE_QUEUE_ALU_DEPTH)"

definition wf_iss :: "IssueState \<Rightarrow> bool" where
  "wf_iss i = (wf_iq (iss_alu_iq i) \<and> length (iss_issued_uops i) = ISSUE_WIDTH
     \<and> length (iss_issued_valids i) = ISSUE_WIDTH \<and> list_all wf_uop (iss_issued_uops i))"

definition wf_exe :: "ExecuteState \<Rightarrow> bool" where
  "wf_exe e = (length (exe_alu_results e) = DISPATCH_WIDTH \<and> list_all (\<lambda>r. wf_uop (ar_uop r)) (exe_alu_results e))"

definition wf_rob :: "RobInternalState \<Rightarrow> bool" where
  "wf_rob rob = (length (rob_entries rob) = ROB_DEPTH \<and> list_all (\<lambda>e. wf_uop (re_uop e)) (rob_entries rob)
     \<and> unat (rob_head rob) < ROB_DEPTH \<and> unat (rob_tail rob) < ROB_DEPTH
     \<and> (rob_maybe_full rob \<longrightarrow> rob_head rob = rob_tail rob))"

definition wf_lsu :: "LsuState \<Rightarrow> bool" where
  "wf_lsu l = (length (lsu_stq l) = STQ_DEPTH \<and> length (lsu_ldq l) = LDQ_DEPTH
     \<and> unat (lsu_stq_tail l) < STQ_DEPTH \<and> unat (lsu_ldq_tail l) < LDQ_DEPTH
     \<and> unat (lsu_stq_count l) \<le> STQ_DEPTH \<and> unat (lsu_ldq_count l) \<le> LDQ_DEPTH
     \<and> unat (lsu_pending_load_rob_idx l) < ROB_DEPTH)"

definition wf_core :: "BoomCoreState \<Rightarrow> bool" where
  "wf_core s = (wf_dec (bs_decode s) \<and> wf_ren (bs_rename s) \<and> wf_iss (bs_issue s) \<and> wf_exe (bs_execute s)
     \<and> wf_rob (bs_rob s) \<and> wf_lsu (bs_lsu s) \<and> length (bs_int_rf s) = INT_PHYS_REGS)"

lemmas wf_defs = wf_dec_def wf_map_def wf_fl_def wf_ren_def wf_iq_def wf_iss_def wf_exe_def wf_rob_def wf_lsu_def

lemma list_all_update [simp]: "list_all P xs \<Longrightarrow> P x \<Longrightarrow> list_all P (xs[i := x])"
  by (auto simp: list_all_iff dest!: set_update_subset_insert [THEN subsetD])

lemma list_all_nthD: "list_all P xs \<Longrightarrow> i < length xs \<Longrightarrow> P (xs ! i)"
  by (simp add: list_all_length)

lemma list_all_replicate_iff [simp]: "list_all P (replicate n x) \<longleftrightarrow> n = 0 \<or> P x"
  by (auto simp: list_all_iff)

lemma wf_uop0 [simp]: "wf_uop MicroOp0"
  by (simp add: wf_uop_def MicroOp0_def RenameInfo0_def QueueInfo0_def)

lemma AluResult0_uop [simp]: "ar_uop AluResult0 = MicroOp0"
  by (simp add: AluResult0_def)

lemma wf_core_initial: "wf_core BoomCoreState0"
  by code_simp

section \<open>The stages\<close>

lemma wf_update_uop [simp]:
  "wf_uop (u\<lparr>uop_exception := x\<rparr>) = wf_uop u" "wf_uop (u\<lparr>uop_exc_cause := y\<rparr>) = wf_uop u"
  by (simp_all add: wf_uop_def)

lemma wf_step_begin: "wf_core s \<Longrightarrow> wf_core (branch_module (csr_module (step_begin s)))"
  by (simp add: wf_core_def step_begin_def csr_module_def branch_module_def)

lemma wf_set_rob_entry: "wf_core s \<Longrightarrow> wf_uop (re_uop e) \<Longrightarrow> wf_core (set_rob_entry i e s)"
  by (simp add: wf_core_def set_rob_entry_def wf_rob_def)

lemma wf_rob_entry: "wf_core s \<Longrightarrow> i < ROB_DEPTH \<Longrightarrow> wf_uop (re_uop (rob_entries (bs_rob s) ! i))"
  by (simp add: wf_core_def wf_rob_def list_all_length)

lemma wf_lsu_field: "wf_core s \<Longrightarrow> wf_lsu l \<Longrightarrow> wf_core (s\<lparr>bs_lsu := l\<rparr>)"
  by (simp add: wf_core_def)

lemma wf_complete_load: "wf_core s \<Longrightarrow> i < ROB_DEPTH \<Longrightarrow> wf_core (complete_load resp i s)"
proof -
  assume w: "wf_core s" "i < ROB_DEPTH"
  have "wf_core (s\<lparr>bs_int_rf := (bs_int_rf s)[n := v]\<rparr>)" for n v using w by (simp add: wf_core_def)
  then show ?thesis
    using w wf_rob_entry [OF w] by (auto simp: complete_load_def Let_def intro!: wf_set_rob_entry)
qed

lemma wf_lsu_response:
  assumes "wf_core s" "lsu_response s p = (s', p')"
  shows "wf_core s'"
proof -
  have i: "unat (lsu_pending_load_rob_idx (bs_lsu s)) < ROB_DEPTH" using assms(1) by (simp add: wf_core_def wf_lsu_def)
  have "wf_core (t\<lparr>bs_lsu := (bs_lsu t)\<lparr>lsu_load_response_pending := False, lsu_pending_load_transaction_id := 0\<rparr>\<rparr>)"
    if "wf_core t" for t using that by (simp add: wf_core_def wf_lsu_def)
  then show ?thesis using assms wf_complete_load [OF assms(1) i]
    by (auto simp: lsu_response_def Let_def simp del: complete_load_lsu split: if_splits prod.splits)
qed

lemma wf_inc_mod: "0 < n \<Longrightarrow> n \<le> 256 \<Longrightarrow> unat (inc_mod n x) < n"
  by simp

lemma wf_stq_push: "wf_lsu l \<Longrightarrow> wf_lsu (stq_push r l)"
  using unat_plus_one [of "lsu_stq_count l"] by (auto simp: wf_lsu_def stq_push_def Let_def)

lemma wf_ldq_push: "wf_lsu l \<Longrightarrow> wf_lsu (ldq_push r l)"
  using unat_plus_one [of "lsu_ldq_count l"] by (auto simp: wf_lsu_def ldq_push_def Let_def)

lemma wf_enqueue_lane: "wf_core s \<Longrightarrow> wf_core (lsu_enqueue_lane i s)"
  using wf_rob_entry [of s] wf_stq_push wf_ldq_push
  by (auto simp: lsu_enqueue_lane_def Let_def enqueue_store_def enqueue_load_def
      intro!: wf_lsu_field wf_set_rob_entry) (auto simp: wf_core_def)

lemma wf_try_issue:
  assumes "wf_core s" "unat i < ROB_DEPTH" "try_issue_load s p i = (s', p')"
  shows "wf_core s'"
proof -
  have "wf_core (set_rob_entry (unat i) (e\<lparr>re_memory_request_sent := a, re_memory_transaction_id := b\<rparr>) s)"
    if "e = rob_entries (bs_rob s) ! unat i" for e a b
    using wf_rob_entry [OF assms(1,2)] that by (intro wf_set_rob_entry assms(1)) simp
  then show ?thesis
    using assms by (auto simp: try_issue_load_def Let_def wf_core_def wf_lsu_def split: if_splits)
qed

lemma wf_issue_loads: "wf_core s \<Longrightarrow> issue_loads is s p = (s', p') \<Longrightarrow> wf_core s'"
proof (induction "is" arbitrary: s p)
  case (Cons i "is")
  let ?idx = "word_of_nat ((unat (rob_head (bs_rob s)) + i) mod ROB_DEPTH) :: u8"
  have b: "unat ?idx < ROB_DEPTH"
    using mod_less_divisor [of 32 "unat (rob_head (bs_rob s)) + i"]
    by (simp only: unat_of_nat) (simp add: take_bit_nat_eq_self)
  obtain s1 p1 where t: "try_issue_load s p ?idx = (s1, p1)" by force
  have "wf_core s1" using wf_try_issue [OF Cons.prems(1) b t] .
  then show ?case using Cons t by (auto simp: Let_def split: if_splits)
qed simp

lemma wf_lsu_module: "wf_core s \<Longrightarrow> lsu_module s p = (s', p') \<Longrightarrow> wf_core s'"
proof -
  assume w: "wf_core s" and l: "lsu_module s p = (s', p')"
  have "wf_lsu (clear_lsu_queues (bs_lsu s))" by (simp add: wf_lsu_def clear_lsu_queues_def)
  then show ?thesis
    using w l wf_lsu_field [OF w] by (auto simp: lsu_module_def Let_def split: if_splits prod.splits
        dest!: wf_issue_loads [rotated] intro: wf_enqueue_lane wf_lsu_response)
qed

lemma wf_frontend_module: "wf_core s \<Longrightarrow> frontend_module s p = (s', p') \<Longrightarrow> wf_core s'"
  by (auto simp: frontend_module_def frontend_flush_mark_def frontend_reset_def frontend_redirect_def
      frontend_flush_def wf_core_def Let_def split: if_splits prod.splits)

lemma register_fields_bound:
  "unat (rd_of w) < LOGICAL_REG_COUNT" "unat (rs1_of w) < LOGICAL_REG_COUNT" "unat (rs2_of w) < LOGICAL_REG_COUNT"
proof -
  have b: "unat (ucast (x AND 0x1F) :: u8) < 32" for x :: u32
  proof -
    have "take_bit 5 (unat x) < 32" using take_bit_nat_less_exp [of 5 "unat x"] by simp
    then show ?thesis
      by (simp add: and_masks32 unsigned_ucast_eq unsigned_take_bit_eq)
  qed
  show "unat (rd_of w) < LOGICAL_REG_COUNT" "unat (rs1_of w) < LOGICAL_REG_COUNT" "unat (rs2_of w) < LOGICAL_REG_COUNT"
    unfolding rd_of_def rs1_of_def rs2_of_def by (rule b)+
qed

lemma decode_uop_rename:
  "ri_lrs1 (uop_rename (decode_uop pc w)) = rs1_of w" "ri_lrs2 (uop_rename (decode_uop pc w)) = rs2_of w"
  "ri_ldst (uop_rename (decode_uop pc w)) = rd_of w" "ri_prs1 (uop_rename (decode_uop pc w)) = 0"
  "ri_prs2 (uop_rename (decode_uop pc w)) = 0" "ri_pdst (uop_rename (decode_uop pc w)) = 0"
  "ri_stale_pdst (uop_rename (decode_uop pc w)) = 0" "qi_rob_idx (uop_queue (decode_uop pc w)) = 0"
  by (simp_all add: decode_uop_identity decode_uop_registers QueueInfo0_def)

lemma wf_decode_uop: "wf_uop (decode_uop pc w)"
  using register_fields_bound by (simp add: wf_uop_def decode_uop_rename)

lemma wf_decode_module: "wf_core s \<Longrightarrow> wf_core (decode_module s)"
  by (simp add: wf_core_def decode_module_def wf_dec_def wf_decode_uop Let_def)

lemma wf_map_nth: "wf_map mt \<Longrightarrow> i < LOGICAL_REG_COUNT \<Longrightarrow> unat (mt_map_table mt ! i) < INT_PHYS_REGS"
  by (simp add: wf_map_def phys_def list_all_length)

lemma wf_fl_pop:
  assumes "wf_fl fl" "fl_count fl > 0"
  shows "phys (fst (fl_pop fl))" "wf_fl (snd (fl_pop fl))"
proof -
  have "unat (fl_count fl) > 0" using assms(2) by (simp add: word_less_nat_alt)
  then have "unat (fl_count fl - 1) = unat (fl_count fl) - 1" by (rule unat_minus_one_pos)
  then show "wf_fl (snd (fl_pop fl))" "phys (fst (fl_pop fl))"
    using assms(1) by (auto simp: wf_fl_def fl_pop_def Let_def list_all_length)
qed

lemma wf_rename_uop:
  assumes "wf_uop u" "wf_map mt" "wf_fl fl" "rename_uop u mt fl = (u', mt', fl')"
  shows "wf_uop u' \<and> wf_map mt' \<and> wf_fl fl'"
proof -
  have src: "wf_uop (rename_sources (mt_map_table mt) u)"
    using assms(1) wf_map_nth [OF assms(2)] by (simp add: wf_uop_def rename_sources_def)
  let ?s = "rename_sources (mt_map_table mt) u" and ?w = "ri_dst_rtype (uop_rename (rename_sources (mt_map_table mt) u)) = DST_INT
    \<and> ri_ldst (uop_rename (rename_sources (mt_map_table mt) u)) \<noteq> 0"
  consider (none) "\<not> ?w" | (empty) ?w "\<not> fl_count fl > 0" | (take) ?w "fl_count fl > 0" by blast
  then show ?thesis
  proof cases
    case none
    then have "u' = ?s\<lparr>uop_rename := (uop_rename ?s)\<lparr>ri_pdst := 0, ri_ldst := 0\<rparr>\<rparr>" "mt' = mt" "fl' = fl"
      using assms(4) by (auto simp: rename_uop_def Let_def)
    then show ?thesis using assms(2,3) src by (simp add: wf_uop_def)
  next
    case empty
    then show ?thesis using assms src by (auto simp: rename_uop_def Let_def)
  next
    case take
    then have "u' = ?s\<lparr>uop_rename := (uop_rename ?s)\<lparr>ri_pdst := fst (fl_pop fl)\<rparr>\<rparr>" "fl' = snd (fl_pop fl)"
      "mt' = mt\<lparr>mt_map_table := (mt_map_table mt)[unat (ri_ldst (uop_rename ?s)) := fst (fl_pop fl)]\<rparr>"
      using assms(4) by (auto simp: rename_uop_def Let_def split: prod.splits)
    then show ?thesis using assms(2) src wf_fl_pop [OF assms(3) take(2)] by (simp add: wf_uop_def wf_map_def phys_def)
  qed
qed

lemma wf_rename_restore: "wf_map mt \<Longrightarrow> wf_map (rename_restore mt)"
  by (simp add: wf_map_def rename_restore_def)

lemma wf_rename_lane:
  assumes "wf_dec d" "wf_ren r" "i < DISPATCH_WIDTH"
  shows "wf_ren (rename_lane d i r)"
proof (cases "dec_valids d ! i")
  case True
  obtain u mt fl where r: "rename_uop (dec_uops d ! i) (ren_int_map_table r) (ren_int_free_list r) = (u, mt, fl)"
    by (cases "rename_uop (dec_uops d ! i) (ren_int_map_table r) (ren_int_free_list r)")
  have "wf_uop (dec_uops d ! i)" "wf_map (ren_int_map_table r)" "wf_fl (ren_int_free_list r)"
    using assms by (simp_all add: wf_dec_def wf_ren_def list_all_length)
  then have "wf_uop u" "wf_map mt" "wf_fl fl" using wf_rename_uop r by blast+
  then show ?thesis using True r assms(2) by (simp add: rename_lane_def wf_ren_def)
qed (use assms(2) in \<open>simp add: rename_lane_def\<close>)

lemma wf_rename_module: "wf_core s \<Longrightarrow> wf_core (rename_module s)"
proof -
  assume w: "wf_core s"
  let ?r = "(bs_rename s)\<lparr>ren_renamed_valids := replicate DISPATCH_WIDTH False, ren_renamed_uops := replicate DISPATCH_WIDTH MicroOp0\<rparr>"
  have "wf_ren ?r" "wf_dec (bs_decode s)" using w by (simp_all add: wf_core_def wf_ren_def)
  moreover from this have "wf_ren (?r\<lparr>ren_int_map_table := rename_restore (ren_int_map_table ?r)\<rparr>)"
    by (simp add: wf_ren_def wf_rename_restore)
  ultimately show ?thesis using w wf_rename_lane
    by (simp add: rename_module_def Let_def wf_core_def)
qed

lemma wf_rob_push: "wf_rob rob \<Longrightarrow> wf_uop u \<Longrightarrow> \<not> rob_is_full rob \<Longrightarrow> wf_rob (rob_push rob u)"
  by (auto simp: wf_rob_def rob_push_def rob_entry_of_def RobEntry0_def wf_uop_def Let_def rob_is_full_def)

lemma wf_rob_allocate: "wf_core s \<Longrightarrow> wf_core (rob_allocate s)"
proof -
  have st: "wf_core (s\<lparr>bs_rob := (bs_rob s)\<lparr>rob_state := st\<rparr>\<rparr>)" if "wf_core s" for s st
    using that by (simp add: wf_core_def wf_rob_def)
  have lane: "wf_core (rob_allocate_lanes [0] s)" if w: "wf_core s" for s
  proof -
    have u: "wf_uop (ren_renamed_uops (bs_rename s) ! 0)" "wf_rob (bs_rob s)"
      using w by (simp_all add: wf_core_def wf_ren_def list_all_length)
    then have "wf_uop ((ren_renamed_uops (bs_rename s) ! 0)\<lparr>uop_queue := (uop_queue (ren_renamed_uops (bs_rename s) ! 0))\<lparr>qi_rob_idx := rob_tail (bs_rob s)\<rparr>\<rparr>)"
      by (simp add: wf_uop_def wf_rob_def)
    then show ?thesis using w u by (auto simp: Let_def wf_core_def wf_ren_def wf_rob_push)
  qed
  assume "wf_core s"
  then show ?thesis using st lane by (simp add: rob_allocate_def Let_def del: rob_allocate_lanes.simps)
qed

lemma wf_issue_dispatch:
  assumes "wf_ren r" "wf_iq q" shows "wf_iq (issue_dispatch_lanes r [0] q)"
proof -
  have "wf_uop (ren_renamed_uops r ! 0)" using assms(1) by (simp add: wf_ren_def list_all_length)
  moreover have "unat (iq_count q + 1) = unat (iq_count q) + 1" if "unat (iq_count q) < ISSUE_QUEUE_ALU_DEPTH"
    using that by (intro unat_plus_one) simp
  ultimately show ?thesis
    using assms(2) by (auto simp: wf_iq_def issue_enqueue_def Let_def)
qed

lemma wf_issue_grant:
  assumes "wf_iss i" "k < ISSUE_QUEUE_ALU_DEPTH"
  shows "wf_iss (i\<lparr>iss_alu_iq := (iss_alu_iq i)\<lparr>iq_entries := (iq_entries (iss_alu_iq i))
      [k := (iq_entries (iss_alu_iq i) ! k)\<lparr>is_granted := True, is_request := False\<rparr>]\<rparr>,
      iss_issued_uops := (iss_issued_uops i)[n := is_uop (iq_entries (iss_alu_iq i) ! k)],
      iss_issued_valids := (iss_issued_valids i)[n := True]\<rparr>)"
proof -
  have "wf_uop (is_uop (iq_entries (iss_alu_iq i) ! k))"
    using assms by (simp add: wf_iss_def wf_iq_def list_all_length)
  then show ?thesis using assms by (simp add: wf_iss_def wf_iq_def)
qed

lemma wf_issue_select: "wf_iss i \<Longrightarrow> set is \<subseteq> {..< ISSUE_QUEUE_ALU_DEPTH} \<Longrightarrow> wf_iss (issue_select is n i)"
proof (induction "is" arbitrary: n i)
  case (Cons k ks m j)
  have k: "k < ISSUE_QUEUE_ALU_DEPTH" "set ks \<subseteq> {..< ISSUE_QUEUE_ALU_DEPTH}" using Cons.prems(2) by simp_all
  show ?case
    unfolding issue_select.simps Let_def
    using Cons.prems(1) Cons.IH [OF Cons.prems(1) k(2), of m]
      Cons.IH [OF wf_issue_grant [OF Cons.prems(1) k(1), of m] k(2), of "m + 1"]
    by (simp only: split: if_split) blast
qed simp

lemma wf_issue_compact: "wf_iq q \<Longrightarrow> wf_iq (issue_compact q)"
proof -
  assume w: "wf_iq q"
  let ?k = "filter slot_kept (iq_entries q)"
  have l: "length ?k \<le> 8" using w length_filter_le [of slot_kept "iq_entries q"] by (simp add: wf_iq_def)
  then have "unat (word_of_nat (length ?k) :: u8) = length ?k" "unat (word_of_nat (length ?k mod 8) :: u8) = length ?k mod 8"
    by (simp_all add: unat_of_nat take_bit_nat_eq_self)
  moreover have "list_all (\<lambda>e. wf_uop (is_uop e)) ?k" using w by (simp add: wf_iq_def list_all_iff)
  moreover have "wf_uop (is_uop IssueSlotEntry0)" by (simp add: IssueSlotEntry0_def)
  ultimately show ?thesis using l by (simp add: wf_iq_def issue_compact_def Let_def)
qed

lemma wf_issue_module: "wf_core s \<Longrightarrow> wf_core (issue_module s)"
proof -
  assume w: "wf_core s"
  have q: "wf_iq (iss_alu_iq (bs_issue s))" "wf_ren (bs_rename s)" using w by (simp_all add: wf_core_def wf_iss_def)
  have "wf_iq (issue_clear (iss_alu_iq (bs_issue s)))"
    using q(1) by (simp add: wf_iq_def issue_clear_def list_all_iff)
  moreover have "wf_iss (iss\<lparr>iss_alu_iq := issue_compact (iss_alu_iq iss)\<rparr>)" if "wf_iss iss" for iss
    using that by (simp add: wf_iss_def wf_issue_compact)
  moreover have "wf_iss (issue_select [0..<ISSUE_QUEUE_ALU_DEPTH] 0 ((bs_issue s)\<lparr>iss_issued_valids := replicate ISSUE_WIDTH False,
         iss_issued_uops := replicate ISSUE_WIDTH MicroOp0, iss_alu_iq := issue_dispatch_lanes (bs_rename s) [0] (iss_alu_iq (bs_issue s))\<rparr>))"
    using wf_issue_dispatch [OF q(2,1)] by (intro wf_issue_select) (auto simp: wf_iss_def)
  ultimately show ?thesis
    using w q by (simp add: issue_module_def Let_def wf_core_def wf_iss_def del: issue_dispatch_lanes.simps)
qed

lemma wf_execute_lane: "wf_core s \<Longrightarrow> wf_uop u \<Longrightarrow> wf_core (execute_lane n u s)"
  by (simp add: execute_lane_def Let_def wf_core_def wf_exe_def)

lemma wf_execute_lanes: "wf_core s \<Longrightarrow> set is \<subseteq> {..< ISSUE_WIDTH} \<Longrightarrow> wf_core (execute_lanes is n s)"
proof (induction "is" arbitrary: n s)
  case (Cons i "is")
  have "wf_uop (iss_issued_uops (bs_issue s) ! i)"
    using Cons.prems by (simp add: wf_core_def wf_iss_def list_all_length)
  then show ?case using Cons wf_execute_lane by simp
qed simp

lemma wf_execute_module: "wf_core s \<Longrightarrow> wf_core (execute_module s)"
proof -
  assume "wf_core s"
  then have "wf_core (s\<lparr>bs_execute := (bs_execute s)\<lparr>exe_alu_results := replicate DISPATCH_WIDTH AluResult0\<rparr>\<rparr>)"
    by (simp add: wf_core_def wf_exe_def)
  then show ?thesis unfolding execute_module_def Let_def by (rule wf_execute_lanes) auto
qed

section \<open>Commit\<close>

lemma wf_rob_flush: "wf_rob rob \<Longrightarrow> wf_rob (rob_flush rob)"
  by (auto simp: wf_rob_def rob_flush_def list_all_iff)

lemma wf_rob_complete: "wf_rob rob \<Longrightarrow> wf_rob (rob_complete r rob)"
  by (auto simp: wf_rob_def rob_complete_def Let_def list_all_length nth_list_update)

lemma wf_rob_pop: "wf_rob rob \<Longrightarrow> wf_rob (rob_pop rob)"
  by (auto simp: wf_rob_def rob_pop_def list_all_length nth_list_update)

lemma wf_rob_flag: "wf_rob (rob\<lparr>rob_commit_valid := b\<rparr>) = wf_rob rob"
  "wf_rob (rob\<lparr>rob_last_commit := ce\<rparr>) = wf_rob rob" "wf_rob (rob\<lparr>rob_state := st\<rparr>) = wf_rob rob"
  by (simp_all add: wf_rob_def)

lemma wf_commit_exception: "wf_core s \<Longrightarrow> wf_core (commit_exception u s)"
  by (simp add: commit_exception_def wf_core_def Let_def wf_rob_pop wf_rob_flag)

lemma wf_commit_store: "wf_core s \<Longrightarrow> commit_store s p = Some (s', p') \<Longrightarrow> wf_core s'"
proof -
  assume w: "wf_core s" and c: "commit_store s p = Some (s', p')"
  let ?h = "unat (rob_head (bs_rob s))"
  let ?t = "s\<lparr>bs_lsu := (bs_lsu s)\<lparr>lsu_next_transaction_id := lsu_next_transaction_id (bs_lsu s) + 1\<rparr>\<rparr>"
  let ?e = "(rob_entries (bs_rob s) ! ?h)\<lparr>re_memory_request_sent := True, re_memory_completed := True\<rparr>"
  have "?h < ROB_DEPTH" using w by (simp add: wf_core_def wf_rob_def)
  then have "wf_uop (re_uop ?e)" using wf_rob_entry [OF w] by simp
  moreover have "wf_core ?t" using w by (simp add: wf_core_def wf_lsu_def)
  ultimately have "wf_core (set_rob_entry ?h ?e ?t)" by (rule wf_set_rob_entry [rotated])
  then have "wf_core ((set_rob_entry ?h ?e ?t)\<lparr>bs_tohost := d\<rparr>)" for d by (simp add: wf_core_def)
  then show ?thesis using w c by (auto simp: commit_store_def Let_def split: if_splits)
qed

lemma wf_fl_push: "wf_fl fl \<Longrightarrow> phys p \<Longrightarrow> unat (fl_count fl) < INT_PHYS_REGS \<Longrightarrow> wf_fl (fl_push p fl)"
  using unat_plus_one [of "fl_count fl"] by (simp add: wf_fl_def fl_push_def)

lemma wf_commit_rename: "wf_ren r \<Longrightarrow> wf_uop u \<Longrightarrow> wf_ren (commit_rename u r)"
proof -
  assume r: "wf_ren r" and u: "wf_uop u"
  have "wf_ren (r\<lparr>ren_int_map_table := (ren_int_map_table r)\<lparr>mt_committed_map_table :=
      (mt_committed_map_table (ren_int_map_table r))[unat (ri_ldst (uop_rename u)) := ri_pdst (uop_rename u)]\<rparr>\<rparr>)"
    using r u by (simp add: wf_ren_def wf_map_def wf_uop_def phys_def)
  then show ?thesis
    using r wf_fl_push [of "ren_int_free_list r" "ri_stale_pdst (uop_rename u)"]
    by (simp add: commit_rename_def Let_def wf_ren_def phys_def)
qed

lemma wf_commit_retire: "wf_core s \<Longrightarrow> commit_retire s p = (s', p') \<Longrightarrow> wf_core s'"
proof -
  assume w: "wf_core s" and c: "commit_retire s p = (s', p')"
  let ?u = "re_uop (rob_entries (bs_rob s) ! unat (rob_head (bs_rob s)))"
  have "wf_uop ?u" using w wf_rob_entry [OF w] by (simp add: wf_core_def wf_rob_def)
  then have "wf_ren (commit_rename ?u (bs_rename s))" using w by (simp add: wf_core_def wf_commit_rename)
  then show ?thesis using w c
    by (auto simp: commit_retire_def Let_def wf_core_def intro!: wf_rob_pop) (simp_all add: wf_rob_def)
qed

lemma wf_commit_head: "wf_core s \<Longrightarrow> commit_head s p = (s', p') \<Longrightarrow> wf_core s'"
  by (auto simp: commit_head_def Let_def wf_commit_exception dest: wf_commit_store wf_commit_retire
      split: if_splits option.splits)

lemma wf_rob_field: "wf_core s \<Longrightarrow> wf_rob rob \<Longrightarrow> wf_core (s\<lparr>bs_rob := rob\<rparr>)"
  by (simp add: wf_core_def)

lemma wf_rob_commit_module:
  assumes "wf_core s" "rob_commit_module s p = (s', p')"
  shows "wf_core s'"
proof -
  let ?s = "s\<lparr>bs_rob := (bs_rob s)\<lparr>rob_commit_valid := False\<rparr>\<rparr>"
  let ?c = "?s\<lparr>bs_rob := fold (\<lambda>i. rob_complete (exe_alu_results (bs_execute ?s) ! i)) [0..<DISPATCH_WIDTH] (bs_rob ?s)\<rparr>"
  have w: "wf_core ?s" "wf_rob (bs_rob ?s)" using assms(1) by (simp_all add: wf_core_def wf_rob_flag)
  have c: "wf_core ?c"
    by (rule wf_rob_field [OF w(1)]) (use w(2) in \<open>simp add: wf_rob_complete\<close>)
  have f: "wf_core (?s\<lparr>bs_rob := rob_flush (bs_rob ?s), bs_global_flush := True\<rparr>)"
    using w by (simp add: wf_core_def wf_rob_flush)
  from assms(2) consider "s' = ?s\<lparr>bs_rob := rob_flush (bs_rob ?s), bs_global_flush := True\<rparr>"
    | "s' = ?c" | "commit_head ?c p = (s', p')"
    unfolding rob_commit_module_def Let_def by (auto split: if_split_asm)
  then show ?thesis
  proof cases
    case 1 show ?thesis unfolding 1 by (rule f)
  next
    case 2 show ?thesis unfolding 2 by (rule c)
  next
    case 3 show ?thesis by (rule wf_commit_head [OF c 3])
  qed
qed

section \<open>The cycle and the reachable states\<close>

lemma wf_boom_core_step: "wf_core s \<Longrightarrow> boom_core_step s p = (s', p') \<Longrightarrow> wf_core s'"
proof -
  assume w: "wf_core s" and b: "boom_core_step s p = (s', p')"
  obtain s1 p1 where l: "lsu_module (branch_module (csr_module (step_begin s))) p = (s1, p1)" by force
  obtain s2 p2 where f: "frontend_module s1 p1 = (s2, p2)" by force
  have "wf_core s2" by (rule wf_frontend_module [OF wf_lsu_module [OF wf_step_begin [OF w] l] f])
  then have "wf_core (execute_module (issue_module (rob_allocate (rename_module (decode_module s2)))))"
    by (intro wf_execute_module wf_issue_module wf_rob_allocate wf_rename_module wf_decode_module)
  moreover have "rob_commit_module (execute_module (issue_module (rob_allocate (rename_module (decode_module s2))))) p2 = (s', p')"
    using b l f by (simp add: boom_core_step_def Let_def)
  ultimately show ?thesis by (rule wf_rob_commit_module)
qed

text \<open>
  The states of the core under any environment: each cycle the surroundings may hand the
  core any pipe contents, which covers every behaviour of memories and consumers.
\<close>

inductive reachable :: "BoomCoreState \<Rightarrow> bool" where
  reset: "reachable BoomCoreState0"
| cycle: "reachable s \<Longrightarrow> boom_core_step s p = (s', p') \<Longrightarrow> reachable s'"

lemma reachable_wf: "reachable s \<Longrightarrow> wf_core s"
  by (induction rule: reachable.induct) (auto intro: wf_core_initial wf_boom_core_step)

text \<open>
  C7: Memory safety: in every state the core reaches from reset, whatever its memories and
  consumers do, each array has its declared length and each ring index, occupancy count,
  register number and reorder buffer index the code uses as a subscript is within bounds, so
  no step reads or writes outside an array.
\<close>
theorem reachable_in_bounds:
  assumes "reachable s"
  shows "wf_core s"
  by (rule reachable_wf [OF assms])

lemma reachable_in_bounds_witness:
  "wf_core (fst (boom_core_step BoomCoreState0 PipeSignals0))"
  by (rule reachable_in_bounds, rule reachable.cycle [OF reachable.reset prod.collapse [symmetric]])

end
