(* ===== verification/Divergence.thy ===== *)
theory Divergence
  imports Isa CoreStep
begin

text \<open>
  Where the core departs from the instruction set: the operand forms that \<open>core_supports\<close>
  excludes, each with the value the decoder and the execute stage compute instead, stated
  for all operands.
\<close>

section \<open>What the excluded instructions compute\<close>

text \<open>The result of executing an encoded instruction.\<close>

definition core_value :: "Instr \<Rightarrow> u64 \<Rightarrow> u64 \<Rightarrow> u64 \<Rightarrow> u64" where
  "core_value i pc a b = ar_result (execute_result (decode_uop pc (encode i)) a b)"

lemmas core_value_defs = core_value_def encode_simps decode_defs exec_defs

lemma shift_imm_f7_srl_large:
  assumes "32 \<le> (sh :: 6 word)"
  shows "(ucast (drop_bit 5 (shift_imm OpSrl sh) AND 0x7F) :: u8) \<noteq> 0"
proof -
  have "32 \<le> unat sh" "unat sh < 64"
    using assms unsigned_less [of sh, where ?'a = nat] by (simp_all add: word_le_nat_alt)
  then have "unat sh div 2 ^ 5 = 1" by simp
  then have "bit (unat sh) 5" by (simp add: bit_iff_odd)
  then have "bit sh 5" by (simp add: bit_unsigned_iff)
  then have "bit (ucast (drop_bit 5 (shift_imm OpSrl sh) AND 0x7F) :: u8) 0"
    unfolding shift_imm_def numeral_mask_bits by (simp add: bit_simps)
  then show ?thesis by (metis bit_0_eq bot_apply bot_bool_def)
qed

text \<open>
  A logical right shift by an immediate of 32 or more executes as an arithmetic one: bit 25 of
  the encoding belongs to the 6-bit shift amount, but the decoder requires all seven bits
  above it to be zero for SRLI.
\<close>
lemma srli_is_srai:
  "core_value (Shift OpSrl rd rs1 sh) pc a b = alu_spec (if sh < 32 then OpSrl else OpSra) a (word_of_nat (unat sh))"
proof (cases "sh < 32")
  case True
  then show ?thesis using shift_imm_f7_srl [OF True]
    by (simp add: core_value_defs) (simp add: drop_bit_spec amount64)
next
  case False
  then have "32 \<le> sh" by (simp add: not_less)
  from shift_imm_f7_srl_large [OF this] False show ?thesis
    by (simp add: core_value_defs) (simp add: signed_drop_bit_spec amount64)
qed

text \<open>
  SLTIU ignores its immediate: it compares the first operand with the value of the
  register whose number the low immediate bits happen to name.
\<close>
lemma sltiu_compares_register:
  "core_value (Imm OpSltu rd rs1 imm) pc a b = (if unat a < unat b then 1 else 0)"
  by (simp add: core_value_defs word_less_nat_alt)

text \<open>
  The word forms of the register instructions use the (zero) immediate of their
  micro-operation as the second operand: ADDW only sign-extends its first operand, SLLW and
  SRAW shift by nothing, and SRLW, like SRLIW, has no case at all and yields zero. Only SUBW
  reads its second register.
\<close>
lemma word_forms_drop_operand:
  "core_value (RegW OpAdd rd rs1 rs2) pc a b = sext_low (sint a)
   \<and> core_value (RegW OpSll rd rs1 rs2) pc a b = sext_low (sint a)
   \<and> core_value (RegW OpSra rd rs1 rs2) pc a b = sext_low (sint a)
   \<and> core_value (RegW OpSrl rd rs1 rs2) pc a b = 0 \<and> core_value (ShiftW OpSrl rd rs1 sh) pc a b = 0
   \<and> core_value (RegW OpSub rd rs1 rs2) pc a b = sext_low (sint a - sint b)"
proof -
  have l: "sext32 (scast (low32 a)) = sext_low (sint a)"
    unfolding sext32_scast sext_low_word low32_word by simp
  have z: "(ucast (drop_bit 5 (shift_imm OpSrl sh) AND 0x7F) :: u8) = 0"
    unfolding shift_imm_def by (intro bit_word_eqI) (auto simp: bit_simps dest: bit_imp_le_length)
  show ?thesis using l w32_sub [of a b] z by (simp add: core_value_defs)
qed

text \<open>
  The upper immediates are zero-extended: LUI and AUIPC with bit 31 of the immediate
  set differ from the instruction set by \<open>2 ^ 32\<close>.
\<close>
lemma upper_immediate_not_extended:
  "core_value (Lui rd imm) pc a b = ucast imm * 2 ^ 12 \<and> core_value (Auipc rd imm) pc a b = pc + ucast imm * 2 ^ 12"
proof -
  have "(ucast (push_bit 12 (ucast imm) AND 0xFFFFF000 :: u32) :: u64) = push_bit 12 (ucast imm)"
    unfolding high_masks32 by (rule bit_word_eqI) (auto simp: bit_simps dest: bit_imp_le_length)
  then have "(ucast (push_bit 12 (ucast imm) AND 0xFFFFF000 :: u32) :: u64) = ucast imm * 2 ^ 12"
    by (simp only: push_bit_eq_mult)
  then show ?thesis by (simp add: core_value_defs)
qed

text \<open>
  MUL multiplies the sign-extended low halves of its operands instead of the operands,
  so its result is right only when both fit in 32 bits.
\<close>
lemma mul_uses_low_halves:
  "core_value (Mul rd rs1 rs2) pc a b = word_of_int (signed_take_bit 31 (sint a) * signed_take_bit 31 (sint b))"
proof -
  have "(scast (low32 x) :: u64) = word_of_int (signed_take_bit 31 (sint x))" for x
    by (simp flip: sint_low32)
  then show ?thesis by (simp add: core_value_defs)
qed

text \<open>
  C35: What the core computes instead of the instruction set's value, for all operands.
  SLTIU compares its operand with the value of the register that the low immediate bits
  happen to name; the word forms of the register instructions use the zero immediate of their
  micro-operation as second operand, so ADDW only sign-extends, SLLW and SRAW shift by
  nothing, and SRLW and SRLIW, which have no case at all, yield zero; LUI and AUIPC
  zero-extend their immediate; MUL multiplies the sign-extended low halves; and a logical
  right shift by an immediate of 32 or more is an arithmetic one, because the decoder takes
  the sixth bit of the shift amount for a bit of funct7.
\<close>
theorem isa_divergences:
  "core_value (Imm OpSltu rd rs1 imm) pc a b = (if unat a < unat b then 1 else 0)
   \<and> core_value (RegW OpAdd rd rs1 rs2) pc a b = sext_low (sint a)
   \<and> core_value (RegW OpSll rd rs1 rs2) pc a b = sext_low (sint a)
   \<and> core_value (RegW OpSra rd rs1 rs2) pc a b = sext_low (sint a)
   \<and> core_value (RegW OpSrl rd rs1 rs2) pc a b = 0 \<and> core_value (ShiftW OpSrl rd rs1 sh) pc a b = 0
   \<and> core_value (Lui rd uimm) pc a b = ucast uimm * 2 ^ 12
   \<and> core_value (Auipc rd uimm) pc a b = pc + ucast uimm * 2 ^ 12
   \<and> core_value (Mul rd rs1 rs2) pc a b = word_of_int (signed_take_bit 31 (sint a) * signed_take_bit 31 (sint b))
   \<and> core_value (Shift OpSrl rd rs1 sh6) pc a b = alu_spec (if sh6 < 32 then OpSrl else OpSra) a (word_of_nat (unat sh6))"
  by (simp only: sltiu_compares_register word_forms_drop_operand upper_immediate_not_extended
      mul_uses_low_halves srli_is_srai simp_thms)

text \<open>
  CSR instructions have no effect: whatever the instruction word, a decoded CSR access
  executes to zero without raising, and the only writer of the CSR file besides the two
  counters, \<open>csr_module\<close>, leaves every register but \<open>cycle\<close> alone.
\<close>
lemma csr_accesses_are_void:
  assumes "opcode_of w = 0x73" "f3_of w \<in> {1, 2, 3, 5, 6, 7}"
  shows "ar_result (execute_result (decode_uop pc w) a b) = 0 \<and> \<not> uop_exception (decode_uop pc w)
    \<and> (bs_csr (csr_module s))\<lparr>csr_cycle := 0\<rparr> = (bs_csr s)\<lparr>csr_cycle := 0\<rparr>"
proof -
  have "decode_opcode w u = decode_system w u" for u
    using assms(1) by (simp add: decode_opcode_def)
  then show ?thesis
    using assms(2) by (auto simp: decode_uop_def decode_system_def decode_base_def decode_setters MicroOp0_def
        DecodeControl0_def Let_def exec_defs csr_module_def)
qed

end
