(* ===== verification/TraceText.thy ===== *)
theory TraceText
  imports Prelude
begin

text \<open>
  Text as the trace programs use it: searching a string, printing numbers with the printf
  conversions of the benches, and the flat JSON objects they print one per line. The
  emitters and the readers are written independently in the source (fprintf formats here,
  substring searches there); the lemmas on \<open>json_object\<close> are what connects them.
\<close>

section \<open>Searching\<close>

abbreviation quote :: char where
  "quote \<equiv> CHR 0x22"

definition starts :: "string \<Rightarrow> string \<Rightarrow> bool" where
  "starts p s \<longleftrightarrow> take (length p) s = p"

text \<open>\<open>std::string::find\<close>; \<open>None\<close> is \<open>npos\<close>.\<close>

fun str_find :: "string \<Rightarrow> string \<Rightarrow> nat option" where
  "str_find p [] = (if p = [] then Some 0 else None)"
| "str_find p (c # s) = (if starts p (c # s) then Some 0 else map_option Suc (str_find p s))"

lemma starts_Nil [simp]: "starts [] s"
  by (simp add: starts_def)

lemma starts_Cons [simp]: "starts (a # p) (c # s) \<longleftrightarrow> a = c \<and> starts p s"
  by (auto simp: starts_def)

lemma starts_empty [simp]: "starts p [] \<longleftrightarrow> p = []"
  by (auto simp: starts_def)

lemma starts_append [simp]: "starts (p @ q) (p @ s) \<longleftrightarrow> starts q s"
  by (simp add: starts_def)

lemma starts_terminated:
  assumes "c \<notin> set k" "c \<notin> set s"
  shows "starts (k @ c # q) (s @ c # r) \<longleftrightarrow> k = s \<and> starts q r"
  using assms
proof (induction k arbitrary: s)
  case Nil
  then show ?case
    by (cases s) auto
next
  case (Cons a k)
  then show ?case
    by (cases s) auto
qed

lemma str_find_skip:
  "c \<notin> set a \<Longrightarrow> str_find (c # p) (a @ b) = map_option (\<lambda>i. length a + i) (str_find (c # p) b)"
proof (induction a)
  case Nil
  then show ?case
    by (cases "str_find (c # p) b") auto
next
  case (Cons x a)
  then show ?case
    by (cases "str_find (c # p) b") auto
qed

text \<open>\<open>std::isspace\<close> in the C locale.\<close>

definition is_space :: "char \<Rightarrow> bool" where
  "is_space c \<longleftrightarrow> c \<in> {CHR '' '', CHR 0x09, CHR 0x0A, CHR 0x0B, CHR 0x0C, CHR 0x0D}"

section \<open>Printing numbers\<close>

definition dec_digit :: "nat \<Rightarrow> char" where
  "dec_digit d = char_of (48 + d)"

text \<open>\<open>%u\<close>, \<open>%d\<close> of a non-negative value, \<open>%llu\<close>.\<close>

fun dec_string :: "nat \<Rightarrow> string" where
  "dec_string n = (if n < 10 then [dec_digit n] else dec_string (n div 10) @ [dec_digit (n mod 10)])"

declare dec_string.simps [simp del]

definition hex_digit :: "nat \<Rightarrow> char" where
  "hex_digit d = (if d < 10 then char_of (48 + d) else char_of (87 + d))"

text \<open>\<open>%0nx\<close> of a value below \<open>16 ^ n\<close>.\<close>

primrec hex_fixed :: "nat \<Rightarrow> nat \<Rightarrow> string" where
  "hex_fixed 0 v = []"
| "hex_fixed (Suc n) v = hex_fixed n (v div 16) @ [hex_digit (v mod 16)]"

definition bool_text :: "bool \<Rightarrow> string" where
  "bool_text b = (if b then ''true'' else ''false'')"

lemma length_hex_fixed [simp]: "length (hex_fixed n v) = n"
  by (induction n arbitrary: v) simp_all

lemma hex_fixed_numeral:
  "hex_fixed (numeral n) v = hex_fixed (pred_numeral n) (v div 16) @ [hex_digit (v mod 16)]"
  using hex_fixed.simps(2) [of "pred_numeral n" v] by (simp only: numeral_eq_Suc [of n, symmetric])

lemma less_16_cases:
  "(d::nat) < 16 \<Longrightarrow> d \<in> {0,1,2,3,4,5,6,7,8,9,10,11,12,13,14,15}"
  by simp presburger

lemma hex_digit_inj: "a < 16 \<Longrightarrow> b < 16 \<Longrightarrow> hex_digit a = hex_digit b \<Longrightarrow> a = b"
  by (auto simp: hex_digit_def take_bit_nat_eq_self
      dest!: arg_cong [of _ _ "of_char :: char \<Rightarrow> nat"] split: if_splits)

lemma hex_fixed_inj:
  "v < 16 ^ n \<Longrightarrow> w < 16 ^ n \<Longrightarrow> hex_fixed n v = hex_fixed n w \<Longrightarrow> v = w"
proof (induction n arbitrary: v w)
  case 0
  then show ?case
    by simp
next
  case (Suc n)
  have "v div 16 < 16 ^ n" "w div 16 < 16 ^ n"
    using Suc.prems by (simp_all add: less_mult_imp_div_less mult.commute)
  then have "v div 16 = w div 16" "v mod 16 = w mod 16"
    using Suc by (auto intro: hex_digit_inj)
  then show ?case
    by (metis mult_div_mod_eq)
qed

lemma hex_fixed_unat_inj:
  "LENGTH('a) \<le> 4 * n \<Longrightarrow> hex_fixed n (unat (v :: 'a::len word)) = hex_fixed n (unat w) \<longleftrightarrow> v = w"
proof -
  assume "LENGTH('a) \<le> 4 * n"
  then have "(2::nat) ^ LENGTH('a) \<le> 2 ^ (4 * n)"
    by (rule power_increasing) simp
  then have "2 ^ LENGTH('a) \<le> (16::nat) ^ n"
    by (simp add: power_mult)
  moreover have "unat v < 2 ^ LENGTH('a)" "unat w < 2 ^ LENGTH('a)"
    by simp_all
  ultimately have "unat v < 16 ^ n" "unat w < 16 ^ n"
    by linarith+
  then show ?thesis
    using hex_fixed_inj [of "unat v" n "unat w"] by (auto simp: unat_eq_nat_iff)
qed

lemma dec_digit_inj: "a < 10 \<Longrightarrow> b < 10 \<Longrightarrow> dec_digit a = dec_digit b \<longleftrightarrow> a = b"
  by (auto simp: dec_digit_def take_bit_nat_eq_self dest!: arg_cong [of _ _ "of_char :: char \<Rightarrow> nat"])

lemma dec_string_not_Nil [simp]: "dec_string n \<noteq> []"
  by (subst dec_string.simps) simp

lemma single_append: "[a] = xs @ [b] \<longleftrightarrow> xs = [] \<and> a = b" "xs @ [b] = [a] \<longleftrightarrow> xs = [] \<and> a = b"
  by (cases xs; auto)+

lemma dec_string_cases:
  "k < 10 \<Longrightarrow> dec_string k = [dec_digit k]"
  "\<not> k < 10 \<Longrightarrow> dec_string k = dec_string (k div 10) @ [dec_digit (k mod 10)]"
  by (subst dec_string.simps, simp)+

lemma dec_string_inj [simp]: "dec_string n = dec_string m \<longleftrightarrow> n = m"
proof (induction n arbitrary: m rule: dec_string.induct)
  case (1 n)
  have "n div 10 = m div 10 \<and> n mod 10 = m mod 10 \<longleftrightarrow> n = m"
    by (metis mult_div_mod_eq)
  then show ?case
    using 1 by (cases "n < 10"; cases "m < 10") (auto simp: dec_string_cases dec_digit_inj single_append)
qed

lemma bool_text_inj [simp]: "bool_text a = bool_text b \<longleftrightarrow> a = b"
  by (simp add: bool_text_def)

lemma bool_text_true [simp]: "bool_text b = ''true'' \<longleftrightarrow> b"
  by (simp add: bool_text_def)

text \<open>Characters a JSON reader treats specially never occur in the printed numbers.\<close>

definition plain :: "string \<Rightarrow> bool" where
  "plain s \<longleftrightarrow> list_all (\<lambda>c. c \<notin> {quote, CHR '','', CHR '':'', CHR ''}'', CHR ''|''}) s"

lemma plain_append [simp]: "plain (a @ b) \<longleftrightarrow> plain a \<and> plain b"
  by (simp add: plain_def)

lemma plain_Nil [simp]: "plain []"
  by (simp add: plain_def)

lemma plain_Cons: "plain (c # s) \<longleftrightarrow> c \<notin> {quote, CHR '','', CHR '':'', CHR ''}'', CHR ''|''} \<and> plain s"
  by (simp add: plain_def)

lemma plain_dec_digit: "d < 10 \<Longrightarrow> plain [dec_digit d]"
  using less_16_cases [of d] by (auto simp: dec_digit_def plain_def char_of_def)

lemma plain_hex_digit: "d < 16 \<Longrightarrow> plain [hex_digit d]"
  using less_16_cases [of d] by (auto simp: hex_digit_def plain_def char_of_def bit_Suc_0_iff)

lemma plain_dec_string [simp]: "plain (dec_string n)"
  by (induction n rule: dec_string.induct) (subst dec_string.simps, simp add: plain_dec_digit)

lemma plain_hex_fixed [simp]: "plain (hex_fixed n v)"
  by (induction n arbitrary: v) (simp_all add: plain_hex_digit)

lemma plain_bool_text [simp]: "plain (bool_text b)"
  by (simp add: bool_text_def plain_Cons)

section \<open>Flat JSON objects\<close>

datatype json_atom = Quoted string | Bare string

primrec atom_text :: "json_atom \<Rightarrow> string" where
  "atom_text (Quoted s) = quote # s @ [quote]"
| "atom_text (Bare s) = s"

primrec atom_content :: "json_atom \<Rightarrow> string" where
  "atom_content (Quoted s) = s"
| "atom_content (Bare s) = s"

type_synonym json_fields = "(string \<times> json_atom) list"

definition json_field :: "string \<times> json_atom \<Rightarrow> string" where
  "json_field f = quote # fst f @ quote # CHR '':'' # atom_text (snd f)"

fun json_tail :: "json_fields \<Rightarrow> string" where
  "json_tail [] = ''}''"
| "json_tail (f # fs) = CHR '','' # json_field f @ json_tail fs"

fun json_object :: "json_fields \<Rightarrow> string" where
  "json_object [] = ''{}''"
| "json_object (f # fs) = CHR ''{'' # json_field f @ json_tail fs"

primrec atom_ok :: "json_atom \<Rightarrow> bool" where
  "atom_ok (Quoted s) \<longleftrightarrow> quote \<notin> set s"
| "atom_ok (Bare s) \<longleftrightarrow> quote \<notin> set s \<and> CHR '','' \<notin> set s \<and> CHR ''}'' \<notin> set s"

definition fields_ok :: "json_fields \<Rightarrow> bool" where
  "fields_ok fs \<longleftrightarrow> list_all (\<lambda>(k, a). quote \<notin> set k \<and> atom_ok a) fs"

lemma plainD:
  assumes "plain s"
  shows "quote \<notin> set s" "CHR '','' \<notin> set s" "CHR '':'' \<notin> set s" "CHR ''}'' \<notin> set s" "CHR ''|'' \<notin> set s"
  using assms by (auto simp: plain_def list_all_iff)

lemma atom_ok_plain [simp]: "plain (atom_content a) \<Longrightarrow> atom_ok a"
  by (cases a) (auto dest: plainD)

section \<open>Reading a value back\<close>

text \<open>The text of the value that starts at the head of \<open>t\<close>.\<close>

definition json_token :: "string \<Rightarrow> string" where
  "json_token t = (case t of [] \<Rightarrow> []
     | c # u \<Rightarrow> if c = quote then (if quote \<in> set u then takeWhile (\<lambda>x. x \<noteq> quote) u else [])
               else takeWhile (\<lambda>x. x \<noteq> CHR '','' \<and> x \<noteq> CHR ''}'') t)"

text \<open>\<open>value\<close> of trace_json_util.hpp.\<close>

definition json_value :: "string \<Rightarrow> string \<Rightarrow> string" where
  "json_value line key =
     (let needle = quote # key @ [quote, CHR '':'']
      in case str_find needle line of None \<Rightarrow> []
         | Some pos \<Rightarrow> json_token (drop (pos + length needle) line))"

lemma takeWhile_until: "list_all P s \<Longrightarrow> \<not> P c \<Longrightarrow> takeWhile P (s @ c # r) = s"
  by (induction s) auto

lemma json_token_atom:
  assumes "atom_ok a" "c \<in> {CHR '','', CHR ''}''}"
  shows "json_token (atom_text a @ c # r) = atom_content a"
proof (cases a)
  case (Quoted s)
  then have "takeWhile (\<lambda>x. x \<noteq> quote) (s @ quote # c # r) = s"
    using assms by (intro takeWhile_until) (auto simp: list_all_iff)
  then show ?thesis
    using Quoted by (simp add: json_token_def)
next
  case (Bare s)
  have t: "takeWhile (\<lambda>x. x \<noteq> CHR '','' \<and> x \<noteq> CHR ''}'') (s @ c # r) = s"
    using assms Bare by (intro takeWhile_until) (auto simp: list_all_iff)
  show ?thesis
  proof (cases s)
    case Nil
    then show ?thesis
      using Bare assms by (auto simp: json_token_def)
  next
    case (Cons x u)
    then have "x \<noteq> quote"
      using Bare assms(1) by auto
    then show ?thesis
      using Bare t by (simp add: json_token_def Cons)
  qed
qed

lemma find_in_atom:
  assumes "atom_ok a" "c \<in> {CHR '','', CHR ''}''}" and k: "plain k"
  shows "str_find (quote # k @ [quote, CHR '':'']) (atom_text a @ c # r) =
    map_option (\<lambda>i. length (atom_text a) + i) (str_find (quote # k @ [quote, CHR '':'']) (c # r))"
    (is "str_find ?n _ = _")
proof (cases a)
  case (Quoted s)
  have first: "\<not> starts ?n (quote # s @ quote # c # r)"
    using Quoted assms by (auto simp: starts_terminated plainD)
  have second: "\<not> starts ?n (quote # c # r)"
    using assms by (cases k) (auto simp: plain_Cons)
  have "str_find ?n (quote # s @ quote # c # r) =
      map_option Suc (map_option (\<lambda>i. length s + i) (map_option Suc (str_find ?n (c # r))))"
    using first second Quoted assms str_find_skip [of quote s "k @ [quote, CHR '':'']" "quote # c # r"]
    by (simp del: starts_Cons)
  then show ?thesis
    using Quoted by (simp add: option.map_comp comp_def)
next
  case (Bare s)
  then show ?thesis
    using assms str_find_skip [of quote s "k @ [quote, CHR '':'']" "c # r"] by simp
qed

lemma find_in_field:
  assumes "quote \<notin> set k'" "atom_ok a" "c \<in> {CHR '','', CHR ''}''}" and k: "plain k"
  shows "str_find (quote # k @ [quote, CHR '':'']) (json_field (k', a) @ c # r) =
    (if k' = k then Some 0
     else map_option (\<lambda>i. length (json_field (k', a)) + i) (str_find (quote # k @ [quote, CHR '':'']) (c # r)))"
    (is "str_find ?n _ = _")
proof (cases "k' = k")
  case True
  then show ?thesis
    by (simp add: json_field_def)
next
  case False
  let ?t = "CHR '':'' # atom_text a @ c # r"
  have first: "\<not> starts ?n (quote # k' @ quote # ?t)"
    using False assms by (auto simp: starts_terminated plainD)
  have second: "\<not> starts ?n (quote # ?t)"
    using k by (cases k) (auto simp: plain_Cons)
  have "str_find ?n (quote # k' @ quote # ?t) =
      map_option Suc (map_option (\<lambda>i. length k' + i) (map_option Suc (map_option Suc
        (map_option (\<lambda>i. length (atom_text a) + i) (str_find ?n (c # r))))))"
    using first second assms str_find_skip [of quote k' "k @ [quote, CHR '':'']" "quote # ?t"]
      find_in_atom [OF assms(2-4), of r]
    by (simp del: starts_Cons) (simp add: starts_def)
  then show ?thesis
    using False by (simp add: json_field_def option.map_comp comp_def algebra_simps)
qed

lemma json_tail_Cons: "\<exists>c r. json_tail fs = c # r \<and> c \<in> {CHR '','', CHR ''}''}"
  by (cases fs) auto

text \<open>Where the search of a key arrives, as the text after the key.\<close>

definition value_at :: "string \<Rightarrow> string \<Rightarrow> string option" where
  "value_at line key = (let needle = quote # key @ [quote, CHR '':'']
     in map_option (\<lambda>pos. drop (pos + length needle) line) (str_find needle line))"

lemma json_value_at:
  "json_value line key = (case value_at line key of None \<Rightarrow> [] | Some t \<Rightarrow> json_token t)"
  by (simp add: json_value_def value_at_def Let_def option.case_eq_if option.map_sel)

lemma value_at_skip:
  "c \<noteq> quote \<Longrightarrow> value_at (c # s) k = value_at s k"
  by (simp add: value_at_def Let_def option.map_comp comp_def)

lemma value_at_append:
  "str_find (quote # k @ [quote, CHR '':'']) (a @ b) =
      map_option (\<lambda>i. length a + i) (str_find (quote # k @ [quote, CHR '':'']) b) \<Longrightarrow>
    value_at (a @ b) k = value_at b k"
  by (simp add: value_at_def Let_def option.map_comp comp_def eval_nat_numeral)

lemma value_at_field:
  assumes "quote \<notin> set k'" "atom_ok a" and k: "plain k"
  shows "value_at (json_field (k', a) @ json_tail fs) k =
    (if k' = k then Some (atom_text a @ json_tail fs) else value_at (json_tail fs) k)"
proof -
  obtain c r where t: "json_tail fs = c # r" "c \<in> {CHR '','', CHR ''}''}"
    using json_tail_Cons by blast
  note found = find_in_field [OF assms(1,2) t(2) k, of r]
  show ?thesis
  proof (cases "k' = k")
    case True
    then show ?thesis
      using found unfolding t(1) by (simp add: value_at_def Let_def json_field_def)
  next
    case False
    then show ?thesis
      using found unfolding t(1) by (simp only: value_at_append if_False)
  qed
qed

lemma value_at_tail:
  "fields_ok fs \<Longrightarrow> plain k \<Longrightarrow>
    value_at (json_tail fs) k =
      map_option (\<lambda>(p, gs). atom_text (snd p) @ json_tail gs)
        (case dropWhile (\<lambda>f. fst f \<noteq> k) fs of [] \<Rightarrow> None | p # gs \<Rightarrow> Some (p, gs))"
proof (induction fs)
  case Nil
  then show ?case
    by (simp add: value_at_def)
next
  case (Cons f fs)
  obtain k' a where f: "f = (k', a)"
    by (cases f)
  have "value_at (json_tail (f # fs)) k = value_at (json_field (k', a) @ json_tail fs) k"
    by (simp add: f value_at_skip)
  also have "\<dots> = (if k' = k then Some (atom_text a @ json_tail fs) else value_at (json_tail fs) k)"
    using Cons.prems f by (intro value_at_field) (auto simp: fields_ok_def)
  finally show ?case
    using Cons f by (simp add: fields_ok_def)
qed

definition field_value :: "json_fields \<Rightarrow> string \<Rightarrow> string" where
  "field_value fs k = (case map_of fs k of None \<Rightarrow> [] | Some a \<Rightarrow> atom_content a)"

lemma map_of_dropWhile:
  "map_of fs k = (case dropWhile (\<lambda>f. fst f \<noteq> k) fs of [] \<Rightarrow> None | p # gs \<Rightarrow> Some (snd p))"
  by (induction fs) auto

lemma json_value_object:
  assumes "fields_ok fs" "plain k"
  shows "json_value (json_object fs) k = field_value fs k"
proof -
  have start: "value_at (json_object fs) k = value_at (json_tail fs) k"
    by (cases fs) (simp_all add: value_at_skip value_at_def)
  show ?thesis
  proof (cases "dropWhile (\<lambda>f. fst f \<noteq> k) fs")
    case Nil
    then show ?thesis
      using value_at_tail [OF assms] start
      by (simp add: json_value_at field_value_def map_of_dropWhile del: dropWhile_eq_Nil_conv)
  next
    case (Cons p gs)
    then have "p \<in> set fs"
      by (metis list.set_intros(1) set_dropWhileD)
    then have ok: "atom_ok (snd p)"
      using assms(1) by (auto simp: fields_ok_def list_all_iff)
    obtain c r where "json_tail gs = c # r" "c \<in> {CHR '','', CHR ''}''}"
      using json_tail_Cons by blast
    then have "json_token (atom_text (snd p) @ json_tail gs) = atom_content (snd p)"
      using json_token_atom [OF ok] by simp
    then show ?thesis
      using Cons value_at_tail [OF assms] start
      by (simp add: json_value_at field_value_def map_of_dropWhile)
  qed
qed

end
