(* ===== verification/RefMemory.thy ===== *)
theory RefMemory
  imports TraceText
begin

text \<open>
  The memory model of the standalone Verilator bench
  (reference/verilator_trace/standalone_boom_trace.cpp): the class SimpleMemory, an AXI slave
  with one write burst in flight and queues of read and write responses, its loader of hex
  images, and the DPI functions the generated test harness calls. Bursts are the hard part:
  the read loop counts in 32 bits up to and including the burst length, so it is modelled as
  a partial function.
\<close>

section \<open>State\<close>

record ReadResp =
  rr_id :: u32
  rr_data :: u64
  rr_last :: bool

record SimpleMemory =
  sm_size :: u64
  sm_word_size :: int
  sm_line_size :: int
  sm_store_inflight :: bool
  sm_store_addr :: u64
  sm_store_id :: u32
  sm_store_size :: u64
  sm_store_count :: u64
  sm_rresp :: "ReadResp list"
  sm_bresp :: "u32 list"
  sm_bytes :: "u64 \<Rightarrow> u8 option"
  sm_tohost_enabled :: bool
  sm_tohost_seen :: bool
  sm_tohost_addr :: u64
  sm_tohost_value :: u64

text \<open>The constructor; \<open>None\<close> is \<open>std::exit(2)\<close>.\<close>

definition SimpleMemory_new :: "u64 \<Rightarrow> int \<Rightarrow> int \<Rightarrow> SimpleMemory option" where
  "SimpleMemory_new sz word_size line_size =
     (if word_size \<le> 0 \<or> line_size \<le> 0 then None
      else Some \<lparr>sm_size = sz, sm_word_size = word_size, sm_line_size = line_size,
        sm_store_inflight = False, sm_store_addr = 0, sm_store_id = 0, sm_store_size = 0,
        sm_store_count = 0, sm_rresp = [], sm_bresp = [], sm_bytes = (\<lambda>a. None),
        sm_tohost_enabled = False, sm_tohost_seen = False, sm_tohost_addr = 0, sm_tohost_value = 0\<rparr>)"

section \<open>Bytes and words\<close>

definition sm_wrap :: "SimpleMemory \<Rightarrow> u64 \<Rightarrow> u64" where
  "sm_wrap m addr = (if sm_size m = 0 then addr else addr mod sm_size m)"

definition sm_byte :: "SimpleMemory \<Rightarrow> u64 \<Rightarrow> u8" where
  "sm_byte m addr = (case sm_bytes m (sm_wrap m addr) of None \<Rightarrow> 0 | Some b \<Rightarrow> b)"

text \<open>The byte loops: \<open>result |= byte << (8 * i)\<close> for \<open>i\<close> below \<open>n\<close>, guarded by \<open>i < 8\<close>.\<close>

primrec join_bytes :: "(nat \<Rightarrow> u8) \<Rightarrow> nat \<Rightarrow> u64" where
  "join_bytes f 0 = 0"
| "join_bytes f (Suc i) =
     (if i < 8 then join_bytes f i OR push_bit (8 * i) (ucast (f i)) else join_bytes f i)"

definition sm_read_word :: "SimpleMemory \<Rightarrow> u64 \<Rightarrow> u64" where
  "sm_read_word m addr = join_bytes (\<lambda>i. sm_byte m (addr + of_nat i)) (nat (sm_word_size m))"

definition sm_read_double :: "SimpleMemory \<Rightarrow> u64 \<Rightarrow> u64" where
  "sm_read_double m addr = join_bytes (\<lambda>i. sm_byte m (addr + of_nat i)) 8"

text \<open>\<open>read_u32\<close>: the value, and whether any of its bytes was ever written.\<close>

definition sm_read_u32 :: "SimpleMemory \<Rightarrow> u64 \<Rightarrow> u32 \<times> bool" where
  "sm_read_u32 m addr =
     foldl (\<lambda>(result, seen) i.
       case sm_bytes m (sm_wrap m (addr + of_nat i)) of
         None \<Rightarrow> (result, seen)
       | Some b \<Rightarrow> (result OR push_bit (8 * i) (ucast b), True)) (0, False) [0..<4]"

definition sm_watch_tohost :: "u64 \<Rightarrow> SimpleMemory \<Rightarrow> SimpleMemory" where
  "sm_watch_tohost addr m = m\<lparr>sm_tohost_addr := addr, sm_tohost_enabled := (addr \<noteq> 0),
     sm_tohost_seen := False, sm_tohost_value := 0\<rparr>"

definition sm_update_tohost :: "u64 \<Rightarrow> SimpleMemory \<Rightarrow> SimpleMemory" where
  "sm_update_tohost base m =
     (if \<not> sm_tohost_enabled m then m
      else let end_addr = base + word_of_int (sm_word_size m)
           in if base \<le> sm_tohost_addr m \<and> sm_tohost_addr m < end_addr
              then let v = sm_read_double m (sm_tohost_addr m)
                   in if v \<noteq> 0 then m\<lparr>sm_tohost_seen := True, sm_tohost_value := v\<rparr> else m
              else m)"

text \<open>The loop of \<open>write_word\<close> over the bytes below \<open>n\<close> that the strobe selects.\<close>

primrec sm_store_bytes :: "u64 \<Rightarrow> u64 \<Rightarrow> u64 \<Rightarrow> nat \<Rightarrow> SimpleMemory \<Rightarrow> SimpleMemory" where
  "sm_store_bytes base data strb 0 m = m"
| "sm_store_bytes base data strb (Suc i) m =
     (let m = sm_store_bytes base data strb i m
      in if i < 8 \<and> strb AND push_bit i 1 \<noteq> 0
         then m\<lparr>sm_bytes := (sm_bytes m)(sm_wrap m (base + of_nat i) \<mapsto> ucast (drop_bit (8 * i) data))\<rparr>
         else m)"

definition sm_write_word :: "u64 \<Rightarrow> u64 \<Rightarrow> u64 \<Rightarrow> u64 \<Rightarrow> SimpleMemory \<Rightarrow> SimpleMemory" where
  "sm_write_word addr data strb sz m =
     (let ws = word_of_int (sm_word_size m);
          strb = strb AND push_bit (unat (addr mod ws)) (push_bit (unat sz) 1 - 1);
          base = addr div ws * ws
      in sm_update_tohost base (sm_store_bytes base data strb (nat (sm_word_size m)) m))"

section \<open>The AXI channels\<close>

definition sm_ar_ready :: "SimpleMemory \<Rightarrow> bool" where
  "sm_ar_ready m = True"

definition sm_aw_ready :: "SimpleMemory \<Rightarrow> bool" where
  "sm_aw_ready m \<longleftrightarrow> \<not> sm_store_inflight m"

definition sm_w_ready :: "SimpleMemory \<Rightarrow> bool" where
  "sm_w_ready m \<longleftrightarrow> sm_store_inflight m"

definition sm_r_valid :: "SimpleMemory \<Rightarrow> bool" where
  "sm_r_valid m \<longleftrightarrow> sm_rresp m \<noteq> []"

definition sm_b_valid :: "SimpleMemory \<Rightarrow> bool" where
  "sm_b_valid m \<longleftrightarrow> sm_bresp m \<noteq> []"

definition sm_r_id :: "SimpleMemory \<Rightarrow> u32" where
  "sm_r_id m = (case sm_rresp m of [] \<Rightarrow> 0 | r # rs \<Rightarrow> rr_id r)"

definition sm_b_id :: "SimpleMemory \<Rightarrow> u32" where
  "sm_b_id m = (case sm_bresp m of [] \<Rightarrow> 0 | b # bs \<Rightarrow> b)"

definition sm_r_data :: "SimpleMemory \<Rightarrow> u64" where
  "sm_r_data m = (case sm_rresp m of [] \<Rightarrow> 0 | r # rs \<Rightarrow> rr_data r)"

definition sm_r_last :: "SimpleMemory \<Rightarrow> bool" where
  "sm_r_last m \<longleftrightarrow> (case sm_rresp m of [] \<Rightarrow> False | r # rs \<Rightarrow> rr_last r)"

text \<open>The arguments of \<open>tick\<close>.\<close>

record AxiIn =
  ax_reset :: bool
  ax_ar_valid :: bool
  ax_ar_addr :: u64
  ax_ar_id :: u32
  ax_ar_size :: u32
  ax_ar_len :: u32
  ax_aw_valid :: bool
  ax_aw_addr :: u64
  ax_aw_id :: u32
  ax_aw_size :: u32
  ax_aw_len :: u32
  ax_w_valid :: bool
  ax_w_strb :: u64
  ax_w_data :: u64
  ax_w_last :: bool
  ax_r_ready :: bool
  ax_b_ready :: bool

text \<open>
  \<open>for (uint32_t beat = 0; beat <= ar_len; ++beat)\<close>, from \<open>beat\<close> on: the responses it
  appends. The counter wraps, so the loop does not end for the largest length.
\<close>

partial_function (option) read_beats ::
  "(u32 \<Rightarrow> u64) \<Rightarrow> u32 \<Rightarrow> u32 \<Rightarrow> u32 \<Rightarrow> ReadResp list option" where
  [code]: "read_beats data ident len beat =
     (if beat \<le> len
      then Option.bind (read_beats data ident len (beat + 1))
        (\<lambda>rs. Some (\<lparr>rr_id = ident, rr_data = data beat, rr_last = (beat = len)\<rparr> # rs))
      else Some [])"

definition sm_accept_read :: "AxiIn \<Rightarrow> SimpleMemory \<Rightarrow> SimpleMemory option" where
  "sm_accept_read a m =
     (let ws = word_of_int (sm_word_size m);
          start = ax_ar_addr a div ws * ws
      in Option.bind (read_beats (\<lambda>beat. sm_read_word m (start + ucast beat * ws)) (ax_ar_id a) (ax_ar_len a) 0)
           (\<lambda>rs. Some (m\<lparr>sm_rresp := sm_rresp m @ rs\<rparr>)))"

definition sm_accept_write :: "AxiIn \<Rightarrow> SimpleMemory \<Rightarrow> SimpleMemory" where
  "sm_accept_write a m = m
     \<lparr>sm_store_addr := ax_aw_addr a, sm_store_id := ax_aw_id a,
      sm_store_count := ucast (ax_aw_len a) + 1,
      sm_store_size := push_bit (unat (min (ax_aw_size a) 3)) 1,
      sm_store_inflight := True\<rparr>"

definition sm_write_beat :: "AxiIn \<Rightarrow> SimpleMemory \<Rightarrow> SimpleMemory" where
  "sm_write_beat a m =
     (let m = sm_write_word (sm_store_addr m) (ax_w_data a) (ax_w_strb a) (sm_store_size m) m;
          m = m\<lparr>sm_store_addr := sm_store_addr m + sm_store_size m\<rparr>;
          m = (if sm_store_count m > 0 then m\<lparr>sm_store_count := sm_store_count m - 1\<rparr> else m)
      in if sm_store_count m = 0
         then m\<lparr>sm_store_inflight := False, sm_bresp := sm_bresp m @ [sm_store_id m]\<rparr>
         else m)"

text \<open>The responses that leave at the end of a tick.\<close>

definition sm_take :: "bool \<Rightarrow> bool \<Rightarrow> SimpleMemory \<Rightarrow> SimpleMemory" where
  "sm_take r_fire b_fire m =
     (let m = (if r_fire then m\<lparr>sm_rresp := tl (sm_rresp m)\<rparr> else m)
      in if b_fire then m\<lparr>sm_bresp := tl (sm_bresp m)\<rparr> else m)"

text \<open>\<open>tick\<close>; \<open>None\<close> when the read loop does not end.\<close>

definition sm_reset :: "SimpleMemory \<Rightarrow> SimpleMemory" where
  "sm_reset m = m\<lparr>sm_rresp := [], sm_bresp := [], sm_store_inflight := False,
     sm_tohost_seen := False, sm_tohost_value := 0\<rparr>"

definition sm_tick :: "AxiIn \<Rightarrow> SimpleMemory \<Rightarrow> SimpleMemory option" where
  "sm_tick a m =
     (if ax_reset a then Some (sm_reset m)
      else
        let ar_fire = (ax_ar_valid a \<and> sm_ar_ready m);
            aw_fire = (ax_aw_valid a \<and> sm_aw_ready m);
            w_fire = (ax_w_valid a \<and> sm_w_ready m);
            r_fire = (sm_r_valid m \<and> ax_r_ready a);
            b_fire = (sm_b_valid m \<and> ax_b_ready a)
        in Option.bind (if ar_fire then sm_accept_read a m else Some m) (\<lambda>m.
             let m = (if aw_fire then sm_accept_write a m else m);
                 m = (if w_fire then sm_write_beat a m else m)
             in Some (sm_take r_fire b_fire m)))"

section \<open>The loader\<close>

definition trim :: "string \<Rightarrow> string" where
  "trim s = rev (dropWhile is_space (rev (dropWhile is_space s)))"

definition hex_nibble :: "char \<Rightarrow> int" where
  "hex_nibble c = (let n = (of_char c :: nat) in
     if 48 \<le> n \<and> n \<le> 57 then int n - 48
     else if 97 \<le> n \<and> n \<le> 102 then int n - 97 + 10
     else if 65 \<le> n \<and> n \<le> 70 then int n - 65 + 10
     else - 1)"

datatype load_error = Odd_line string | Non_hex_line string

text \<open>
  One line from its last pair of digits to its first: the pair \<open>hi\<close> \<open>lo\<close> goes to \<open>addr\<close>.
  The list is the line reversed.
\<close>

fun load_pairs :: "string \<Rightarrow> u64 \<Rightarrow> SimpleMemory \<Rightarrow> SimpleMemory option" where
  "load_pairs (lo # hi # rest) addr m =
     (let h = hex_nibble hi; l = hex_nibble lo
      in if h < 0 \<or> l < 0 then None
         else load_pairs rest (addr + 1)
           (m\<lparr>sm_bytes := (sm_bytes m)(sm_wrap m addr \<mapsto> word_of_int (16 * h + l))\<rparr>))"
| "load_pairs _ addr m = Some m"

fun load_lines :: "string list \<Rightarrow> u64 \<Rightarrow> SimpleMemory \<Rightarrow> load_error + SimpleMemory" where
  "load_lines [] addr m = Inr m"
| "load_lines (l # ls) addr m =
     (let line = trim l;
          line = (if CHR ''#'' \<in> set line then trim (takeWhile (\<lambda>c. c \<noteq> CHR ''#'') line) else line)
      in if line = [] then load_lines ls addr m
         else if odd (length line) then Inl (Odd_line line)
         else case load_pairs (rev line) addr m of
           None \<Rightarrow> Inl (Non_hex_line line)
         | Some m \<Rightarrow> load_lines ls (addr + of_nat (length line div 2)) m)"

definition sm_load_hex :: "u64 \<Rightarrow> string list \<Rightarrow> SimpleMemory \<Rightarrow> load_error + SimpleMemory" where
  "sm_load_hex start lines m = load_lines lines start m"

section \<open>The DPI functions\<close>

text \<open>The outputs of \<open>memory_tick\<close>.\<close>

record AxiOut =
  ao_ar_ready :: bool
  ao_aw_ready :: bool
  ao_w_ready :: bool
  ao_r_valid :: bool
  ao_r_id :: "32 word"
  ao_r_resp :: "32 word"
  ao_r_data :: "64 word"
  ao_r_last :: bool
  ao_b_valid :: bool
  ao_b_id :: "32 word"
  ao_b_resp :: "32 word"

text \<open>The raw arguments: Verilog ints, converted on the way to \<open>tick\<close>.\<close>

record AxiRaw =
  raw_reset :: u8
  raw_ar_valid :: u8
  raw_ar_addr :: "32 word"
  raw_ar_id :: "32 word"
  raw_ar_size :: "32 word"
  raw_ar_len :: "32 word"
  raw_aw_valid :: u8
  raw_aw_addr :: "32 word"
  raw_aw_id :: "32 word"
  raw_aw_size :: "32 word"
  raw_aw_len :: "32 word"
  raw_w_valid :: u8
  raw_w_strb :: "32 word"
  raw_w_data :: "64 word"
  raw_w_last :: u8
  raw_r_ready :: u8
  raw_b_ready :: u8

definition tick_args :: "AxiRaw \<Rightarrow> AxiIn" where
  "tick_args r = \<lparr>ax_reset = (raw_reset r \<noteq> 0),
     ax_ar_valid = (raw_ar_valid r \<noteq> 0), ax_ar_addr = ucast (raw_ar_addr r), ax_ar_id = raw_ar_id r,
     ax_ar_size = raw_ar_size r, ax_ar_len = raw_ar_len r,
     ax_aw_valid = (raw_aw_valid r \<noteq> 0), ax_aw_addr = ucast (raw_aw_addr r), ax_aw_id = raw_aw_id r,
     ax_aw_size = raw_aw_size r, ax_aw_len = raw_aw_len r,
     ax_w_valid = (raw_w_valid r \<noteq> 0), ax_w_strb = scast (raw_w_strb r), ax_w_data = raw_w_data r,
     ax_w_last = (raw_w_last r \<noteq> 0),
     ax_r_ready = (raw_r_ready r \<noteq> 0), ax_b_ready = (raw_b_ready r \<noteq> 0)\<rparr>"

definition axi_outputs :: "SimpleMemory \<Rightarrow> AxiOut" where
  "axi_outputs m = \<lparr>ao_ar_ready = sm_ar_ready m, ao_aw_ready = sm_aw_ready m, ao_w_ready = sm_w_ready m,
     ao_r_valid = sm_r_valid m, ao_r_id = sm_r_id m, ao_r_resp = 0, ao_r_data = sm_r_data m,
     ao_r_last = sm_r_last m, ao_b_valid = sm_b_valid m, ao_b_id = sm_b_id m, ao_b_resp = 0\<rparr>"

text \<open>\<open>memory_tick\<close>; the channel is the pointer \<open>memory_init\<close> returned, or null.\<close>

definition memory_tick :: "SimpleMemory option \<Rightarrow> AxiRaw \<Rightarrow> (AxiOut \<times> SimpleMemory option) option" where
  "memory_tick channel r =
     (case channel of
        None \<Rightarrow> Some (\<lparr>ao_ar_ready = False, ao_aw_ready = False, ao_w_ready = False, ao_r_valid = False,
          ao_r_id = 0, ao_r_resp = 0, ao_r_data = 0, ao_r_last = False, ao_b_valid = False,
          ao_b_id = 0, ao_b_resp = 0\<rparr>, None)
      | Some m \<Rightarrow> Option.bind (sm_tick (tick_args r) m) (\<lambda>m. Some (axi_outputs m, Some m)))"

text \<open>
  \<open>memory_init\<close>: the sizes are \<open>long long\<close>, narrowed to \<open>int\<close>; the image is loaded when a path was
  given, then the tohost address is watched. \<open>None\<close> is one of the exits.
\<close>

definition memory_init ::
  "64 word \<Rightarrow> 64 word \<Rightarrow> 64 word \<Rightarrow> string list option \<Rightarrow> u64 \<Rightarrow> u64 \<Rightarrow> SimpleMemory option" where
  "memory_init mem_size word_size line_size img loadmem_addr tohost_addr =
     Option.bind (SimpleMemory_new mem_size (sint (ucast word_size :: 32 word)) (sint (ucast line_size :: 32 word)))
       (\<lambda>m. case (case img of None \<Rightarrow> Inr m | Some lines \<Rightarrow> sm_load_hex loadmem_addr lines m) of
          Inl e \<Rightarrow> None
        | Inr m \<Rightarrow> Some (sm_watch_tohost tohost_addr m))"

end
