(* ===== verification/RefTracer.thy ===== *)
theory RefTracer
  imports RefMemory
begin

text \<open>
  The rest of the standalone Verilator bench (standalone_boom_trace.cpp): how it turns the
  signals of the generated BOOM into trace lines, how it detects the end of a program, its
  arguments and its main loop. The generated model and its signals are not in the repository:
  the signals are the record \<open>RtlSignals\<close> and the model is a parameter of the loop. The JSON
  text is written with \<open>json_object\<close>, which is character by character what the stream
  insertions produce.
\<close>

section \<open>Text\<close>

definition hex_u64 :: "u64 \<Rightarrow> string" where
  "hex_u64 v = ''0x'' @ hex_fixed 16 (unat v)"

definition hex_u32 :: "u32 \<Rightarrow> string" where
  "hex_u32 v = ''0x'' @ hex_fixed 8 (unat v)"

fun json_escape :: "string \<Rightarrow> string" where
  "json_escape [] = []"
| "json_escape (c # s) =
     (if c = quote \<or> c = CHR 0x5C then [CHR 0x5C, c]
      else if c = CHR 0x0A then [CHR 0x5C, CHR ''n'']
      else [c]) @ json_escape s"

definition json_hex_or_null :: "string \<Rightarrow> bool \<Rightarrow> u64 \<Rightarrow> bool \<Rightarrow> string \<times> json_atom" where
  "json_hex_or_null key valid v word32 =
     (key, if \<not> valid then Bare ''null''
           else if word32 then Quoted (hex_u32 (ucast v)) else Quoted (hex_u64 v))"

text \<open>\<open>std::strtoull\<close>: blanks, a sign, the prefix of the base, digits; it saturates.\<close>

definition digit_in :: "int \<Rightarrow> char \<Rightarrow> bool" where
  "digit_in b c \<longleftrightarrow> 0 \<le> hex_nibble c \<and> hex_nibble c < b"

definition digits_to :: "int \<Rightarrow> string \<Rightarrow> int" where
  "digits_to b s = foldl (\<lambda>n c. b * n + hex_nibble c) 0 s"

definition strip_prefix :: "nat \<Rightarrow> string \<Rightarrow> int \<times> string" where
  "strip_prefix base s =
     (if (base = 16 \<or> base = 0) \<and> (starts ''0x'' s \<or> starts ''0X'' s) \<and> s \<noteq> take 2 s \<and> digit_in 16 (s ! 2)
      then (16, drop 2 s)
      else if base = 0 then (if starts ''0'' s then 8 else 10, s)
      else (int base, s))"

text \<open>The value and the unread rest; with no digit at all nothing is read.\<close>

definition strtoull :: "string \<Rightarrow> nat \<Rightarrow> u64 \<times> string" where
  "strtoull s base =
     (let t = dropWhile is_space s;
          neg = starts ''-'' t;
          t = (if starts ''-'' t \<or> starts ''+'' t then tl t else t);
          (b, t) = strip_prefix base t;
          ds = takeWhile (digit_in b) t
      in if ds = [] then (0, s)
         else let n = digits_to b ds
              in (if n \<ge> 2 ^ 64 then - 1 else if neg then - word_of_int n else word_of_int n,
                  dropWhile (digit_in b) t))"

text \<open>\<open>parse_u64\<close>; \<open>None\<close> is \<open>std::exit(2)\<close>.\<close>

definition parse_u64 :: "string \<Rightarrow> nat \<Rightarrow> u64 option" where
  "parse_u64 v base = (case strtoull v base of (n, rest) \<Rightarrow> if rest \<noteq> [] then None else Some n)"

section \<open>DPI stubs\<close>

text \<open>(out_ready, in_valid, in_bits, returned value).\<close>

definition serial_tick :: "u8 \<times> u8 \<times> 32 word \<times> 32 word" where
  "serial_tick = (1, 0, 0, 0)"

text \<open>(TCK, TMS, TDI, TRSTn, returned value).\<close>

definition jtag_tick :: "u8 \<times> u8 \<times> u8 \<times> u8 \<times> 32 word" where
  "jtag_tick = (0, 0, 0, 1, 0)"

text \<open>(out_ready, in_valid, in_bits).\<close>

definition uart_tick :: "u8 \<times> u8 \<times> u8" where
  "uart_tick = (1, 0, 0)"

section \<open>Program counters and stores\<close>

text \<open>The switch over the sixteen fetch target queue registers.\<close>

definition ftq_pc :: "u64 list \<Rightarrow> u32 \<Rightarrow> u64" where
  "ftq_pc pcs idx = pcs ! unat (idx AND 15)"

definition uop_pc :: "u64 list \<Rightarrow> u32 \<Rightarrow> u32 \<Rightarrow> u64" where
  "uop_pc pcs ftq_idx pc_lob = (ftq_pc pcs ftq_idx AND NOT 0x3f) OR ucast (pc_lob AND 0x3f)"

text \<open>The difference is an \<open>uint32_t\<close>; its conversion to \<open>int64_t\<close> keeps the value.\<close>

definition tracer_sign_extend :: "u32 \<Rightarrow> nat \<Rightarrow> u64" where
  "tracer_sign_extend v bits =
     (let sign_bit = push_bit (bits - 1) 1 in ucast ((v XOR sign_bit) - sign_bit))"

text \<open>The address and value of a retired SD to the tohost address.\<close>

definition detect_tohost_store :: "u64 \<Rightarrow> u64 list \<Rightarrow> u32 \<Rightarrow> (u64 \<times> u64) option" where
  "detect_tohost_store tohost_addr regs inst =
     (let opcode = inst AND 0x7f;
          funct3 = drop_bit 12 inst AND 7
      in if opcode \<noteq> 0x23 \<or> funct3 \<noteq> 3 then None
         else let rs1 = drop_bit 15 inst AND 0x1f;
                  rs2 = drop_bit 20 inst AND 0x1f;
                  imm = (drop_bit 7 inst AND 0x1f) OR push_bit 5 (drop_bit 25 inst AND 0x7f);
                  address = regs ! unat rs1 + tracer_sign_extend imm 12;
                  v = regs ! unat rs2
              in if address = tohost_addr \<and> v \<noteq> 0 then Some (address, v) else None)"

section \<open>Tracing one cycle\<close>

text \<open>The signals of the generated core that the tracer reads.\<close>

record RtlSignals =
  enq_valid :: bool
  enq_rob_idx :: u32
  enq_pdst :: u32
  enq_stale_pdst :: u32
  wb_valid :: bool
  wb_rob_idx :: u32
  wb_pdst :: u32
  wb_data :: u64
  br_valid :: bool
  br_ftq_idx :: u32
  br_pc_lob :: u32
  br_rob_idx :: u32
  br_taken :: bool
  br_mispredict :: bool
  br_br_tag :: u32
  br_br_mask :: u32
  br_cfi_type :: u32
  flush_valid :: bool
  redirect_pc :: u64
  com_valid :: bool
  com_ftq_idx :: u32
  com_pc_lob :: u32
  com_pdst :: u32
  com_stale_pdst :: u32
  com_ldst_val :: bool
  com_ldst :: u32
  com_xcpt :: bool
  com_arch_valid :: bool
  sig_pcs :: "u64 list"
  sig_regfile :: "u64 list"

text \<open>The file-level variables of the bench, and the lines written so far.\<close>

record Tracer =
  g_cycle :: u64
  g_sequence :: u64
  g_commit_records :: u64
  g_last_recorded_cycle :: u64
  g_last_commit_pc :: u64
  g_last_commit_pc_valid :: bool
  g_arch_regs :: "u64 list"
  g_tohost_seen :: bool
  g_tohost_value :: u64
  g_tohost_source :: string
  g_after_reset :: bool
  g_lines :: "string list"

definition Tracer0 :: Tracer where
  "Tracer0 = \<lparr>g_cycle = 0, g_sequence = 0, g_commit_records = 0, g_last_recorded_cycle = - 1,
     g_last_commit_pc = 0, g_last_commit_pc_valid = False, g_arch_regs = replicate 32 0,
     g_tohost_seen = False, g_tohost_value = 0, g_tohost_source = ''none'', g_after_reset = False,
     g_lines = []\<rparr>"

definition dec_word :: "'a::len word \<Rightarrow> json_atom" where
  "dec_word w = Bare (dec_string (unat w))"

definition json_bool :: "bool \<Rightarrow> json_atom" where
  "json_bool b = Bare (bool_text b)"

text \<open>One line: the cycle, the event's fields, and the sequence number that is then advanced.\<close>

definition emit_event :: "json_fields \<Rightarrow> Tracer \<Rightarrow> Tracer" where
  "emit_event fs t = t
     \<lparr>g_lines := g_lines t @ [json_object ((''cycle'', dec_word (g_cycle t)) # fs @
        [(''trace_sequence_id'', dec_word (g_sequence t))])],
      g_sequence := g_sequence t + 1\<rparr>"

definition trace_allocate :: "RtlSignals \<Rightarrow> Tracer \<Rightarrow> Tracer" where
  "trace_allocate s t =
     (if enq_valid s then emit_event
        [(''event'', Quoted ''rob_allocate''), (''slot'', Bare ''0''),
         (''rob_idx'', dec_word (enq_rob_idx s)), (''physical_rd'', dec_word (enq_pdst s)),
         (''stale_physical_rd'', dec_word (enq_stale_pdst s))] t
      else t)"

definition trace_writeback :: "RtlSignals \<Rightarrow> Tracer \<Rightarrow> Tracer" where
  "trace_writeback s t =
     (if wb_valid s then emit_event
        [(''event'', Quoted ''writeback''), (''slot'', Bare ''0''),
         (''rob_idx'', dec_word (wb_rob_idx s)), (''physical_rd'', dec_word (wb_pdst s)),
         json_hex_or_null ''result'' True (wb_data s) False] t
      else t)"

definition trace_branch :: "RtlSignals \<Rightarrow> Tracer \<Rightarrow> Tracer" where
  "trace_branch s t =
     (if br_valid s then
        let pc = uop_pc (sig_pcs s) (br_ftq_idx s) (br_pc_lob s)
        in emit_event
        [(''event'', Quoted ''branch_resolve''), (''slot'', Bare ''0''),
         (''rob_idx'', dec_word (br_rob_idx s)), json_hex_or_null ''pc'' True pc False,
         (''taken'', json_bool (br_taken s)), (''branch_mispredict'', json_bool (br_mispredict s)),
         (''branch_tag'', dec_word (br_br_tag s)), (''branch_mask'', dec_word (br_br_mask s)),
         (''cfi_type'', dec_word (br_cfi_type s))] t
      else t)"

definition trace_flush :: "RtlSignals \<Rightarrow> Tracer \<Rightarrow> Tracer" where
  "trace_flush s t =
     (if flush_valid s then emit_event
        [(''event'', Quoted ''flush''), json_hex_or_null ''target'' True (redirect_pc s) False] t
      else t)"

text \<open>What the commit block reads of the retired instruction.\<close>

definition commit_pc :: "RtlSignals \<Rightarrow> u64" where
  "commit_pc s = uop_pc (sig_pcs s) (com_ftq_idx s) (com_pc_lob s)"

definition commit_inst :: "SimpleMemory option \<Rightarrow> RtlSignals \<Rightarrow> u32 \<times> bool" where
  "commit_inst mem s = (case mem of None \<Rightarrow> (0, False) | Some m \<Rightarrow> sm_read_u32 m (commit_pc s))"

definition rd_value_valid :: "RtlSignals \<Rightarrow> bool" where
  "rd_value_valid s \<longleftrightarrow> com_ldst_val s \<and> com_pdst s < 52"

definition commit_rd_value :: "RtlSignals \<Rightarrow> u64" where
  "commit_rd_value s = (if rd_value_valid s then sig_regfile s ! unat (com_pdst s) else 0)"

definition rtl_commit_fields :: "SimpleMemory option \<Rightarrow> RtlSignals \<Rightarrow> json_fields" where
  "rtl_commit_fields mem s =
     (let (inst, inst_valid) = commit_inst mem s
      in [(''event'', Quoted ''commit''), (''slot'', Bare ''0''),
          json_hex_or_null ''pc'' True (commit_pc s) False,
          json_hex_or_null ''instruction'' inst_valid (ucast inst) True,
          (''rd_valid'', json_bool (com_ldst_val s)),
          (''rd'', if com_ldst_val s then dec_word (com_ldst s) else Bare ''null''),
          (''physical_rd'', dec_word (com_pdst s)), (''stale_physical_rd'', dec_word (com_stale_pdst s)),
          json_hex_or_null ''rd_value'' (rd_value_valid s) (commit_rd_value s) False,
          (''exception'', json_bool (com_xcpt s)), (''exception_cause'', Bare ''null''),
          (''privilege'', Bare ''null''), (''arch_valid'', json_bool (com_arch_valid s)),
          (''pc_source'', Quoted ''ftq_pc_plus_pc_lob'')])"

definition retired_store :: "u64 \<Rightarrow> SimpleMemory option \<Rightarrow> RtlSignals \<Rightarrow> Tracer \<Rightarrow> (u64 \<times> u64) option" where
  "retired_store tohost_addr mem s t =
     (let (inst, inst_valid) = commit_inst mem s
      in if inst_valid then detect_tohost_store tohost_addr (g_arch_regs t) inst else None)"

text \<open>The variables the commit block updates before it writes.\<close>

definition note_commit :: "RtlSignals \<Rightarrow> (u64 \<times> u64) option \<Rightarrow> Tracer \<Rightarrow> Tracer" where
  "note_commit s store t =
     (let t = t\<lparr>g_last_commit_pc := commit_pc s, g_last_commit_pc_valid := True,
                g_commit_records := g_commit_records t + 1\<rparr>
      in case store of None \<Rightarrow> t
         | Some (a, v) \<Rightarrow> t\<lparr>g_tohost_seen := True, g_tohost_value := v, g_tohost_source := ''retired_store''\<rparr>)"

definition trace_tohost :: "u64 \<Rightarrow> (u64 \<times> u64) option \<Rightarrow> Tracer \<Rightarrow> Tracer" where
  "trace_tohost pc store t =
     (case store of None \<Rightarrow> t
      | Some (a, v) \<Rightarrow> emit_event
          [(''event'', Quoted ''tohost''), json_hex_or_null ''pc'' True pc False,
           json_hex_or_null ''address'' True a False, json_hex_or_null ''value'' True v False,
           (''source'', Quoted ''retired_store'')] t)"

text \<open>The shadow of the architectural registers.\<close>

definition shadow_register :: "RtlSignals \<Rightarrow> u64 list \<Rightarrow> u64 list" where
  "shadow_register s regs =
     (if com_ldst_val s \<and> rd_value_valid s
      then let rd = com_ldst s
           in (if rd \<noteq> 0 \<and> rd < 32 then regs[unat rd := commit_rd_value s] else regs)[0 := 0]
      else regs)"

definition trace_commit :: "u64 \<Rightarrow> SimpleMemory option \<Rightarrow> RtlSignals \<Rightarrow> Tracer \<Rightarrow> Tracer" where
  "trace_commit tohost_addr mem s t =
     (if \<not> com_valid s then t
      else let store = retired_store tohost_addr mem s t;
               t = note_commit s store t;
               t = emit_event (rtl_commit_fields mem s) t;
               t = trace_tohost (commit_pc s) store t
           in t\<lparr>g_arch_regs := shadow_register s (g_arch_regs t)\<rparr>)"

definition trace_cycle :: "u64 \<Rightarrow> SimpleMemory option \<Rightarrow> RtlSignals \<Rightarrow> Tracer \<Rightarrow> Tracer" where
  "trace_cycle tohost_addr mem s t =
     (if \<not> g_after_reset t \<or> g_last_recorded_cycle t = g_cycle t then t
      else trace_commit tohost_addr mem s (trace_flush s (trace_branch s (trace_writeback s
             (trace_allocate s (t\<lparr>g_last_recorded_cycle := g_cycle t\<rparr>))))))"

section \<open>The end of a program\<close>

definition memory_observed_tohost :: "SimpleMemory option \<Rightarrow> bool" where
  "memory_observed_tohost mem \<longleftrightarrow> (case mem of None \<Rightarrow> False | Some m \<Rightarrow> sm_tohost_seen m)"

definition observed_tohost :: "SimpleMemory option \<Rightarrow> Tracer \<Rightarrow> bool" where
  "observed_tohost mem t \<longleftrightarrow> g_tohost_seen t \<or> memory_observed_tohost mem"

definition observed_tohost_value :: "SimpleMemory option \<Rightarrow> Tracer \<Rightarrow> u64" where
  "observed_tohost_value mem t =
     (if g_tohost_seen t then g_tohost_value t
      else case mem of None \<Rightarrow> 0 | Some m \<Rightarrow> if sm_tohost_seen m then sm_tohost_value m else 0)"

definition observed_tohost_source :: "SimpleMemory option \<Rightarrow> Tracer \<Rightarrow> string" where
  "observed_tohost_source mem t =
     (if g_tohost_seen t then g_tohost_source t
      else if memory_observed_tohost mem then ''memory_write'' else ''none'')"

section \<open>Arguments\<close>

record TracerArgs =
  arg_trace_path :: string
  arg_loadmem_path :: string
  arg_loadmem_addr :: u64
  arg_tohost_addr :: u64
  arg_max_cycles :: u64
  arg_wake_hart0 :: bool
  arg_disable_assert_stops :: bool

definition TracerArgs0 :: TracerArgs where
  "TracerArgs0 = \<lparr>arg_trace_path = [], arg_loadmem_path = [], arg_loadmem_addr = 0,
     arg_tohost_addr = 0x80000080, arg_max_cycles = 100000, arg_wake_hart0 = False,
     arg_disable_assert_stops = False\<rparr>"

definition arg_value :: "string \<Rightarrow> string \<Rightarrow> string option" where
  "arg_value key arg = (if starts key arg then Some (drop (length key) arg) else None)"

text \<open>The loop over the arguments; \<open>Inl\<close> is the exit code of one that ends the program.\<close>

fun parse_args :: "string list \<Rightarrow> TracerArgs \<Rightarrow> int + TracerArgs" where
  "parse_args [] g = Inr g"
| "parse_args (arg # args) g =
     (case arg_value ''+boom_equiv_trace='' arg of Some v \<Rightarrow> parse_args args (g\<lparr>arg_trace_path := v\<rparr>)
      | None \<Rightarrow>
      case arg_value ''+loadmem='' arg of Some v \<Rightarrow> parse_args args (g\<lparr>arg_loadmem_path := v\<rparr>)
      | None \<Rightarrow>
      case arg_value ''+loadmem_addr='' arg of Some v \<Rightarrow>
        (case parse_u64 v 16 of None \<Rightarrow> Inl 2 | Some n \<Rightarrow> parse_args args (g\<lparr>arg_loadmem_addr := n\<rparr>))
      | None \<Rightarrow>
      case arg_value ''+tohost_addr='' arg of Some v \<Rightarrow>
        (case parse_u64 v 16 of None \<Rightarrow> Inl 2 | Some n \<Rightarrow> parse_args args (g\<lparr>arg_tohost_addr := n\<rparr>))
      | None \<Rightarrow>
      case arg_value ''+max-cycles='' arg of Some v \<Rightarrow>
        (case parse_u64 v 0 of None \<Rightarrow> Inl 2 | Some n \<Rightarrow> parse_args args (g\<lparr>arg_max_cycles := n\<rparr>))
      | None \<Rightarrow>
      case arg_value ''+standalone_wake_hart0='' arg of Some v \<Rightarrow>
        (case parse_u64 v 0 of None \<Rightarrow> Inl 2 | Some n \<Rightarrow> parse_args args (g\<lparr>arg_wake_hart0 := (n \<noteq> 0)\<rparr>))
      | None \<Rightarrow>
      case arg_value ''+standalone_disable_assert_stops='' arg of Some v \<Rightarrow>
        (case parse_u64 v 0 of None \<Rightarrow> Inl 2 | Some n \<Rightarrow> parse_args args (g\<lparr>arg_disable_assert_stops := (n \<noteq> 0)\<rparr>))
      | None \<Rightarrow>
      if arg = ''-h'' \<or> arg = ''--help'' then Inl 0 else parse_args args g)"

section \<open>The main loop\<close>

text \<open>\<open>exit_code\<close> is an \<open>int\<close>, printed as such; only non-negative codes occur.\<close>

definition trace_metadata ::
  "TracerArgs \<Rightarrow> SimpleMemory option \<Rightarrow> string \<Rightarrow> string \<Rightarrow> nat \<Rightarrow> Tracer \<Rightarrow> Tracer" where
  "trace_metadata g mem phase termination_reason exit_code t = emit_event
     [(''event'', Quoted ''metadata''), (''phase'', Quoted phase),
      (''runner'', Quoted ''standalone_boom_trace''), (''trace_schema_version'', Bare ''1''),
      (''build'', Quoted ''standalone_v2_tohost''), (''loadmem'', Quoted (json_escape (arg_loadmem_path g))),
      json_hex_or_null ''loadmem_addr'' True (arg_loadmem_addr g) False,
      json_hex_or_null ''tohost_addr'' True (arg_tohost_addr g) False,
      (''max_cycles'', dec_word (arg_max_cycles g)), (''commit_records'', dec_word (g_commit_records t)),
      (''termination_reason'', Quoted termination_reason), (''exit_code'', Bare (dec_string exit_code)),
      json_hex_or_null ''tohost_value'' (observed_tohost mem t) (observed_tohost_value mem t) False,
      (''tohost_source'', Quoted (observed_tohost_source mem t)),
      json_hex_or_null ''last_pc'' (g_last_commit_pc_valid t) (g_last_commit_pc t) False,
      (''max_cycles_reached'', json_bool (arg_max_cycles g \<le> g_cycle t)), (''trap_seen'', Bare ''false'')] t"

text \<open>
  What the bench uses of the generated model: its inputs, the interrupt it forces, its
  evaluation (which calls \<open>memory_init\<close> and \<open>memory_tick\<close>), its signals and
  \<open>Verilated::gotFinish\<close>.
\<close>

record 'top Harness =
  h_set_reset :: "bool \<Rightarrow> 'top \<Rightarrow> 'top"
  h_set_clock :: "bool \<Rightarrow> 'top \<Rightarrow> 'top"
  h_force_ipi :: "'top \<Rightarrow> 'top"
  h_eval :: "'top \<times> SimpleMemory option \<Rightarrow> 'top \<times> SimpleMemory option"
  h_signals :: "'top \<Rightarrow> RtlSignals"
  h_finish :: "'top \<Rightarrow> bool"

record 'top Bench =
  b_top :: 'top
  b_mem :: "SimpleMemory option"
  b_tracer :: Tracer

definition apply_standalone_injections :: "'top Harness \<Rightarrow> TracerArgs \<Rightarrow> 'top Bench \<Rightarrow> 'top Bench" where
  "apply_standalone_injections h g b =
     (if arg_wake_hart0 g \<and> g_after_reset (b_tracer b) then b\<lparr>b_top := h_force_ipi h (b_top b)\<rparr> else b)"

definition bench_eval :: "'top Harness \<Rightarrow> 'top Bench \<Rightarrow> 'top Bench" where
  "bench_eval h b = (let (model, mem) = h_eval h (b_top b, b_mem b) in b\<lparr>b_top := model, b_mem := mem\<rparr>)"

definition half_cycle :: "'top Harness \<Rightarrow> TracerArgs \<Rightarrow> bool \<Rightarrow> 'top Bench \<Rightarrow> 'top Bench" where
  "half_cycle h g clk b =
     (let b = apply_standalone_injections h g b;
          b = b\<lparr>b_top := h_set_clock h clk (b_top b)\<rparr>;
          b = bench_eval h b
      in apply_standalone_injections h g b)"

definition full_cycle :: "'top Harness \<Rightarrow> TracerArgs \<Rightarrow> bool \<Rightarrow> 'top Bench \<Rightarrow> 'top Bench" where
  "full_cycle h g traced b =
     (let b = half_cycle h g False b;
          b = half_cycle h g True b;
          t = (if traced then trace_cycle (arg_tohost_addr g) (b_mem b) (h_signals h (b_top b)) (b_tracer b)
               else b_tracer b)
      in b\<lparr>b_tracer := t\<lparr>g_cycle := g_cycle t + 1\<rparr>\<rparr>)"

definition bench_stops :: "'top Harness \<Rightarrow> TracerArgs \<Rightarrow> 'top Bench \<Rightarrow> bool" where
  "bench_stops h g b \<longleftrightarrow> \<not> (\<not> h_finish h (b_top b) \<and> g_cycle (b_tracer b) < arg_max_cycles g \<and>
     \<not> observed_tohost (b_mem b) (b_tracer b))"

lemma emit_event_cycle [simp]: "g_cycle (emit_event fs t) = g_cycle t"
  by (simp add: emit_event_def)

lemma trace_blocks_cycle [simp]:
  "g_cycle (trace_allocate s t) = g_cycle t" "g_cycle (trace_writeback s t) = g_cycle t"
  "g_cycle (trace_branch s t) = g_cycle t" "g_cycle (trace_flush s t) = g_cycle t"
  by (simp_all add: trace_allocate_def trace_writeback_def trace_branch_def trace_flush_def Let_def)

lemma trace_commit_cycle [simp]: "g_cycle (trace_commit a mem s t) = g_cycle t"
  by (simp add: trace_commit_def note_commit_def trace_tohost_def Let_def split: option.split)

lemma trace_cycle_cycle [simp]: "g_cycle (trace_cycle a mem s t) = g_cycle t"
  by (simp add: trace_cycle_def)

lemma half_cycle_tracer [simp]: "b_tracer (half_cycle h g c b) = b_tracer b"
  by (simp add: half_cycle_def apply_standalone_injections_def bench_eval_def Let_def split: prod.split)

lemma full_cycle_cycle [simp]: "g_cycle (b_tracer (full_cycle h g traced b)) = g_cycle (b_tracer b) + 1"
  by (simp add: full_cycle_def Let_def)

function bench_loop :: "'top Harness \<Rightarrow> TracerArgs \<Rightarrow> 'top Bench \<Rightarrow> 'top Bench" where
  "bench_loop h g b = (if bench_stops h g b then b else bench_loop h g (full_cycle h g True b))"
  by pat_completeness auto

termination bench_loop
proof (relation "measure (\<lambda>(h, g, b). unat (arg_max_cycles g) - unat (g_cycle (b_tracer b)))")
  fix h :: "'top Harness" and g b
  assume "\<not> bench_stops h g b"
  then have less: "g_cycle (b_tracer b) < arg_max_cycles g"
    by (simp add: bench_stops_def)
  then have "unat (g_cycle (b_tracer b) + 1) = unat (g_cycle (b_tracer b)) + 1"
    by (rule unat_inc_below)
  then show "((h, g, full_cycle h g True b), h, g, b) \<in>
      measure (\<lambda>(h, g, b). unat (arg_max_cycles g) - unat (g_cycle (b_tracer b)))"
    using less by (simp add: word_less_nat_alt)
qed simp

declare bench_loop.simps [simp del]

definition tracer_exit_code :: "bool \<Rightarrow> u64 \<Rightarrow> bool \<Rightarrow> nat" where
  "tracer_exit_code got_tohost v max_cycles_reached =
     (if got_tohost then
        let code = (if v = 1 then 0 else unat (drop_bit 1 v AND 0x7fffffff))
        in if code = 0 \<and> v \<noteq> 1 then 1 else code
      else if max_cycles_reached then 4 else 0)"

definition termination_reason :: "bool \<Rightarrow> bool \<Rightarrow> string" where
  "termination_reason got_tohost got_finish =
     (if got_tohost then ''tohost'' else if got_finish then ''verilator_finish'' else ''max_cycles'')"

text \<open>The reset sequence: an evaluation, then 100 untraced cycles with reset high.\<close>

definition bench_reset :: "'top Harness \<Rightarrow> TracerArgs \<Rightarrow> 'top \<Rightarrow> 'top Bench" where
  "bench_reset h g model =
     (let b = \<lparr>b_top = h_set_clock h False (h_set_reset h False model), b_mem = None, b_tracer = Tracer0\<rparr>;
          b = bench_eval h b;
          b = b\<lparr>b_top := h_set_reset h True (b_top b)\<rparr>;
          b = (full_cycle h g False ^^ 100) b
      in b\<lparr>b_top := h_set_reset h False (b_top b), b_tracer := (b_tracer b)\<lparr>g_after_reset := True\<rparr>\<rparr>)"

text \<open>
  \<open>main\<close>: the exit code, and the trace when one was written; \<open>can_open\<close> says whether the trace
  file can be created.
\<close>

definition tracer_main :: "'top Harness \<Rightarrow> 'top \<Rightarrow> (string \<Rightarrow> bool) \<Rightarrow> string list \<Rightarrow> int \<times> string list" where
  "tracer_main h model can_open args =
     (case parse_args args TracerArgs0 of
        Inl code \<Rightarrow> (code, [])
      | Inr g \<Rightarrow>
          if arg_trace_path g = [] then (2, [])
          else if arg_loadmem_path g = [] then (2, [])
          else if \<not> can_open (arg_trace_path g) then (3, [])
          else
            let b = bench_reset h g model;
                b = b\<lparr>b_tracer := trace_metadata g (b_mem b) ''start'' ''running'' 0 (b_tracer b)\<rparr>;
                b = bench_loop h g b;
                t = b_tracer b;
                got_finish = h_finish h (b_top b);
                got_tohost = observed_tohost (b_mem b) t;
                max_cycles_reached = (arg_max_cycles g \<le> g_cycle t \<and> \<not> got_finish \<and> \<not> got_tohost);
                code = tracer_exit_code got_tohost (observed_tohost_value (b_mem b) t) max_cycles_reached;
                t = trace_metadata g (b_mem b) ''end'' (termination_reason got_tohost got_finish) code t
            in (int code, g_lines t))"

section \<open>The loop ends, and what its exit code means\<close>

lemma bench_loop_stops: "bench_stops h g (bench_loop h g b)"
  by (induction h g b rule: bench_loop.induct) (subst bench_loop.simps, simp)

lemma bench_loop_cycles:
  "\<exists>n \<le> unat (arg_max_cycles g) - unat (g_cycle (b_tracer b)).
    bench_loop h g b = (full_cycle h g True ^^ n) b \<and>
    list_all (\<lambda>k. \<not> bench_stops h g ((full_cycle h g True ^^ k) b)) [0..<n]"
proof (induction h g b rule: bench_loop.induct)
  case (1 h g b)
  let ?f = "full_cycle h g True"
  show ?case
  proof (cases "bench_stops h g b")
    case True
    then show ?thesis
      by (intro exI [of _ 0]) (simp add: bench_loop.simps)
  next
    case False
    then have less: "g_cycle (b_tracer b) < arg_max_cycles g"
      by (simp add: bench_stops_def)
    then have inc: "unat (g_cycle (b_tracer b) + 1) = unat (g_cycle (b_tracer b)) + 1"
      by (rule unat_inc_below)
    obtain n where n: "n \<le> unat (arg_max_cycles g) - unat (g_cycle (b_tracer (?f b)))"
        "bench_loop h g (?f b) = (?f ^^ n) (?f b)"
        "list_all (\<lambda>k. \<not> bench_stops h g ((?f ^^ k) (?f b))) [0..<n]"
      using 1 [OF False] by blast
    have "Suc n \<le> unat (arg_max_cycles g) - unat (g_cycle (b_tracer b))"
      using n(1) less inc by (simp add: word_less_nat_alt)
    moreover have "bench_loop h g b = (?f ^^ Suc n) b"
      using False n(2) by (subst bench_loop.simps) (simp add: funpow_swap1)
    moreover have "\<not> bench_stops h g ((?f ^^ k) b)" if "k < Suc n" for k
      using that False n(3) by (cases k) (auto simp: list_all_iff funpow_swap1)
    ultimately show ?thesis
      by (intro exI [of _ "Suc n"]) (simp add: list_all_iff)
  qed
qed

lemma tracer_exit_code_zero:
  "tracer_exit_code got_tohost v max_cycles_reached = 0 \<longleftrightarrow> (if got_tohost then v = 1 else \<not> max_cycles_reached)"
  by (simp add: tracer_exit_code_def Let_def)

text \<open>
  C31: the main loop of the Verilator bench ends whatever the generated model does: it runs a
  number of cycles that is at most the distance to the cycle limit, none of them after a
  reason to stop; and the exit code that follows is 0 exactly when the program stored 1 to
  tohost, or nothing was stored there and the model itself finished.
\<close>
theorem bench_loop_ends:
  "(\<exists>n. n \<le> unat (arg_max_cycles g) - unat (g_cycle (b_tracer b)) \<and>
      bench_loop h g b = (full_cycle h g True ^^ n) b \<and>
      list_all (\<lambda>k. \<not> bench_stops h g ((full_cycle h g True ^^ k) b)) [0..<n]) \<and>
   (let b' = bench_loop h g b;
        got_tohost = observed_tohost (b_mem b') (b_tracer b');
        got_finish = h_finish h (b_top b');
        max_cycles_reached = (arg_max_cycles g \<le> g_cycle (b_tracer b') \<and> \<not> got_finish \<and> \<not> got_tohost)
    in tracer_exit_code got_tohost (observed_tohost_value (b_mem b') (b_tracer b')) max_cycles_reached = 0 \<longleftrightarrow>
       (if got_tohost then observed_tohost_value (b_mem b') (b_tracer b') = 1 else got_finish))"
proof -
  have "(\<exists>n. n \<le> unat (arg_max_cycles g) - unat (g_cycle (b_tracer b)) \<and>
      bench_loop h g b = (full_cycle h g True ^^ n) b \<and>
      list_all (\<lambda>k. \<not> bench_stops h g ((full_cycle h g True ^^ k) b)) [0..<n])"
    using bench_loop_cycles [of g b h] by blast
  then show ?thesis
    using bench_loop_stops [of h g b] by (auto simp: tracer_exit_code_zero bench_stops_def Let_def)
qed

end
