(* ===== verification/TraceTools.thy ===== *)
theory TraceTools
  imports TraceText BoomTypes
begin

text \<open>
  The programs that compare traces: the event reader and comparator of
  tb/differential/trace_json_util.hpp, the partial order matcher built on it
  (tb/differential/partial_order_matcher.cpp), and the older entry comparator of
  tb/trace_reader.cpp and tb/trace_compare.cpp. A trace file is the list of its lines; what
  the programs print is the constructor of their result.
\<close>

section \<open>Events (trace_json_util.hpp)\<close>

record Event =
  ev_type :: string
  ev_pc :: string
  ev_instruction :: string
  ev_rd_valid :: string
  ev_rd :: string
  ev_rd_value :: string
  ev_exception :: string
  ev_exception_cause :: string
  ev_taken :: string
  ev_branch_mispredict :: string
  ev_normalized_cycle :: string

definition parse_event :: "string \<Rightarrow> Event" where
  "parse_event line = \<lparr>
     ev_type = json_value line ''event'',
     ev_pc = json_value line ''pc'',
     ev_instruction = json_value line ''instruction'',
     ev_rd_valid = json_value line ''rd_valid'',
     ev_rd = json_value line ''rd'',
     ev_rd_value = json_value line ''rd_value'',
     ev_exception = json_value line ''exception'',
     ev_exception_cause = json_value line ''exception_cause'',
     ev_taken = json_value line ''taken'',
     ev_branch_mispredict = json_value line ''branch_mispredict'',
     ev_normalized_cycle = json_value line ''normalized_cycle''\<rparr>"

definition load_events :: "string list \<Rightarrow> bool \<Rightarrow> Event list" where
  "load_events lines commits_only =
     filter (\<lambda>e. ev_type e = ''commit'' \<or> \<not> commits_only \<and> ev_type e = ''branch'') (map parse_event lines)"

definition event_signature :: "Event \<Rightarrow> bool \<Rightarrow> string" where
  "event_signature e include_cycle =
     ev_type e @ ''|'' @ ev_pc e @ ''|'' @ ev_instruction e @
     (if ev_type e = ''commit'' then
        ''|'' @ ev_rd_valid e @
        ''|'' @ (if ev_rd_valid e = ''true'' then ev_rd e else ''null'') @
        ''|'' @ (if ev_rd_valid e = ''true'' then ev_rd_value e else ''null'') @
        ''|'' @ ev_exception e @
        ''|'' @ (if ev_exception e = ''true'' then ev_exception_cause e else ''null'')
      else if ev_type e = ''branch'' then ''|'' @ ev_taken e @ ''|'' @ ev_branch_mispredict e
      else []) @
     (if include_cycle then ''|'' @ ev_normalized_cycle e else [])"

datatype compare_result =
    Compare_pass nat
  | Compare_count nat nat
  | Compare_differs nat string string

text \<open>The comparison loop from index \<open>i\<close>; both lists have the same length.\<close>

fun compare_events :: "bool \<Rightarrow> nat \<Rightarrow> Event list \<Rightarrow> Event list \<Rightarrow> (nat \<times> string \<times> string) option" where
  "compare_events include_cycle i (r # ref) (d # dut) =
     (let a = event_signature r include_cycle; b = event_signature d include_cycle
      in if a \<noteq> b then Some (i, a, b) else compare_events include_cycle (i + 1) ref dut)"
| "compare_events include_cycle i _ _ = None"

definition compare_files :: "string list \<Rightarrow> string list \<Rightarrow> bool \<Rightarrow> bool \<Rightarrow> compare_result" where
  "compare_files ref_file dut_file commits_only include_cycle =
     (let ref = load_events ref_file commits_only;
          dut = load_events dut_file commits_only
      in if length ref \<noteq> length dut then Compare_count (length ref) (length dut)
         else case compare_events include_cycle 0 ref dut of
           Some (i, a, b) \<Rightarrow> Compare_differs i a b
         | None \<Rightarrow> Compare_pass (length ref))"

primrec compare_exit :: "compare_result \<Rightarrow> int" where
  "compare_exit (Compare_pass n) = 0"
| "compare_exit (Compare_count r d) = 1"
| "compare_exit (Compare_differs i a b) = 1"

text \<open>The two programs that call it: trace_compare.cpp and cycle_normalizer.cpp.\<close>

definition trace_compare_main :: "string list \<Rightarrow> string list \<Rightarrow> compare_result" where
  "trace_compare_main ref dut = compare_files ref dut True False"

definition cycle_normalizer_main :: "string list \<Rightarrow> string list \<Rightarrow> compare_result" where
  "cycle_normalizer_main ref dut = compare_files ref dut False True"

section \<open>Partial order matching (partial_order_matcher.cpp)\<close>

text \<open>\<open>std::atoi\<close>: blanks, a sign, digits, and whatever follows is ignored.\<close>

definition is_digit :: "char \<Rightarrow> bool" where
  "is_digit c \<longleftrightarrow> 48 \<le> (of_char c :: nat) \<and> (of_char c :: nat) \<le> 57"

definition digits_value :: "string \<Rightarrow> int" where
  "digits_value s = foldl (\<lambda>n c. 10 * n + (of_char c - 48)) 0 (takeWhile is_digit s)"

definition atoi :: "string \<Rightarrow> int" where
  "atoi s = (case dropWhile is_space s of [] \<Rightarrow> 0
     | c # t \<Rightarrow> if c = CHR ''-'' then - digits_value t
               else if c = CHR ''+'' then digits_value t else digits_value (c # t))"

definition to_int :: "string \<Rightarrow> int" where
  "to_int v = (if v = [] \<or> v = ''null'' then - 1 else atoi v)"

text \<open>The inner loop over the commits, for one branch; true when it counts a reordering.\<close>

fun reordered :: "Event \<Rightarrow> Event list \<Rightarrow> bool" where
  "reordered b [] = False"
| "reordered b (c # cs) =
     (if ev_pc c = ev_pc b \<and> ev_instruction c = ev_instruction b then False
      else if to_int (ev_normalized_cycle c) > to_int (ev_normalized_cycle b) then True
      else reordered b cs)"

datatype partial_result =
    Legal_reorder nat nat
  | Commit_count nat nat
  | Commit_signature nat string string

definition run_partial_order :: "string list \<Rightarrow> string list \<Rightarrow> partial_result" where
  "run_partial_order ref_file dut_file =
     (let ref = load_events ref_file False;
          dut = load_events dut_file False;
          ref_commits = filter (\<lambda>e. ev_type e = ''commit'') ref;
          dut_commits = filter (\<lambda>e. ev_type e = ''commit'') dut
      in if length ref_commits \<noteq> length dut_commits
         then Commit_count (length ref_commits) (length dut_commits)
         else case compare_events False 0 ref_commits dut_commits of
           Some (i, a, b) \<Rightarrow> Commit_signature i a b
         | None \<Rightarrow> Legal_reorder (length ref_commits)
             (length (filter (\<lambda>e. ev_type e = ''branch'' \<and> reordered e ref_commits) ref)))"

primrec partial_exit :: "partial_result \<Rightarrow> int" where
  "partial_exit (Legal_reorder n k) = 0"
| "partial_exit (Commit_count r d) = 1"
| "partial_exit (Commit_signature i a b) = 1"

section \<open>Trace entries (trace_reader.cpp, trace_compare.cpp)\<close>

record TraceEntry =
  te_cycle :: u64
  te_commit_slot :: u8
  te_pc :: u64
  te_instruction :: u32
  te_privilege :: u8
  te_rd_valid :: bool
  te_rd :: u8
  te_rd_value :: u64
  te_exception :: bool
  te_exception_cause :: u64
  te_memory_valid :: bool
  te_memory_address :: u64
  te_memory_data :: u64
  te_memory_mask :: u8
  te_branch_mispredict :: bool

definition TraceEntry0 :: TraceEntry where
  "TraceEntry0 = \<lparr>te_cycle = 0, te_commit_slot = 0, te_pc = 0, te_instruction = 0,
     te_privilege = 0, te_rd_valid = False, te_rd = 0, te_rd_value = 0, te_exception = False,
     te_exception_cause = 0, te_memory_valid = False, te_memory_address = 0,
     te_memory_data = 0, te_memory_mask = 0, te_branch_mispredict = False\<rparr>"

definition from_commit_entry :: "CommitEntry \<Rightarrow> u64 \<Rightarrow> int \<Rightarrow> TraceEntry" where
  "from_commit_entry ce cycle slot = \<lparr>
     te_cycle = cycle,
     te_commit_slot = word_of_int slot,
     te_pc = ce_pc ce,
     te_instruction = ce_inst ce,
     te_privilege = ce_priv ce,
     te_rd_valid = ce_rd_valid ce,
     te_rd = ce_rd ce,
     te_rd_value = ce_rd_value ce,
     te_exception = ce_exception ce,
     te_exception_cause = ce_exc_cause ce,
     te_memory_valid = ce_is_store ce,
     te_memory_address = ce_store_addr ce,
     te_memory_data = ce_store_data ce,
     te_memory_mask = ce_store_mask ce,
     te_branch_mispredict = ce_branch_mispredict ce\<rparr>"

record TraceCompare =
  m_mismatches :: nat
  m_total :: nat

definition TraceCompare0 :: TraceCompare where
  "TraceCompare0 = \<lparr>m_mismatches = 0, m_total = 0\<rparr>"

text \<open>The fields a mismatch message names, in the order the messages are printed.\<close>

datatype mismatch = PC | INSN | RD | RD_VAL | EXC | MISPRED

definition entry_mismatches :: "TraceEntry \<Rightarrow> TraceEntry \<Rightarrow> mismatch list" where
  "entry_mismatches ref dut =
     (if te_pc ref \<noteq> te_pc dut then [PC] else []) @
     (if te_instruction ref \<noteq> te_instruction dut then [INSN] else []) @
     (if te_rd ref \<noteq> te_rd dut then [RD] else []) @
     (if te_rd_value ref \<noteq> te_rd_value dut then [RD_VAL] else []) @
     (if te_exception ref \<noteq> te_exception dut then [EXC] else []) @
     (if te_branch_mispredict ref \<noteq> te_branch_mispredict dut then [MISPRED] else [])"

definition compare_entries ::
  "TraceEntry \<Rightarrow> TraceEntry \<Rightarrow> TraceCompare \<Rightarrow> bool \<times> mismatch list \<times> TraceCompare" where
  "compare_entries ref dut t =
     (let t = t\<lparr>m_total := m_total t + 1\<rparr>;
          ms = entry_mismatches ref dut;
          match = (ms = [])
      in (match, ms, if match then t else t\<lparr>m_mismatches := m_mismatches t + 1\<rparr>))"

text \<open>The verdict line of \<open>report\<close>.\<close>

definition compare_passes :: "TraceCompare \<Rightarrow> bool" where
  "compare_passes t \<longleftrightarrow> m_mismatches t = 0"

text \<open>A caller that compares a list of entry pairs.\<close>

primrec compare_run :: "(TraceEntry \<times> TraceEntry) list \<Rightarrow> TraceCompare \<Rightarrow> TraceCompare" where
  "compare_run [] t = t"
| "compare_run (p # ps) t = compare_run ps (snd (snd (compare_entries (fst p) (snd p) t)))"

definition entries_agree :: "TraceEntry \<Rightarrow> TraceEntry \<Rightarrow> bool" where
  "entries_agree r d \<longleftrightarrow> te_pc r = te_pc d \<and> te_instruction r = te_instruction d \<and> te_rd r = te_rd d \<and>
     te_rd_value r = te_rd_value d \<and> te_exception r = te_exception d \<and>
     te_branch_mispredict r = te_branch_mispredict d"

section \<open>The comparison loop\<close>

lemma compare_events_None:
  "length ref = length dut \<Longrightarrow>
    compare_events co i ref dut = None \<longleftrightarrow>
      map (\<lambda>e. event_signature e co) ref = map (\<lambda>e. event_signature e co) dut"
  by (induction co i ref dut rule: compare_events.induct) (auto simp: Let_def)

lemma compare_events_Some:
  "length ref = length dut \<Longrightarrow> compare_events co i ref dut = Some (j, a, b) \<Longrightarrow>
    \<exists>k < length ref. j = i + k \<and> event_signature (ref ! k) co = a \<and> event_signature (dut ! k) co = b \<and>
      a \<noteq> b \<and> map (\<lambda>e. event_signature e co) (take k ref) = map (\<lambda>e. event_signature e co) (take k dut)"
proof (induction co i ref dut rule: compare_events.induct)
  case (1 co i r ref d dut)
  show ?case
  proof (cases "event_signature r co = event_signature d co")
    case True
    then obtain k where k: "k < length ref" "j = i + 1 + k" "event_signature (ref ! k) co = a"
        "event_signature (dut ! k) co = b" "a \<noteq> b"
        "map (\<lambda>e. event_signature e co) (take k ref) = map (\<lambda>e. event_signature e co) (take k dut)"
      using 1 by (auto simp: Let_def)
    then show ?thesis
      using True by (intro exI [of _ "Suc k"]) simp
  next
    case False
    then show ?thesis
      using 1 by (intro exI [of _ 0]) (simp add: Let_def)
  qed
qed simp_all

lemma compare_files_pass:
  "compare_exit (compare_files ref dut co ic) = 0 \<longleftrightarrow>
    map (\<lambda>e. event_signature e ic) (load_events ref co) = map (\<lambda>e. event_signature e ic) (load_events dut co)"
  (is "_ \<longleftrightarrow> ?r = ?d")
proof (cases "length (load_events ref co) = length (load_events dut co)")
  case True
  then show ?thesis
    using compare_events_None [OF True, of ic 0]
    by (auto simp: compare_files_def Let_def split: option.splits)
next
  case False
  then have "?r \<noteq> ?d"
    by (metis length_map)
  then show ?thesis
    using False by (simp add: compare_files_def)
qed

lemma load_events_commits:
  "filter (\<lambda>e. ev_type e = ''commit'') (load_events lines False) = load_events lines True"
  by (simp add: load_events_def conj_comms) (rule filter_cong, auto)

text \<open>Splitting a signature at its bars.\<close>

lemma bar_split:
  assumes "c \<notin> set a" "c \<notin> set b"
  shows "a @ c # u = b @ c # v \<longleftrightarrow> a = b \<and> u = v"
  using assms
proof (induction a arbitrary: b)
  case Nil
  then show ?case
    by (cases b) auto
next
  case (Cons x a)
  then show ?case
    by (cases b) auto
qed

lemma bar_end:
  assumes "c \<notin> set a" "c \<notin> set b"
  shows "a @ c # u \<noteq> b" "b \<noteq> a @ c # u"
  using assms by auto

definition bar_free :: "Event \<Rightarrow> bool" where
  "bar_free e \<longleftrightarrow> list_all (\<lambda>s. CHR ''|'' \<notin> set s)
     [ev_type e, ev_pc e, ev_instruction e, ev_rd_valid e, ev_rd e, ev_rd_value e, ev_exception e,
      ev_exception_cause e, ev_taken e, ev_branch_mispredict e, ev_normalized_cycle e]"

text \<open>What equal signatures say of two events.\<close>

definition same_event :: "Event \<Rightarrow> Event \<Rightarrow> bool" where
  "same_event r d \<longleftrightarrow>
     ev_type r = ev_type d \<and> ev_pc r = ev_pc d \<and> ev_instruction r = ev_instruction d \<and>
     (ev_type r = ''commit'' \<longrightarrow>
        ev_rd_valid r = ev_rd_valid d \<and> ev_exception r = ev_exception d \<and>
        (ev_rd_valid r = ''true'' \<longrightarrow> ev_rd r = ev_rd d \<and> ev_rd_value r = ev_rd_value d) \<and>
        (ev_exception r = ''true'' \<longrightarrow> ev_exception_cause r = ev_exception_cause d)) \<and>
     (ev_type r = ''branch'' \<longrightarrow>
        ev_taken r = ev_taken d \<and> ev_branch_mispredict r = ev_branch_mispredict d)"

lemma signature_same_event:
  assumes r: "bar_free r" and d: "bar_free d"
  shows "event_signature r False = event_signature d False \<longleftrightarrow> same_event r d"
proof -
  have bars: "CHR ''|'' \<notin> set (if b then s else ''null'')" if "CHR ''|'' \<notin> set s" for b s
    using that by auto
  have free: "CHR ''|'' \<notin> set (ev_type r)" "CHR ''|'' \<notin> set (ev_pc r)"
      "CHR ''|'' \<notin> set (ev_instruction r)" "CHR ''|'' \<notin> set (ev_rd_valid r)"
      "CHR ''|'' \<notin> set (ev_rd r)" "CHR ''|'' \<notin> set (ev_rd_value r)"
      "CHR ''|'' \<notin> set (ev_exception r)" "CHR ''|'' \<notin> set (ev_exception_cause r)"
      "CHR ''|'' \<notin> set (ev_taken r)" "CHR ''|'' \<notin> set (ev_branch_mispredict r)"
      "CHR ''|'' \<notin> set (ev_type d)" "CHR ''|'' \<notin> set (ev_pc d)"
      "CHR ''|'' \<notin> set (ev_instruction d)" "CHR ''|'' \<notin> set (ev_rd_valid d)"
      "CHR ''|'' \<notin> set (ev_rd d)" "CHR ''|'' \<notin> set (ev_rd_value d)"
      "CHR ''|'' \<notin> set (ev_exception d)" "CHR ''|'' \<notin> set (ev_exception_cause d)"
      "CHR ''|'' \<notin> set (ev_taken d)" "CHR ''|'' \<notin> set (ev_branch_mispredict d)"
    using r d by (simp_all add: bar_free_def)
  show ?thesis
  proof (cases "ev_type r = ev_type d \<and> ev_pc r = ev_pc d")
    case True
    then show ?thesis
      using free
      by (auto simp: event_signature_def same_event_def bar_split bars)
  next
    case False
    then show ?thesis
      using free by (auto simp: event_signature_def same_event_def bar_split)
  qed
qed

section \<open>Sample lines\<close>

definition sample_commit :: string where
  "sample_commit = json_object [(''event'', Quoted ''commit''), (''pc'', Quoted ''0x80''), (''rd_valid'', Bare ''true'')]"

definition sample_branch :: string where
  "sample_branch = json_object [(''event'', Quoted ''branch''), (''normalized_cycle'', Bare ''7'')]"

definition sample_event :: Event where
  "sample_event = \<lparr>ev_type = ''commit'', ev_pc = ''0x80'', ev_instruction = [], ev_rd_valid = ''true'',
     ev_rd = [], ev_rd_value = [], ev_exception = [], ev_exception_cause = [], ev_taken = [],
     ev_branch_mispredict = [], ev_normalized_cycle = []\<rparr>"

lemma sample_parsed: "parse_event sample_commit = sample_event"
  by (simp add: parse_event_def sample_commit_def sample_event_def json_value_object fields_ok_def
      field_value_def plain_Cons del: json_object.simps)

lemma sample_branch_type: "json_value sample_branch ''event'' = ''branch''"
  by (simp add: sample_branch_def json_value_object fields_ok_def
      field_value_def plain_Cons del: json_object.simps)

lemma sample_loaded:
  "load_events [sample_commit, sample_branch] True = [sample_event]"
  "load_events [sample_branch, sample_commit] True = [sample_event]"
  by (simp_all add: load_events_def sample_parsed) (simp_all add: parse_event_def sample_branch_type sample_event_def)

section \<open>Properties\<close>

text \<open>
  The programs trace_compare and cycle_normalizer accept two traces exactly when their events have
  the same signatures in the same order, and otherwise name the two lengths, or the first
  index at which the signatures differ with both signatures.
\<close>
lemma compare_files_exact:
  "case compare_files ref_file dut_file commits_only include_cycle of
     Compare_pass n \<Rightarrow>
       map (\<lambda>e. event_signature e include_cycle) (load_events ref_file commits_only) =
       map (\<lambda>e. event_signature e include_cycle) (load_events dut_file commits_only) \<and>
       n = length (load_events ref_file commits_only)
   | Compare_count r d \<Rightarrow>
       r = length (load_events ref_file commits_only) \<and> d = length (load_events dut_file commits_only) \<and> r \<noteq> d
   | Compare_differs i a b \<Rightarrow>
       a \<noteq> b \<and> i < length (load_events ref_file commits_only) \<and>
       a = event_signature (load_events ref_file commits_only ! i) include_cycle \<and>
       b = event_signature (load_events dut_file commits_only ! i) include_cycle \<and>
       map (\<lambda>e. event_signature e include_cycle) (take i (load_events ref_file commits_only)) =
       map (\<lambda>e. event_signature e include_cycle) (take i (load_events dut_file commits_only))"
proof (cases "length (load_events ref_file commits_only) = length (load_events dut_file commits_only)")
  case True
  show ?thesis
  proof (cases "compare_events include_cycle 0 (load_events ref_file commits_only) (load_events dut_file commits_only)")
    case None
    then show ?thesis
      using True compare_events_None [OF True, of include_cycle 0] by (simp add: compare_files_def)
  next
    case (Some x)
    then obtain j a b where x: "x = (j, a, b)"
      by (cases x)
    show ?thesis
      using True compare_events_Some [OF True Some [unfolded x]] Some x by (auto simp: compare_files_def)
  qed
qed (simp add: compare_files_def)

text \<open>
  C32: what a passing trace_compare run means: when no field holds the separator, the two
  traces commit the same instructions at the same addresses in the same order, with the same
  destination register and value where one is written and the same exceptions.
\<close>
theorem trace_compare_sound:
  assumes "compare_exit (trace_compare_main ref_file dut_file) = 0"
    and "list_all (\<lambda>line. bar_free (parse_event line)) (ref_file @ dut_file)"
  shows "list_all2 same_event (load_events ref_file True) (load_events dut_file True)"
proof -
  let ?sig = "\<lambda>e. event_signature e False"
  have free: "bar_free e" if "e \<in> set (load_events ref_file True) \<union> set (load_events dut_file True)" for e
    using that assms(2) by (auto simp: load_events_def list_all_iff)
  have "map ?sig (load_events ref_file True) = map ?sig (load_events dut_file True)"
    using assms(1) by (simp add: trace_compare_main_def compare_files_pass)
  then have "list_all2 (\<lambda>r d. ?sig r = ?sig d) (load_events ref_file True) (load_events dut_file True)"
    by (simp add: list_eq_iff_nth_eq list_all2_conv_all_nth)
  then show ?thesis
    by (rule list.rel_mono_strong) (simp add: free signature_same_event)
qed

lemma trace_compare_sound_witness:
  "compare_exit (trace_compare_main [sample_commit] [sample_commit]) = 0 \<and>
   list_all2 same_event (load_events [sample_commit] True) (load_events [sample_commit] True)"
proof -
  have "compare_exit (trace_compare_main [sample_commit] [sample_commit]) = 0"
    by (simp add: trace_compare_main_def compare_files_pass)
  moreover have "list_all (\<lambda>line. bar_free (parse_event line)) ([sample_commit] @ [sample_commit])"
    by (simp add: sample_parsed bar_free_def sample_event_def)
  ultimately show ?thesis
    using trace_compare_sound by blast
qed

text \<open>
  C33: the partial order matcher accepts the same pairs of traces as trace_compare: it checks
  the commits only, and where the branches fall among them does not matter. The number of
  reorderings it reports is at most the number of branches, and is a function of the
  reference trace alone.
\<close>
theorem partial_order_ignores_branches:
  "(partial_exit (run_partial_order ref_file dut_file) = 0 \<longleftrightarrow>
      compare_exit (trace_compare_main ref_file dut_file) = 0) \<and>
   (partial_exit (run_partial_order ref_file dut_file) = 0 \<longrightarrow>
      run_partial_order ref_file dut_file = run_partial_order ref_file ref_file) \<and>
   (\<exists>k. run_partial_order ref_file ref_file = Legal_reorder (length (load_events ref_file True)) k \<and>
      k \<le> length (filter (\<lambda>e. ev_type e = ''branch'') (load_events ref_file False)))"
proof -
  have self: "compare_events False 0 (load_events ref_file True) (load_events ref_file True) = None"
    by (simp add: compare_events_None)
  have bound: "length (filter (\<lambda>e. ev_type e = ''branch'' \<and> P e) es) \<le>
      length (filter (\<lambda>e. ev_type e = ''branch'') es)" for P and es :: "Event list"
    by (induction es) auto
  show ?thesis
    using self bound
    by (auto simp: run_partial_order_def trace_compare_main_def compare_files_def load_events_commits
        Let_def split: option.splits)
qed

lemma partial_order_ignores_branches_witness:
  "partial_exit (run_partial_order [sample_commit, sample_branch] [sample_branch, sample_commit]) = 0 \<and>
   run_partial_order [sample_commit, sample_branch] [sample_branch, sample_commit] =
   run_partial_order [sample_commit, sample_branch] [sample_commit, sample_branch]"
proof -
  have "compare_exit (trace_compare_main [sample_commit, sample_branch] [sample_branch, sample_commit]) = 0"
    by (simp add: trace_compare_main_def compare_files_pass sample_loaded)
  then show ?thesis
    using partial_order_ignores_branches by blast
qed

text \<open>
  Comparing a list of entry pairs with TraceCompare counts every pair, and counts as
  mismatches exactly the pairs that differ in one of the six compared fields; the report says
  PASS exactly when all pairs agree in them.
\<close>
lemma trace_compare_counts:
  "m_total (compare_run pairs TraceCompare0) = length pairs \<and>
   m_mismatches (compare_run pairs TraceCompare0) = length (filter (\<lambda>(r, d). \<not> entries_agree r d) pairs) \<and>
   (compare_passes (compare_run pairs TraceCompare0) \<longleftrightarrow> list_all (\<lambda>(r, d). entries_agree r d) pairs)"
proof -
  have agree: "entry_mismatches r d = [] \<longleftrightarrow> entries_agree r d" for r d
    by (auto simp: entry_mismatches_def entries_agree_def)
  have run: "m_total (compare_run pairs t) = m_total t + length pairs \<and>
      m_mismatches (compare_run pairs t) = m_mismatches t + length (filter (\<lambda>(r, d). \<not> entries_agree r d) pairs)" for t
    by (induction pairs arbitrary: t) (auto simp: compare_entries_def agree Let_def)
  show ?thesis
    using run [of TraceCompare0]
    by (auto simp: compare_passes_def TraceCompare0_def filter_empty_conv list_all_iff)
qed

end
