(* ===== verification/HlsTb.thy ===== *)
theory HlsTb
  imports CoreStep RefTracer TraceTools
begin

text \<open>
  The bench that runs the modelled core on the reference programs and writes its trace
  (tb/differential/hls_prefix_trace_tb.cpp): the loader of hex images and its memory, the
  classification of instructions, and the run of one program, whose every iteration answers a
  fetch, steps the core, and writes the branches, the commits and the stores to tohost.
  Printing on the console, and opening files, are left out: an image is the list of its
  lines, or nothing when it cannot be opened.
\<close>

section \<open>Programs\<close>

record ProgramSpec =
  ps_name :: string
  ps_hex_name :: string
  ps_prefix_commits :: nat
  ps_unsupported_pc :: u64
  ps_unsupported_inst :: u32

definition kPrograms :: "ProgramSpec list" where
  "kPrograms =
     [\<lparr>ps_name = ''independent_alu'', ps_hex_name = ''independent_alu.hex'', ps_prefix_commits = 8,
       ps_unsupported_pc = 0x80000020, ps_unsupported_inst = 0x0062b023\<rparr>,
      \<lparr>ps_name = ''raw_chain'', ps_hex_name = ''raw_chain.hex'', ps_prefix_commits = 8,
       ps_unsupported_pc = 0x80000020, ps_unsupported_inst = 0x0062b023\<rparr>,
      \<lparr>ps_name = ''branch_taken'', ps_hex_name = ''branch_taken.hex'', ps_prefix_commits = 9,
       ps_unsupported_pc = 0x80000028, ps_unsupported_inst = 0x0062b023\<rparr>,
      \<lparr>ps_name = ''branch_not_taken'', ps_hex_name = ''branch_not_taken.hex'', ps_prefix_commits = 10,
       ps_unsupported_pc = 0x80000028, ps_unsupported_inst = 0x0062b023\<rparr>,
      \<lparr>ps_name = ''nested_branch'', ps_hex_name = ''nested_branch.hex'', ps_prefix_commits = 10,
       ps_unsupported_pc = 0x80000030, ps_unsupported_inst = 0x0062b023\<rparr>]"

definition kEntryPc :: u64 where
  "kEntryPc = 0x80000000"

definition kTohostAddr :: u64 where
  "kTohostAddr = 0x80000080"

definition kMaxCycles :: nat where
  "kMaxCycles = 500"

text \<open>\<open>complete_mode\<close>, on the value of \<open>HLS_TRACE_MODE\<close>.\<close>

definition complete_mode :: "string option \<Rightarrow> bool" where
  "complete_mode mode \<longleftrightarrow> mode = Some ''complete''"

definition join_path :: "string \<Rightarrow> string \<Rightarrow> string" where
  "join_path a b = (if a = [] then b else if last a = CHR ''/'' then a @ b else a @ ''/'' @ b)"

section \<open>The memory\<close>

record HexMem =
  hm_words :: "u32 list"
  hm_bytes :: "u8 list"

definition HexMem0 :: HexMem where
  "HexMem0 = \<lparr>hm_words = [], hm_bytes = []\<rparr>"

definition append_word :: "u32 \<Rightarrow> HexMem \<Rightarrow> HexMem" where
  "append_word w m = \<lparr>hm_words = hm_words m @ [w],
     hm_bytes = hm_bytes m @ [ucast (w AND 0xff), ucast (drop_bit 8 w AND 0xff),
       ucast (drop_bit 16 w AND 0xff), ucast (drop_bit 24 w AND 0xff)]\<rparr>"

definition hex_token :: "string \<Rightarrow> string" where
  "hex_token line = filter (\<lambda>c. \<not> is_space c) (takeWhile (\<lambda>c. c \<noteq> CHR ''#'') line)"

definition load_hex_line :: "string \<Rightarrow> HexMem \<Rightarrow> HexMem" where
  "load_hex_line line m =
     (let token = hex_token line
      in if token = [] then m
         else let v = fst (strtoull token 16)
              in if length token \<le> 8 then append_word (ucast (v AND 0xffffffff)) m
                 else append_word (ucast (drop_bit 32 v AND 0xffffffff))
                   (append_word (ucast (v AND 0xffffffff)) m))"

text \<open>\<open>load_hex\<close>: \<open>None\<close> when it returns false.\<close>

definition hm_load_hex :: "string list option \<Rightarrow> HexMem option" where
  "hm_load_hex file =
     (case file of None \<Rightarrow> None
      | Some lines \<Rightarrow> let m = fold load_hex_line lines HexMem0
                     in if hm_words m = [] then None else Some m)"

definition hm_read :: "HexMem \<Rightarrow> u64 \<Rightarrow> u32" where
  "hm_read m addr =
     (if addr < kEntryPc then 0
      else let idx = drop_bit 2 (addr - kEntryPc)
           in if unat idx \<ge> length (hm_words m) then 0 else hm_words m ! unat idx)"

definition hm_read_byte :: "HexMem \<Rightarrow> u64 \<Rightarrow> u8" where
  "hm_read_byte m addr =
     (if addr < kEntryPc then 0
      else let offset = addr - kEntryPc
           in if unat offset \<ge> length (hm_bytes m) then 0 else hm_bytes m ! unat offset)"

definition hm_read_beat :: "HexMem \<Rightarrow> u64 \<Rightarrow> u64" where
  "hm_read_beat m addr = (let base = addr AND NOT 0x7 in join_bytes (\<lambda>i. hm_read_byte m (base + of_nat i)) 8)"

text \<open>The vector is resized with zero bytes; running out of memory is not modelled.\<close>

definition hm_write_byte :: "u64 \<Rightarrow> u8 \<Rightarrow> HexMem \<Rightarrow> HexMem" where
  "hm_write_byte addr v m =
     (if addr < kEntryPc then m
      else let offset = unat (addr - kEntryPc);
               bytes = (if offset \<ge> length (hm_bytes m)
                        then hm_bytes m @ replicate (offset + 1 - length (hm_bytes m)) 0 else hm_bytes m)
           in m\<lparr>hm_bytes := bytes[offset := v]\<rparr>)"

definition hm_write :: "u64 \<Rightarrow> u64 \<Rightarrow> u8 \<Rightarrow> HexMem \<Rightarrow> HexMem" where
  "hm_write addr data sz m =
     (let n = (if sz \<ge> 3 then 8 else 2 ^ unat sz)
      in fold (\<lambda>i. hm_write_byte (addr + of_nat i) (ucast (drop_bit (8 * i) data AND 0xff))) [0..<n] m)"

section \<open>Instructions\<close>

definition mnemonic :: "u32 \<Rightarrow> string" where
  "mnemonic inst =
     (let opcode = inst AND 0x7f; funct3 = drop_bit 12 inst AND 7; funct7 = drop_bit 25 inst AND 0x7f
      in if opcode = 0x13 \<and> funct3 = 0 then ''ADDI''
         else if opcode = 0x17 then ''AUIPC''
         else if opcode = 0x33 \<and> funct3 = 0 \<and> funct7 = 0 then ''ADD''
         else if opcode = 0x63 \<and> funct3 = 0 then ''BEQ''
         else if opcode = 0x63 \<and> funct3 = 1 then ''BNE''
         else if opcode = 0x23 \<and> funct3 = 3 then ''SD''
         else if opcode = 0x6f then ''JAL''
         else if opcode = 0x67 then ''JALR''
         else ''UNKNOWN'')"

definition is_control_inst :: "u32 \<Rightarrow> bool" where
  "is_control_inst inst \<longleftrightarrow> (let opcode = inst AND 0x7f in opcode = 0x63 \<or> opcode = 0x6f \<or> opcode = 0x67)"

section \<open>Trace lines\<close>

definition hex_byte :: "u8 \<Rightarrow> string" where
  "hex_byte b = ''0x'' @ hex_fixed 2 (unat b)"

text \<open>What a line says of the run: the source and the program's name.\<close>

record HlsRun =
  hr_source :: string
  hr_program :: ProgramSpec
  hr_complete :: bool

definition hls_origin :: "HlsRun \<Rightarrow> json_fields" where
  "hls_origin r = [(''source'', Quoted (hr_source r)), (''program'', Quoted (ps_name (hr_program r)))]"

definition print_rd :: "CommitEntry \<Rightarrow> json_fields" where
  "print_rd ce =
     (if ce_rd_valid ce then [(''rd'', dec_word (ce_rd ce)), (''rd_value'', Quoted (hex_u64 (ce_rd_value ce)))]
      else [(''rd'', Bare ''null''), (''rd_value'', Bare ''null'')])"

definition hls_memory_fields :: "CommitEntry \<Rightarrow> json_fields" where
  "hls_memory_fields ce =
     (if ce_memory_valid ce then
        [(''memory_valid'', Bare ''true''), (''memory_address'', Quoted (hex_u64 (ce_memory_address ce))),
         (''memory_data'', Quoted (hex_u64 (ce_memory_data ce))),
         (''memory_mask'', Quoted (hex_byte (ce_memory_mask ce))), (''is_store'', json_bool (ce_is_store ce))]
      else
        [(''memory_valid'', Bare ''false''), (''memory_address'', Bare ''null''), (''memory_data'', Bare ''null''),
         (''memory_mask'', Bare ''null''), (''is_store'', Bare ''false'')])"

definition hls_commit_fields :: "HlsRun \<Rightarrow> CommitEntry \<Rightarrow> json_fields" where
  "hls_commit_fields r ce =
     (''event'', Quoted ''commit'') # hls_origin r @
     [(''slot'', Bare ''0''), (''pc'', Quoted (hex_u64 (ce_pc ce))), (''instruction'', Quoted (hex_u32 (ce_inst ce))),
      (''mnemonic'', Quoted (mnemonic (ce_inst ce))), (''rd_valid'', json_bool (ce_rd_valid ce))] @
     print_rd ce @
     [(''physical_rd'', Bare ''null''), (''stale_physical_rd'', Bare ''null''), (''privilege'', dec_word (ce_priv ce)),
      (''exception'', json_bool (ce_exception ce)),
      (''exception_cause'', Bare (if ce_exception ce then ''0'' else ''null'')), (''branch_mispredict'', Bare ''null'')] @
     hls_memory_fields ce @
     [(''arch_valid'', Bare ''true'')]"

definition hls_branch_fields :: "HlsRun \<Rightarrow> nat \<Rightarrow> AluResult \<Rightarrow> json_fields" where
  "hls_branch_fields r lane a =
     (let u = ar_uop a in
      (''event'', Quoted ''branch'') # hls_origin r @
      [(''slot'', Bare (dec_string lane)), (''pc'', Quoted (hex_u64 (uop_debug_pc u))),
       (''instruction'', Quoted (hex_u32 (uop_inst u))), (''mnemonic'', Quoted (mnemonic (uop_inst u))),
       (''taken'', json_bool (ar_mispredict a)), (''branch_mispredict'', json_bool (ar_mispredict a)),
       (''target'', Quoted (hex_u64 (ar_redirect_pc a)))])"

definition hls_tohost_fields :: "HlsRun \<Rightarrow> DmemRequest \<Rightarrow> u64 \<Rightarrow> u8 \<Rightarrow> json_fields" where
  "hls_tohost_fields r req data strobe =
     (''event'', Quoted ''tohost'') # hls_origin r @
     [(''address'', Quoted (hex_u64 (drq_address req))), (''value'', Quoted (hex_u64 data)),
      (''mask'', Quoted (hex_byte strobe)), (''command'', Quoted ''store''), (''committed'', json_bool (drq_committed req))]"

definition hls_boundary_fields :: "HlsRun \<Rightarrow> json_fields" where
  "hls_boundary_fields r =
     (let p = hr_program r in
      (''event'', Quoted ''unsupported_boundary'') # hls_origin r @
      [(''pc'', Quoted (hex_u64 (ps_unsupported_pc p))), (''instruction'', Quoted (hex_u32 (ps_unsupported_inst p))),
       (''mnemonic'', Quoted (mnemonic (ps_unsupported_inst p))),
       (''reason'', Quoted ''prefix trace mode excludes the retired store-to-tohost boundary'')])"

definition hls_metadata_fields :: "HlsRun \<Rightarrow> string \<Rightarrow> nat \<Rightarrow> string \<Rightarrow> json_fields" where
  "hls_metadata_fields r phase commits status =
     [(''event'', Quoted ''metadata''), (''phase'', Quoted phase), (''runner'', Quoted ''hls_prefix_trace_tb''),
      (''trace_schema_version'', Bare ''1'')] @ hls_origin r @
     [(''scope'', Quoted (if hr_complete r then ''complete_program_tohost''
         else ''loaded_program_prefix_before_unsupported_tohost_store'')),
      (''entry_pc'', Quoted (hex_u64 kEntryPc)), (''tohost_addr'', Quoted (hex_u64 kTohostAddr)),
      (''prefix_commit_target'', Bare (dec_string (ps_prefix_commits (hr_program r)))),
      (''prefix_commit_records'', Bare (dec_string commits)), (''status'', Quoted status),
      (''unavailable_fields_are_null'', Bare ''true'')]"

section \<open>The run of one program\<close>

record HlsState =
  hs_mem :: HexMem
  hs_core :: BoomCoreState
  hs_pipe :: PipeSignals
  hs_seq :: u64
  hs_prefix_commits :: nat
  hs_saw_tohost :: bool
  hs_lines :: "string list"

text \<open>One \<open>fprintf\<close> of a line of the given cycle; the sequence number advances.\<close>

definition hls_emit :: "u64 \<Rightarrow> json_fields \<Rightarrow> HlsState \<Rightarrow> HlsState" where
  "hls_emit cycle fs h = h
     \<lparr>hs_lines := hs_lines h @ [json_object ((''cycle'', dec_word cycle) # fs @ [(''trace_sequence_id'', dec_word (hs_seq h))])],
      hs_seq := hs_seq h + 1\<rparr>"

definition hls_cycle :: "HlsState \<Rightarrow> u64" where
  "hls_cycle h = csr_cycle (bs_csr (hs_core h))"

definition hls_imem_answer :: "HexMem \<Rightarrow> ImemRequest \<Rightarrow> ImemResponse" where
  "hls_imem_answer m req = ImemResponse0\<lparr>irs_address := irq_address req, irs_fetch_id := irq_fetch_id req,
     irs_instruction := hm_read m (irq_address req), irs_exception := False, irs_exc_cause := 0\<rparr>"

definition hls_fetch :: "HlsState \<Rightarrow> HlsState" where
  "hls_fetch h =
     (let p = hs_pipe h
      in if \<not> stream_empty (pipe_imem_req p) then
           let (req, q) = stream_read (pipe_imem_req p);
               p = p\<lparr>pipe_imem_req := q\<rparr>;
               p = (if \<not> stream_full (pipe_imem_resp p)
                    then p\<lparr>pipe_imem_resp := stream_write (pipe_imem_resp p) (hls_imem_answer (hs_mem h) req)\<rparr> else p)
           in h\<lparr>hs_pipe := p\<rparr>
         else h)"

definition hls_step :: "HlsState \<Rightarrow> HlsState" where
  "hls_step h = (let (s, p) = boom_core_step (hs_core h) (hs_pipe h) in h\<lparr>hs_core := s, hs_pipe := p\<rparr>)"

text \<open>The loop over the execution lanes from \<open>lane\<close> on.\<close>

fun hls_branches :: "HlsRun \<Rightarrow> nat \<Rightarrow> AluResult list \<Rightarrow> HlsState \<Rightarrow> HlsState" where
  "hls_branches r lane [] h = h"
| "hls_branches r lane (a # as) h =
     (let u = ar_uop a;
          h = (if \<not> ar_valid a \<or> \<not> is_control_inst (uop_inst u) \<or> uop_debug_pc u < kEntryPc then h
               else hls_emit (hls_cycle h) (hls_branch_fields r lane a) h)
      in hls_branches r (lane + 1) as h)"

definition target_commits :: "HlsRun \<Rightarrow> nat" where
  "target_commits r = ps_prefix_commits (hr_program r) + (if hr_complete r then 1 else 0)"

text \<open>The loop that drains the commit stream; it stops at the target, leaving the rest.\<close>

fun hls_commits :: "HlsRun \<Rightarrow> CommitEntry list \<Rightarrow> HlsState \<Rightarrow> HlsState" where
  "hls_commits r [] h = h\<lparr>hs_pipe := (hs_pipe h)\<lparr>pipe_commit_trace := []\<rparr>\<rparr>"
| "hls_commits r (ce # q) h =
     (if hs_prefix_commits h < target_commits r then
        if ce_pc ce < kEntryPc then hls_commits r q h
        else let h = hls_emit (hls_cycle h) (hls_commit_fields r ce) h
             in hls_commits r q (h\<lparr>hs_prefix_commits := hs_prefix_commits h + 1\<rparr>)
      else h\<lparr>hs_pipe := (hs_pipe h)\<lparr>pipe_commit_trace := ce # q\<rparr>\<rparr>)"

definition hls_store :: "HlsRun \<Rightarrow> DmemRequest \<Rightarrow> HlsState \<Rightarrow> HlsState" where
  "hls_store r req h =
     (let data = (if drq_write_data req \<noteq> 0 then drq_write_data req else drq_data req);
          strobe = (if drq_write_mask req \<noteq> 0 then drq_write_mask req else drq_mask req);
          h = h\<lparr>hs_mem := hm_write (drq_address req) data (drq_size req) (hs_mem h)\<rparr>
      in if drq_address req = kTohostAddr
         then (hls_emit (hls_cycle h) (hls_tohost_fields r req data strobe) h)\<lparr>hs_saw_tohost := (data = 1)\<rparr>
         else h)"

definition hls_load :: "DmemRequest \<Rightarrow> HlsState \<Rightarrow> HlsState" where
  "hls_load req h =
     (let data = hm_read_beat (hs_mem h) (drq_address req);
          resp = DmemResponse0\<lparr>drs_transaction_id := drq_transaction_id req, drs_data := data, drs_read_data := data,
            drs_exception := False, drs_exc_cause := 0, drs_exception_cause := 0\<rparr>;
          p = hs_pipe h
      in if \<not> stream_full (pipe_dmem_resp p)
         then h\<lparr>hs_pipe := p\<lparr>pipe_dmem_resp := stream_write (pipe_dmem_resp p) resp\<rparr>\<rparr> else h)"

fun hls_memory :: "HlsRun \<Rightarrow> DmemRequest list \<Rightarrow> HlsState \<Rightarrow> HlsState" where
  "hls_memory r [] h = h\<lparr>hs_pipe := (hs_pipe h)\<lparr>pipe_dmem_req := []\<rparr>\<rparr>"
| "hls_memory r (req # q) h =
     hls_memory r q (if drq_is_store req \<or> drq_command req = DMEM_STORE then hls_store r req h else hls_load req h)"

definition hls_iteration :: "HlsRun \<Rightarrow> HlsState \<Rightarrow> HlsState" where
  "hls_iteration r h =
     (let h = hls_step (hls_fetch h);
          h = hls_branches r 0 (exe_alu_results (bs_execute (hs_core h))) h;
          h = hls_commits r (pipe_commit_trace (hs_pipe h)) h
      in hls_memory r (pipe_dmem_req (hs_pipe h)) h)"

text \<open>The loop over the cycles: at most \<open>n\<close> more.\<close>

fun hls_loop :: "HlsRun \<Rightarrow> nat \<Rightarrow> HlsState \<Rightarrow> HlsState" where
  "hls_loop r 0 h = h"
| "hls_loop r (Suc n) h =
     (if hs_prefix_commits h < target_commits r \<and> \<not> hs_saw_tohost h then hls_loop r n (hls_iteration r h) else h)"

definition hls_start :: "HlsRun \<Rightarrow> HexMem \<Rightarrow> HlsState" where
  "hls_start r m = hls_emit 0 (hls_metadata_fields r ''start'' 0 ''running'')
     \<lparr>hs_mem = m,
      hs_core = BoomCoreState0\<lparr>bs_frontend := (bs_frontend BoomCoreState0)
        \<lparr>fe_pc := kEntryPc, fe_reset_done := True, fe_request_sent := False,
         fe_response_received := False, fe_fetch_packet_valid := False\<rparr>\<rparr>,
      hs_pipe = PipeSignals0, hs_seq = 0, hs_prefix_commits = 0, hs_saw_tohost = False, hs_lines = []\<rparr>"

definition hls_verdict :: "HlsRun \<Rightarrow> HlsState \<Rightarrow> bool" where
  "hls_verdict r h \<longleftrightarrow>
     (\<not> hr_complete r \<and> hs_prefix_commits h = ps_prefix_commits (hr_program r)) \<or>
     (hr_complete r \<and> hs_saw_tohost h \<and> hs_prefix_commits h = target_commits r)"

definition hls_status :: "HlsRun \<Rightarrow> bool \<Rightarrow> string" where
  "hls_status r ok =
     (if ok then (if hr_complete r then ''complete_tohost'' else ''prefix_complete'')
      else (if hr_complete r then ''complete_incomplete'' else ''prefix_incomplete''))"

text \<open>
  \<open>run_program\<close>: the verdict and the lines of the trace file; false without a trace when the
  image cannot be loaded or the trace cannot be created.
\<close>

definition hls_run_program :: "HlsRun \<Rightarrow> string list option \<Rightarrow> bool \<Rightarrow> bool \<times> string list" where
  "hls_run_program r file can_create =
     (case hm_load_hex file of None \<Rightarrow> (False, [])
      | Some m \<Rightarrow> if \<not> can_create then (False, []) else
          let h = hls_loop r kMaxCycles (hls_start r m);
              ok = hls_verdict r h;
              h = (if \<not> hr_complete r \<and> hs_prefix_commits h = ps_prefix_commits (hr_program r)
                   then hls_emit (hls_cycle h) (hls_boundary_fields r) h else h);
              h = hls_emit (hls_cycle h) (hls_metadata_fields r ''end'' (hs_prefix_commits h) (hls_status r ok)) h
          in (ok, hs_lines h))"

text \<open>\<open>main\<close> over the programs: the exit code.\<close>

definition hls_main :: "string \<Rightarrow> bool \<Rightarrow> (string \<Rightarrow> string list option) \<Rightarrow> (string \<Rightarrow> bool) \<Rightarrow> string \<Rightarrow> string \<Rightarrow> int" where
  "hls_main source complete files can_create root out_dir =
     (let run = (\<lambda>p. fst (hls_run_program \<lparr>hr_source = source, hr_program = p, hr_complete = complete\<rparr>
            (files (join_path (join_path root ''tb/programs/boom_reference/build'') (ps_hex_name p)))
            (can_create (join_path out_dir (ps_name p @ ''_'' @ source @ (if complete then ''_full'' else []) @ ''.jsonl'')))))
      in if list_all id (map run kPrograms) then 0 else 1)"

end
