(* ===== verification/RefMemoryLaws.thy ===== *)
theory RefMemoryLaws
  imports RefMemory
begin

text \<open>
  The laws of the memory of the Verilator bench: bytes, what a write keeps, reading after
  writing, the read loop, runs of the AXI ports, write bursts and the image loader.
\<close>

section \<open>Bytes of a word\<close>

lemma bit_join_bytes:
  "n \<le> 8 \<Longrightarrow> bit (join_bytes f n) k \<longleftrightarrow> k < 8 * n \<and> bit (f (k div 8)) (k mod 8)"
proof (induction n)
  case 0
  then show ?case
    by simp
next
  case (Suc n)
  have "k div 8 = n" "k mod 8 = k - 8 * n" if "8 * n \<le> k" "k < 8 * Suc n"
    using that by (simp_all add: div_nat_eqI modulo_nat_def)
  moreover have "k < 8 * n \<or> (8 * n \<le> k \<and> k < 8 * Suc n) \<or> 8 * Suc n \<le> k"
    by linarith
  ultimately show ?case
    using Suc by (auto simp: bit_simps dest: bit_imp_le_length)
qed

definition byte_of :: "nat \<Rightarrow> u64 \<Rightarrow> u8" where
  "byte_of i v = ucast (drop_bit (8 * i) v)"

lemma join_byte_of [simp]: "join_bytes (\<lambda>i. byte_of i v) 8 = v"
proof (rule bit_word_eqI)
  fix k assume "k < LENGTH(64)"
  moreover have "8 * (k div 8) + k mod 8 = k"
    by simp
  ultimately show "bit (join_bytes (\<lambda>i. byte_of i v) 8) k = bit v k"
    by (simp add: bit_join_bytes byte_of_def bit_simps)
qed

lemma join_bytes_8:
  "join_bytes f 8 = ucast (f 0) OR push_bit 8 (ucast (f 1)) OR push_bit 16 (ucast (f 2)) OR
    push_bit 24 (ucast (f 3)) OR push_bit 32 (ucast (f 4)) OR push_bit 40 (ucast (f 5)) OR
    push_bit 48 (ucast (f 6)) OR push_bit 56 (ucast (f 7))"
  by (simp add: numeral_eq_Suc ac_simps)

lemma join_bytes_cong:
  "(\<And>i. i < n \<Longrightarrow> f i = g i) \<Longrightarrow> join_bytes f n = join_bytes g n"
  by (induction n) simp_all

lemma byte_of_join: "i < 8 \<Longrightarrow> byte_of i (join_bytes f 8) = f i"
  by (rule bit_word_eqI) (auto simp: byte_of_def bit_simps bit_join_bytes)

section \<open>What a write keeps\<close>

lemma sm_store_bytes_fields [simp]:
  "sm_size (sm_store_bytes base data strb n m) = sm_size m"
  "sm_word_size (sm_store_bytes base data strb n m) = sm_word_size m"
  "sm_tohost_enabled (sm_store_bytes base data strb n m) = sm_tohost_enabled m"
  "sm_tohost_addr (sm_store_bytes base data strb n m) = sm_tohost_addr m"
  by (induction n) (simp_all add: Let_def)

lemma sm_store_bytes_wrap [simp]: "sm_wrap (sm_store_bytes base data strb n m) a = sm_wrap m a"
  by (simp add: sm_wrap_def)

lemma sm_update_tohost_fields [simp]:
  "sm_bytes (sm_update_tohost base m) = sm_bytes m"
  "sm_size (sm_update_tohost base m) = sm_size m"
  "sm_word_size (sm_update_tohost base m) = sm_word_size m"
  "sm_wrap (sm_update_tohost base m) a = sm_wrap m a"
  by (simp_all add: sm_update_tohost_def Let_def sm_wrap_def)

lemma sm_write_word_fields [simp]:
  "sm_size (sm_write_word addr data strb sz m) = sm_size m"
  "sm_word_size (sm_write_word addr data strb sz m) = sm_word_size m"
  "sm_wrap (sm_write_word addr data strb sz m) a = sm_wrap m a"
  by (simp_all add: sm_write_word_def Let_def sm_wrap_def)

section \<open>Reading after writing\<close>

lemma sm_store_bytes_miss:
  assumes "\<And>i. i < n \<Longrightarrow> a \<noteq> sm_wrap m (base + of_nat i)"
  shows "sm_bytes (sm_store_bytes base data strb n m) a = sm_bytes m a"
  using assms by (induction n) (auto simp: Let_def)

lemma sm_store_bytes_hit:
  assumes "inj_on (\<lambda>i. sm_wrap m (base + of_nat i)) {..<n}" "i < n" "n \<le> 8"
  shows "sm_bytes (sm_store_bytes base data strb n m) (sm_wrap m (base + of_nat i)) =
    (if bit strb i then Some (byte_of i data) else sm_bytes m (sm_wrap m (base + of_nat i)))"
  using assms
proof (induction n)
  case (Suc n)
  show ?case
  proof (cases "i = n")
    case True
    have "sm_wrap m (base + of_nat n) \<noteq> sm_wrap m (base + of_nat j)" if "j < n" for j
      using Suc.prems(1) that by (auto dest!: inj_onD)
    then have "sm_bytes (sm_store_bytes base data strb n m) (sm_wrap m (base + of_nat n)) =
        sm_bytes m (sm_wrap m (base + of_nat n))"
      by (rule sm_store_bytes_miss)
    then show ?thesis
      using True Suc.prems by (simp add: Let_def bit_iff_and_push_bit_not_eq_0 byte_of_def)
  next
    case False
    then have ne: "sm_wrap m (base + of_nat i) \<noteq> sm_wrap m (base + of_nat n)"
      using Suc.prems by (auto dest!: inj_onD)
    have "inj_on (\<lambda>i. sm_wrap m (base + of_nat i)) {..<n}"
      using Suc.prems(1) by (rule inj_on_subset) auto
    then show ?thesis
      using Suc False ne by (simp add: Let_def)
  qed
qed simp

text \<open>Addresses aligned to a double word do not cross the end of the address space or of the memory.\<close>

lemma unat_aligned_plus:
  assumes "8 dvd unat (b :: u64)" "i < 8"
  shows "unat (b + of_nat i) = unat b + i"
proof -
  obtain q where q: "unat b = 8 * q"
    using assms(1) by auto
  have "unat b < 2 ^ 64"
    using unsigned_less [of b] by simp
  then have "unat b + i < 2 ^ 64"
    using q assms(2) by simp
  moreover have "unat (of_nat i :: u64) = i"
    using assms(2) by (simp add: unat_of_nat take_bit_nat_eq_self)
  ultimately show ?thesis
    by (simp add: unat_word_ariths)
qed

lemma wrap_aligned:
  assumes "8 dvd unat b" "i < 8" "8 dvd unat (sm_size m)"
  shows "unat (sm_wrap m (b + of_nat i)) = unat (sm_wrap m b) + i \<and> 8 dvd unat (sm_wrap m b)"
proof (cases "sm_size m = 0")
  case True
  then show ?thesis
    using assms by (simp add: sm_wrap_def unat_aligned_plus)
next
  case False
  obtain q where q: "unat (sm_size m) = 8 * q"
    using assms(3) by auto
  obtain r where r: "unat b = 8 * r"
    using assms(1) by auto
  have "q > 0"
    using False q by (cases q) (auto simp: unat_eq_zero)
  have "(8 * r + i) mod (8 * q) = 8 * (r mod q) + i"
    using assms(2) by (simp add: mod_mult2_eq)
  moreover have "unat (sm_wrap m (b + of_nat i)) = (8 * r + i) mod (8 * q)"
    using False q r unat_aligned_plus [OF assms(1,2)] by (simp add: sm_wrap_def unat_mod)
  moreover have "unat (sm_wrap m b) = 8 * (r mod q)"
    using False q r by (simp add: sm_wrap_def unat_mod mod_mult_mult1)
  ultimately show ?thesis
    by simp
qed

lemma wrap_aligned_eq:
  assumes "8 dvd unat a" "8 dvd unat b" "i < 8" "j < 8" "8 dvd unat (sm_size m)"
  shows "sm_wrap m (a + of_nat i) = sm_wrap m (b + of_nat j) \<longleftrightarrow> sm_wrap m a = sm_wrap m b \<and> i = j"
proof -
  note wa = wrap_aligned [OF assms(1,3,5)] and wb = wrap_aligned [OF assms(2,4,5)]
  obtain p q where pq: "unat (sm_wrap m a) = 8 * p" "unat (sm_wrap m b) = 8 * q"
    using wa wb by (meson dvdE)
  have "(8 * p + i) div 8 = p" "(8 * p + i) mod 8 = i" "(8 * q + j) div 8 = q" "(8 * q + j) mod 8 = j"
    using assms(3,4) by simp_all
  then have "8 * p + i = 8 * q + j \<longleftrightarrow> p = q \<and> i = j"
    by metis
  then show ?thesis
    using wa wb pq by (simp add: unat_eq_nat_iff [symmetric])
qed

text \<open>The bytes a write selects: strobed, and inside the beat of \<open>sz\<close> bytes at \<open>addr\<close>.\<close>

definition lane_on :: "u64 \<Rightarrow> u64 \<Rightarrow> u64 \<Rightarrow> nat \<Rightarrow> bool" where
  "lane_on addr strb sz i \<longleftrightarrow> bit strb i \<and> unat addr mod 8 \<le> i \<and> i < unat addr mod 8 + unat sz"

lemma bit_beat_mask:
  "i < 64 \<Longrightarrow> bit (push_bit b (push_bit n 1 - 1) :: u64) i \<longleftrightarrow> b \<le> i \<and> i < b + n"
proof -
  assume "i < 64"
  have "push_bit n 1 - 1 = (mask n :: u64)"
    by (simp add: mask_eq_exp_minus_1)
  then show ?thesis
    using \<open>i < 64\<close> by (auto simp: bit_simps)
qed

lemma unat_align8: "unat (addr div 8 * 8 :: u64) = unat addr div 8 * 8"
proof -
  have "unat addr < 2 ^ 64"
    using unsigned_less [of addr] by simp
  then have "unat addr div 8 * 8 < 2 ^ 64"
    using div_times_less_eq_dividend [of "unat addr" 8] by linarith
  then show ?thesis
    by (simp add: unat_word_ariths unat_div)
qed

lemma sm_byte_write:
  assumes ws: "sm_word_size m = 8" "8 dvd unat (sm_size m)"
    and b: "8 dvd unat b" and i: "i < 8"
  shows "sm_byte (sm_write_word addr data strb sz m) (b + of_nat i) =
    (if sm_wrap m b = sm_wrap m (addr div 8 * 8) \<and> lane_on addr strb sz i then byte_of i data
     else sm_byte m (b + of_nat i))"
proof -
  let ?base = "addr div 8 * 8 :: u64"
  let ?strb = "strb AND push_bit (unat (addr mod 8)) (push_bit (unat sz) 1 - 1)"
  have base: "8 dvd unat ?base"
    by (simp add: unat_align8)
  have eq: "sm_wrap m (b + of_nat i) = sm_wrap m (?base + of_nat j) \<longleftrightarrow> sm_wrap m b = sm_wrap m ?base \<and> i = j"
    if "j < 8" for j
    using wrap_aligned_eq [OF b base i that ws(2)] .
  have lane: "bit ?strb i \<longleftrightarrow> lane_on addr strb sz i"
    using i bit_beat_mask [of i "unat (addr mod 8)" "unat sz"]
    by (auto simp: lane_on_def bit_and_iff unat_mod)
  have inj: "inj_on (\<lambda>j. sm_wrap m (?base + of_nat j)) {..<8}"
    using wrap_aligned_eq [OF base base _ _ ws(2)] by (auto simp: inj_on_def)
  have "sm_bytes (sm_store_bytes ?base data ?strb 8 m) (sm_wrap m (b + of_nat i)) =
      (if sm_wrap m b = sm_wrap m ?base \<and> bit ?strb i then Some (byte_of i data)
       else sm_bytes m (sm_wrap m (b + of_nat i)))"
  proof (cases "sm_wrap m b = sm_wrap m ?base")
    case True
    then have "sm_wrap m (b + of_nat i) = sm_wrap m (?base + of_nat i)"
      using eq [OF i] by blast
    then show ?thesis
      using sm_store_bytes_hit [OF inj i order_refl, of data ?strb] True by simp
  next
    case False
    then show ?thesis
      using eq by (simp add: sm_store_bytes_miss)
  qed
  then show ?thesis
    using ws lane by (simp add: sm_byte_def sm_write_word_def Let_def sm_wrap_def [symmetric])
qed

text \<open>The new value of a double word of which the selected bytes are replaced.\<close>

definition merge_bytes :: "(nat \<Rightarrow> bool) \<Rightarrow> u64 \<Rightarrow> u64 \<Rightarrow> u64" where
  "merge_bytes on new old = join_bytes (\<lambda>i. if on i then byte_of i new else byte_of i old) 8"

section \<open>The read loop\<close>

lemma read_beats_result:
  assumes "unat len < 0xFFFFFFFF"
  shows "beat \<le> len + 1 \<Longrightarrow> read_beats data ident len beat =
    Some (map (\<lambda>i. \<lparr>rr_id = ident, rr_data = data (of_nat i), rr_last = (i = unat len)\<rparr>) [unat beat..<unat len + 1])"
proof (induction "unat (len + 1) - unat beat" arbitrary: beat)
  have l: "unat (len + 1) = unat len + 1"
    using assms by (intro unat_plus_one) simp
  {
    case 0
    then have "beat = len + 1"
      by (simp add: word_le_nat_alt word_unat_eq_iff)
    then show ?case
      using l by (subst read_beats.simps) (simp add: word_le_nat_alt)
  next
    case (Suc n)
    then have le: "beat \<le> len"
      using l by (simp add: word_le_nat_alt)
    then have s: "unat (beat + 1) = unat beat + 1"
      using assms by (intro unat_plus_one) (simp add: word_le_nat_alt)
    have "read_beats data ident len (beat + 1) =
        Some (map (\<lambda>i. \<lparr>rr_id = ident, rr_data = data (of_nat i), rr_last = (i = unat len)\<rparr>)
          [unat (beat + 1)..<unat len + 1])"
      using Suc(2) le s l by (intro Suc(1)) (simp_all add: word_le_nat_alt)
    moreover have "[unat beat..<unat len + 1] = unat beat # [unat beat + 1..<unat len + 1]"
      using le by (simp add: upt_conv_Cons word_le_nat_alt)
    ultimately show ?case
      using le s by (subst read_beats.simps) (simp add: word_unat_eq_iff)
  }
qed

lemma read_beats_endless:
  "read_beats data ident len beat = Some rs \<Longrightarrow> len \<noteq> 0xFFFFFFFF"
proof (erule read_beats.raw_induct [where P = "\<lambda>d i l b r. l \<noteq> 0xFFFFFFFF", rotated])
  fix f :: "(u32 \<Rightarrow> u64) \<Rightarrow> u32 \<Rightarrow> u32 \<Rightarrow> u32 \<Rightarrow> ReadResp list option"
    and data :: "u32 \<Rightarrow> u64" and ident len beat :: u32 and rs :: "ReadResp list"
  assume IH: "\<And>data ident len beat y. f data ident len beat = Some y \<Longrightarrow> len \<noteq> 0xFFFFFFFF"
    and step: "(if beat \<le> len
      then Option.bind (f data ident len (beat + 1))
        (\<lambda>rs. Some (\<lparr>rr_id = ident, rr_data = data beat, rr_last = (beat = len)\<rparr> # rs))
      else Some []) = Some rs"
  show "len \<noteq> 0xFFFFFFFF"
  proof (cases "beat \<le> len")
    case True
    then show ?thesis
      using step IH by (auto split: bind_splits)
  next
    case False
    have "unat beat < 2 ^ 32"
      using unsigned_less [of beat] by simp
    then show ?thesis
      using False by (auto simp: word_le_nat_alt)
  qed
qed

definition beats_of :: "(u32 \<Rightarrow> u64) \<Rightarrow> u32 \<Rightarrow> u32 \<Rightarrow> ReadResp list" where
  "beats_of data ident len =
     map (\<lambda>i. \<lparr>rr_id = ident, rr_data = data (of_nat i), rr_last = (i = unat len)\<rparr>) [0..<unat len + 1]"

lemma read_beats_from_0:
  "read_beats data ident len 0 = (if len = 0xFFFFFFFF then None else Some (beats_of data ident len))"
proof (cases "len = 0xFFFFFFFF")
  case True
  then show ?thesis
    using read_beats_endless by (cases "read_beats data ident len 0") fastforce+
next
  case False
  then have "unat len \<noteq> 0xFFFFFFFF"
    by (auto dest: unat_eq_word_of_nat)
  moreover have "unat len < 2 ^ 32"
    using unsigned_less [of len] by simp
  ultimately have "unat len < 0xFFFFFFFF"
    by simp
  then show ?thesis
    using False read_beats_result [of len 0] by (simp add: beats_of_def)
qed

section \<open>Runs\<close>

text \<open>
  A run of the memory with the traffic an observer of the ports sees since the last reset: the
  identifiers of the accepted and of the answered write bursts, the read beats the accepted
  bursts ask for, and the beats taken.
\<close>

record AxiRun =
  run_mem :: SimpleMemory
  run_writes :: "u32 list"
  run_answers :: "u32 list"
  run_asked :: "ReadResp list"
  run_taken :: "ReadResp list"

definition asked_beats :: "AxiIn \<Rightarrow> SimpleMemory \<Rightarrow> ReadResp list" where
  "asked_beats a m =
     (let ws = word_of_int (sm_word_size m); start = ax_ar_addr a div ws * ws
      in beats_of (\<lambda>beat. sm_read_word m (start + ucast beat * ws)) (ax_ar_id a) (ax_ar_len a))"

definition run_tick :: "AxiIn \<Rightarrow> AxiRun \<Rightarrow> AxiRun option" where
  "run_tick a r =
     (let m = run_mem r
      in Option.bind (sm_tick a m) (\<lambda>m'. Some
        (if ax_reset a then \<lparr>run_mem = m', run_writes = [], run_answers = [], run_asked = [], run_taken = []\<rparr>
         else \<lparr>run_mem = m',
           run_writes = run_writes r @ (if ax_aw_valid a \<and> sm_aw_ready m then [ax_aw_id a] else []),
           run_answers = run_answers r @ (if sm_b_valid m \<and> ax_b_ready a then [sm_b_id m] else []),
           run_asked = run_asked r @ (if ax_ar_valid a \<and> sm_ar_ready m then asked_beats a m else []),
           run_taken = run_taken r @ (if sm_r_valid m \<and> ax_r_ready a
             then [\<lparr>rr_id = sm_r_id m, rr_data = sm_r_data m, rr_last = sm_r_last m\<rparr>] else [])\<rparr>)))"

primrec axi_run :: "AxiIn list \<Rightarrow> AxiRun \<Rightarrow> AxiRun option" where
  "axi_run [] r = Some r"
| "axi_run (a # as) r = Option.bind (run_tick a r) (axi_run as)"

definition run_start :: "SimpleMemory \<Rightarrow> AxiRun" where
  "run_start m = \<lparr>run_mem = sm_reset m, run_writes = [], run_answers = [], run_asked = [], run_taken = []\<rparr>"

text \<open>A burst of the greatest length the 32-bit argument can hold hangs the bench.\<close>

definition hangs :: "AxiIn \<Rightarrow> bool" where
  "hangs a \<longleftrightarrow> \<not> ax_reset a \<and> ax_ar_valid a \<and> ax_ar_len a = 0xFFFFFFFF"

lemma sm_accept_read_result:
  "sm_accept_read a m =
    (if ax_ar_len a = 0xFFFFFFFF then None else Some (m\<lparr>sm_rresp := sm_rresp m @ asked_beats a m\<rparr>))"
  by (simp add: sm_accept_read_def Let_def read_beats_from_0 asked_beats_def)

lemma sm_tick_none: "sm_tick a m = None \<longleftrightarrow> hangs a"
  by (auto simp: sm_tick_def hangs_def sm_accept_read_result sm_ar_ready_def Let_def)

text \<open>The write queue and the read queue account for every burst since the reset.\<close>

definition accounted :: "AxiRun \<Rightarrow> bool" where
  "accounted r \<longleftrightarrow>
     run_writes r = run_answers r @ sm_bresp (run_mem r) @
       (if sm_store_inflight (run_mem r) then [sm_store_id (run_mem r)] else []) \<and>
     run_asked r = run_taken r @ sm_rresp (run_mem r)"

lemma sm_store_bytes_queues [simp]:
  "sm_bresp (sm_store_bytes base data strb n m) = sm_bresp m"
  "sm_rresp (sm_store_bytes base data strb n m) = sm_rresp m"
  "sm_store_id (sm_store_bytes base data strb n m) = sm_store_id m"
  "sm_store_inflight (sm_store_bytes base data strb n m) = sm_store_inflight m"
  "sm_store_size (sm_store_bytes base data strb n m) = sm_store_size m"
  "sm_store_addr (sm_store_bytes base data strb n m) = sm_store_addr m"
  "sm_store_count (sm_store_bytes base data strb n m) = sm_store_count m"
  by (induction n) (simp_all add: Let_def)

lemma sm_write_word_queues [simp]:
  "sm_bresp (sm_write_word addr data strb sz m) = sm_bresp m"
  "sm_rresp (sm_write_word addr data strb sz m) = sm_rresp m"
  "sm_store_id (sm_write_word addr data strb sz m) = sm_store_id m"
  "sm_store_inflight (sm_write_word addr data strb sz m) = sm_store_inflight m"
  "sm_store_size (sm_write_word addr data strb sz m) = sm_store_size m"
  "sm_store_addr (sm_write_word addr data strb sz m) = sm_store_addr m"
  "sm_store_count (sm_write_word addr data strb sz m) = sm_store_count m"
  by (simp_all add: sm_write_word_def sm_update_tohost_def Let_def)

definition pending_write :: "SimpleMemory \<Rightarrow> u32 list" where
  "pending_write m = (if sm_store_inflight m then [sm_store_id m] else [])"

lemma write_beat_queues:
  "sm_rresp (sm_write_beat a m) = sm_rresp m"
  "sm_store_inflight m \<Longrightarrow>
    sm_bresp (sm_write_beat a m) @ pending_write (sm_write_beat a m) = sm_bresp m @ [sm_store_id m]"
  "\<exists>y. sm_bresp (sm_write_beat a m) = sm_bresp m @ y"
  by (simp_all add: sm_write_beat_def Let_def pending_write_def)

lemma accept_write_queues:
  "sm_rresp (sm_accept_write a m) = sm_rresp m"
  "pending_write (sm_accept_write a m) = [ax_aw_id a]"
  "sm_bresp (sm_accept_write a m) = sm_bresp m"
  by (simp_all add: sm_accept_write_def pending_write_def)

lemma sm_take_queues:
  "sm_rresp (sm_take r b m) = (if r then tl (sm_rresp m) else sm_rresp m)"
  "sm_bresp (sm_take r b m) = (if b then tl (sm_bresp m) else sm_bresp m)"
  "pending_write (sm_take r b m) = pending_write m"
  by (simp_all add: sm_take_def pending_write_def Let_def)

lemma sm_tick_some:
  assumes "\<not> ax_reset a" "\<not> hangs a"
  shows "sm_tick a m = Some (sm_take (sm_r_valid m \<and> ax_r_ready a) (sm_b_valid m \<and> ax_b_ready a)
    (let m = (if ax_ar_valid a then m\<lparr>sm_rresp := sm_rresp m @ asked_beats a m\<rparr> else m)
     in if sm_store_inflight m then (if ax_w_valid a then sm_write_beat a m else m)
        else if ax_aw_valid a then sm_accept_write a m else m))"
  using assms
  by (cases "ax_ar_valid a"; cases "sm_store_inflight m"; cases "ax_w_valid a"; cases "ax_aw_valid a")
    (simp_all add: sm_tick_def hangs_def sm_accept_read_result sm_ar_ready_def sm_aw_ready_def sm_w_ready_def)

lemma sm_tick_queues:
  assumes "\<not> ax_reset a" "sm_tick a m = Some m'"
  shows "sm_rresp m' = (if sm_r_valid m \<and> ax_r_ready a then tl (sm_rresp m) else sm_rresp m) @
      (if ax_ar_valid a \<and> sm_ar_ready m then asked_beats a m else [])"
    and "sm_bresp m' @ pending_write m' =
      (if sm_b_valid m \<and> ax_b_ready a then tl (sm_bresp m) else sm_bresp m) @ pending_write m @
      (if ax_aw_valid a \<and> sm_aw_ready m then [ax_aw_id a] else [])"
proof -
  have "\<not> hangs a"
    using assms sm_tick_none [of a m] by auto
  note m' = sm_tick_some [OF assms(1) this, of m, unfolded assms(2) option.inject]
  define n where "n = (if ax_ar_valid a then m\<lparr>sm_rresp := sm_rresp m @ asked_beats a m\<rparr> else m)"
  define k where "k = (if sm_store_inflight n then (if ax_w_valid a then sm_write_beat a n else n)
     else if ax_aw_valid a then sm_accept_write a n else n)"
  have n: "sm_bresp n = sm_bresp m" "pending_write n = pending_write m" "sm_store_inflight n = sm_store_inflight m"
      "sm_store_id n = sm_store_id m"
      "sm_rresp n = sm_rresp m @ (if ax_ar_valid a then asked_beats a m else [])"
    by (simp_all add: n_def pending_write_def)
  have pending: "\<not> sm_store_inflight m \<Longrightarrow> pending_write m = []"
      "sm_store_inflight m \<Longrightarrow> pending_write m = [sm_store_id m]"
    by (simp_all add: pending_write_def)
  have k: "sm_rresp k = sm_rresp n"
      "sm_bresp k @ pending_write k = sm_bresp m @ pending_write m @
        (if ax_aw_valid a \<and> sm_aw_ready m then [ax_aw_id a] else [])"
      "\<exists>y. sm_bresp k = sm_bresp m @ y"
    using write_beat_queues [where a = a and m = n] accept_write_queues [where a = a and m = n] n pending
    by (auto simp: k_def sm_aw_ready_def)
  have m'': "m' = sm_take (sm_r_valid m \<and> ax_r_ready a) (sm_b_valid m \<and> ax_b_ready a) k"
    unfolding m' k_def n_def by (simp only: Let_def)
  show "sm_rresp m' = (if sm_r_valid m \<and> ax_r_ready a then tl (sm_rresp m) else sm_rresp m) @
      (if ax_ar_valid a \<and> sm_ar_ready m then asked_beats a m else [])"
    unfolding m'' sm_take_queues k n by (auto simp: sm_r_valid_def sm_ar_ready_def)
  show "sm_bresp m' @ pending_write m' =
      (if sm_b_valid m \<and> ax_b_ready a then tl (sm_bresp m) else sm_bresp m) @ pending_write m @
      (if ax_aw_valid a \<and> sm_aw_ready m then [ax_aw_id a] else [])"
    unfolding m'' sm_take_queues using k(2,3) by (auto simp: sm_b_valid_def)
qed

lemma accounted_tick:
  assumes "accounted r" "run_tick a r = Some r'"
  shows "accounted r'"
proof (cases "ax_reset a")
  case True
  then show ?thesis
    using assms by (auto simp: run_tick_def accounted_def sm_tick_def sm_reset_def Let_def)
next
  case False
  obtain m' where m': "sm_tick a (run_mem r) = Some m'"
    using assms(2) by (auto simp: run_tick_def Let_def bind_eq_Some_conv)
  have hd_b: "sm_b_valid (run_mem r) \<Longrightarrow> sm_b_id (run_mem r) # tl (sm_bresp (run_mem r)) = sm_bresp (run_mem r)"
    by (cases "sm_bresp (run_mem r)") (auto simp: sm_b_valid_def sm_b_id_def)
  have hd_r: "sm_r_valid (run_mem r) \<Longrightarrow>
      \<lparr>rr_id = sm_r_id (run_mem r), rr_data = sm_r_data (run_mem r), rr_last = sm_r_last (run_mem r)\<rparr>
        # tl (sm_rresp (run_mem r)) = sm_rresp (run_mem r)"
    by (cases "sm_rresp (run_mem r)") (auto simp: sm_r_valid_def sm_r_id_def sm_r_data_def sm_r_last_def)
  show ?thesis
    using assms m' False sm_tick_queues [OF False m'] hd_b hd_r
    by (auto simp: run_tick_def accounted_def pending_write_def Let_def)
qed

lemma accounted_run: "accounted r \<Longrightarrow> axi_run as r = Some r' \<Longrightarrow> accounted r'"
  by (induction as arbitrary: r) (auto simp: bind_eq_Some_conv intro: accounted_tick)

lemma axi_run_none: "axi_run as r = None \<longleftrightarrow> list_ex hangs as"
proof (induction as arbitrary: r)
  case (Cons a as)
  then show ?case
    by (auto simp: run_tick_def Let_def bind_eq_None_conv sm_tick_none)
qed simp

section \<open>Write bursts\<close>

primrec sm_ticks :: "AxiIn list \<Rightarrow> SimpleMemory \<Rightarrow> SimpleMemory option" where
  "sm_ticks [] m = Some m"
| "sm_ticks (a # as) m = Option.bind (sm_tick a m) (sm_ticks as)"

definition idle_input :: AxiIn where
  "idle_input = \<lparr>ax_reset = False, ax_ar_valid = False, ax_ar_addr = 0, ax_ar_id = 0, ax_ar_size = 0,
     ax_ar_len = 0, ax_aw_valid = False, ax_aw_addr = 0, ax_aw_id = 0, ax_aw_size = 0, ax_aw_len = 0,
     ax_w_valid = False, ax_w_strb = 0, ax_w_data = 0, ax_w_last = False, ax_r_ready = False,
     ax_b_ready = False\<rparr>"

definition write_request :: "u64 \<Rightarrow> u32 \<Rightarrow> u32 \<Rightarrow> u32 \<Rightarrow> AxiIn" where
  "write_request addr ident sz len = idle_input
     \<lparr>ax_aw_valid := True, ax_aw_addr := addr, ax_aw_id := ident, ax_aw_size := sz, ax_aw_len := len\<rparr>"

text \<open>A data beat: the data with its strobe.\<close>

definition write_data :: "u64 \<times> u64 \<Rightarrow> AxiIn" where
  "write_data d = idle_input\<lparr>ax_w_valid := True, ax_w_data := fst d, ax_w_strb := snd d\<rparr>"

primrec write_words :: "u64 \<Rightarrow> u64 \<Rightarrow> (u64 \<times> u64) list \<Rightarrow> SimpleMemory \<Rightarrow> SimpleMemory" where
  "write_words addr sz [] m = m"
| "write_words addr sz (d # ds) m = write_words (addr + sz) sz ds (sm_write_word addr (fst d) (snd d) sz m)"

lemma tick_write_data:
  "sm_store_inflight m \<Longrightarrow> sm_tick (write_data d) m = Some (sm_write_beat (write_data d) m)"
  by (simp add: sm_tick_some hangs_def write_data_def idle_input_def sm_take_def)

lemma tick_write_request:
  "\<not> sm_store_inflight m \<Longrightarrow>
    sm_tick (write_request addr ident sz len) m = Some (sm_accept_write (write_request addr ident sz len) m)"
  by (simp add: sm_tick_some hangs_def write_request_def idle_input_def sm_take_def)

text \<open>The AXI bookkeeping of a burst does not reach the memory contents.\<close>

definition with_burst :: "SimpleMemory \<Rightarrow> u64 \<Rightarrow> u32 \<Rightarrow> u64 \<Rightarrow> u64 \<Rightarrow> bool \<Rightarrow> u32 list \<Rightarrow> SimpleMemory" where
  "with_burst m addr ident sz cnt busy answers = m
     \<lparr>sm_store_addr := addr, sm_store_id := ident, sm_store_size := sz, sm_store_count := cnt,
      sm_store_inflight := busy, sm_bresp := answers\<rparr>"

lemma with_burst_wrap [simp]: "sm_wrap (with_burst m x i sz c b q) a = sm_wrap m a"
  by (simp add: sm_wrap_def with_burst_def)

lemma with_burst_fields [simp]:
  "sm_store_addr (with_burst m x i sz c b q) = x" "sm_store_id (with_burst m x i sz c b q) = i"
  "sm_store_size (with_burst m x i sz c b q) = sz" "sm_store_count (with_burst m x i sz c b q) = c"
  "sm_store_inflight (with_burst m x i sz c b q) = b" "sm_bresp (with_burst m x i sz c b q) = q"
  "sm_bytes (with_burst m x i sz c b q) = sm_bytes m"
  "sm_word_size (with_burst m x i sz c b q) = sm_word_size m"
  "sm_tohost_enabled (with_burst m x i sz c b q) = sm_tohost_enabled m"
  "sm_tohost_addr (with_burst m x i sz c b q) = sm_tohost_addr m"
  by (simp_all add: with_burst_def)

lemma with_burst_store:
  "sm_store_bytes base data strb n (with_burst m x i sz c b q) =
    with_burst (sm_store_bytes base data strb n m) x i sz c b q"
  by (induction n) (simp_all add: Let_def, simp add: with_burst_def)

lemma with_burst_double: "sm_read_double (with_burst m x i sz c b q) a = sm_read_double m a"
  by (simp add: sm_read_double_def sm_byte_def)

lemma with_burst_seen:
  "(with_burst m x i sz c b q)\<lparr>sm_tohost_seen := s, sm_tohost_value := v\<rparr> =
    with_burst (m\<lparr>sm_tohost_seen := s, sm_tohost_value := v\<rparr>) x i sz c b q"
  by (simp add: with_burst_def)

lemma with_burst_update:
  "sm_update_tohost base (with_burst m x i sz c b q) = with_burst (sm_update_tohost base m) x i sz c b q"
  unfolding sm_update_tohost_def Let_def with_burst_fields with_burst_double with_burst_seen
  by (simp only: if_distrib [of "\<lambda>m. with_burst m x i sz c b q"])

lemma with_burst_write:
  "sm_write_word addr data strb s (with_burst m x i sz c b q) =
    with_burst (sm_write_word addr data strb s m) x i sz c b q"
  by (simp add: sm_write_word_def Let_def with_burst_store with_burst_update)

lemma with_burst_again:
  "(with_burst m x i sz c b q)\<lparr>sm_store_addr := x'\<rparr> = with_burst m x' i sz c b q"
  "(with_burst m x i sz c b q)\<lparr>sm_store_count := c'\<rparr> = with_burst m x i sz c' b q"
  "(with_burst m x i sz c b q)\<lparr>sm_store_inflight := b', sm_bresp := q'\<rparr> = with_burst m x i sz c b' q'"
  by (simp_all add: with_burst_def)

lemma write_beat_burst:
  "sm_write_beat (write_data d) (with_burst m addr ident sz c True q) =
    (if c \<le> 1 then with_burst (sm_write_word addr (fst d) (snd d) sz m) (addr + sz) ident sz 0 False (q @ [ident])
     else with_burst (sm_write_word addr (fst d) (snd d) sz m) (addr + sz) ident sz (c - 1) True q)"
proof -
  have "c \<le> 1 \<longleftrightarrow> c = 0 \<or> c = 1"
    by (simp add: word_le_nat_alt word_unat_eq_iff) linarith
  then show ?thesis
    by (auto simp: sm_write_beat_def Let_def with_burst_write with_burst_again write_data_def word_neq_0_conv)
qed

lemma burst_ticks:
  assumes "length ds = unat c" "ds \<noteq> []"
  shows "sm_ticks (map write_data ds) (with_burst m addr ident sz c True q) =
    Some (with_burst (write_words addr sz ds m) (addr + of_nat (length ds) * sz) ident sz 0 False (q @ [ident]))"
  using assms
proof (induction ds arbitrary: m addr c)
  case (Cons d ds)
  show ?case
  proof (cases ds)
    case Nil
    then have "unat c = 1"
      using Cons.prems(1) by simp
    then have "c \<le> 1"
      by (simp add: word_le_nat_alt)
    then show ?thesis
      using Nil by (simp add: tick_write_data write_beat_burst)
  next
    case (Cons e es)
    then have c: "unat c > 1"
      using Cons.prems(1) by simp
    then have "\<not> c \<le> 1" "unat (c - 1) = length ds"
      using Cons.prems(1) by (simp_all add: word_le_nat_alt unat_minus_one_pos)
    then show ?thesis
      using Cons.IH [of "c - 1"] Cons
      by (simp add: tick_write_data write_beat_burst algebra_simps)
  qed
qed simp

section \<open>Loading an image\<close>

primrec le_bytes :: "nat \<Rightarrow> nat \<Rightarrow> u8 list" where
  "le_bytes 0 v = []"
| "le_bytes (Suc n) v = of_nat (v mod 256) # le_bytes n (v div 256)"

primrec put_bytes :: "u64 \<Rightarrow> u8 list \<Rightarrow> SimpleMemory \<Rightarrow> SimpleMemory" where
  "put_bytes a [] m = m"
| "put_bytes a (b # bs) m = put_bytes (a + 1) bs (m\<lparr>sm_bytes := (sm_bytes m)(sm_wrap m a \<mapsto> b)\<rparr>)"

lemma length_le_bytes [simp]: "length (le_bytes n v) = n"
  by (induction n arbitrary: v) simp_all

lemma put_bytes_append:
  "put_bytes a (xs @ ys) m = put_bytes (a + of_nat (length xs)) ys (put_bytes a xs m)"
  by (induction xs arbitrary: a m) (simp_all add: algebra_simps)

lemma hex_nibble_digit [simp]: "d < 16 \<Longrightarrow> hex_nibble (hex_digit d) = int d"
  by (simp add: hex_nibble_def hex_digit_def Let_def take_bit_nat_eq_self)

lemma hex_fixed_chars: "c \<in> set (hex_fixed n v) \<Longrightarrow> \<exists>d < 16. c = hex_digit d"
proof (induction n arbitrary: v)
  case (Suc n)
  then show ?case
    by (cases "c = hex_digit (v mod 16)") (auto intro: exI [of _ "v mod 16"])
qed simp

lemma hex_digit_not_blank: "d < 16 \<Longrightarrow> \<not> is_space (hex_digit d) \<and> hex_digit d \<noteq> CHR ''#''"
  using less_16_cases [of d] by (auto simp: hex_digit_def is_space_def char_of_def bit_Suc_0_iff)

lemma trim_id: "\<forall>c \<in> set s. \<not> is_space c \<Longrightarrow> trim s = s"
proof -
  assume s: "\<forall>c \<in> set s. \<not> is_space c"
  have id: "dropWhile is_space t = t" if "\<forall>c \<in> set t. \<not> is_space c" for t
    using that by (cases t) simp_all
  show ?thesis
    using s id [of s] id [of "rev s"] by (simp add: trim_def)
qed

lemma trim_hex [simp]: "trim (hex_fixed n v) = hex_fixed n v"
  using hex_fixed_chars hex_digit_not_blank by (intro trim_id) blast

lemma no_comment_hex [simp]: "CHR ''#'' \<notin> set (hex_fixed n v)"
  using hex_fixed_chars hex_digit_not_blank by metis

lemma load_pairs_hex:
  "load_pairs (rev (hex_fixed (2 * n) v)) addr m = Some (put_bytes addr (le_bytes n v) m)"
proof (induction n arbitrary: v addr m)
  case (Suc n)
  have "word_of_int (16 * int (v div 16 mod 16) + int (v mod 16)) = (of_nat (v mod 256) :: u8)"
  proof -
    have "v mod 256 = 16 * (v div 16 mod 16) + v mod 16"
      using mod_mult2_eq [of v 16 16] by simp
    then show ?thesis
      by simp
  qed
  moreover have "v div 16 div 16 = v div 256"
    by (simp add: div_mult2_eq [symmetric])
  ultimately show ?case
    using Suc by (simp add: Let_def)
qed simp

lemma load_lines_hex:
  "0 < n \<Longrightarrow> load_lines (map (hex_fixed (2 * n)) vs) addr m =
    Inr (put_bytes addr (concat (map (le_bytes n) vs)) m)"
proof (induction vs arbitrary: addr m)
  case (Cons v vs)
  have "hex_fixed (2 * n) v \<noteq> []"
    using Cons.prems length_hex_fixed [of "2 * n" v] by (metis length_0_conv mult_is_0 not_gr_zero numeral_neq_zero)
  then show ?case
    using Cons by (simp add: load_pairs_hex put_bytes_append)
qed simp

text \<open>Addresses of an image that fits in the memory.\<close>

definition image_fits :: "SimpleMemory \<Rightarrow> u64 \<Rightarrow> nat \<Rightarrow> bool" where
  "image_fits m start n \<longleftrightarrow> unat start + n \<le> (if sm_size m = 0 then 2 ^ 64 else unat (sm_size m))"

lemma image_address:
  assumes "image_fits m start n" "i < n"
  shows "unat (sm_wrap m (start + of_nat i)) = unat start + i"
proof -
  have "unat (sm_size m) < 2 ^ 64"
    using unsigned_less [of "sm_size m"] by simp
  then have lt: "unat start + i < 2 ^ 64" "sm_size m \<noteq> 0 \<Longrightarrow> unat start + i < unat (sm_size m)"
    using assms by (auto simp: image_fits_def split: if_splits)
  then have "unat (of_nat i :: u64) = i"
    by (simp add: unat_of_nat take_bit_nat_eq_self)
  then have "unat (start + of_nat i) = unat start + i"
    using lt(1) by (simp add: unat_word_ariths)
  then show ?thesis
    using lt(2) by (auto simp: sm_wrap_def unat_mod)
qed

lemma put_bytes_size [simp]: "sm_size (put_bytes a bs m) = sm_size m"
  by (induction bs arbitrary: a m) simp_all

lemma put_bytes_wrap [simp]: "sm_wrap (put_bytes a bs m) x = sm_wrap m x"
  by (simp add: sm_wrap_def)

lemma put_bytes_hit:
  "image_fits m a (length bs) \<Longrightarrow> i < length bs \<Longrightarrow>
    sm_bytes (put_bytes a bs m) (sm_wrap m (a + of_nat i)) = Some (bs ! i)"
proof (induction bs rule: rev_induct)
  case (snoc b bs)
  show ?case
  proof (cases "i = length bs")
    case True
    then show ?thesis
      by (simp add: put_bytes_append)
  next
    case False
    then have i: "i < length bs"
      using snoc.prems by simp
    have "sm_wrap m (a + of_nat i) \<noteq> sm_wrap m (a + of_nat (length bs))"
      using image_address [OF snoc.prems(1), of i] image_address [OF snoc.prems(1), of "length bs"] i by auto
    moreover have "image_fits m a (length bs)"
      using snoc.prems(1) by (auto simp: image_fits_def split: if_splits)
    ultimately show ?thesis
      using snoc.IH i by (simp add: put_bytes_append nth_append)
  qed
qed simp

lemma nth_concat_blocks:
  "(\<And>x. x \<in> set xs \<Longrightarrow> length (f x) = n) \<Longrightarrow> j < n \<Longrightarrow> i < length xs \<Longrightarrow>
    concat (map f xs) ! (n * i + j) = f (xs ! i) ! j"
proof (induction xs arbitrary: i)
  case (Cons x xs)
  then show ?case
    by (cases i) (auto simp: nth_append algebra_simps)
qed simp

lemma nth_le_bytes: "j < n \<Longrightarrow> le_bytes n v ! j = of_nat (v div 256 ^ j mod 256)"
proof (induction n arbitrary: v j)
  case (Suc n)
  then show ?case
    by (cases j) (simp_all add: div_mult2_eq)
qed simp

lemma nth_le_bytes_word: "j < 8 \<Longrightarrow> le_bytes 8 (unat v) ! j = byte_of j (v :: u64)"
proof -
  assume "j < 8"
  have "unat v div 256 ^ j = unat (drop_bit (8 * j) v)"
    unfolding unat_drop_bit_eq by (simp add: drop_bit_eq_div power_mult)
  then have "unat v div 256 ^ j mod 256 = unat (byte_of j v)"
    by (simp add: byte_of_def unsigned_ucast_eq take_bit_eq_mod)
  then show ?thesis
    using \<open>j < 8\<close> by (simp add: nth_le_bytes)
qed

text \<open>The image of a list of double words, one per line, is read back word by word.\<close>

lemma read_after_load:
  assumes "image_fits m start (8 * length vs)" "i < length vs"
  shows "sm_read_double (put_bytes start (concat (map (\<lambda>v. le_bytes 8 (unat v)) vs)) m)
      (start + of_nat (8 * i)) = vs ! i"
proof -
  let ?bs = "concat (map (\<lambda>v. le_bytes 8 (unat v)) vs)"
  have len: "length ?bs = 8 * length vs"
    by (induction vs) simp_all
  have "sm_byte (put_bytes start ?bs m) (start + of_nat (8 * i) + of_nat j) = byte_of j (vs ! i)" if "j < 8" for j
  proof -
    have k: "8 * i + j < length ?bs"
      using assms(2) that len by linarith
    have "?bs ! (8 * i + j) = le_bytes 8 (unat (vs ! i)) ! j"
      using that assms(2) by (intro nth_concat_blocks) simp_all
    moreover have "start + of_nat (8 * i) + of_nat j = start + of_nat (8 * i + j)"
      by simp
    ultimately show ?thesis
      using put_bytes_hit [OF assms(1) [folded len] k] that
      by (simp only: sm_byte_def put_bytes_wrap option.case nth_le_bytes_word)
  qed
  then have "sm_read_double (put_bytes start ?bs m) (start + of_nat (8 * i)) = join_bytes (\<lambda>j. byte_of j (vs ! i)) 8"
    unfolding sm_read_double_def by (intro join_bytes_cong) blast
  then show ?thesis
    by simp
qed

section \<open>Properties\<close>

text \<open>
  C29: the read loop of a burst returns exactly when the burst length is not the greatest
  32-bit value: the counter is compared with \<open>beat <= ar_len\<close> and wraps. When it returns, it
  has queued one response per beat, \<open>ar_len\<close> + 1 of them, at ascending addresses, with the
  last flag on the last one only; and a tick fails to return only in that case.
\<close>
theorem read_burst_terminates:
  "read_beats data ident len 0 = (if len = 0xFFFFFFFF then None
     else Some (map (\<lambda>i. \<lparr>rr_id = ident, rr_data = data (of_nat i), rr_last = (i = unat len)\<rparr>) [0..<unat len + 1])) \<and>
   (sm_tick a m = None \<longleftrightarrow> \<not> ax_reset a \<and> ax_ar_valid a \<and> ax_ar_len a = 0xFFFFFFFF)"
  by (simp only: read_beats_from_0 beats_of_def sm_tick_none hangs_def simp_thms if_True)

text \<open>
  C27: in every run of the memory after a reset, whatever the harness drives on the five
  channels, the write bursts are answered in the order they were accepted, each once: the
  identifiers accepted are those answered, then those queued, then the burst in flight; and
  the beats taken from the read channel are those the accepted bursts ask for, in order. A run
  does not end only when some tick hangs in the read loop.
\<close>
theorem bursts_answered_in_order:
  "case axi_run inputs (run_start m) of
     None \<Rightarrow> list_ex (\<lambda>a. \<not> ax_reset a \<and> ax_ar_valid a \<and> ax_ar_len a = 0xFFFFFFFF) inputs
   | Some r \<Rightarrow>
       run_writes r = run_answers r @ sm_bresp (run_mem r) @
         (if sm_store_inflight (run_mem r) then [sm_store_id (run_mem r)] else []) \<and>
       run_asked r = run_taken r @ sm_rresp (run_mem r)"
proof -
  have "accounted (run_start m)"
    by (simp add: accounted_def run_start_def sm_reset_def)
  moreover have "hangs = (\<lambda>a. \<not> ax_reset a \<and> ax_ar_valid a \<and> ax_ar_len a = 0xFFFFFFFF)"
    by (simp add: fun_eq_iff hangs_def)
  ultimately show ?thesis
    using axi_run_none [of inputs "run_start m"] accounted_run [of "run_start m" inputs]
    by (auto simp: accounted_def split: option.splits)
qed

text \<open>
  C28: a write burst completes: from a memory with no burst in flight, the request for
  \<open>len\<close> + 1 beats followed by that many data beats leaves the memory ready for the next burst,
  with one more response carrying the burst's identifier, and with the contents (and the
  tohost watch) of the beats written one by one at ascending addresses.
\<close>
theorem write_burst_completes:
  assumes "\<not> sm_store_inflight m" "length ds = unat len + 1"
  shows "\<exists>m'. sm_ticks (write_request addr ident sz len # map write_data ds) m = Some m' \<and>
    sm_aw_ready m' \<and> sm_bresp m' = sm_bresp m @ [ident] \<and>
    sm_bytes m' = sm_bytes (write_words addr (push_bit (unat (min sz 3)) 1) ds m) \<and>
    sm_tohost_seen m' = sm_tohost_seen (write_words addr (push_bit (unat (min sz 3)) 1) ds m) \<and>
    sm_tohost_value m' = sm_tohost_value (write_words addr (push_bit (unat (min sz 3)) 1) ds m)"
proof -
  let ?z = "push_bit (unat (min sz 3)) 1 :: u64"
  have "unat (ucast len + 1 :: u64) = unat len + 1"
  proof -
    have "unat len < 2 ^ 32"
      using unsigned_less [of len] by simp
    then show ?thesis
      by (subst unat_plus_one) (simp_all add: unsigned_ucast_eq take_bit_nat_eq_self)
  qed
  then have "length ds = unat (ucast len + 1 :: u64)" "ds \<noteq> []"
    using assms(2) by auto
  moreover have "sm_accept_write (write_request addr ident sz len) m =
      with_burst m addr ident ?z (ucast len + 1) True (sm_bresp m)"
    by (simp add: sm_accept_write_def write_request_def with_burst_def)
  ultimately have "sm_ticks (write_request addr ident sz len # map write_data ds) m =
      Some (with_burst (write_words addr ?z ds m) (addr + of_nat (length ds) * ?z) ident ?z 0 False (sm_bresp m @ [ident]))"
    using tick_write_request [OF assms(1), of addr ident sz len] burst_ticks
    by (simp only: sm_ticks.simps bind.simps)
  then show ?thesis
    by (simp add: sm_aw_ready_def) (simp add: with_burst_def)
qed

definition demo_memory :: SimpleMemory where
  "demo_memory = \<lparr>sm_size = 0, sm_word_size = 8, sm_line_size = 64,
     sm_store_inflight = False, sm_store_addr = 0, sm_store_id = 0, sm_store_size = 0,
     sm_store_count = 0, sm_rresp = [], sm_bresp = [], sm_bytes = (\<lambda>a. None),
     sm_tohost_enabled = False, sm_tohost_seen = False, sm_tohost_addr = 0, sm_tohost_value = 0\<rparr>"

lemma write_burst_completes_witness:
  "\<exists>m'. sm_ticks (write_request 0x80000000 5 3 1 # map write_data [(1, 0xFF), (2, 0xFF)]) demo_memory = Some m' \<and>
    sm_aw_ready m' \<and> sm_bresp m' = [5]"
  using write_burst_completes [where m = demo_memory and ds = "[(1, 0xFF), (2, 0xFF)]" and len = 1
    and addr = "0x80000000" and ident = 5 and sz = 3]
  by (auto simp: demo_memory_def)

text \<open>
  C30: reading back what was written, in a memory of double words: a write changes the
  double word that contains its address in the bytes that its strobe selects inside the beat,
  and no other double word.
\<close>
theorem memory_read_after_write:
  assumes "sm_word_size m = 8" "8 dvd unat (sm_size m)" "8 dvd unat b"
  shows "sm_read_word (sm_write_word addr data strb sz m) b =
    (if sm_wrap m b = sm_wrap m (addr div 8 * 8)
     then merge_bytes (\<lambda>i. bit strb i \<and> unat addr mod 8 \<le> i \<and> i < unat addr mod 8 + unat sz) data (sm_read_word m b)
     else sm_read_word m b)"
proof -
  have old: "byte_of i (join_bytes (\<lambda>i. sm_byte m (b + of_nat i)) 8) = sm_byte m (b + of_nat i)" if "i < 8" for i
    using that by (rule byte_of_join)
  have new: "sm_byte (sm_write_word addr data strb sz m) (b + of_nat i) =
      (if sm_wrap m b = sm_wrap m (addr div 8 * 8) \<and>
          (bit strb i \<and> unat addr mod 8 \<le> i \<and> i < unat addr mod 8 + unat sz)
       then byte_of i data else sm_byte m (b + of_nat i))" if "i < 8" for i
    using sm_byte_write [OF assms that] by (simp only: lane_on_def)
  show ?thesis
    using assms(1) by (auto simp: sm_read_word_def merge_bytes_def old new intro!: join_bytes_cong)
qed

lemma memory_read_after_write_witness:
  "sm_read_word (sm_write_word 0x80000004 0x1122334455667788 0xFF 4 demo_memory) 0x80000000 = 0x1122334400000000 \<and>
   sm_read_word (sm_write_word 0x80000004 0x1122334455667788 0xFF 4 demo_memory) 0x80000008 = 0"
proof -
  have r: "sm_word_size demo_memory = 8" "sm_size demo_memory = 0" "sm_read_word demo_memory a = 0" for a
    by (simp_all add: demo_memory_def sm_read_word_def sm_byte_def eval_nat_numeral)
  show ?thesis
    using memory_read_after_write [where m = demo_memory and b = "0x80000000" and addr = "0x80000004"
        and data = "0x1122334455667788" and strb = "0xFF" and sz = 4]
      memory_read_after_write [where m = demo_memory and b = "0x80000008" and addr = "0x80000004"
        and data = "0x1122334455667788" and strb = "0xFF" and sz = 4]
    by (simp add: r sm_wrap_def merge_bytes_def byte_of_def join_bytes_8)
qed

text \<open>
  Loading an image of double words, one per line in hexadecimal, into a memory it fits
  in succeeds, and each double word is read back at its address.
\<close>
lemma image_round_trip:
  assumes "image_fits m start (8 * length vs)" "i < length vs"
  shows "\<exists>m'. sm_load_hex start (map (\<lambda>v. hex_fixed 16 (unat v)) vs) m = Inr m' \<and>
    sm_read_double m' (start + of_nat (8 * i)) = vs ! i"
  using load_lines_hex [of 8 "map unat vs" start m] read_after_load [OF assms]
  by (simp add: sm_load_hex_def comp_def)

lemma image_round_trip_witness:
  "\<exists>m'. sm_load_hex 0x80000000 [''0062b02300000297'', ''0000006f00000013''] demo_memory = Inr m' \<and>
    sm_read_double m' 0x80000008 = 0x0000006f00000013"
proof -
  have lines: "map (\<lambda>v. hex_fixed 16 (unat v)) [0x0062b02300000297, 0x0000006f00000013 :: u64] =
      [''0062b02300000297'', ''0000006f00000013'']"
  proof -
    have "unat (0x0062b02300000297 :: u64) = 0x0062b02300000297" "unat (0x0000006f00000013 :: u64) = 0x0000006f00000013"
      by simp_all
    then show ?thesis
      unfolding list.map by (simp only:) (simp add: hex_fixed_numeral hex_digit_def char_of_def bit_Suc_0_iff)
  qed
  have "\<exists>m'. sm_load_hex 0x80000000 (map (\<lambda>v. hex_fixed 16 (unat v))
        [0x0062b02300000297, 0x0000006f00000013 :: u64]) demo_memory = Inr m' \<and>
      sm_read_double m' (0x80000000 + of_nat (8 * 1)) = [0x0062b02300000297, 0x0000006f00000013] ! 1"
    by (rule image_round_trip) (simp_all add: image_fits_def demo_memory_def)
  then show ?thesis
    unfolding lines by simp
qed

end
