(* ===== verification/HlsTrace.thy ===== *)
theory HlsTrace
  imports HlsTb RefMemoryLaws
begin

text \<open>
  What the traces of the two benches hold: the commit lines read back by the comparator are
  the commits of the core, the lines are numbered, the records of the two benches for one
  instruction compare equal exactly when they should, and both benches load the same image.
\<close>

section \<open>Reading the commit lines back\<close>

lemma plain_atoms [simp]:
  "atom_content (dec_word w) = dec_string (unat w)" "atom_content (json_bool b) = bool_text b"
  by (simp_all add: dec_word_def json_bool_def)

lemma plain_hex [simp]: "plain (hex_u64 v)" "plain (hex_u32 w)" "plain (hex_byte b)"
  by (simp_all add: hex_u64_def hex_u32_def hex_byte_def plain_Cons)

lemma dec_string_chars [simp]:
  "quote \<notin> set (dec_string n)" "CHR '','' \<notin> set (dec_string n)" "CHR ''}'' \<notin> set (dec_string n)"
  using plain_dec_string [of n] by (blast dest: plainD)+

lemma plain_no_quote: "plain s \<Longrightarrow> quote \<notin> set s"
  by (rule plainD)

lemma hex_text_inj [simp]:
  "hex_u64 v = hex_u64 v' \<longleftrightarrow> v = v'" "hex_u32 w = hex_u32 w' \<longleftrightarrow> w = w'"
  by (simp_all add: hex_u64_def hex_u32_def hex_fixed_unat_inj)

lemma hex_not_null [simp]: "hex_u64 v \<noteq> ''null''" "hex_u32 w \<noteq> ''null''" "hex_u64 v \<noteq> []" "hex_u32 w \<noteq> []"
  by (simp_all add: hex_u64_def hex_u32_def)

lemma mnemonic_no_quote [simp]: "quote \<notin> set (mnemonic i)"
  by (simp add: mnemonic_def Let_def)

definition run_ok :: "HlsRun \<Rightarrow> bool" where
  "run_ok r \<longleftrightarrow> quote \<notin> set (hr_source r) \<and> quote \<notin> set (ps_name (hr_program r))"

text \<open>A line as both benches write it: the cycle first, the sequence number last.\<close>

definition trace_line :: "u64 \<Rightarrow> json_fields \<Rightarrow> u64 \<Rightarrow> string" where
  "trace_line cycle fs seq = json_object ((''cycle'', dec_word cycle) # fs @ [(''trace_sequence_id'', dec_word seq)])"

definition hls_commit_event :: "CommitEntry \<Rightarrow> Event" where
  "hls_commit_event ce = \<lparr>ev_type = ''commit'', ev_pc = hex_u64 (ce_pc ce), ev_instruction = hex_u32 (ce_inst ce),
     ev_rd_valid = bool_text (ce_rd_valid ce),
     ev_rd = (if ce_rd_valid ce then dec_string (unat (ce_rd ce)) else ''null''),
     ev_rd_value = (if ce_rd_valid ce then hex_u64 (ce_rd_value ce) else ''null''),
     ev_exception = bool_text (ce_exception ce),
     ev_exception_cause = (if ce_exception ce then ''0'' else ''null''),
     ev_taken = [], ev_branch_mispredict = ''null'', ev_normalized_cycle = []\<rparr>"

lemma hls_commit_fields_ok:
  "run_ok r \<Longrightarrow> fields_ok ((''cycle'', dec_word c) # hls_commit_fields r ce @ [(''trace_sequence_id'', dec_word q)])"
  by (simp add: fields_ok_def hls_commit_fields_def hls_origin_def print_rd_def hls_memory_fields_def run_ok_def plain_no_quote)

lemma parse_hls_commit:
  assumes "run_ok r"
  shows "parse_event (trace_line c (hls_commit_fields r ce) q) = hls_commit_event ce"
  unfolding parse_event_def trace_line_def
  using hls_commit_fields_ok [OF assms, of c ce q]
  by (simp add: json_value_object plain_Cons del: json_object.simps)
    (simp add: field_value_def hls_commit_event_def hls_commit_fields_def hls_origin_def print_rd_def hls_memory_fields_def)

definition rtl_commit_event :: "SimpleMemory option \<Rightarrow> RtlSignals \<Rightarrow> Event" where
  "rtl_commit_event mem s = \<lparr>ev_type = ''commit'', ev_pc = hex_u64 (commit_pc s),
     ev_instruction = (if snd (commit_inst mem s) then hex_u32 (fst (commit_inst mem s)) else ''null''),
     ev_rd_valid = bool_text (com_ldst_val s),
     ev_rd = (if com_ldst_val s then dec_string (unat (com_ldst s)) else ''null''),
     ev_rd_value = (if rd_value_valid s then hex_u64 (commit_rd_value s) else ''null''),
     ev_exception = bool_text (com_xcpt s), ev_exception_cause = ''null'',
     ev_taken = [], ev_branch_mispredict = [], ev_normalized_cycle = []\<rparr>"

lemma rtl_commit_fields_ok:
  "fields_ok ((''cycle'', dec_word c) # rtl_commit_fields mem s @ [(''trace_sequence_id'', dec_word q)])"
  by (simp add: fields_ok_def rtl_commit_fields_def json_hex_or_null_def split_beta plain_no_quote plain_Cons)

lemma ucast_back: "ucast (ucast (w :: u32) :: u64) = w"
  by (rule bit_word_eqI) (auto simp: bit_simps)

lemma parse_rtl_commit: "parse_event (trace_line c (rtl_commit_fields mem s) q) = rtl_commit_event mem s"
  unfolding parse_event_def trace_line_def
  using rtl_commit_fields_ok [of c mem s q]
  by (simp add: json_value_object plain_Cons del: json_object.simps)
    (simp add: field_value_def rtl_commit_event_def rtl_commit_fields_def json_hex_or_null_def split_beta ucast_back)

lemma commit_events_bar_free: "bar_free (hls_commit_event ce)" "bar_free (rtl_commit_event mem s)"
  by (simp_all add: bar_free_def hls_commit_event_def rtl_commit_event_def plainD)

section \<open>Sequence numbers\<close>

text \<open>Lines whose sequence numbers count from 0 up to the next one.\<close>

definition numbered :: "string list \<Rightarrow> u64 \<Rightarrow> bool" where
  "numbered lines q \<longleftrightarrow> q = of_nat (length lines) \<and>
     (\<forall>i < length lines. json_value (lines ! i) ''trace_sequence_id'' = dec_string (unat (of_nat i :: u64)))"

definition no_sequence :: "json_fields \<Rightarrow> bool" where
  "no_sequence fs \<longleftrightarrow> fields_ok fs \<and> ''trace_sequence_id'' \<notin> fst ` set fs"

lemma line_sequence:
  assumes "no_sequence fs"
  shows "json_value (trace_line c fs q) ''trace_sequence_id'' = dec_string (unat q)"
proof -
  have "map_of fs ''trace_sequence_id'' = None"
    using assms by (simp add: no_sequence_def map_of_eq_None_iff)
  moreover have "fields_ok ((''cycle'', dec_word c) # fs @ [(''trace_sequence_id'', dec_word q)])"
    using assms by (simp add: no_sequence_def fields_ok_def)
  ultimately show ?thesis
    unfolding trace_line_def
    by (simp add: json_value_object plain_Cons field_value_def map_add_def del: json_object.simps)
qed

lemma numbered_line:
  "numbered lines q \<Longrightarrow> no_sequence fs \<Longrightarrow> numbered (lines @ [trace_line c fs q]) (q + 1)"
  by (auto simp: numbered_def line_sequence nth_append less_Suc_eq)

definition hls_numbered :: "HlsState \<Rightarrow> bool" where
  "hls_numbered h \<longleftrightarrow> numbered (hs_lines h) (hs_seq h)"

lemma hls_numbered_emit: "hls_numbered h \<Longrightarrow> no_sequence fs \<Longrightarrow> hls_numbered (hls_emit c fs h)"
  using numbered_line by (simp add: hls_numbered_def hls_emit_def trace_line_def)

lemma hls_numbered_fields [simp]:
  "hls_numbered (h\<lparr>hs_pipe := p\<rparr>) = hls_numbered h" "hls_numbered (h\<lparr>hs_core := s\<rparr>) = hls_numbered h"
  "hls_numbered (h\<lparr>hs_mem := m\<rparr>) = hls_numbered h" "hls_numbered (h\<lparr>hs_saw_tohost := b\<rparr>) = hls_numbered h"
  "hls_numbered (h\<lparr>hs_prefix_commits := n\<rparr>) = hls_numbered h"
  by (simp_all add: hls_numbered_def)

lemma hls_field_sets:
  assumes "run_ok r"
  shows "no_sequence (hls_commit_fields r ce)" "no_sequence (hls_branch_fields r lane a)"
    "no_sequence (hls_tohost_fields r req d b)" "no_sequence (hls_boundary_fields r)"
  using assms
  by (simp_all add: no_sequence_def fields_ok_def hls_commit_fields_def hls_branch_fields_def hls_tohost_fields_def
      hls_boundary_fields_def hls_origin_def print_rd_def hls_memory_fields_def run_ok_def plain_no_quote Let_def)

lemma hls_metadata_set:
  "run_ok r \<Longrightarrow> quote \<notin> set phase \<Longrightarrow> quote \<notin> set status \<Longrightarrow> no_sequence (hls_metadata_fields r phase n status)"
  by (simp add: no_sequence_def fields_ok_def hls_metadata_fields_def hls_origin_def run_ok_def plain_no_quote)

lemma hls_numbered_branches: "run_ok r \<Longrightarrow> hls_numbered h \<Longrightarrow> hls_numbered (hls_branches r lane as h)"
  by (induction r lane as h rule: hls_branches.induct) (simp_all add: Let_def hls_numbered_emit hls_field_sets)

lemma hls_numbered_commits: "run_ok r \<Longrightarrow> hls_numbered h \<Longrightarrow> hls_numbered (hls_commits r ces h)"
  by (induction r ces h rule: hls_commits.induct) (simp_all add: Let_def hls_numbered_emit hls_field_sets)

lemma hls_numbered_memory: "run_ok r \<Longrightarrow> hls_numbered h \<Longrightarrow> hls_numbered (hls_memory r reqs h)"
  by (induction r reqs h rule: hls_memory.induct)
    (simp_all add: Let_def hls_store_def hls_load_def hls_numbered_emit hls_field_sets)

lemma hls_numbered_iteration: "run_ok r \<Longrightarrow> hls_numbered h \<Longrightarrow> hls_numbered (hls_iteration r h)"
  by (simp add: hls_iteration_def hls_step_def hls_fetch_def Let_def hls_numbered_memory hls_numbered_commits
      hls_numbered_branches split_beta)

lemma hls_numbered_loop: "run_ok r \<Longrightarrow> hls_numbered h \<Longrightarrow> hls_numbered (hls_loop r n h)"
  by (induction n arbitrary: h) (simp_all add: hls_numbered_iteration)

lemma hls_numbered_start: "run_ok r \<Longrightarrow> hls_numbered (hls_start r m)"
  unfolding hls_start_def
  by (intro hls_numbered_emit hls_metadata_set) (simp_all add: hls_numbered_def numbered_def)

section \<open>Commits stay within the target\<close>

lemma hls_emit_fields [simp]:
  "hs_prefix_commits (hls_emit c fs h) = hs_prefix_commits h" "hs_pipe (hls_emit c fs h) = hs_pipe h"
  "hs_core (hls_emit c fs h) = hs_core h" "hs_mem (hls_emit c fs h) = hs_mem h"
  "hs_saw_tohost (hls_emit c fs h) = hs_saw_tohost h"
  by (simp_all add: hls_emit_def)

lemma hls_branches_fields [simp]:
  "hs_prefix_commits (hls_branches r lane as h) = hs_prefix_commits h"
  "hs_pipe (hls_branches r lane as h) = hs_pipe h" "hs_core (hls_branches r lane as h) = hs_core h"
  by (induction r lane as h rule: hls_branches.induct) (simp_all add: Let_def)

lemma hls_memory_commits [simp]: "hs_prefix_commits (hls_memory r reqs h) = hs_prefix_commits h"
  by (induction r reqs h rule: hls_memory.induct) (simp_all add: Let_def hls_store_def hls_load_def)

text \<open>The commit stream after the drain: empty, or cut at the target.\<close>

lemma hls_commits_count:
  "hs_prefix_commits h \<le> target_commits r \<Longrightarrow>
    hs_prefix_commits (hls_commits r ces h) =
      min (target_commits r) (hs_prefix_commits h + length (filter (\<lambda>ce. kEntryPc \<le> ce_pc ce) ces))"
  by (induction r ces h rule: hls_commits.induct) (auto simp: Let_def not_less)

section \<open>What the comparator reads\<close>

text \<open>
  The entries the core puts on the commit stream, cycle by cycle, in a run of the loop.
\<close>

fun hls_log :: "HlsRun \<Rightarrow> nat \<Rightarrow> HlsState \<Rightarrow> CommitEntry list" where
  "hls_log r 0 h = []"
| "hls_log r (Suc n) h =
     (if hs_prefix_commits h < target_commits r \<and> \<not> hs_saw_tohost h
      then pipe_commit_trace (hs_pipe (hls_step (hls_fetch h))) @ hls_log r n (hls_iteration r h) else [])"

definition recorded :: "CommitEntry list \<Rightarrow> CommitEntry list" where
  "recorded = filter (\<lambda>ce. kEntryPc \<le> ce_pc ce)"

lemma line_type:
  assumes "no_sequence fs" "fst (hd fs) = ''event''" "fs \<noteq> []"
  shows "ev_type (parse_event (trace_line c fs q)) = atom_content (snd (hd fs))"
proof -
  have "fields_ok ((''cycle'', dec_word c) # fs @ [(''trace_sequence_id'', dec_word q)])"
    using assms by (simp add: no_sequence_def fields_ok_def)
  moreover have "map_of (fs @ [(''trace_sequence_id'', dec_word q)]) ''event'' = Some (snd (hd fs))"
    using assms by (cases fs) (auto simp: map_of_Cons_code split: prod.splits)
  ultimately show ?thesis
    unfolding trace_line_def parse_event_def
    by (simp add: json_value_object plain_Cons field_value_def del: json_object.simps map_of_append)
qed

definition hls_read :: "HlsState \<Rightarrow> Event list" where
  "hls_read h = load_events (hs_lines h) True"

lemma load_events_snoc:
  "load_events (lines @ [l]) True =
    load_events lines True @ (if ev_type (parse_event l) = ''commit'' then [parse_event l] else [])"
  by (simp add: load_events_def)

lemma hls_read_other:
  "no_sequence fs \<Longrightarrow> fst (hd fs) = ''event'' \<Longrightarrow> fs \<noteq> [] \<Longrightarrow> atom_content (snd (hd fs)) \<noteq> ''commit'' \<Longrightarrow>
    hls_read (hls_emit c fs h) = hls_read h"
  using line_type [of fs c "hs_seq h"]
  by (simp add: hls_read_def hls_emit_def load_events_snoc trace_line_def)

lemma hls_read_commit:
  "run_ok r \<Longrightarrow> hls_read (hls_emit c (hls_commit_fields r ce) h) = hls_read h @ [hls_commit_event ce]"
  using parse_hls_commit [of r c ce "hs_seq h"]
  by (simp add: hls_read_def hls_emit_def load_events_snoc trace_line_def) (simp add: hls_commit_event_def)

lemma hls_read_fields [simp]:
  "hls_read (h\<lparr>hs_pipe := p\<rparr>) = hls_read h" "hls_read (h\<lparr>hs_core := s\<rparr>) = hls_read h"
  "hls_read (h\<lparr>hs_mem := m\<rparr>) = hls_read h" "hls_read (h\<lparr>hs_saw_tohost := b\<rparr>) = hls_read h"
  "hls_read (h\<lparr>hs_prefix_commits := n\<rparr>) = hls_read h"
  by (simp_all add: hls_read_def)

lemma hls_read_kinds:
  assumes "run_ok r"
  shows "hls_read (hls_emit c (hls_branch_fields r lane a) h) = hls_read h"
    "hls_read (hls_emit c (hls_tohost_fields r req d b) h) = hls_read h"
    "hls_read (hls_emit c (hls_boundary_fields r) h) = hls_read h"
  using hls_field_sets [OF assms]
  by (intro hls_read_other; simp add: hls_branch_fields_def hls_tohost_fields_def hls_boundary_fields_def Let_def)+

lemma hls_read_metadata:
  "run_ok r \<Longrightarrow> quote \<notin> set phase \<Longrightarrow> quote \<notin> set status \<Longrightarrow>
    hls_read (hls_emit c (hls_metadata_fields r phase n status) h) = hls_read h"
  by (rule hls_read_other [OF hls_metadata_set]) (simp_all add: hls_metadata_fields_def)

lemma hls_read_start: "run_ok r \<Longrightarrow> hls_read (hls_start r m) = []"
  unfolding hls_start_def by (subst hls_read_metadata) (simp_all add: hls_read_def load_events_def)

lemma hls_read_branches: "run_ok r \<Longrightarrow> hls_read (hls_branches r lane as h) = hls_read h"
  by (induction r lane as h rule: hls_branches.induct) (simp_all add: Let_def hls_read_kinds)

lemma hls_read_memory: "run_ok r \<Longrightarrow> hls_read (hls_memory r reqs h) = hls_read h"
  by (induction r reqs h rule: hls_memory.induct) (simp_all add: Let_def hls_store_def hls_load_def hls_read_kinds)

lemma hls_read_commits:
  "run_ok r \<Longrightarrow> hs_prefix_commits h \<le> target_commits r \<Longrightarrow>
    hls_read (hls_commits r ces h) =
      hls_read h @ map hls_commit_event (take (target_commits r - hs_prefix_commits h) (recorded ces))"
proof (induction r ces h rule: hls_commits.induct)
  case (2 r ce q h)
  show ?case
  proof (cases "hs_prefix_commits h < target_commits r")
    case True
    then have "target_commits r - hs_prefix_commits h = Suc (target_commits r - Suc (hs_prefix_commits h))"
      by simp
    moreover have "kEntryPc \<le> ce_pc ce \<longleftrightarrow> \<not> ce_pc ce < kEntryPc"
      by auto
    ultimately show ?thesis
      using 2 True by (cases "ce_pc ce < kEntryPc") (simp_all add: Let_def recorded_def hls_read_commit)
  next
    case False
    then show ?thesis
      by simp
  qed
qed (simp add: recorded_def)

lemma hls_iteration_commits:
  assumes "run_ok r" "hs_prefix_commits h \<le> target_commits r"
  defines "ces \<equiv> pipe_commit_trace (hs_pipe (hls_step (hls_fetch h)))"
  shows "hls_read (hls_iteration r h) =
      hls_read h @ map hls_commit_event (take (target_commits r - hs_prefix_commits h) (recorded ces))"
    and "hs_prefix_commits (hls_iteration r h) =
      min (target_commits r) (hs_prefix_commits h + length (recorded ces))"
proof -
  have keep: "hls_read (hls_step (hls_fetch h)) = hls_read h"
      "hs_prefix_commits (hls_step (hls_fetch h)) = hs_prefix_commits h"
    by (simp_all add: hls_step_def hls_fetch_def Let_def split_beta)
  show "hls_read (hls_iteration r h) =
      hls_read h @ map hls_commit_event (take (target_commits r - hs_prefix_commits h) (recorded ces))"
    using assms keep by (simp add: hls_iteration_def Let_def hls_read_memory hls_read_commits hls_read_branches)
  show "hs_prefix_commits (hls_iteration r h) =
      min (target_commits r) (hs_prefix_commits h + length (recorded ces))"
    using assms keep by (simp add: hls_iteration_def Let_def hls_commits_count recorded_def)
qed

lemma hls_loop_commits:
  assumes "run_ok r" "hs_prefix_commits h \<le> target_commits r"
  shows "hls_read (hls_loop r n h) =
      hls_read h @ map hls_commit_event (take (target_commits r - hs_prefix_commits h) (recorded (hls_log r n h))) \<and>
    hs_prefix_commits (hls_loop r n h) =
      min (target_commits r) (hs_prefix_commits h + length (recorded (hls_log r n h)))"
  using assms(2)
proof (induction n arbitrary: h)
  case 0
  then show ?case
    by (simp add: recorded_def)
next
  case (Suc n)
  let ?ces = "pipe_commit_trace (hs_pipe (hls_step (hls_fetch h)))"
  show ?case
  proof (cases "hs_prefix_commits h < target_commits r \<and> \<not> hs_saw_tohost h")
    case True
    note it = hls_iteration_commits [OF assms(1) Suc.prems]
    have "hs_prefix_commits (hls_iteration r h) \<le> target_commits r"
      by (simp add: it)
    note rest = Suc.IH [OF this]
    have rec: "recorded (hls_log r (Suc n) h) = recorded ?ces @ recorded (hls_log r n (hls_iteration r h))"
      using True by (simp add: recorded_def)
    show ?thesis
      using True rest it unfolding rec by (simp add: min_def)
  next
    case False
    then show ?thesis
      using Suc.prems by (auto simp: recorded_def)
  qed
qed

section \<open>Two loaders, one image\<close>

text \<open>A line of a reference image: a comment, or one double word in sixteen digits.\<close>

primrec image_line :: "string + u64 \<Rightarrow> string" where
  "image_line (Inl c) = CHR ''#'' # c"
| "image_line (Inr v) = hex_fixed 16 (unat v)"

definition image_words :: "(string + u64) list \<Rightarrow> u64 list" where
  "image_words items = concat (map (case_sum (\<lambda>c. []) (\<lambda>v. [v])) items)"

lemma image_words_simps [simp]:
  "image_words [] = []" "image_words (Inl c # items) = image_words items"
  "image_words (Inr v # items) = v # image_words items"
  by (simp_all add: image_words_def)

lemma trim_comment: "\<exists>t. trim (CHR ''#'' # c) = CHR ''#'' # t"
proof -
  have "dropWhile is_space (rev c @ [CHR ''#'']) = dropWhile is_space (rev c) @ [CHR ''#'']"
    by (induction "rev c") (simp_all add: dropWhile_append3 is_space_def dropWhile_append)
  then show ?thesis
    by (simp add: trim_def is_space_def)
qed

lemma load_lines_image:
  "load_lines (map image_line items) addr m = load_lines (map (\<lambda>v. hex_fixed 16 (unat v)) (image_words items)) addr m"
proof (induction items arbitrary: addr m)
  case (Cons x items)
  show ?case
  proof (cases x)
    case (Inl c)
    obtain t where "trim (CHR ''#'' # c) = CHR ''#'' # t"
      using trim_comment by blast
    then show ?thesis
      using Cons Inl by (simp add: trim_def)
  next
    case (Inr v)
    then show ?thesis
      using Cons by (simp add: Let_def split: option.split)
  qed
qed simp

lemma hex_token_comment: "hex_token (CHR ''#'' # c) = []"
  by (simp add: hex_token_def)

lemma hex_token_hex: "hex_token (hex_fixed n v) = hex_fixed n v"
proof -
  have "takeWhile (\<lambda>c. c \<noteq> CHR ''#'') (hex_fixed n v) = hex_fixed n v"
    using no_comment_hex by (auto simp: takeWhile_eq_all_conv)
  moreover have "filter (\<lambda>c. \<not> is_space c) (hex_fixed n v) = hex_fixed n v"
    using hex_fixed_chars hex_digit_not_blank by (force simp: filter_id_conv)
  ultimately show ?thesis
    by (simp only: hex_token_def)
qed

lemma digits_to_append: "digits_to b (xs @ [c]) = b * digits_to b xs + hex_nibble c"
  by (simp add: digits_to_def)

lemma digits_to_hex: "digits_to 16 (hex_fixed n v) = int (v mod 16 ^ n)"
proof (induction n arbitrary: v)
  case 0
  then show ?case
    by (simp add: digits_to_def)
next
  case (Suc n)
  have "v mod 16 ^ Suc n = 16 * (v div 16 mod 16 ^ n) + v mod 16"
    by (simp add: mod_mult2_eq)
  then show ?case
    using Suc by (simp add: digits_to_append)
qed

lemma hex_digit_facts: "d < 16 \<Longrightarrow> digit_in 16 (hex_digit d) \<and> hex_digit d \<notin> {CHR ''x'', CHR ''X'', CHR ''-'', CHR ''+''}"
  using less_16_cases [of d]
  by (auto simp: digit_in_def) (auto simp: hex_digit_def char_of_def bit_Suc_0_iff)

lemma strtoull_hex:
  assumes "0 < n" "v < 16 ^ n" "v < 2 ^ 64"
  shows "strtoull (hex_fixed n v) 16 = (of_nat v, [])"
proof -
  let ?s = "hex_fixed n v"
  have chars: "\<forall>c \<in> set ?s. digit_in 16 c \<and> c \<notin> {CHR ''x'', CHR ''X'', CHR ''-'', CHR ''+''} \<and> \<not> is_space c"
  proof
    fix c assume "c \<in> set ?s"
    then obtain d where "d < 16" "c = hex_digit d"
      using hex_fixed_chars by blast
    then show "digit_in 16 c \<and> c \<notin> {CHR ''x'', CHR ''X'', CHR ''-'', CHR ''+''} \<and> \<not> is_space c"
      using hex_digit_facts [of d] hex_digit_not_blank [of d] by simp
  qed
  obtain c t where s: "?s = c # t"
    using assms(1) by (cases ?s) (auto dest!: arg_cong [of _ _ length])
  have "\<not> is_space c" "c \<noteq> CHR ''-''" "c \<noteq> CHR ''+''"
    using chars s by auto
  then have strip: "dropWhile is_space ?s = ?s" "\<not> starts ''-'' ?s" "\<not> starts ''+'' ?s"
    using s by (simp_all add: starts_def)
  have "\<not> starts ''0x'' ?s \<and> \<not> starts ''0X'' ?s"
    using chars s by (cases t) (auto simp: starts_def)
  then have prefix: "strip_prefix 16 ?s = (16, ?s)"
    by (simp add: strip_prefix_def)
  have all: "takeWhile (digit_in 16) ?s = ?s" "dropWhile (digit_in 16) ?s = []"
    using chars by (auto simp: takeWhile_eq_all_conv)
  have "digits_to 16 ?s = int v"
    using assms(2) by (simp add: digits_to_hex)
  then show ?thesis
    using strip prefix all assms(3) s by (simp add: strtoull_def Let_def)
qed

definition or4 :: "u8 \<Rightarrow> u8 \<Rightarrow> u8 \<Rightarrow> u8 \<Rightarrow> u32" where
  "or4 a b c d = ucast a OR push_bit 8 (ucast b) OR push_bit 16 (ucast c) OR push_bit 24 (ucast d)"

lemma or4_word:
  "or4 (ucast (w AND 0xff)) (ucast (drop_bit 8 w AND 0xff)) (ucast (drop_bit 16 w AND 0xff))
    (ucast (drop_bit 24 w AND 0xff)) = w"
proof (rule bit_word_eqI)
  fix n assume "n < LENGTH(32)"
  moreover have "n < 8 \<or> (8 \<le> n \<and> n < 16) \<or> (16 \<le> n \<and> n < 24) \<or> 24 \<le> n"
    by linarith
  ultimately show "bit (or4 (ucast (w AND 0xff)) (ucast (drop_bit 8 w AND 0xff)) (ucast (drop_bit 16 w AND 0xff))
      (ucast (drop_bit 24 w AND 0xff))) n = bit w n"
    by (elim disjE) (auto simp: or4_def and_masks32 bit_simps)
qed

text \<open>The words and the bytes of the bench's memory are two views of the image.\<close>

definition hm_consistent :: "HexMem \<Rightarrow> bool" where
  "hm_consistent m \<longleftrightarrow> length (hm_bytes m) = 4 * length (hm_words m) \<and>
     (\<forall>k < length (hm_words m). hm_words m ! k =
       or4 (hm_bytes m ! (4 * k)) (hm_bytes m ! (4 * k + 1)) (hm_bytes m ! (4 * k + 2)) (hm_bytes m ! (4 * k + 3)))"

lemma hm_consistent_append: "hm_consistent m \<Longrightarrow> hm_consistent (append_word w m)"
proof -
  assume m: "hm_consistent m"
  let ?n = "length (hm_words m)"
  have len: "length (hm_bytes m) = 4 * ?n"
    using m by (simp add: hm_consistent_def)
  have "hm_words (append_word w m) ! k =
      or4 (hm_bytes (append_word w m) ! (4 * k)) (hm_bytes (append_word w m) ! (4 * k + 1))
        (hm_bytes (append_word w m) ! (4 * k + 2)) (hm_bytes (append_word w m) ! (4 * k + 3))" if "k \<le> ?n" for k
  proof (cases "k = ?n")
    case True
    then show ?thesis
      using len or4_word [of w] by (simp add: append_word_def nth_append)
  next
    case False
    then have "k < ?n"
      using that by simp
    then show ?thesis
      using m len by (simp add: append_word_def nth_append hm_consistent_def)
  qed
  then show ?thesis
    using len by (simp add: hm_consistent_def append_word_def)
qed

lemma le_bytes_word: "le_bytes 8 (unat v) = map (\<lambda>j. byte_of j v) [0..<8]"
  by (rule nth_equalityI) (simp_all add: nth_le_bytes_word)

lemma load_hex_line_word:
  "load_hex_line (hex_fixed 16 (unat (v :: u64))) m = append_word (ucast (drop_bit 32 v)) (append_word (ucast v) m)"
proof -
  have v: "unat v < 2 ^ 64"
    using unsigned_less [of v] by simp
  moreover have "(16::nat) ^ 16 = 2 ^ 64"
    by simp
  ultimately have "unat v < 16 ^ 16"
    by (simp only:)
  with v have "strtoull (hex_fixed 16 (unat v)) 16 = (v, [])"
    by (subst strtoull_hex) simp_all
  moreover have ne: "hex_fixed 16 (unat v) \<noteq> []"
    using length_hex_fixed [of 16 "unat v"] by (metis list.size(3) zero_neq_numeral)
  moreover have "ucast (x AND 0xffffffff) = (ucast x :: u32)" for x :: u64
  proof -
    have "x AND 0xffffffff = take_bit 32 x"
      by (simp add: take_bit_eq_mask mask_numeral)
    then show ?thesis
      by (simp only:) (rule bit_word_eqI, auto simp: bit_simps)
  qed
  ultimately show ?thesis
    using length_hex_fixed [of 16 "unat v"] ne by (auto simp: load_hex_line_def hex_token_hex Let_def)
qed

lemma append_two_bytes:
  "hm_bytes (append_word (ucast (drop_bit 32 v)) (append_word (ucast v) m)) = hm_bytes m @ le_bytes 8 (unat (v :: u64))"
proof -
  have b: "ucast (drop_bit n (ucast v :: u32) AND 0xff) = (ucast (drop_bit n v) :: u8)" if "n \<le> 24" for n
    using that by (intro bit_word_eqI) (auto simp: bit_simps and_masks32)
  have h: "ucast (drop_bit n (ucast (drop_bit 32 v) :: u32) AND 0xff) = (ucast (drop_bit (32 + n) v) :: u8)" if "n \<le> 24" for n
    using that by (intro bit_word_eqI) (auto simp: bit_simps and_masks32 add.assoc)
  show ?thesis
    using b [of 0] b [of 8] b [of 16] b [of 24] h [of 0] h [of 8] h [of 16] h [of 24]
    unfolding le_bytes_word by (simp add: append_word_def byte_of_def upt_rec)
qed

lemma load_image_words:
  "fold load_hex_line (map image_line items) m = fold load_hex_line (map (\<lambda>v. hex_fixed 16 (unat v)) (image_words items)) m"
proof (induction items arbitrary: m)
  case (Cons x items)
  then show ?case
    by (cases x) (simp_all add: load_hex_line_def hex_token_comment)
qed simp

lemma load_image:
  fixes vs :: "u64 list"
  assumes "hm_consistent m"
  defines "h \<equiv> fold load_hex_line (map (\<lambda>v. hex_fixed 16 (unat v)) vs) m"
  shows "hm_consistent h \<and> hm_bytes h = hm_bytes m @ concat (map (\<lambda>v. le_bytes 8 (unat v)) vs) \<and>
    length (hm_words h) = length (hm_words m) + 2 * length vs"
  unfolding h_def using assms(1)
proof (induction vs arbitrary: m)
  case (Cons v vs)
  let ?m = "append_word (ucast (drop_bit 32 v)) (append_word (ucast v) m)"
  have "hm_consistent ?m"
    using Cons.prems by (intro hm_consistent_append)
  moreover have "length (hm_words ?m) = length (hm_words m) + 2"
    by (simp add: append_word_def)
  ultimately show ?case
    using Cons.IH [of ?m] by (simp add: load_hex_line_word append_two_bytes)
qed simp

lemma entry_address:
  assumes "image_fits m kEntryPc n" "k < n"
  shows "unat (kEntryPc + of_nat k) = unat kEntryPc + k" "\<not> kEntryPc + of_nat k < kEntryPc"
    "unat (kEntryPc + of_nat k - kEntryPc) = k"
proof -
  have "unat (sm_size m) < 2 ^ 64"
    using unsigned_less [of "sm_size m"] by simp
  then have k: "unat kEntryPc + k < 2 ^ 64"
    using assms by (auto simp: image_fits_def split: if_splits)
  then have of: "unat (of_nat k :: u64) = k"
    by (simp add: unat_of_nat take_bit_nat_eq_self)
  show sum: "unat (kEntryPc + of_nat k) = unat kEntryPc + k"
    using k of by (simp add: unat_word_ariths)
  show "\<not> kEntryPc + of_nat k < kEntryPc"
    using sum by (simp add: word_less_nat_alt)
  show "unat (kEntryPc + of_nat k - kEntryPc) = k"
    using of by simp
qed

lemma sm_read_u32_bytes:
  assumes "\<And>j. j < 4 \<Longrightarrow> sm_bytes m (sm_wrap m (a + of_nat j)) = Some (b j)"
  shows "sm_read_u32 m a = (or4 (b 0) (b 1) (b 2) (b 3), True)"
  using assms [of 0] assms [of 1] assms [of 2] assms [of 3]
  by (simp add: sm_read_u32_def or4_def upt_rec numeral_2_eq_2 numeral_3_eq_3 or.assoc)

section \<open>Store offsets in the Verilator bench\<close>

definition store_imm :: "u32 \<Rightarrow> u32" where
  "store_imm inst = (drop_bit 7 inst AND 0x1f) OR push_bit 5 (drop_bit 25 inst AND 0x7f)"

lemma store_offset: "(store_imm inst XOR push_bit 11 1) - push_bit 11 1 = extract_imm_s inst"
proof -
  have imm: "store_imm inst = take_bit (Suc 11) (store_imm inst)"
    by (rule bit_word_eqI) (auto simp: store_imm_def and_masks32 bit_simps)
  have "(store_imm inst XOR push_bit 11 1) - push_bit 11 1 = word_of_int (signed_take_bit 11 (uint (store_imm inst)))"
    using xor_sub_sign [of 11 "store_imm inst"] imm by simp
  also have "\<dots> = signed_take_bit 11 (store_imm inst)"
    by (rule bit_word_eqI) (auto simp: bit_simps)
  also have "\<dots> = extract_imm_s inst"
    unfolding extract_imm_s_def Let_def
    by (rule word32_eqI_bits) (simp_all add: store_imm_def and_masks32 high_masks32 bit_simps and_bit32)
  finally show ?thesis .
qed

lemma offset_sign: "bit (extract_imm_s inst) 31 = bit inst 31"
  unfolding extract_imm_s_def Let_def
  by (simp add: and_masks32 high_masks32 bit_simps and_bit32)

lemma scast_ucast32: "scast (w :: u32) = (ucast w - (if bit w 31 then 2 ^ 32 else 0) :: u64)"
proof -
  have "(scast w :: u64) = word_of_int (signed_take_bit 31 (uint w))"
    by (simp add: scast_eq sint_uint)
  also have "signed_take_bit 31 (uint w) = take_bit 32 (uint w) - 2 ^ 32 * of_bool (bit (uint w) 31)"
    by (simp add: signed_take_bit_eq_take_bit_minus)
  also have "take_bit 32 (uint w) = uint w"
    by (rule bit_eqI) (auto simp: bit_simps dest: bit_imp_le_length)
  finally show ?thesis
    by (simp add: bit_uint_iff)
qed

lemma tracer_offset:
  "tracer_sign_extend (store_imm inst) 12 = scast (extract_imm_s inst) + (if bit inst 31 then 2 ^ 32 else 0)"
  using store_offset [of inst]
  by (simp add: tracer_sign_extend_def Let_def scast_ucast32 offset_sign)

text \<open>The loaded image, byte by byte and word by word.\<close>

definition image_bytes :: "u64 list \<Rightarrow> u8 list" where
  "image_bytes vs = concat (map (\<lambda>v. le_bytes 8 (unat v)) vs)"

lemma length_image_bytes [simp]: "length (image_bytes vs) = 8 * length vs"
  by (simp add: image_bytes_def length_concat comp_def sum_list_triv)

lemma image_bytes_agree:
  assumes "image_fits m kEntryPc (8 * length vs)" "hm_bytes h = image_bytes vs" "k < 8 * length vs"
  defines "m' \<equiv> put_bytes kEntryPc (image_bytes vs) m"
  shows "sm_bytes m' (sm_wrap m' (kEntryPc + of_nat k)) = Some (image_bytes vs ! k)"
    "hm_read_byte h (kEntryPc + of_nat k) = image_bytes vs ! k"
proof -
  show "sm_bytes m' (sm_wrap m' (kEntryPc + of_nat k)) = Some (image_bytes vs ! k)"
    using put_bytes_hit [of m kEntryPc "image_bytes vs"] assms(1,3) by (simp add: m'_def)
  show "hm_read_byte h (kEntryPc + of_nat k) = image_bytes vs ! k"
    using entry_address [OF assms(1,3)] assms(2,3) by (simp add: hm_read_byte_def)
qed

lemma image_words_agree:
  assumes fits: "image_fits m kEntryPc (8 * length vs)"
    and h: "hm_consistent h" "hm_bytes h = image_bytes vs" "length (hm_words h) = 2 * length vs"
    and k: "k < 2 * length vs"
  shows "sm_read_u32 (put_bytes kEntryPc (image_bytes vs) m) (kEntryPc + of_nat (4 * k)) =
    (hm_read h (kEntryPc + of_nat (4 * k)), True)"
proof -
  let ?m = "put_bytes kEntryPc (image_bytes vs) m"
  have "sm_bytes ?m (sm_wrap ?m (kEntryPc + of_nat (4 * k) + of_nat j)) = Some (image_bytes vs ! (4 * k + j))"
    if "j < 4" for j
  proof -
    have "kEntryPc + of_nat (4 * k) + of_nat j = kEntryPc + of_nat (4 * k + j)"
      by simp
    then show ?thesis
      using image_bytes_agree(1) [OF fits h(2), of "4 * k + j"] k that by (simp only:)
  qed
  then have "sm_read_u32 ?m (kEntryPc + of_nat (4 * k)) = (hm_words h ! k, True)"
    using h k by (subst sm_read_u32_bytes [where b = "\<lambda>j. image_bytes vs ! (4 * k + j)"]) (simp_all add: hm_consistent_def)
  moreover have "hm_read h (kEntryPc + of_nat (4 * k)) = hm_words h ! k"
  proof -
    have a: "4 * k < 8 * length vs"
      using k by simp
    have "unat (drop_bit 2 (kEntryPc + of_nat (4 * k) - kEntryPc)) = k"
      using entry_address(3) [OF fits a] by (simp only: unat_drop_bit_eq) (simp add: drop_bit_eq_div)
    then show ?thesis
      using entry_address(2) [OF fits a] k h(3) by (simp only: hm_read_def Let_def if_False) simp
  qed
  ultimately show ?thesis
    by simp
qed

section \<open>Properties\<close>

text \<open>
  C25: the trace the bench writes holds the core's commits: reading the lines of a run of any
  number of cycles with the comparator's reader gives the entries the core put on its commit
  stream, in order, those below the entry address left out, up to the number of commits the
  program is run for; and that many commits are counted.
\<close>
theorem trace_records_commits:
  assumes "quote \<notin> set (hr_source r)" "quote \<notin> set (ps_name (hr_program r))"
  shows "load_events (hs_lines (hls_loop r n (hls_start r m))) True =
      map hls_commit_event (take (target_commits r) (recorded (hls_log r n (hls_start r m)))) \<and>
    hs_prefix_commits (hls_loop r n (hls_start r m)) =
      min (target_commits r) (length (recorded (hls_log r n (hls_start r m))))"
proof -
  have ok: "run_ok r"
    using assms by (simp add: run_ok_def)
  have "hls_read (hls_start r m) = []"
    by (rule hls_read_start [OF ok])
  moreover have "hs_prefix_commits (hls_start r m) = 0"
    by (simp add: hls_start_def)
  ultimately show ?thesis
    using hls_loop_commits [OF ok, of "hls_start r m" n] by (simp add: hls_read_def)
qed

definition demo_run :: HlsRun where
  "demo_run = \<lparr>hr_source = ''hls_cpp'', hr_program = hd kPrograms, hr_complete = False\<rparr>"

lemma trace_records_commits_witness:
  "load_events (hs_lines (hls_loop demo_run 500 (hls_start demo_run HexMem0))) True =
     map hls_commit_event (take 8 (recorded (hls_log demo_run 500 (hls_start demo_run HexMem0))))"
  using trace_records_commits [of demo_run 500 HexMem0]
  by (simp add: demo_run_def kPrograms_def target_commits_def del: hls_loop.simps hls_log.simps)

text \<open>
  The bench numbers its lines: in the trace of a program the line at index i carries the
  sequence number i.
\<close>
lemma lines_are_numbered:
  assumes "quote \<notin> set (hr_source r)" "quote \<notin> set (ps_name (hr_program r))"
  shows "list_all2 (\<lambda>l i. json_value l ''trace_sequence_id'' = dec_string (unat (of_nat i :: u64)))
    (snd (hls_run_program r file can_create)) [0..<length (snd (hls_run_program r file can_create))]"
proof -
  have ok: "run_ok r"
    using assms by (simp add: run_ok_def)
  have all: "list_all2 (\<lambda>l i. json_value l ''trace_sequence_id'' = dec_string (unat (of_nat i :: u64)))
      (hs_lines h) [0..<length (hs_lines h)]" if "hls_numbered h" for h
    using that by (simp add: hls_numbered_def numbered_def list_all2_conv_all_nth)
  have "hls_numbered (hls_loop r kMaxCycles (hls_start r m))" for m
    using ok by (intro hls_numbered_loop hls_numbered_start)
  then have "hls_numbered (hls_emit c (hls_metadata_fields r ''end'' n (hls_status r b))
        (hls_loop r kMaxCycles (hls_start r m)))"
      "hls_numbered (hls_emit c (hls_metadata_fields r ''end'' n (hls_status r b))
        (hls_emit c' (hls_boundary_fields r) (hls_loop r kMaxCycles (hls_start r m))))" for c c' n b m
    using ok by (auto intro!: hls_numbered_emit hls_metadata_set hls_field_sets simp: hls_status_def)
  then show ?thesis
    by (simp add: hls_run_program_def Let_def all split: option.split)
qed

text \<open>
  C26: the records of the two benches for one retired instruction are accepted as equal by
  the comparator exactly when the program counters, the instruction words, the destination and
  its value agree and there is no exception: an exception is never accepted, because the
  Verilator bench prints its cause as null and the other bench as 0.
\<close>
theorem benches_agree_on_commits:
  assumes "quote \<notin> set (hr_source r)" "quote \<notin> set (ps_name (hr_program r))"
  shows "event_signature (parse_event (trace_line c (rtl_commit_fields mem s) q)) False =
      event_signature (parse_event (trace_line c' (hls_commit_fields r ce) q')) False \<longleftrightarrow>
    commit_pc s = ce_pc ce \<and> commit_inst mem s = (ce_inst ce, True) \<and>
    (com_ldst_val s = ce_rd_valid ce) \<and>
    (ce_rd_valid ce \<longrightarrow> unat (com_ldst s) = unat (ce_rd ce) \<and> com_pdst s < 52 \<and>
      sig_regfile s ! unat (com_pdst s) = ce_rd_value ce) \<and>
    \<not> com_xcpt s \<and> \<not> ce_exception ce"
proof -
  have ok: "run_ok r"
    using assms by (simp add: run_ok_def)
  have inst: "commit_inst mem s = (ce_inst ce, True) \<longleftrightarrow> snd (commit_inst mem s) \<and> fst (commit_inst mem s) = ce_inst ce"
    by (cases "commit_inst mem s") auto
  have null: "''null'' \<noteq> hex_u64 v" "''null'' \<noteq> hex_u32 w" for v w
    using hex_not_null by metis+
  show ?thesis
    unfolding parse_rtl_commit parse_hls_commit [OF ok] signature_same_event [OF commit_events_bar_free(2) commit_events_bar_free(1)] inst
    by (auto simp: same_event_def hls_commit_event_def rtl_commit_event_def rd_value_valid_def commit_rd_value_def null)
qed

text \<open>
  An image of comment lines and double words is loaded to the same contents by both
  benches: the instruction word the core under test is given at an address is the one the
  Verilator bench reports for it, and the bytes are the same.
\<close>
lemma loaders_agree:
  assumes "image_fits m kEntryPc (8 * length (image_words items))" "image_words items \<noteq> []"
  shows "\<exists>h m'. hm_load_hex (Some (map image_line items)) = Some h \<and>
    sm_load_hex kEntryPc (map image_line items) m = Inr m' \<and>
    list_all (\<lambda>k. hm_read_byte h (kEntryPc + of_nat k) = sm_byte m' (kEntryPc + of_nat k))
      [0..<8 * length (image_words items)] \<and>
    list_all (\<lambda>k. sm_read_u32 m' (kEntryPc + of_nat (4 * k)) = (hm_read h (kEntryPc + of_nat (4 * k)), True))
      [0..<2 * length (image_words items)]"
proof -
  let ?vs = "image_words items"
  let ?bs = "image_bytes ?vs"
  define h where "h = fold load_hex_line (map image_line items) HexMem0"
  define m' where "m' = put_bytes kEntryPc ?bs m"
  have empty: "hm_consistent HexMem0" "hm_bytes HexMem0 = []" "hm_words HexMem0 = []"
    by (simp_all add: hm_consistent_def HexMem0_def)
  have h: "hm_consistent h" "hm_bytes h = ?bs" "length (hm_words h) = 2 * length ?vs"
    using load_image [OF empty(1), of ?vs] by (simp_all add: h_def load_image_words empty image_bytes_def)
  have load: "hm_load_hex (Some (map image_line items)) = Some h"
      "sm_load_hex kEntryPc (map image_line items) m = Inr m'"
    using assms(2) h(3) load_lines_hex [of 8 "map unat ?vs" kEntryPc m]
    by (auto simp: hm_load_hex_def h_def [symmetric] m'_def sm_load_hex_def load_lines_image comp_def Let_def image_bytes_def)
  note byte = image_bytes_agree [OF assms(1) h(2)]
  have "sm_read_u32 m' (kEntryPc + of_nat (4 * k)) = (hm_read h (kEntryPc + of_nat (4 * k)), True)"
    if "k < 2 * length ?vs" for k
    using image_words_agree [OF assms(1) h that] by (simp only: m'_def)
  then show ?thesis
    using load byte by (intro exI [of _ h] exI [of _ m']) (simp add: list_all_iff sm_byte_def m'_def)
qed

lemma loaders_agree_witness:
  "\<exists>h m'. hm_load_hex (Some (map image_line [Inl '' entry'', Inr 0x0000001300000297])) = Some h \<and>
    sm_load_hex kEntryPc (map image_line [Inl '' entry'', Inr 0x0000001300000297]) demo_memory = Inr m' \<and>
    sm_read_u32 m' (kEntryPc + of_nat (4 * 1)) = (hm_read h (kEntryPc + of_nat (4 * 1)), True)"
proof -
  have "image_fits demo_memory kEntryPc (8 * length (image_words [Inl '' entry'', Inr 0x0000001300000297]))"
    by (simp add: image_fits_def demo_memory_def kEntryPc_def)
  from loaders_agree [OF this] show ?thesis
    by (auto simp: list_all_iff dest: bspec [where x = 1])
qed

lemma lines_are_numbered_witness:
  "list_all2 (\<lambda>l i. json_value l ''trace_sequence_id'' = dec_string (unat (of_nat i :: u64)))
    (snd (hls_run_program demo_run None True)) [0..<length (snd (hls_run_program demo_run None True))]"
  by (rule lines_are_numbered) (simp_all add: demo_run_def kPrograms_def)

definition demo_signals :: RtlSignals where
  "demo_signals = \<lparr>enq_valid = False, enq_rob_idx = 0, enq_pdst = 0, enq_stale_pdst = 0, wb_valid = False,
     wb_rob_idx = 0, wb_pdst = 0, wb_data = 0, br_valid = False, br_ftq_idx = 0, br_pc_lob = 0, br_rob_idx = 0,
     br_taken = False, br_mispredict = False, br_br_tag = 0, br_br_mask = 0, br_cfi_type = 0,
     flush_valid = False, redirect_pc = 0, com_valid = True, com_ftq_idx = 0, com_pc_lob = 0, com_pdst = 1,
     com_stale_pdst = 0, com_ldst_val = True, com_ldst = 5, com_xcpt = False, com_arch_valid = True,
     sig_pcs = replicate 16 0x80000000, sig_regfile = replicate 52 7\<rparr>"

lemma benches_agree_on_commits_witness:
  "event_signature (parse_event (trace_line 9 (rtl_commit_fields (Some (demo_memory
      \<lparr>sm_bytes := (\<lambda>a. Some (if a = 0x80000000 then 0x13 else 0))\<rparr>)) demo_signals) 4)) False =
   event_signature (parse_event (trace_line 3 (hls_commit_fields demo_run (CommitEntry0
      \<lparr>ce_pc := 0x80000000, ce_inst := 0x13, ce_rd_valid := True, ce_rd := 5, ce_rd_value := 7\<rparr>)) 2)) False"
  by (subst benches_agree_on_commits)
    (simp_all add: demo_run_def kPrograms_def demo_signals_def CommitEntry0_def commit_pc_def uop_pc_def
      ftq_pc_def commit_inst_def demo_memory_def sm_read_u32_def sm_wrap_def upt_rec)

text \<open>
  C34: how the Verilator bench detects the end of a program. On an SD whose offset is not
  negative it compares the address the instruction set defines with the tohost address; on an
  SD with a negative offset it compares an address 2 ^ 32 higher, because the sign extension
  is computed in 32 bits and widened without sign: such a store to tohost is not seen.
\<close>
theorem tohost_negative_offset:
  assumes "inst AND 0x7f = 0x23" "drop_bit 12 inst AND 7 = 3"
  shows "detect_tohost_store tohost_addr regs inst =
    (let address = regs ! unat (drop_bit 15 inst AND 0x1f) + scast (extract_imm_s inst) + (if bit inst 31 then 2 ^ 32 else 0);
         v = regs ! unat (drop_bit 20 inst AND 0x1f)
     in if address = tohost_addr \<and> v \<noteq> 0 then Some (address, v) else None)"
  using assms tracer_offset [of inst]
  by (simp add: detect_tohost_store_def store_imm_def Let_def add.assoc)

text \<open>\<open>sd x5, -8(x6)\<close> with x6 = tohost + 8.\<close>

lemma tohost_negative_offset_witness:
  "detect_tohost_store 0x80000080 ((replicate 32 0)[6 := 0x80000088, 5 := 1]) 0xfe533c23 = None"
  by (subst tohost_negative_offset) (simp_all add: Let_def extract_imm_s_def)

end
