(* ===== verification/HlsIsa.thy ===== *)
theory HlsIsa
  imports System HlsTrace
begin

text \<open>
  The HLS trace bench, closed over the core: the program it loads is executed as the
  instruction set says, so the trace it writes, read back by the comparator, is the trace of
  the instruction set, and the verdict it returns is the one the instruction set determines.
\<close>

section \<open>Committed entries carry no exception\<close>

definition clean :: "CommitEntry list \<Rightarrow> bool" where
  "clean = list_all (\<lambda>ce. \<not> ce_exception ce)"

lemma clean_Nil [simp]: "clean []"
  by (simp add: clean_def)

lemma clean_append [simp]: "clean (xs @ ys) \<longleftrightarrow> clean xs \<and> clean ys"
  by (simp add: clean_def)

lemma try_issue_load_trace: "pipe_commit_trace (snd (try_issue_load s p i)) = pipe_commit_trace p"
  by (simp add: try_issue_load_def Let_def)

lemma issue_loads_trace: "issue_loads is s p = (s', p') \<Longrightarrow> pipe_commit_trace p' = pipe_commit_trace p"
proof (induction "is" arbitrary: s p)
  case (Cons i "is")
  let ?idx = "word_of_nat ((unat (rob_head (bs_rob s)) + i) mod ROB_DEPTH)"
  obtain s1 p1 where 1: "try_issue_load s p ?idx = (s1, p1)"
    by force
  then have "pipe_commit_trace p1 = pipe_commit_trace p"
    using try_issue_load_trace [of s p ?idx] by simp
  then show ?case
    using Cons 1 by (simp add: Let_def split: if_split_asm)
qed simp

lemma lsu_module_trace: "lsu_module s p = (s', p') \<Longrightarrow> pipe_commit_trace p' = pipe_commit_trace p"
proof -
  have "pipe_commit_trace p1 = pipe_commit_trace p" if "lsu_response s p = (s1, p1)" for s1 p1
    using that by (auto simp: lsu_response_def Let_def split: if_split_asm prod.splits)
  then show "lsu_module s p = (s', p') \<Longrightarrow> pipe_commit_trace p' = pipe_commit_trace p"
    by (auto simp: lsu_module_def Let_def dest!: issue_loads_trace split: if_split_asm prod.splits)
qed

lemma commit_retire_clean: "commit_retire s p = (s', p') \<Longrightarrow> clean (pipe_commit_trace p) \<Longrightarrow> clean (pipe_commit_trace p')"
  by (auto simp: commit_retire_def commit_entry_of_def CommitEntry0_def clean_def stream_write_def Let_def)

lemma commit_clean:
  assumes "rob_commit_module s p = (s', p')" "clean (pipe_commit_trace p)"
  shows "clean (pipe_commit_trace p')"
  using assms(1)
proof (cases rule: rob_commit_module_cases)
  case head
  from head(3) show ?thesis
  proof (cases rule: commit_head_cases)
    case (retire s1 p1)
    from retire(3) have "pipe_commit_trace p1 = pipe_commit_trace p"
      by (cases rule: commit_store_cases) simp_all
    then show ?thesis
      using commit_retire_clean [OF retire(4)] assms(2) by simp
  qed (use assms(2) in simp_all)
qed (use assms(2) in simp_all)

lemma step_clean:
  assumes "boom_core_step s p = (s', p')" "clean (pipe_commit_trace p)"
  shows "clean (pipe_commit_trace p')"
proof -
  obtain s1 p1 where l: "lsu_module (branch_module (csr_module (step_begin s))) p = (s1, p1)" by force
  obtain s2 p2 where f: "frontend_module s1 p1 = (s2, p2)" by force
  have "pipe_commit_trace p2 = pipe_commit_trace p"
    using lsu_module_trace [OF l] f
    by (auto elim!: frontend_module_cases dest!: frontend_receive_keep(5) simp: frontend_send_def stream_write_def Let_def
        split: if_split_asm)
  then show ?thesis
    using assms l f by (auto simp: boom_core_step_def Let_def intro: commit_clean)
qed


section \<open>One iteration of the bench\<close>

text \<open>What a store request makes of the flag that stops the loop.\<close>

definition saw_store :: "DmemRequest \<Rightarrow> bool \<Rightarrow> bool" where
  "saw_store req b = (if drq_address req = kTohostAddr
     then (if drq_write_data req \<noteq> 0 then drq_write_data req else drq_data req) = 1 else b)"

lemma hls_fetch_fields [simp]:
  "hs_core (hls_fetch h) = hs_core h" "hs_mem (hls_fetch h) = hs_mem h"
  "hs_saw_tohost (hls_fetch h) = hs_saw_tohost h" "hs_prefix_commits (hls_fetch h) = hs_prefix_commits h"
  by (simp_all add: hls_fetch_def Let_def split_beta)

lemma hls_branches_rest [simp]:
  "hs_mem (hls_branches r lane as h) = hs_mem h" "hs_saw_tohost (hls_branches r lane as h) = hs_saw_tohost h"
  by (induction r lane as h rule: hls_branches.induct) (simp_all add: Let_def)

lemma hls_commits_rest [simp]:
  "hs_core (hls_commits r ces h) = hs_core h" "hs_mem (hls_commits r ces h) = hs_mem h"
  "hs_saw_tohost (hls_commits r ces h) = hs_saw_tohost h"
  by (induction r ces h rule: hls_commits.induct) (simp_all add: Let_def)

lemma hls_commits_drain:
  assumes "length ces \<le> 1" "ces \<noteq> [] \<longrightarrow> hs_prefix_commits h < target_commits r"
  shows "hs_pipe (hls_commits r ces h) = (hs_pipe h)\<lparr>pipe_commit_trace := []\<rparr>"
  using assms by (cases ces) (simp_all add: Let_def)

lemma hm_write_words [simp]: "hm_words (hm_write a d sz m) = hm_words m"
proof -
  have "hm_words (hm_write_byte a b m) = hm_words m" for a b m
    by (simp add: hm_write_byte_def Let_def)
  then have "hm_words (fold (\<lambda>i. hm_write_byte (a + of_nat i) (ucast (drop_bit (8 * i) d AND 255))) is m) = hm_words m"
    for "is"
    by (induction "is" arbitrary: m) simp_all
  then show ?thesis
    by (simp add: hm_write_def Let_def)
qed

lemma hls_memory_stores:
  assumes "list_all drq_is_store reqs"
  shows "hs_core (hls_memory r reqs h) = hs_core h"
    "hs_pipe (hls_memory r reqs h) = (hs_pipe h)\<lparr>pipe_dmem_req := []\<rparr>"
    "hm_words (hs_mem (hls_memory r reqs h)) = hm_words (hs_mem h)"
    "hs_saw_tohost (hls_memory r reqs h) = fold saw_store reqs (hs_saw_tohost h)"
  using assms
  by (induction reqs arbitrary: h) (simp_all add: hls_store_def saw_store_def Let_def)

lemma hls_iteration_core:
  assumes step: "boom_core_step (hs_core h) (hs_pipe (hls_fetch h)) = (s', p')"
    and out: "length (pipe_commit_trace p') \<le> 1" "pipe_commit_trace p' \<noteq> [] \<longrightarrow> hs_prefix_commits h < target_commits r"
      "list_all drq_is_store (pipe_dmem_req p')"
  shows "hs_core (hls_iteration r h) = s'"
    "hs_pipe (hls_iteration r h) = p'\<lparr>pipe_commit_trace := [], pipe_dmem_req := []\<rparr>"
    "hm_words (hs_mem (hls_iteration r h)) = hm_words (hs_mem h)"
    "hs_saw_tohost (hls_iteration r h) = fold saw_store (pipe_dmem_req p') (hs_saw_tohost h)"
    "pipe_commit_trace (hs_pipe (hls_step (hls_fetch h))) = pipe_commit_trace p'"
proof -
  have st: "hls_step (hls_fetch h) = (hls_fetch h)\<lparr>hs_core := s', hs_pipe := p'\<rparr>"
    by (simp add: hls_step_def step)
  define g where "g = hls_branches r 0 (exe_alu_results (bs_execute s')) ((hls_fetch h)\<lparr>hs_core := s', hs_pipe := p'\<rparr>)"
  have g: "hs_core g = s'" "hs_pipe g = p'" "hs_mem g = hs_mem h" "hs_saw_tohost g = hs_saw_tohost h"
    "hs_prefix_commits g = hs_prefix_commits h"
    by (simp_all add: g_def)
  have pc: "hs_pipe (hls_commits r (pipe_commit_trace p') g) = p'\<lparr>pipe_commit_trace := []\<rparr>"
    using hls_commits_drain [OF out(1), of g r] out(2) g by simp
  have it: "hls_iteration r h = hls_memory r (pipe_dmem_req p') (hls_commits r (pipe_commit_trace p') g)"
    using g(2) pc by (simp add: hls_iteration_def st Let_def flip: g_def)
  show "hs_core (hls_iteration r h) = s'"
    "hs_pipe (hls_iteration r h) = p'\<lparr>pipe_commit_trace := [], pipe_dmem_req := []\<rparr>"
    "hm_words (hs_mem (hls_iteration r h)) = hm_words (hs_mem h)"
    "hs_saw_tohost (hls_iteration r h) = fold saw_store (pipe_dmem_req p') (hs_saw_tohost h)"
    unfolding it by (simp_all add: hls_memory_stores [OF out(3)] g pc)
  show "pipe_commit_trace (hs_pipe (hls_step (hls_fetch h))) = pipe_commit_trace p'"
    by (simp add: st)
qed

section \<open>Two iterations are one instruction\<close>

text \<open>The value the next instruction stores to tohost, if it does.\<close>

definition tohost_store :: "(u64 \<Rightarrow> Instr) \<Rightarrow> Arch \<Rightarrow> u64 option" where
  "tohost_store code A =
     (let i = code (arch_pc A)
      in case isa_store i (arch_read (arch_regs A) (isa_rs1 i)) (arch_read (arch_regs A) (isa_rs2 i)) of
           None \<Rightarrow> None
         | Some (a, d, sz) \<Rightarrow> if a = kTohostAddr then Some d else None)"

definition hls_between :: "(u64 \<Rightarrow> u32) \<Rightarrow> Arch \<Rightarrow> HlsState \<Rightarrow> bool" where
  "hls_between mem A h = (\<exists>req log dreqs. core_matches A (hs_core h) req log dreqs
     \<and> hs_pipe h = PipeSignals0\<lparr>pipe_imem_req := [req]\<rparr> \<and> hm_read (hs_mem h) = mem)"

lemma hm_read_words: "hm_words m = hm_words m' \<Longrightarrow> hm_read m = hm_read m'"
  by (intro ext) (simp only: hm_read_def)

lemma hls_fetch_answer:
  "hs_pipe h = PipeSignals0\<lparr>pipe_imem_req := [req]\<rparr> \<Longrightarrow>
    hs_pipe (hls_fetch h) = PipeSignals0\<lparr>pipe_imem_resp := [imem_answer (hm_read (hs_mem h)) req]\<rparr>"
  by (simp add: hls_fetch_def stream_empty_def stream_read_def stream_full_def stream_write_def PipeSignals0_def
      hls_imem_answer_def imem_answer_def)

lemma hls_fetch_nothing: "pipe_imem_req (hs_pipe h) = [] \<Longrightarrow> hls_fetch h = h"
  by (simp add: hls_fetch_def stream_empty_def)

lemma store_matches_saw:
  "store_matches (a, d, sz) req \<Longrightarrow> drq_is_store req \<and> saw_store req b = (if a = kTohostAddr then d = 1 else b)"
  by (auto simp: store_matches_def saw_store_def)

lemma tohost_store_stores:
  "arch_stores (isa_step code A) = arch_stores A @ ws \<Longrightarrow> list_all2 store_matches ws reqs \<Longrightarrow>
    list_all drq_is_store reqs
    \<and> fold saw_store reqs b = (case tohost_store code A of None \<Rightarrow> b | Some d \<Rightarrow> d = 1)
    \<and> (tohost_store code A \<noteq> None \<longrightarrow> reqs \<noteq> [])"
  by (auto simp: isa_step_def tohost_store_def Let_def store_matches_saw list_all2_Cons1 split: option.splits prod.splits)

lemma hls_two_iterations:
  assumes b: "hls_between mem A h" and t: "hs_prefix_commits h < target_commits r"
    and i: "core_supports (code (arch_pc A))" "aligned (arch_pc (isa_step code A))" "mem (arch_pc A) = encode (code (arch_pc A))"
    and r: "run_ok r"
  defines "h1 \<equiv> hls_iteration r h"
  defines "h2 \<equiv> hls_iteration r h1"
  shows "\<exists>ces1 ces2. pipe_commit_trace (hs_pipe (hls_step (hls_fetch h))) = ces1
    \<and> pipe_commit_trace (hs_pipe (hls_step (hls_fetch h1))) = ces2 \<and> clean (ces1 @ ces2) \<and> length (ces1 @ ces2) = 1
    \<and> arch_trace (isa_step code A) = arch_trace A @ map retired (ces1 @ ces2)
    \<and> hs_saw_tohost h1 = hs_saw_tohost h \<and> hls_between mem (isa_step code A) h2
    \<and> hs_saw_tohost h2 = (case tohost_store code A of None \<Rightarrow> hs_saw_tohost h | Some d \<Rightarrow> d = 1)
    \<and> (tohost_store code A \<noteq> None \<longrightarrow> ces1 = [])"
proof -
  obtain req log dreqs where m: "core_matches A (hs_core h) req log dreqs"
    and p: "hs_pipe h = PipeSignals0\<lparr>pipe_imem_req := [req]\<rparr>" and mem: "hm_read (hs_mem h) = mem"
    using b by (auto simp: hls_between_def)
  let ?p = "PipeSignals0\<lparr>pipe_imem_resp := [imem_answer mem req]\<rparr>"
  have c: "pipe_imem_req ?p = []" "pipe_imem_resp ?p = [imem_answer mem req]" "pipe_dmem_resp ?p = []" "pipe_commit_trace ?p = []"
    "\<not> stream_full (pipe_dmem_req ?p)"
    by (simp_all add: PipeSignals0_def stream_full_def)
  obtain s1 ces1 s2 ces2 new req' where
    s1: "boom_core_step (hs_core h) ?p = (s1, ?p\<lparr>pipe_imem_resp := [], pipe_commit_trace := ces1\<rparr>)"
    and s2: "boom_core_step s1 (?p\<lparr>pipe_imem_resp := []\<rparr>) = (s2, ?p\<lparr>pipe_imem_resp := [], pipe_imem_req := [req'],
        pipe_dmem_req := pipe_dmem_req ?p @ new, pipe_commit_trace := ces2\<rparr>)"
    and m2: "core_matches (isa_step code A) s2 req' (log @ ces1 @ ces2) (dreqs @ new)"
    and l: "length (ces1 @ ces2) = 1" "length ces1 + length new \<le> 1"
    using two_cycles_matches [OF m c i] by blast
  have f1: "hs_pipe (hls_fetch h) = ?p"
    using hls_fetch_answer [OF p] mem by simp
  have p0: "?p\<lparr>pipe_imem_resp := []\<rparr> = PipeSignals0" and p1: "?p\<lparr>pipe_imem_resp := [], pipe_commit_trace := ces1\<rparr> =
      PipeSignals0\<lparr>pipe_commit_trace := ces1\<rparr>"
    by (simp_all add: PipeSignals0_def)
  have len1: "length ces1 \<le> 1" "length ces2 \<le> 1"
    using l(1) by simp_all
  have step1: "boom_core_step (hs_core h) (hs_pipe (hls_fetch h)) = (s1, PipeSignals0\<lparr>pipe_commit_trace := ces1\<rparr>)"
    using s1 f1 p1 by simp
  note it1 = hls_iteration_core [OF step1, of r, folded h1_def]
  have h1: "hs_core h1 = s1" "hs_pipe h1 = PipeSignals0" "hm_words (hs_mem h1) = hm_words (hs_mem h)"
    "hs_saw_tohost h1 = hs_saw_tohost h" "pipe_commit_trace (hs_pipe (hls_step (hls_fetch h))) = ces1"
    using it1 t len1 by (simp_all add: PipeSignals0_def)
  have f2: "hls_fetch h1 = h1"
    by (rule hls_fetch_nothing) (simp add: h1 PipeSignals0_def)
  have c1: "clean ces1"
    using step_clean [OF step1] by (simp add: f1 PipeSignals0_def)
  have pre: "hs_prefix_commits h1 < target_commits r" if "ces2 \<noteq> []"
  proof -
    have "ces1 = []"
      using that l(1) by (cases ces1; cases ces2; simp)
    then show ?thesis
      using hls_iteration_commits(2) [OF r, of h] t h1(5) by (simp add: h1_def recorded_def)
  qed
  have step2: "boom_core_step (hs_core h1) (hs_pipe (hls_fetch h1)) =
      (s2, PipeSignals0\<lparr>pipe_imem_req := [req'], pipe_dmem_req := new, pipe_commit_trace := ces2\<rparr>)"
    using s2 h1 f2 p0 by (simp add: PipeSignals0_def)
  have c2: "clean ces2"
    using step_clean [OF step2] by (simp add: f2 h1 PipeSignals0_def)
  obtain ws where ws: "arch_stores (isa_step code A) = arch_stores A @ ws" "list_all2 store_matches ws new"
  proof -
    obtain ws where w: "arch_stores (isa_step code A) = arch_stores A @ ws"
      by (simp add: isa_step_def Let_def)
    have "list_all2 store_matches (arch_stores A @ ws) (dreqs @ new)" "length (arch_stores A) = length dreqs"
      using m m2 w by (auto simp: core_matches_def dest: list_all2_lengthD)
    then show ?thesis
      using that w by (simp add: list_all2_append)
  qed
  note st = tohost_store_stores [OF ws, of "hs_saw_tohost h"]
  note it2 = hls_iteration_core [OF step2, of r, folded h2_def]
  have h2: "hs_core h2 = s2" "hs_pipe h2 = PipeSignals0\<lparr>pipe_imem_req := [req']\<rparr>" "hm_words (hs_mem h2) = hm_words (hs_mem h1)"
    "hs_saw_tohost h2 = fold saw_store new (hs_saw_tohost h1)" "pipe_commit_trace (hs_pipe (hls_step (hls_fetch h1))) = ces2"
    using it2 pre len1 st by (simp_all add: PipeSignals0_def)
  have "hm_read (hs_mem h2) = mem"
    using hm_read_words [of "hs_mem h2" "hs_mem h"] h1(3) h2(3) mem by simp
  then have "hls_between mem (isa_step code A) h2"
    using m2 h2 by (auto simp: hls_between_def)
  moreover have "arch_trace (isa_step code A) = arch_trace A @ map retired (ces1 @ ces2)"
    using m m2 by (simp add: core_matches_def)
  moreover have "hs_saw_tohost h2 = (case tohost_store code A of None \<Rightarrow> hs_saw_tohost h | Some d \<Rightarrow> d = 1)"
    using h2(4) h1(4) st by simp
  moreover have "tohost_store code A \<noteq> None \<longrightarrow> ces1 = []"
    using st l(2) by (cases new) auto
  ultimately show ?thesis
    using h1 h2 c1 c2 l(1) by (intro exI [of _ ces1] exI [of _ ces2]) simp
qed


section \<open>The run of a program\<close>

text \<open>
  The first \<open>n\<close> instructions lie in the image's address range and do not store to tohost.
\<close>

fun quiet_run :: "(u64 \<Rightarrow> Instr) \<Rightarrow> nat \<Rightarrow> Arch \<Rightarrow> bool" where
  "quiet_run code 0 A \<longleftrightarrow> True"
| "quiet_run code (Suc n) A \<longleftrightarrow>
     kEntryPc \<le> arch_pc A \<and> tohost_store code A = None \<and> quiet_run code n (isa_step code A)"

lemma hls_stopped:
  assumes "\<not> (hs_prefix_commits h < target_commits r \<and> \<not> hs_saw_tohost h)"
  shows "hls_loop r n h = h" "hls_log r n h = []"
  by (cases n; simp only: hls_loop.simps hls_log.simps if_not_P [OF assms])+

lemma hls_loop_add: "hls_loop r (m + n) h = hls_loop r n (hls_loop r m h)"
proof (induction m arbitrary: h)
  case (Suc m)
  show ?case
  proof (cases "hs_prefix_commits h < target_commits r \<and> \<not> hs_saw_tohost h")
    case False
    show ?thesis
      by (simp only: hls_stopped(1) [OF False])
  qed (simp add: Suc)
qed simp

lemma hls_log_add: "hls_log r (m + n) h = hls_log r m h @ hls_log r n (hls_loop r m h)"
proof (induction m arbitrary: h)
  case (Suc m)
  show ?case
  proof (cases "hs_prefix_commits h < target_commits r \<and> \<not> hs_saw_tohost h")
    case False
    show ?thesis
      by (simp only: hls_stopped [OF False] append_Nil)
  qed (simp add: Suc)
qed simp

text \<open>Two iterations in the loop: it may stop between them, when nothing more happens.\<close>

lemma hls_loop_two:
  assumes "hls_between mem A h" "hs_prefix_commits h < target_commits r" "\<not> hs_saw_tohost h"
    and i: "core_supports (code (arch_pc A))" "aligned (arch_pc (isa_step code A))" "mem (arch_pc A) = encode (code (arch_pc A))"
    and r: "run_ok r"
  obtains h2 ces where "hls_between mem (isa_step code A) h2" "clean ces" "length ces = 1"
    "arch_trace (isa_step code A) = arch_trace A @ map retired ces"
    "hs_saw_tohost h2 = (tohost_store code A = Some 1)"
    "hs_prefix_commits h2 = min (target_commits r) (hs_prefix_commits h + length (recorded ces))"
    "\<And>n. hls_log r (Suc (Suc n)) h = ces @ hls_log r n h2"
    "\<And>n. hs_saw_tohost (hls_loop r (Suc (Suc n)) h) = hs_saw_tohost (hls_loop r n h2)"
    "\<And>n. hs_prefix_commits (hls_loop r (Suc (Suc n)) h) = hs_prefix_commits (hls_loop r n h2)"
proof -
  define h1 where "h1 = hls_iteration r h"
  define h2 where "h2 = hls_iteration r h1"
  obtain ces1 ces2 where ces: "pipe_commit_trace (hs_pipe (hls_step (hls_fetch h))) = ces1"
      "pipe_commit_trace (hs_pipe (hls_step (hls_fetch h1))) = ces2" "clean (ces1 @ ces2)" "length (ces1 @ ces2) = 1"
      "arch_trace (isa_step code A) = arch_trace A @ map retired (ces1 @ ces2)"
    and saw1: "hs_saw_tohost h1 = hs_saw_tohost h" and b2: "hls_between mem (isa_step code A) h2"
    and saw2: "hs_saw_tohost h2 = (case tohost_store code A of None \<Rightarrow> hs_saw_tohost h | Some d \<Rightarrow> d = 1)"
    and order: "tohost_store code A \<noteq> None \<longrightarrow> ces1 = []"
    using hls_two_iterations [OF assms(1,2) i r] unfolding h1_def h2_def by blast
  have p1: "hs_prefix_commits h1 = min (target_commits r) (hs_prefix_commits h + length (recorded ces1))"
    using hls_iteration_commits(2) [OF r, of h] assms(2) ces(1) by (simp add: h1_def)
  have p2: "hs_prefix_commits h2 = min (target_commits r) (hs_prefix_commits h1 + length (recorded ces2))"
    using hls_iteration_commits(2) [OF r, of h1] p1 ces(2) by (simp add: h2_def)
  have l1: "hls_log r (Suc m) h = ces1 @ hls_log r m h1" "hls_loop r (Suc m) h = hls_loop r m h1" for m
    using assms(2,3) ces(1) by (simp_all add: h1_def)
  have rest: "hls_log r (Suc m) h1 = ces2 @ hls_log r m h2 \<and> hs_saw_tohost (hls_loop r (Suc m) h1) = hs_saw_tohost (hls_loop r m h2)
      \<and> hs_prefix_commits (hls_loop r (Suc m) h1) = hs_prefix_commits (hls_loop r m h2)" for m
  proof (cases "hs_prefix_commits h1 < target_commits r")
    case True
    then show ?thesis
      using saw1 assms(3) ces(2) by (simp add: h2_def)
  next
    case False
    then have c: "ces1 \<noteq> []" "ces2 = []"
      using p1 assms(2) ces(4) by (cases ces1; cases ces2; simp add: recorded_def)+
    then have h2: "hs_prefix_commits h2 = hs_prefix_commits h1" "hs_saw_tohost h2 = hs_saw_tohost h1"
      using p1 p2 saw1 saw2 order by (auto simp: recorded_def)
    have stop: "\<not> (hs_prefix_commits h1 < target_commits r \<and> \<not> hs_saw_tohost h1)"
        "\<not> (hs_prefix_commits h2 < target_commits r \<and> \<not> hs_saw_tohost h2)"
      using False h2 by simp_all
    show ?thesis
      using h2 c by (simp only: hls_stopped [OF stop(1)] hls_stopped [OF stop(2)]) simp
  qed
  have "hs_prefix_commits h2 = min (target_commits r) (hs_prefix_commits h + length (recorded (ces1 @ ces2)))"
    using p1 p2 by (simp add: recorded_def)
  moreover have "hs_saw_tohost h2 = (tohost_store code A = Some 1)"
    using saw2 assms(3) by (simp split: option.split)
  ultimately show thesis
    using that [of h2 "ces1 @ ces2"] b2 ces l1 rest by (simp only: append_assoc simp_thms)
qed

lemma hls_runs:
  assumes r: "run_ok r"
  shows "hls_between mem A h \<Longrightarrow> \<not> hs_saw_tohost h \<Longrightarrow> hs_prefix_commits h + Suc k \<le> target_commits r \<Longrightarrow>
    runs_supported mem code (Suc k) A \<Longrightarrow> quiet_run code k A \<Longrightarrow>
    clean (hls_log r (2 * Suc k) h)
    \<and> arch_trace ((isa_step code ^^ Suc k) A) = arch_trace A @ map retired (hls_log r (2 * Suc k) h)
    \<and> hs_saw_tohost (hls_loop r (2 * Suc k) h) = (tohost_store code ((isa_step code ^^ k) A) = Some 1)"
proof (induction k arbitrary: A h)
  case 0
  have "hs_prefix_commits h < target_commits r"
    using 0 by simp
  from hls_loop_two [OF 0(1) this 0(2) _ _ _ r, of code] obtain h2 ces where
    "clean ces" "arch_trace (isa_step code A) = arch_trace A @ map retired ces"
    "hs_saw_tohost h2 = (tohost_store code A = Some 1)"
    "\<And>n. hls_log r (Suc (Suc n)) h = ces @ hls_log r n h2"
    "\<And>n. hs_saw_tohost (hls_loop r (Suc (Suc n)) h) = hs_saw_tohost (hls_loop r n h2)"
    using 0(4) by (metis runs_supported.simps(2))
  then show ?case
    by (simp add: numeral_2_eq_2 del: hls_log.simps(2) hls_loop.simps(2))
next
  case (Suc k)
  have "hs_prefix_commits h < target_commits r"
    using Suc.prems by simp
  from hls_loop_two [OF Suc.prems(1) this Suc.prems(2) _ _ _ r, of code] obtain h2 ces where
    h2: "hls_between mem (isa_step code A) h2" "clean ces" "length ces = 1"
    "arch_trace (isa_step code A) = arch_trace A @ map retired ces"
    "hs_saw_tohost h2 = (tohost_store code A = Some 1)"
    "hs_prefix_commits h2 = min (target_commits r) (hs_prefix_commits h + length (recorded ces))"
    "\<And>n. hls_log r (Suc (Suc n)) h = ces @ hls_log r n h2"
    "\<And>n. hs_saw_tohost (hls_loop r (Suc (Suc n)) h) = hs_saw_tohost (hls_loop r n h2)"
    using Suc.prems(4) by (metis runs_supported.simps(2))
  have "length (recorded ces) \<le> 1"
    using h2(3) length_filter_le [of _ ces] by (simp add: recorded_def del: length_filter_le)
  then have p: "hs_prefix_commits h2 + Suc k \<le> target_commits r"
    using h2(6) Suc.prems(3) by simp
  have q: "\<not> hs_saw_tohost h2" "quiet_run code k (isa_step code A)" "runs_supported mem code (Suc k) (isa_step code A)"
    using Suc.prems h2(5) by simp_all
  have two: "2 * Suc (Suc k) = Suc (Suc (2 * Suc k))"
    by simp
  show ?case
    using Suc.IH [OF h2(1) q(1) p q(3,2)] h2(2,4,7,8)
    unfolding two funpow_Suc_right comp_apply by (simp only: map_append append_assoc clean_append simp_thms)
qed

text \<open>The state the bench starts from, and its first iteration: the fetch of the entry.\<close>

definition entry_core :: BoomCoreState where
  "entry_core = BoomCoreState0\<lparr>bs_frontend := (bs_frontend BoomCoreState0)
     \<lparr>fe_pc := kEntryPc, fe_reset_done := True, fe_request_sent := False,
      fe_response_received := False, fe_fetch_packet_valid := False\<rparr>\<rparr>"

definition entry_state :: BoomCoreState where
  "entry_state = fst (boom_core_step entry_core PipeSignals0)"

definition entry_request :: ImemRequest where
  "entry_request = ImemRequest0\<lparr>irq_address := kEntryPc, irq_fetch_id := 0, irq_kill := False\<rparr>"

lemma entry_step: "boom_core_step entry_core PipeSignals0 = (entry_state, PipeSignals0\<lparr>pipe_imem_req := [entry_request]\<rparr>)"
proof -
  have "snd (boom_core_step entry_core PipeSignals0) = PipeSignals0\<lparr>pipe_imem_req := [entry_request]\<rparr>"
    by code_simp
  then show ?thesis
    unfolding entry_state_def by (metis prod.collapse)
qed

lemma entry_fresh: "fresh_core entry_state"
  unfolding entry_state_def by code_simp

lemma entry_matches: "core_matches (arch_at kEntryPc) entry_state entry_request [] []"
  using fresh_matches [OF entry_fresh, of entry_request] by (simp add: entry_request_def ImemRequest0_def)

lemma hls_start_iteration:
  fixes r :: HlsRun and m :: HexMem
  defines "h \<equiv> hls_iteration r (hls_start r m)"
  shows "hls_between (hm_read m) (arch_at kEntryPc) h" "\<not> hs_saw_tohost h"
    "pipe_commit_trace (hs_pipe (hls_step (hls_fetch (hls_start r m)))) = []" "hs_prefix_commits (hls_start r m) = 0"
    "\<not> hs_saw_tohost (hls_start r m)"
proof -
  have start: "hs_core (hls_start r m) = entry_core" "hs_pipe (hls_start r m) = PipeSignals0" "hs_mem (hls_start r m) = m"
    "hs_saw_tohost (hls_start r m) = False" "hs_prefix_commits (hls_start r m) = 0"
    by (simp_all add: hls_start_def entry_core_def)
  have "hls_fetch (hls_start r m) = hls_start r m"
    by (rule hls_fetch_nothing) (simp add: start PipeSignals0_def)
  then have "boom_core_step (hs_core (hls_start r m)) (hs_pipe (hls_fetch (hls_start r m))) =
      (entry_state, PipeSignals0\<lparr>pipe_imem_req := [entry_request]\<rparr>)"
    by (simp add: start entry_step)
  note it = hls_iteration_core [OF this, of r, folded h_def]
  have "hm_read (hs_mem h) = hm_read m"
    using hm_read_words [of "hs_mem h" m] it(3) by (simp add: PipeSignals0_def start)
  then show "hls_between (hm_read m) (arch_at kEntryPc) h" "\<not> hs_saw_tohost h"
    "pipe_commit_trace (hs_pipe (hls_step (hls_fetch (hls_start r m)))) = []" "hs_prefix_commits (hls_start r m) = 0"
    "\<not> hs_saw_tohost (hls_start r m)"
    using it entry_matches by (auto simp: hls_between_def PipeSignals0_def start)
qed

section \<open>The trace of the instruction set\<close>

text \<open>What the comparator reads of one retired instruction.\<close>

definition isa_trace_event :: "u64 \<times> u32 \<times> (u8 \<times> u64) option \<Rightarrow> Event" where
  "isa_trace_event t = (case t of (pc, w, rd) \<Rightarrow>
     \<lparr>ev_type = ''commit'', ev_pc = hex_u64 pc, ev_instruction = hex_u32 w,
      ev_rd_valid = bool_text (rd \<noteq> None),
      ev_rd = (case rd of None \<Rightarrow> ''null'' | Some (r, v) \<Rightarrow> dec_string (unat r)),
      ev_rd_value = (case rd of None \<Rightarrow> ''null'' | Some (r, v) \<Rightarrow> hex_u64 v),
      ev_exception = ''false'', ev_exception_cause = ''null'',
      ev_taken = [], ev_branch_mispredict = ''null'', ev_normalized_cycle = []\<rparr>)"

lemma commit_event_retired: "\<not> ce_exception ce \<Longrightarrow> hls_commit_event ce = isa_trace_event (retired ce)"
  by (simp add: hls_commit_event_def isa_trace_event_def retired_def bool_text_def)

lemma quiet_run_trace:
  "quiet_run code n A \<Longrightarrow> list_all (\<lambda>t. kEntryPc \<le> fst t) (arch_trace A) \<Longrightarrow>
    list_all (\<lambda>t. kEntryPc \<le> fst t) (arch_trace ((isa_step code ^^ n) A))"
proof (induction n arbitrary: A)
  case (Suc n)
  have "list_all (\<lambda>t. kEntryPc \<le> fst t) (arch_trace (isa_step code A))"
    using Suc.prems by (simp add: isa_step_def isa_event_def Let_def)
  then show ?case
    using Suc by (simp add: funpow_swap1)
qed simp

lemma hls_log_isa:
  assumes r: "run_ok r" and n: "n = Suc k" "n \<le> target_commits r"
    and run: "runs_supported (hm_read m) code n (arch_at kEntryPc)" "quiet_run code k (arch_at kEntryPc)"
      "kEntryPc \<le> arch_pc ((isa_step code ^^ k) (arch_at kEntryPc))"
  shows "map hls_commit_event (recorded (hls_log r (2 * n + 1) (hls_start r m))) =
      map isa_trace_event (arch_trace ((isa_step code ^^ n) (arch_at kEntryPc)))"
    and "hs_saw_tohost (hls_loop r (2 * n + 1) (hls_start r m)) =
      (tohost_store code ((isa_step code ^^ k) (arch_at kEntryPc)) = Some 1)"
proof -
  let ?A = "arch_at kEntryPc" and ?h = "hls_iteration r (hls_start r m)"
  note start = hls_start_iteration [where r = r and m = m]
  have t: "0 < target_commits r"
    using n by simp
  have p: "hs_prefix_commits ?h + Suc k \<le> target_commits r"
    using hls_iteration_commits(2) [OF r, of "hls_start r m"] start(3,4) n by (simp add: recorded_def)
  note runs = hls_runs [OF r start(1,2) p run(1) [unfolded n(1)] run(2)]
  have unroll: "hls_log r (2 * n + 1) (hls_start r m) = hls_log r (2 * Suc k) ?h"
      "hls_loop r (2 * n + 1) (hls_start r m) = hls_loop r (2 * Suc k) ?h"
    using t start(3-5) by (simp_all add: n(1))
  have trace: "arch_trace ((isa_step code ^^ n) ?A) = map retired (hls_log r (2 * Suc k) ?h)"
    using runs by (simp only: n(1)) (simp add: arch_at_def)
  have "list_all (\<lambda>t. kEntryPc \<le> fst t) (arch_trace ((isa_step code ^^ n) ?A))"
  proof -
    have "list_all (\<lambda>t. kEntryPc \<le> fst t) (arch_trace ((isa_step code ^^ k) ?A))"
      by (rule quiet_run_trace [OF run(2)]) (simp add: arch_at_def)
    then show ?thesis
      using run(3) by (simp add: n(1) isa_step_def [of code "(isa_step code ^^ k) ?A"] isa_event_def Let_def)
  qed
  then have "recorded (hls_log r (2 * Suc k) ?h) = hls_log r (2 * Suc k) ?h"
    unfolding trace by (auto simp: recorded_def list_all_iff retired_def filter_id_conv)
  then show "map hls_commit_event (recorded (hls_log r (2 * n + 1) (hls_start r m))) =
      map isa_trace_event (arch_trace ((isa_step code ^^ n) ?A))"
    using runs unfolding unroll trace by (simp add: clean_def list_all_iff commit_event_retired)
  show "hs_saw_tohost (hls_loop r (2 * n + 1) (hls_start r m)) = (tohost_store code ((isa_step code ^^ k) ?A) = Some 1)"
    using runs unfolding unroll by blast
qed


lemma isa_steps_trace_length: "length (arch_trace ((isa_step code ^^ n) A)) = length (arch_trace A) + n"
  by (induction n) (simp_all add: isa_step_trace_length)

lemma hls_loop_isa:
  assumes r: "run_ok r" and n: "n = Suc k" "target_commits r = n" "2 * n + 1 \<le> kMaxCycles"
    and run: "runs_supported (hm_read m) code n (arch_at kEntryPc)" "quiet_run code k (arch_at kEntryPc)"
      "kEntryPc \<le> arch_pc ((isa_step code ^^ k) (arch_at kEntryPc))"
  defines "h \<equiv> hls_loop r kMaxCycles (hls_start r m)"
  shows "hls_read h = map isa_trace_event (arch_trace ((isa_step code ^^ n) (arch_at kEntryPc)))"
    and "hs_prefix_commits h = n"
    and "hs_saw_tohost h = (tohost_store code ((isa_step code ^^ k) (arch_at kEntryPc)) = Some 1)"
proof -
  define g where "g = hls_loop r (2 * n + 1) (hls_start r m)"
  let ?log = "hls_log r (2 * n + 1) (hls_start r m)"
  have le: "n \<le> target_commits r"
    using n by simp
  note log = hls_log_isa [OF r n(1) le run, folded g_def]
  have len: "length (recorded ?log) = n"
    using arg_cong [OF log(1), of length] by (simp add: isa_steps_trace_length arch_at_def)
  have "hs_prefix_commits (hls_start r m) \<le> target_commits r"
    by (simp add: hls_start_iteration(4))
  note commits = hls_loop_commits [OF r this, of "2 * n + 1", folded g_def]
  have g: "hs_prefix_commits g = n" "hls_read g = map isa_trace_event (arch_trace ((isa_step code ^^ n) (arch_at kEntryPc)))"
    using commits log(1) len n(2) hls_read_start [OF r] by (simp_all add: hls_start_iteration(4))
  have "\<not> (hs_prefix_commits g < target_commits r \<and> \<not> hs_saw_tohost g)"
    using g(1) n(2) by simp
  note stop = hls_stopped(1) [OF this]
  have "h = hls_loop r (kMaxCycles - (2 * n + 1)) g"
    unfolding h_def g_def hls_loop_add [symmetric] using n(3) by simp
  then have "h = g"
    using stop by simp
  then show "hls_read h = map isa_trace_event (arch_trace ((isa_step code ^^ n) (arch_at kEntryPc)))"
    and "hs_prefix_commits h = n"
    and "hs_saw_tohost h = (tohost_store code ((isa_step code ^^ k) (arch_at kEntryPc)) = Some 1)"
    using g log(2) by simp_all
qed

section \<open>Property\<close>

text \<open>
  C5: The trace of the HLS bench is the trace of the instruction set. If the image holds, at
  the program counters an n-step run from the entry address reaches, encodings of supported
  instructions, n is the number of commits the program is run for and fits the cycle limit,
  the run stays in the image's address range and only its last instruction may store to
  tohost, then the events the comparator reads from the written trace are those of the
  architectural run, in order; and the bench reports success, in complete mode exactly when
  that last instruction stores 1 to tohost.
\<close>
theorem bench_traces_isa:
  assumes "hm_load_hex file = Some m" "quote \<notin> set (hr_source r)" "quote \<notin> set (ps_name (hr_program r))"
    and "target_commits r = Suc k" "2 * Suc k + 1 \<le> kMaxCycles"
    and "runs_supported (hm_read m) code (Suc k) (arch_at kEntryPc)" "quiet_run code k (arch_at kEntryPc)"
      "kEntryPc \<le> arch_pc ((isa_step code ^^ k) (arch_at kEntryPc))"
  shows "load_events (snd (hls_run_program r file True)) True =
      map isa_trace_event (arch_trace ((isa_step code ^^ Suc k) (arch_at kEntryPc)))
    \<and> fst (hls_run_program r file True) =
      (if hr_complete r then tohost_store code ((isa_step code ^^ k) (arch_at kEntryPc)) = Some 1 else True)"
proof -
  have r: "run_ok r"
    using assms(2,3) by (simp add: run_ok_def)
  define h where "h = hls_loop r kMaxCycles (hls_start r m)"
  note h = hls_loop_isa [OF r refl assms(4-8), folded h_def]
  have last: "hls_read (hls_emit c (hls_metadata_fields r ''end'' i (hls_status r b)) h') = hls_read h'" for c i b h'
    by (rule hls_read_metadata [OF r]) (simp_all add: hls_status_def)
  show ?thesis
    using h assms(4) by (cases "hr_complete r") (simp_all add: hls_run_program_def assms(1) Let_def last
        hls_read_kinds [OF r] hls_verdict_def target_commits_def flip: h_def hls_read_def)
qed


text \<open>The reference program independent_alu, up to its store to tohost.\<close>

definition alu_image :: "string list" where
  "alu_image =
     [''# hand-encoded RV64I fallback, load address 0x80000000, tohost 0x80000080'',
      ''# 0x80000000: addi x1,x0,5 ; 0x80000004: addi x2,x0,7'',
      ''0070011300500093'',
      ''# 0x80000008: add x3,x1,x2 ; 0x8000000c: addi x7,x0,12'',
      ''00c00393002081b3'',
      ''# 0x80000010: bne x3,x7,fail ; 0x80000014: auipc x5,0'',
      ''0000029700719c63'',
      ''# 0x80000018: addi x5,x5,0x6c ; 0x8000001c: addi x6,x0,1'',
      ''0010031306c28293'',
      ''# 0x80000020: sd x6,0(x5) ; 0x80000024: jal x0,0'',
      ''0000006f0062b023'']"

definition alu_memory :: HexMem where
  "alu_memory = the (hm_load_hex (Some alu_image))"

definition alu_code :: "u64 \<Rightarrow> Instr" where
  "alu_code pc =
     (if pc = 0x80000000 then Imm OpAdd 1 0 5
      else if pc = 0x80000004 then Imm OpAdd 2 0 7
      else if pc = 0x80000008 then Reg OpAdd 3 1 2
      else if pc = 0x8000000C then Imm OpAdd 7 0 12
      else if pc = 0x80000010 then Branch Bne 3 7 12
      else if pc = 0x80000014 then Auipc 5 0
      else if pc = 0x80000018 then Imm OpAdd 5 5 0x6C
      else if pc = 0x8000001C then Imm OpAdd 6 0 1
      else Store 3 5 6 0)"

definition alu_run :: HlsRun where
  "alu_run = \<lparr>hr_source = ''hls_cpp'', hr_program = hd kPrograms, hr_complete = True\<rparr>"

lemma alu_loads: "hm_load_hex (Some alu_image) = Some alu_memory"
  by code_simp

lemma alu_supported: "runs_supported (hm_read alu_memory) alu_code 9 (arch_at kEntryPc)"
  by code_simp

lemma alu_quiet: "quiet_run alu_code 8 (arch_at kEntryPc)"
  by code_simp

text \<open>The same run with the state passed forwards, for evaluation.\<close>

fun isa_run :: "(u64 \<Rightarrow> Instr) \<Rightarrow> nat \<Rightarrow> Arch \<Rightarrow> Arch" where
  "isa_run code 0 A = A"
| "isa_run code (Suc n) A = isa_run code n (isa_step code A)"

lemma isa_run_steps: "(isa_step code ^^ n) A = isa_run code n A"
  by (induction n arbitrary: A) (simp_all add: funpow_Suc_right del: funpow.simps(2))

lemma alu_last:
  "kEntryPc \<le> arch_pc (isa_run alu_code 8 (arch_at kEntryPc))"
  "tohost_store alu_code (isa_run alu_code 8 (arch_at kEntryPc)) = Some 1"
  "map fst (arch_trace (isa_run alu_code 9 (arch_at kEntryPc))) =
    [0x80000000, 0x80000004, 0x80000008, 0x8000000C, 0x80000010, 0x80000014, 0x80000018, 0x8000001C, 0x80000020]"
  by code_simp+

lemma isa_trace_event_pc: "ev_pc (isa_trace_event t) = hex_u64 (fst t)"
  by (simp add: isa_trace_event_def split_beta)

lemma bench_traces_isa_witness:
  "fst (hls_run_program alu_run (Some alu_image) True) \<and>
   map ev_pc (load_events (snd (hls_run_program alu_run (Some alu_image) True)) True) =
     map hex_u64 [0x80000000, 0x80000004, 0x80000008, 0x8000000C, 0x80000010, 0x80000014, 0x80000018, 0x8000001C, 0x80000020]"
proof -
  have nine: "Suc 8 = 9" by simp
  have r: "quote \<notin> set (hr_source alu_run)" "quote \<notin> set (ps_name (hr_program alu_run))" "target_commits alu_run = Suc 8"
    "2 * Suc 8 + 1 \<le> kMaxCycles" "hr_complete alu_run"
    by (simp_all add: alu_run_def kPrograms_def target_commits_def kMaxCycles_def)
  show ?thesis
    using bench_traces_isa [OF alu_loads r(1-4), of alu_code, unfolded nine isa_run_steps, OF alu_supported alu_quiet alu_last(1)]
      alu_last(2) alu_last(3) [THEN arg_cong [of _ _ "map hex_u64"]] r(5)
    by (simp add: comp_def isa_trace_event_pc del: list.map)
qed

end
