(* ===== verification/AllDecode.thy ===== *)
theory AllDecode
  imports Decode
begin

text \<open>
  The decoder of the older core in one file, src/boom_all.cpp: the expansion of compressed
  instructions, the immediate extractors and \<open>decode_one\<close>, with its cases grouped as in
  \<open>Decode\<close>; and how it compares with the decoder of src/decode.cpp. The names of this file's
  functions carry the prefix \<open>all_\<close>.
\<close>

section \<open>Compressed instructions\<close>

text \<open>
  \<open>decompress_rvc\<close>, one definition per quadrant; the operand is the \<open>uint16_t\<close> promoted.
  A form the switch does not handle falls through to the final \<open>return 0\<close>.
\<close>

definition rvc_imm6 :: "u32 \<Rightarrow> u32" where
  "rvc_imm6 r = (drop_bit 2 r AND 0x1F) OR push_bit 5 (drop_bit 12 r)"

definition rvc_simm6 :: "u32 \<Rightarrow> u32" where
  "rvc_simm6 r = (let imm = rvc_imm6 r in if imm AND 0x20 \<noteq> 0 then imm OR 0xFFFFFFC0 else imm)"

definition rvc_mem_imm :: "u32 \<Rightarrow> u32" where
  "rvc_mem_imm r = (drop_bit 5 r AND 0x1) OR (drop_bit 10 r AND 0x1C) OR (drop_bit 2 r AND 0x40) OR (drop_bit 12 r AND 0x20)"

definition rvc_jump_imm :: "u32 \<Rightarrow> u32" where
  "rvc_jump_imm r =
     (let imm = (drop_bit 3 r AND 0x3) OR (drop_bit 2 r AND 0x1C) OR (drop_bit 7 r AND 0x10) OR (drop_bit 1 r AND 0x60)
            OR (drop_bit 7 r AND 0x80) OR (drop_bit 8 r AND 0x300) OR push_bit 10 (drop_bit 12 r)
      in if imm AND 0x400 \<noteq> 0 then imm OR 0xFFFFF800 else imm)"

definition rvc_branch_imm :: "u32 \<Rightarrow> u32" where
  "rvc_branch_imm r =
     (let imm = (drop_bit 3 r AND 0x3) OR (drop_bit 2 r AND 0x1C) OR (drop_bit 10 r AND 0x60) OR push_bit 7 (drop_bit 12 r);
          imm = (if imm AND 0x100 \<noteq> 0 then imm OR 0xFFFFFE00 else imm);
          imm = (drop_bit 1 imm AND 0x3F) OR push_bit 6 (imm AND 0x1) OR push_bit 7 (drop_bit 8 imm)
            OR push_bit 11 (drop_bit 7 imm AND 0x1) OR push_bit 8 (drop_bit 3 imm AND 0x10)
      in if imm AND 0x800 \<noteq> 0 then imm OR 0xFFFFF000 else imm)"

text \<open>The four 5- and 3-bit register fields, as the locals of \<open>decompress_rvc\<close>.\<close>

definition rvc_rd :: "u32 \<Rightarrow> u32" where "rvc_rd r = drop_bit 7 r AND 0x1F"
definition rvc_rs2 :: "u32 \<Rightarrow> u32" where "rvc_rs2 r = drop_bit 2 r AND 0x1F"
definition rvc_rd_pr :: "u32 \<Rightarrow> u32" where "rvc_rd_pr r = drop_bit 2 r AND 0x7"
definition rvc_rs1_pr :: "u32 \<Rightarrow> u32" where "rvc_rs1_pr r = 8 + (drop_bit 7 r AND 0x7)"

text \<open>\<open>(a << 20) | (b << 15) | (f3 << 12) | (d << 7) | opc\<close>.\<close>

definition rvc_word :: "u32 \<Rightarrow> u32 \<Rightarrow> u32 \<Rightarrow> u32 \<Rightarrow> u32 \<Rightarrow> u32" where
  "rvc_word a b f3 d opc = push_bit 20 a OR push_bit 15 b OR push_bit 12 f3 OR push_bit 7 d OR opc"

definition rvc_c0 :: "u32 \<Rightarrow> u32 \<Rightarrow> u32" where
  "rvc_c0 f3 r =
     (if f3 = 0 then
        if r = 0 then 0x13
        else let nzuimm = (drop_bit 5 r AND 0x1) OR (drop_bit 1 r AND 0x3C) OR (drop_bit 7 r AND 0x30) OR (drop_bit 2 r AND 0x1C0)
             in rvc_word nzuimm 2 0 (8 + rvc_rd_pr r) 0x13
      else if f3 = 2 then rvc_word (rvc_mem_imm r) (rvc_rs1_pr r) 3 (8 + rvc_rd_pr r) 0x03
      else if f3 = 4 \<or> f3 = 6 then
        let imm = rvc_mem_imm r
        in push_bit 25 (drop_bit 5 imm) OR rvc_word (8 + rvc_rd_pr r) (rvc_rs1_pr r) 3 (imm AND 0x1F) 0x23
      else 0)"

definition rvc_arith :: "u32 \<Rightarrow> u32" where
  "rvc_arith r =
     (let f2b = drop_bit 10 r AND 0x3; f1 = drop_bit 12 r AND 0x1; rs1 = rvc_rd r; imm = rvc_imm6 r;
          rs2_p = 8 + rvc_rs2 r; rd_p = 8 + rvc_rd_pr r; f2_low = drop_bit 5 r AND 0x3
      in if f1 = 0 then
           if f2b = 0 then rvc_word imm rs1 5 rs1 0x13
           else if f2b = 1 then 0x400 OR rvc_word imm rs1 5 rs1 0x13
           else if f2b = 2 then rvc_word imm rs1 7 rs1 0x13
           else if f2_low = 0 then rvc_word rs2_p rd_p 0 rd_p 0x33
           else if f2_low = 1 then rvc_word rs2_p rd_p 4 rd_p 0x33
           else if f2_low = 2 then rvc_word rs2_p rd_p 6 rd_p 0x33
           else rvc_word rs2_p rd_p 7 rd_p 0x33
         else rvc_word rs2_p rd_p 0 rd_p 0x3B)"

definition rvc_c1 :: "u32 \<Rightarrow> u32 \<Rightarrow> u32" where
  "rvc_c1 f3 r =
     (let rd = rvc_rd r
      in if f3 = 0 then rvc_word (rvc_simm6 r) 0 0 rd 0x13
         else if f3 = 1 then
           if rd \<noteq> 0 then rvc_word (rvc_simm6 r) rd 0 rd 0x1B
           else push_bit 12 (rvc_jump_imm r) OR push_bit 15 1 OR push_bit 7 1 OR 0x6F
         else if f3 = 2 then rvc_word (rvc_simm6 r) 0 0 rd 0x13
         else if f3 = 3 then
           if rd = 2 then
             let imm = (drop_bit 3 r AND 0x1) OR (drop_bit 2 r AND 0xE) OR (drop_bit 5 r AND 0x30) OR push_bit 7 (drop_bit 12 r);
                 imm = (if imm AND 0x100 \<noteq> 0 then imm OR 0xFFFFFE00 else imm)
             in rvc_word imm 2 0 2 0x13
           else if rd \<noteq> 0 then push_bit 12 (rvc_simm6 r AND 0xFFFFF) OR push_bit 7 rd OR 0x37
           else 0
         else if f3 = 4 then rvc_arith r
         else if f3 = 5 then push_bit 12 (rvc_jump_imm r) OR 0x6F
         else let imm = rvc_branch_imm r;
                  imm_hi = drop_bit 5 imm AND 0x7F; imm_lo = imm AND 0x1F
              in if f3 = 6 then push_bit 25 imm_hi OR rvc_word 0 (rvc_rs1_pr r) 0 imm_lo 0x63
                 else push_bit 25 imm_hi OR rvc_word 1 (rvc_rs1_pr r) 1 imm_lo 0x63)"

definition rvc_c2 :: "u32 \<Rightarrow> u32 \<Rightarrow> u32" where
  "rvc_c2 f3 r =
     (let rd = rvc_rd r; rs2v = rvc_rs2 r
      in if f3 = 0 then rvc_word (rvc_imm6 r) rd 1 rd 0x13
         else if f3 = 2 then
           let imm = (drop_bit 4 r AND 0x3) OR (drop_bit 2 r AND 0x1C) OR push_bit 5 (drop_bit 12 r)
           in rvc_word imm 2 3 rd 0x03
         else if f3 = 4 then
           if rs2v = 0 then if rd = 0 then 0 else rvc_word 0 rd 0 0 0x67
           else rvc_word rs2v rd 0 rd 0x33
         else if f3 = 6 then
           let imm = (drop_bit 9 r AND 0x3) OR (drop_bit 7 r AND 0x3C)
           in push_bit 25 (drop_bit 5 imm AND 0x7F) OR rvc_word rs2v 2 3 (imm AND 0x1F) 0x23
         else 0)"

definition decompress_rvc :: "u16 \<Rightarrow> u32" where
  "decompress_rvc rvc =
     (let r = ucast rvc :: u32; op = r AND 0x3; f3 = drop_bit 13 r AND 0x7
      in if op = 0 then rvc_c0 f3 r
         else if op = 1 then rvc_c1 f3 r
         else if op = 2 then rvc_c2 f3 r
         else 0)"


section \<open>Immediates\<close>

definition all_extract_imm_i :: "u32 \<Rightarrow> u32" where
  "all_extract_imm_i inst = signed_drop_bit 20 inst"

definition all_extract_imm_s :: "u32 \<Rightarrow> u32" where
  "all_extract_imm_s inst =
    (let v = signed_drop_bit 20 inst AND 0xFFFFFE0;
         v = v OR (drop_bit 7 inst AND 0x1F)
     in if v AND 0x800 \<noteq> 0 then v OR 0xFFFFF000 else v)"

definition all_extract_imm_b :: "u32 \<Rightarrow> u32" where
  "all_extract_imm_b inst =
    (let v = push_bit 1 (drop_bit 8 inst AND 0xF);
         v = v OR push_bit 5 (drop_bit 25 inst AND 0x3F);
         v = v OR push_bit 11 (drop_bit 7 inst AND 0x1);
         v = v OR push_bit 12 (drop_bit 31 inst AND 0x1)
     in if v AND 0x1000 \<noteq> 0 then v OR 0xFFFFE000 else v)"

definition all_extract_imm_u :: "u32 \<Rightarrow> u32" where
  "all_extract_imm_u inst = inst AND 0xFFFFF000"

definition all_extract_imm_j :: "u32 \<Rightarrow> u32" where
  "all_extract_imm_j inst =
    (let v = push_bit 1 (drop_bit 21 inst AND 0x3FF);
         v = v OR push_bit 11 (drop_bit 20 inst AND 0x1);
         v = v OR push_bit 12 (drop_bit 12 inst AND 0xFF);
         v = v OR push_bit 20 (drop_bit 31 inst AND 0x1)
     in if v AND 0x100000 \<noteq> 0 then v OR 0xFFE00000 else v)"

definition op_fcn_from_funct3_funct7 :: "u8 \<Rightarrow> u8 \<Rightarrow> u8" where
  "op_fcn_from_funct3_funct7 f3 f7 =
     (if f3 = 0 then if f7 = 0 then 0 else if f7 = 0x20 then 8 else 0
      else if f3 = 1 then if f7 = 0 then 1 else if f7 = 0x20 then 9 else 1
      else if f3 = 2 then if f7 = 0 then 2 else if f7 = 0x20 then 10 else 2
      else if f3 = 3 then if f7 = 0 then 3 else if f7 = 0x20 then 11 else 3
      else if f3 = 4 then if f7 = 0 then 4 else if f7 = 0x20 then 5 else 4
      else if f3 = 5 then if f7 = 0 then 6 else if f7 = 0x20 then 7 else 6
      else if f3 = 6 then if f7 = 0 then 12 else if f7 = 0x20 then 13 else 12
      else if f3 = 7 then if f7 = 0 then 14 else if f7 = 0x20 then 15 else 14
      else 0)"

section \<open>The decoder\<close>

text \<open>Assignments of this decoder that \<open>Decode\<close> has no name for.\<close>

definition set_imm :: "ImmSel \<Rightarrow> u32 \<Rightarrow> MicroOp \<Rightarrow> MicroOp" where
  "set_imm sel imm u = u\<lparr>uop_ctrl := (uop_ctrl u)\<lparr>dc_imm_sel := sel\<rparr>, uop_imm_packed := imm\<rparr>"

definition set_code :: "u8 \<Rightarrow> u8 \<Rightarrow> MicroOp \<Rightarrow> MicroOp" where
  "set_code code fcn u = u\<lparr>uop_uopc := code, uop_ctrl := (uop_ctrl u)\<lparr>dc_op_fcn := fcn\<rparr>\<rparr>"

definition set_fcn_dw :: "MicroOp \<Rightarrow> MicroOp" where
  "set_fcn_dw u = u\<lparr>uop_ctrl := (uop_ctrl u)\<lparr>dc_fcn_dw := 1\<rparr>\<rparr>"

definition all_decode_upper :: "u8 \<Rightarrow> Op1Sel \<Rightarrow> u32 \<Rightarrow> MicroOp \<Rightarrow> MicroOp" where
  "all_decode_upper code sel inst u =
    set_dst DST_INT (set_imm IMM_U (all_extract_imm_u inst) (set_sel sel OP2_IMU
      (set_unit IQ_ALU FU_ALU (u\<lparr>uop_uopc := code\<rparr>))))"

definition all_decode_jal :: "u32 \<Rightarrow> MicroOp \<Rightarrow> MicroOp" where
  "all_decode_jal inst u =
    (let u = set_unit IQ_ALU FU_ALU (u\<lparr>uop_uopc := UOPC_JAL\<rparr>);
         u = set_imm IMM_J (all_extract_imm_j inst) (set_br_type BR_J (set_sel OP1_PC OP2_IMM u));
         u = set_dst (if rd_of inst \<noteq> 0 then DST_INT else DST_X0) u
     in u\<lparr>uop_branch := (uop_branch u)\<lparr>bi_is_jal := True\<rparr>\<rparr>)"

definition all_decode_jalr :: "u32 \<Rightarrow> MicroOp \<Rightarrow> MicroOp" where
  "all_decode_jalr inst u =
    (let u = set_unit IQ_ALU FU_ALU (u\<lparr>uop_uopc := UOPC_JALR\<rparr>);
         u = set_imm IMM_I (all_extract_imm_i inst) (set_br_type BR_JR (set_sel OP1_RS1 OP2_IMM u));
         u = set_dst (if rd_of inst \<noteq> 0 then DST_INT else DST_X0) u
     in u\<lparr>uop_branch := (uop_branch u)\<lparr>bi_is_jalr := True\<rparr>\<rparr>)"

definition all_decode_branch :: "u32 \<Rightarrow> MicroOp \<Rightarrow> MicroOp" where
  "all_decode_branch inst u =
    (let f3 = f3_of inst;
         u = set_imm IMM_B (all_extract_imm_b inst) (set_sel OP1_RS1 OP2_RS2 (set_unit IQ_ALU FU_ALU u));
         u = set_dst DST_N (u\<lparr>uop_branch := (uop_branch u)\<lparr>bi_is_br := True\<rparr>\<rparr>)
     in if f3 = 0 then set_br_type BR_EQ (u\<lparr>uop_uopc := UOPC_BEQ\<rparr>)
        else if f3 = 1 then set_br_type BR_NE (u\<lparr>uop_uopc := UOPC_BNE\<rparr>)
        else if f3 = 4 then set_br_type BR_LT (u\<lparr>uop_uopc := UOPC_BLT\<rparr>)
        else if f3 = 5 then set_br_type BR_GE (u\<lparr>uop_uopc := UOPC_BGE\<rparr>)
        else if f3 = 6 then set_br_type BR_LTU (u\<lparr>uop_uopc := UOPC_BLTU\<rparr>)
        else if f3 = 7 then set_br_type BR_GEU (u\<lparr>uop_uopc := UOPC_BGEU\<rparr>)
        else set_illegal_cause u)"

definition all_decode_load :: "u32 \<Rightarrow> MicroOp \<Rightarrow> MicroOp" where
  "all_decode_load inst u =
    (let f3 = f3_of inst;
         u = set_imm IMM_I (all_extract_imm_i inst) (set_sel OP1_RS1 OP2_IMM (set_unit IQ_MEM FU_MEM u));
         u = u\<lparr>uop_ctrl := (uop_ctrl u)\<lparr>dc_is_load := True\<rparr>, uop_mem := (uop_mem u)\<lparr>mi_uses_ldq := True\<rparr>\<rparr>;
         u = set_dst DST_INT u
     in if f3 = 0 then set_mem_signed True (set_mem_size 0 (u\<lparr>uop_uopc := UOPC_LB\<rparr>))
        else if f3 = 1 then set_mem_signed True (set_mem_size 1 (u\<lparr>uop_uopc := UOPC_LH\<rparr>))
        else if f3 = 2 then set_mem_signed True (set_mem_size 2 (u\<lparr>uop_uopc := UOPC_LW\<rparr>))
        else if f3 = 3 then set_mem_signed True (set_mem_size 3 (u\<lparr>uop_uopc := UOPC_LD\<rparr>))
        else if f3 = 4 then set_mem_signed False (set_mem_size 0 (u\<lparr>uop_uopc := UOPC_LBU\<rparr>))
        else if f3 = 5 then set_mem_signed False (set_mem_size 1 (u\<lparr>uop_uopc := UOPC_LHU\<rparr>))
        else if f3 = 6 then set_mem_signed False (set_mem_size 2 (u\<lparr>uop_uopc := UOPC_LWU\<rparr>))
        else set_illegal_cause u)"

definition all_decode_store :: "u32 \<Rightarrow> MicroOp \<Rightarrow> MicroOp" where
  "all_decode_store inst u =
    (let f3 = f3_of inst;
         u = set_imm IMM_S (all_extract_imm_s inst) (set_sel OP1_RS1 OP2_RS2 (set_unit IQ_MEM FU_MEM u));
         u = u\<lparr>uop_ctrl := (uop_ctrl u)\<lparr>dc_is_sta := True\<rparr>,
               uop_mem := (uop_mem u)\<lparr>mi_uses_stq := True, mi_ldst_is_rs1 := False\<rparr>\<rparr>;
         u = set_dst DST_N u;
         u = u\<lparr>uop_rename := (uop_rename u)\<lparr>ri_lrs2 := rs2_of inst\<rparr>\<rparr>
     in if f3 = 0 then set_mem_size 0 (u\<lparr>uop_uopc := UOPC_SB\<rparr>)
        else if f3 = 1 then set_mem_size 1 (u\<lparr>uop_uopc := UOPC_SH\<rparr>)
        else if f3 = 2 then set_mem_size 2 (u\<lparr>uop_uopc := UOPC_SW\<rparr>)
        else if f3 = 3 then set_mem_size 3 (u\<lparr>uop_uopc := UOPC_SD\<rparr>)
        else set_illegal_cause u)"

definition all_decode_op_imm :: "u32 \<Rightarrow> MicroOp \<Rightarrow> MicroOp" where
  "all_decode_op_imm inst u =
    (let f3 = f3_of inst; f7 = f7_of inst;
         u = set_imm IMM_I (all_extract_imm_i inst) (set_sel OP1_RS1 OP2_IMM (set_unit IQ_ALU FU_ALU u));
         u = set_dst DST_INT u
     in if f3 = 0 then set_code UOPC_ADDI 0 u
        else if f3 = 1 then set_code UOPC_SLLI 1 u
        else if f3 = 2 then set_code UOPC_SLTI 2 u
        else if f3 = 3 then set_code UOPC_SLTIU 3 u
        else if f3 = 4 then set_code UOPC_XORI 4 u
        else if f3 = 5 then
          if f7 = 0 then set_code UOPC_SRLI 6 u else if f7 = 0x20 then set_code UOPC_SRAI 7 u else set_illegal u
        else if f3 = 6 then set_code UOPC_ORI 8 u
        else if f3 = 7 then set_code UOPC_ANDI 9 u
        else set_illegal u)"

definition all_decode_op_imm_32 :: "u32 \<Rightarrow> MicroOp \<Rightarrow> MicroOp" where
  "all_decode_op_imm_32 inst u =
    (let f3 = f3_of inst; f7 = f7_of inst;
         u = set_sel OP1_RS1 OP2_IMM (set_unit IQ_ALU FU_ALU u);
         u = set_dst DST_INT (set_imm IMM_I (all_extract_imm_i inst) (set_fcn_dw u))
     in if f3 = 0 then set_code UOPC_ADDIW 0 u
        else if f3 = 1 then set_code UOPC_SLLIW 1 u
        else if f3 = 5 then
          if f7 = 0 then set_code UOPC_SRLIW 6 u else if f7 = 0x20 then set_code UOPC_SRAIW 7 u else set_illegal u
        else set_illegal u)"

definition all_decode_op :: "u32 \<Rightarrow> MicroOp \<Rightarrow> MicroOp" where
  "all_decode_op inst u =
    (let f3 = f3_of inst; f7 = f7_of inst;
         u = set_sel OP1_RS1 OP2_RS2 (u\<lparr>uop_iq_type := IQ_ALU\<rparr>)
     in if f7 = 1 then
          let u = set_dst DST_INT (u\<lparr>uop_fu_code := FU_MUL\<rparr>)
          in if f3 = 0 then set_code UOPC_MUL 0 u
             else if f3 = 1 then set_code UOPC_MULH 1 u
             else if f3 = 2 then set_code UOPC_MULHSU 2 u
             else if f3 = 3 then set_code UOPC_MULHU 3 u
             else set_illegal u
        else
          let u = set_dst DST_INT (u\<lparr>uop_fu_code := FU_ALU\<rparr>)
          in if f3 = 0 then set_code (if f7 = 0x20 then UOPC_SUB else UOPC_ADD) 0 u
             else if f3 = 1 then set_code UOPC_SLL 1 u
             else if f3 = 2 then set_code UOPC_SLT 2 u
             else if f3 = 3 then set_code UOPC_SLTU 3 u
             else if f3 = 4 then set_code UOPC_XOR 4 u
             else if f3 = 5 then set_code (if f7 = 0x20 then UOPC_SRA else UOPC_SRL) (if f7 = 0x20 then 7 else 6) u
             else if f3 = 6 then set_code UOPC_OR 8 u
             else if f3 = 7 then set_code UOPC_AND 9 u
             else set_illegal u)"

definition all_decode_op_32 :: "u32 \<Rightarrow> MicroOp \<Rightarrow> MicroOp" where
  "all_decode_op_32 inst u =
    (let f3 = f3_of inst; f7 = f7_of inst;
         u = set_fcn_dw (set_sel OP1_RS1 OP2_RS2 (u\<lparr>uop_iq_type := IQ_ALU\<rparr>))
     in if f7 = 1 then
          let u = set_dst DST_INT (u\<lparr>uop_fu_code := FU_MUL\<rparr>)
          in if f3 = 0 then set_code UOPC_MULW 0 u else set_illegal u
        else
          let u = set_dst DST_INT (u\<lparr>uop_fu_code := FU_ALU\<rparr>)
          in if f3 = 0 then set_code (if f7 = 0x20 then UOPC_SUBW else UOPC_ADDW) 0 u
             else if f3 = 1 then set_code UOPC_SLLW 1 u
             else if f3 = 5 then set_code (if f7 = 0x20 then UOPC_SRAW else UOPC_SRLW) (if f7 = 0x20 then 7 else 6) u
             else set_illegal u)"

definition all_decode_fence :: "MicroOp \<Rightarrow> MicroOp" where
  "all_decode_fence u = (set_dst DST_N (set_unit IQ_MEM FU_MEM (u\<lparr>uop_uopc := UOPC_FENCE\<rparr>)))\<lparr>uop_is_unique := True\<rparr>"

definition all_decode_system :: "u32 \<Rightarrow> MicroOp \<Rightarrow> MicroOp" where
  "all_decode_system inst u =
    (let f3 = f3_of inst; f7 = f7_of inst; rd = rd_of inst; rs2 = rs2_of inst
     in if f3 = 0 then
          if rs2 = 0 \<and> rd = 0 \<and> f7 = 0 then
            (set_unit IQ_ALU FU_CSR (u\<lparr>uop_uopc := UOPC_ECALL\<rparr>))
              \<lparr>uop_exception := True, uop_exc_cause := 8 + 0, uop_is_sys_pc2epc := True\<rparr>
          else if rs2 = 1 \<and> rd = 0 \<and> f7 = 0 then
            (set_unit IQ_ALU FU_CSR (u\<lparr>uop_uopc := UOPC_EBREAK\<rparr>))
              \<lparr>uop_exception := True, uop_exc_cause := 3, uop_is_sys_pc2epc := True\<rparr>
          else if f7 = 0x18 \<and> rs2 = 2 then
            set_dst DST_N ((set_unit IQ_ALU FU_CSR (u\<lparr>uop_uopc := UOPC_MRET\<rparr>))\<lparr>uop_is_unique := True\<rparr>)
          else if f7 = 0x08 \<and> rs2 = 5 then
            set_dst DST_N ((set_unit IQ_ALU FU_CSR (u\<lparr>uop_uopc := UOPC_WFI\<rparr>))\<lparr>uop_is_unique := True\<rparr>)
          else set_illegal_cause u
        else
          let u = set_sel OP1_RS1 OP2_IMZ (set_unit IQ_ALU FU_CSR u);
              u = set_dst DST_INT (u\<lparr>uop_imm_packed := ucast rs2, uop_csr_addr := ucast (drop_bit 20 inst)\<rparr>)
          in if f3 = 1 then set_csr_cmd CSR_W (u\<lparr>uop_uopc := UOPC_CSRRW\<rparr>)
             else if f3 = 2 then set_csr_cmd CSR_S (u\<lparr>uop_uopc := UOPC_CSRRS\<rparr>)
             else if f3 = 3 then set_csr_cmd CSR_C (u\<lparr>uop_uopc := UOPC_CSRRC\<rparr>)
             else if f3 = 5 then set_csr_cmd CSR_W (u\<lparr>uop_uopc := UOPC_CSRRWI\<rparr>)
             else if f3 = 6 then set_csr_cmd CSR_S (u\<lparr>uop_uopc := UOPC_CSRRSI\<rparr>)
             else if f3 = 7 then set_csr_cmd CSR_C (u\<lparr>uop_uopc := UOPC_CSRRCI\<rparr>)
             else set_illegal_cause u)"

text \<open>The floating-point, atomic and unknown opcodes share the last branch.\<close>

definition all_decode_opcode :: "u32 \<Rightarrow> MicroOp \<Rightarrow> MicroOp" where
  "all_decode_opcode inst u =
    (let opcode = opcode_of inst
     in if opcode = 0x37 then all_decode_upper UOPC_LUI OP1_X0 inst u
        else if opcode = 0x17 then all_decode_upper UOPC_AUIPC OP1_PC inst u
        else if opcode = 0x6F then all_decode_jal inst u
        else if opcode = 0x67 then all_decode_jalr inst u
        else if opcode = 0x63 then all_decode_branch inst u
        else if opcode = 0x03 then all_decode_load inst u
        else if opcode = 0x23 then all_decode_store inst u
        else if opcode = 0x13 then all_decode_op_imm inst u
        else if opcode = 0x1B then all_decode_op_imm_32 inst u
        else if opcode = 0x33 then all_decode_op inst u
        else if opcode = 0x3B then all_decode_op_32 inst u
        else if opcode = 0x0F then all_decode_fence u
        else if opcode = 0x73 then all_decode_system inst u
        else set_illegal_cause u)"

definition decode_one :: "u32 \<Rightarrow> u64 \<Rightarrow> MicroOp" where
  "decode_one inst pc =
    (let u = MicroOp0\<lparr>uop_inst := inst, uop_debug_inst := inst, uop_debug_pc := pc\<rparr>
     in if inst = 0x13 then
          (set_dst DST_N (set_sel OP1_X0 OP2_X0 (set_unit IQ_ALU FU_ALU (set_code UOPC_NOP 0 u))))\<lparr>uop_is_unique := True\<rparr>
        else if inst = 0 then set_illegal_cause u
        else
          let u = u\<lparr>uop_rename := (uop_rename u)\<lparr>ri_lrs1 := rs1_of inst, ri_lrs2 := rs2_of inst, ri_lrs3 := 0,
                      ri_ldst := rd_of inst\<rparr>,
                    uop_branch := (uop_branch u)\<lparr>bi_pc_lob := ucast (pc AND 0x3F)\<rparr>\<rparr>;
              u = all_decode_opcode inst u
          in if uop_uopc u = UOPC_ILLEGAL \<and> \<not> uop_exception u
             then u\<lparr>uop_exception := True, uop_exc_cause := 2\<rparr> else u)"

text \<open>
  \<open>decode_module\<close> of this file: its guards and the expansion. The fields of \<open>FrontendState\<close> it
  reads are not those of include/boom_state.hpp, so they are arguments: whether the flush is
  set, whether fetch is stalled, the fetch address, and the response with its ready flag. The
  result is the decoded micro-operation, if one is valid.
\<close>

definition all_decode_module :: "bool \<Rightarrow> bool \<Rightarrow> u64 \<Rightarrow> bool \<Rightarrow> u64 \<Rightarrow> MicroOp option" where
  "all_decode_module flush stalled pc icache_resp_ready icache_resp_data =
    (if flush then None
     else if stalled then None
     else
       let raw_inst = (if icache_resp_ready then ucast (icache_resp_data AND 0xFFFFFFFF) else 0);
           is_rvc = (drop_bit 32 icache_resp_data AND 1 \<noteq> 0);
           inst = (if is_rvc then decompress_rvc (ucast (raw_inst AND (0xFFFF :: u32))) else raw_inst);
           is_rvc = (is_rvc \<and> inst \<noteq> 0x13)
       in Some ((decode_one inst pc)\<lparr>uop_is_rvc := is_rvc\<rparr>))"

text \<open>\<open>uopc_name\<close>.\<close>

definition uopc_name :: "u8 \<Rightarrow> string" where
  "uopc_name u =
     (case map_of [(UOPC_NOP, ''NOP''), (UOPC_ADD, ''ADD''), (UOPC_SUB, ''SUB''), (UOPC_SLL, ''SLL''), (UOPC_SLT, ''SLT''),
        (UOPC_SLTU, ''SLTU''), (UOPC_XOR, ''XOR''), (UOPC_SRL, ''SRL''), (UOPC_SRA, ''SRA''), (UOPC_OR, ''OR''),
        (UOPC_AND, ''AND''), (UOPC_JAL, ''JAL''), (UOPC_JALR, ''JALR''), (UOPC_BEQ, ''BEQ''), (UOPC_BNE, ''BNE''),
        (UOPC_LUI, ''LUI''), (UOPC_AUIPC, ''AUIPC''), (UOPC_LD, ''LD''), (UOPC_SD, ''SD''), (UOPC_ADDI, ''ADDI''),
        (UOPC_ECALL, ''ECALL''), (UOPC_CSRRW, ''CSRRW''), (UOPC_CSRRS, ''CSRRS''), (UOPC_CSRRC, ''CSRRC''),
        (UOPC_CSRRWI, ''CSRRWI''), (UOPC_CSRRSI, ''CSRRSI''), (UOPC_CSRRCI, ''CSRRCI''), (UOPC_MUL, ''MUL''),
        (UOPC_DIV, ''DIV''), (UOPC_DIVU, ''DIVU''), (UOPC_REM, ''REM''), (UOPC_REMU, ''REMU''),
        (UOPC_ILLEGAL, ''ILLEGAL'')] u of None \<Rightarrow> ''UNKNOWN'' | Some n \<Rightarrow> n)"

section \<open>The two decoders compared\<close>

text \<open>
  What the stages read of a decoded micro-operation, on every word, illegal ones included:
  the instruction and its address (execute, commit), whether and why it raises, the code, the
  immediate, queue, unit, operand selections, branch and memory bits, CSR access and registers.
  Whether a load is signed is read by execute for the codes of the loads alone. Left out are the
  debug copy of the instruction and the operation and immediate selectors, which no stage reads.
\<close>

definition decode_view :: "MicroOp \<Rightarrow> (u32 \<times> u64 \<times> bool \<times> u64 \<times> u8) \<times> (u32 \<times> IqType \<times> FuCode \<times> Op1Sel \<times> Op2Sel \<times> u8)
    \<times> (BrType \<times> bool \<times> bool \<times> bool \<times> u8) \<times> (bool \<times> bool \<times> u8 \<times> bool \<times> bool \<times> bool)
    \<times> (CsrCmd \<times> u16 \<times> bool) \<times> (DstRType \<times> u8 \<times> u8 \<times> u8 \<times> u8)" where
  "decode_view u =
    ((uop_inst u, uop_debug_pc u, uop_exception u, uop_exc_cause u, uop_uopc u),
     (uop_imm_packed u, uop_iq_type u, uop_fu_code u, dc_op1_sel (uop_ctrl u), dc_op2_sel (uop_ctrl u), dc_fcn_dw (uop_ctrl u)),
     (dc_br_type (uop_ctrl u), bi_is_br (uop_branch u), bi_is_jal (uop_branch u), bi_is_jalr (uop_branch u), bi_pc_lob (uop_branch u)),
     (dc_is_load (uop_ctrl u), dc_is_sta (uop_ctrl u), mi_mem_size (uop_mem u),
      uop_uopc u \<in> {UOPC_LB, UOPC_LH, UOPC_LW, UOPC_LD, UOPC_LBU, UOPC_LHU, UOPC_LWU} \<and> mi_mem_signed (uop_mem u),
      mi_uses_ldq (uop_mem u), mi_uses_stq (uop_mem u)),
     (dc_csr_cmd (uop_ctrl u), uop_csr_addr u, uop_is_sys_pc2epc u),
     (ri_dst_rtype (uop_rename u), ri_ldst (uop_rename u), ri_lrs1 (uop_rename u), ri_lrs2 (uop_rename u), ri_lrs3 (uop_rename u)))"

text \<open>The instruction words on which the two decoders differ.\<close>

definition decoders_differ :: "u32 \<Rightarrow> bool" where
  "decoders_differ w =
     (let opcode = opcode_of w; f3 = f3_of w; f7 = f7_of w; rs2 = rs2_of w
      in if opcode = 0x13 then w = 0x13 \<or> f3 = 5 \<and> f7 \<noteq> 0 \<and> f7 \<noteq> 0x20
         else if opcode = 0x1B then f3 = 5 \<and> f7 \<noteq> 0 \<and> f7 \<noteq> 0x20
         else if opcode = 0x33 then f7 = 1 \<and> (f3 = 1 \<or> f3 = 2 \<or> f3 = 3)
         else if opcode = 0x3B then f7 = 1
         else if opcode = 0x73 then
           if f3 = 0 then \<not> (f7 = 0x18 \<and> rs2 = 2)
           else rs2 \<noteq> 0 \<or> f3 \<noteq> 1 \<and> f3 \<noteq> 2 \<and> f3 \<noteq> 3 \<and> f3 \<noteq> 5 \<and> f3 \<noteq> 6 \<and> f3 \<noteq> 7
         else opcode \<notin> {0x37, 0x17, 0x6F, 0x67, 0x63, 0x03, 0x23, 0x0F})"

text \<open>The immediates are the same functions.\<close>

lemma all_immediates:
  "all_extract_imm_i = extract_imm_i" "all_extract_imm_s = extract_imm_s" "all_extract_imm_b = extract_imm_b"
  "all_extract_imm_u = extract_imm_u" "all_extract_imm_j = extract_imm_j"
  by (rule ext, simp add: all_extract_imm_i_def extract_imm_i_def all_extract_imm_s_def extract_imm_s_def
      all_extract_imm_b_def extract_imm_b_def all_extract_imm_u_def extract_imm_u_def
      all_extract_imm_j_def extract_imm_j_def Let_def)+

definition all_decode_base :: "u64 \<Rightarrow> u32 \<Rightarrow> MicroOp" where
  "all_decode_base pc inst = MicroOp0\<lparr>uop_inst := inst, uop_debug_inst := inst, uop_debug_pc := pc,
     uop_rename := RenameInfo0\<lparr>ri_lrs1 := rs1_of inst, ri_lrs2 := rs2_of inst, ri_lrs3 := 0, ri_ldst := rd_of inst\<rparr>,
     uop_branch := BranchInfo0\<lparr>bi_pc_lob := ucast (pc AND 0x3F)\<rparr>\<rparr>"

lemmas all_setters = decode_setters set_imm_def set_code_def set_fcn_dw_def
lemmas base_defs = all_decode_base_def decode_base_def MicroOp0_def DecodeControl0_def BranchInfo0_def
  MemoryInfo0_def RenameInfo0_def

text \<open>The groups of the two \<open>switch\<close>es, each on its own initial micro-operation.\<close>

lemma views_upper: "decode_view (all_decode_upper c sel w (all_decode_base pc w)) = decode_view (decode_upper c sel w (decode_base pc w))"
  by (simp add: decode_view_def all_decode_upper_def decode_upper_def all_setters all_immediates base_defs)

lemma views_jal: "decode_view (all_decode_jal w (all_decode_base pc w)) = decode_view (decode_jal w (decode_base pc w))"
  "decode_view (all_decode_jalr w (all_decode_base pc w)) = decode_view (decode_jalr w (decode_base pc w))"
  by (simp_all add: decode_view_def all_decode_jal_def decode_jal_def all_decode_jalr_def decode_jalr_def
      all_setters all_immediates base_defs Let_def)

lemma view_if: "decode_view x = decode_view x' \<Longrightarrow> decode_view y = decode_view y' \<Longrightarrow>
    decode_view (if b then x else y) = decode_view (if b then x' else y')"
  by simp

lemma views_branch: "decode_view (all_decode_branch w (all_decode_base pc w)) = decode_view (decode_branch w (decode_base pc w))"
  unfolding all_decode_branch_def decode_branch_def Let_def
  by (intro view_if; simp add: decode_view_def all_setters all_immediates base_defs)

lemma views_load: "decode_view (all_decode_load w (all_decode_base pc w)) = decode_view (decode_load w (decode_base pc w))"
  unfolding all_decode_load_def decode_load_def Let_def
  by (intro view_if; simp add: decode_view_def all_setters all_immediates base_defs)

lemma views_store: "decode_view (all_decode_store w (all_decode_base pc w)) = decode_view (decode_store w (decode_base pc w))"
  unfolding all_decode_store_def decode_store_def Let_def
  by (intro view_if; simp add: decode_view_def all_setters all_immediates base_defs)

lemma views_op_imm: "decode_view (all_decode_op_imm w (all_decode_base pc w)) = decode_view (decode_op_imm w (decode_base pc w))
    \<longleftrightarrow> \<not> (f3_of w = 5 \<and> f7_of w \<noteq> 0 \<and> f7_of w \<noteq> 0x20)"
proof -
  consider "f3_of w = 0" | "f3_of w = 1" | "f3_of w = 2" | "f3_of w = 3" | "f3_of w = 4" | "f3_of w = 5" | "f3_of w = 6"
    | "f3_of w = 7" | "f3_of w \<notin> {0, 1, 2, 3, 4, 5, 6, 7}" by blast
  then show ?thesis
    by cases (simp_all add: decode_view_def all_decode_op_imm_def decode_op_imm_def all_setters all_immediates base_defs Let_def)
qed

lemma views_op_imm_32: "decode_view (all_decode_op_imm_32 w (all_decode_base pc w)) = decode_view (decode_op_imm_32 w (decode_base pc w))
    \<longleftrightarrow> \<not> (f3_of w = 5 \<and> f7_of w \<noteq> 0 \<and> f7_of w \<noteq> 0x20)"
proof -
  consider "f3_of w = 0" | "f3_of w = 1" | "f3_of w = 5" | "f3_of w \<notin> {0, 1, 5}" by blast
  then show ?thesis
    by cases (simp_all add: decode_view_def all_decode_op_imm_32_def decode_op_imm_32_def all_setters all_immediates base_defs Let_def)
qed

lemma views_op: "decode_view (all_decode_op w (all_decode_base pc w)) = decode_view (decode_op w (decode_base pc w))
    \<longleftrightarrow> \<not> (f7_of w = 1 \<and> (f3_of w = 1 \<or> f3_of w = 2 \<or> f3_of w = 3))"
  by (simp add: decode_view_def all_decode_op_def decode_op_def all_setters base_defs Let_def)

lemma views_op_32: "decode_view (all_decode_op_32 w (all_decode_base pc w)) = decode_view (decode_op_32 w (decode_base pc w))
    \<longleftrightarrow> f7_of w \<noteq> 1"
  by (simp add: decode_view_def all_decode_op_32_def decode_op_32_def all_setters base_defs Let_def)

lemma views_fence: "decode_view (all_decode_fence (all_decode_base pc w)) = decode_view (decode_fence (decode_base pc w))"
  by (simp add: decode_view_def all_decode_fence_def decode_fence_def all_setters base_defs)

lemma views_system_f3_0: "f3_of w = 0 \<Longrightarrow> decode_view (all_decode_system w (all_decode_base pc w)) = decode_view (decode_system w (decode_base pc w))
    \<longleftrightarrow> f7_of w = 0x18 \<and> rs2_of w = 2"
proof -
  assume f3: "f3_of w = 0"
  have e: "\<not> (f7_of w = 0x18 \<and> rs2_of w = 2 \<and> drop_bit 20 w = 0)"
    by (auto simp: f7_of_def rs2_of_def)
  show ?thesis using e unfolding all_decode_system_def decode_system_def Let_def f3
    by (simp add: decode_view_def all_setters base_defs)
qed

lemma ucast_u8_zero [simp]: "(ucast (x :: u8) :: u32) = 0 \<longleftrightarrow> x = 0"
proof
  assume "(ucast x :: u32) = 0"
  moreover have "unat (ucast x :: u32) = unat x"
    using unsigned_less [of x, where ?'a = nat] by (simp add: unsigned_ucast_eq take_bit_nat_eq_self)
  ultimately show "x = 0" by (simp add: word_unat_eq_iff)
qed simp

lemma views_system_csr: "f3_of w \<noteq> 0 \<Longrightarrow> decode_view (all_decode_system w (all_decode_base pc w)) = decode_view (decode_system w (decode_base pc w))
    \<longleftrightarrow> rs2_of w = 0 \<and> (f3_of w = 1 \<or> f3_of w = 2 \<or> f3_of w = 3 \<or> f3_of w = 5 \<or> f3_of w = 6 \<or> f3_of w = 7)"
  unfolding all_decode_system_def decode_system_def Let_def
  by (simp add: decode_view_def all_setters base_defs)

text \<open>An illegal code always comes with an exception, so the last test of both functions is idle.\<close>

definition illegal_raises :: "MicroOp \<Rightarrow> bool" where
  "illegal_raises u = (uop_uopc u = UOPC_ILLEGAL \<longrightarrow> uop_exception u)"

lemma illegal_raises_groups:
  "illegal_raises (all_decode_upper 37 sel w u)" "illegal_raises (all_decode_upper 38 sel w u)"
  "illegal_raises (all_decode_jal w u)" "illegal_raises (all_decode_jalr w u)"
  "illegal_raises (all_decode_branch w u)" "illegal_raises (all_decode_load w u)" "illegal_raises (all_decode_store w u)"
  "illegal_raises (all_decode_op_imm w u)" "illegal_raises (all_decode_op_imm_32 w u)" "illegal_raises (all_decode_op w u)"
  "illegal_raises (all_decode_op_32 w u)" "illegal_raises (all_decode_fence u)" "illegal_raises (all_decode_system w u)"
  "illegal_raises (set_illegal_cause u)"
  unfolding illegal_raises_def all_setters
  by (simp_all add: all_decode_upper_def all_decode_jal_def all_decode_jalr_def all_decode_branch_def all_decode_load_def
      all_decode_store_def all_decode_op_imm_def all_decode_op_imm_32_def all_decode_op_def all_decode_op_32_def
      all_decode_fence_def all_decode_system_def all_setters Let_def)

lemma illegal_raises_opcode: "illegal_raises (all_decode_opcode w u)"
  unfolding all_decode_opcode_def Let_def
  by (intro if_field [where f = illegal_raises and z = True, simplified] illegal_raises_groups)


lemma decode_one_general: "w \<noteq> 0x13 \<Longrightarrow> w \<noteq> 0 \<Longrightarrow> decode_one w pc = all_decode_opcode w (all_decode_base pc w)"
  using illegal_raises_opcode [of w "all_decode_base pc w"]
  by (auto simp: decode_one_def all_decode_base_def illegal_raises_def MicroOp0_def Let_def)

lemma decode_uop_general: "decode_uop pc w = decode_opcode w (decode_base pc w)"
  using exception_marked_opcode [of "decode_base pc w" w]
  by (auto simp: decode_uop_def decode_base_def exception_marked_def MicroOp0_def Let_def)

lemma views_opcode:
  "decode_view (all_decode_opcode w (all_decode_base pc w)) = decode_view (decode_opcode w (decode_base pc w))
     \<longleftrightarrow> \<not> (decoders_differ w \<and> w \<noteq> 0x13)"
proof -
  have n: "f3_of 0x13 \<noteq> 5" by code_simp
  have o: "opcode_of 0x13 = 0x13" by code_simp
  consider (known) "opcode_of w \<in> {0x37, 0x17, 0x6F, 0x67, 0x63, 0x03, 0x23, 0x1B, 0x33, 0x3B, 0x0F}"
    | (imm) "opcode_of w = 0x13" | (system) "opcode_of w = 0x73"
    | (other) "opcode_of w \<notin> {0x37, 0x17, 0x6F, 0x67, 0x63, 0x03, 0x23, 0x13, 0x1B, 0x33, 0x3B, 0x0F, 0x73}"
    by blast
  then show ?thesis
  proof cases
    case known
    then have "w \<noteq> 0x13" using o by auto
    with known show ?thesis
      by (elim insertE emptyE) (simp_all add: all_decode_opcode_def decode_opcode_def decoders_differ_def Let_def
          views_upper views_jal views_branch views_load views_store views_op_imm_32 views_op views_op_32 views_fence)
  next
    case imm
    then show ?thesis using n
      by (auto simp: all_decode_opcode_def decode_opcode_def decoders_differ_def Let_def views_op_imm)
  next
    case system
    then have "w \<noteq> 0x13" using o by auto
    with system show ?thesis
      by (cases "f3_of w = 0")
        (auto simp: all_decode_opcode_def decode_opcode_def decoders_differ_def Let_def views_system_f3_0 views_system_csr)
  next
    case other
    then have "w \<noteq> 0x13" using o by auto
    with other show ?thesis
      by (auto simp: all_decode_opcode_def decode_opcode_def decoders_differ_def Let_def decode_view_def all_setters base_defs)
  qed
qed

text \<open>
  C36: The decoder of the single-file core and the decoder of src/decode.cpp give the stages the
  same micro-operation, in every field a stage reads and on illegal words too, except on an
  exactly known set of words: the canonical NOP; right shifts by immediate with a funct7 that is
  neither of the two RV32 codes (among them the RV64 shifts by 32 or more); the upper halves of
  MUL; the 32-bit register operations with funct7 1; SYSTEM words other than MRET and accesses
  to CSRs whose address ends in five zero bits, the bits the single-file decoder takes as the
  immediate; and every word with an unknown major opcode, which both reject but which the
  single-file decoder leaves in the default queue and unit.
\<close>
theorem decoders_agree:
  "decode_view (decode_one w pc) = decode_view (decode_uop pc w) \<longleftrightarrow> \<not> decoders_differ w"
proof -
  consider "w = 0x13" | "w = 0" | "w \<noteq> 0x13" "w \<noteq> 0" by blast
  then show ?thesis
  proof cases
    case 1
    have d: "decoders_differ 0x13" by code_simp
    have "uop_uopc (decode_uop pc 0x13) = UOPC_ADDI"
    proof -
      have "opcode_of 0x13 = 0x13" "f3_of 0x13 = 0" by code_simp+
      then show ?thesis by (simp add: decode_uop_general decode_opcode_def decode_op_imm_def all_setters Let_def)
    qed
    moreover have "uop_uopc (decode_one 0x13 pc) = UOPC_NOP"
      by (simp add: decode_one_def all_setters Let_def)
    ultimately show ?thesis using d 1 by (auto simp: decode_view_def)
  next
    case 2
    have o: "opcode_of 0 = 0" by code_simp
    have "decoders_differ 0" by code_simp
    then show ?thesis using 2
      by (simp add: decode_uop_general decode_opcode_def decode_one_def decode_view_def all_setters base_defs Let_def o)
  next
    case 3
    then show ?thesis by (simp add: decode_one_general decode_uop_general views_opcode)
  qed
qed

end
