(* ===== verification/AllRename.thy ===== *)
theory AllRename
  imports AllDecode Branch
begin

text \<open>
  Renaming and issue of the core in one file, src/boom_all.cpp: the map table with its branch
  snapshots, the free list with its busy bits, \<open>rename_module\<close>, the issue queue with wakeup
  and kill, and \<open>issue_module\<close> over three queues.
\<close>

section \<open>Map table and free list\<close>

definition int_map_table_snapshot :: "RenameMapTableState \<Rightarrow> u8 \<Rightarrow> RenameMapTableState" where
  "int_map_table_snapshot mt br_tag =
    (if unat br_tag < MAX_BRANCH_COUNT
     then mt\<lparr>mt_br_snapshots := map2 (\<lambda>row p. row[unat br_tag := p]) (mt_br_snapshots mt) (mt_map_table mt)\<rparr>
     else mt)"

text \<open>The loop over the branch tags stops at the first bit of the mask that is set.\<close>

definition int_map_table_restore :: "RenameMapTableState \<Rightarrow> u8 \<Rightarrow> RenameMapTableState" where
  "int_map_table_restore mt br_mask =
    (let mt = mt\<lparr>mt_map_table := mt_committed_map_table mt\<rparr>
     in case find (bit br_mask) [0..<MAX_BRANCH_COUNT] of None \<Rightarrow> mt
        | Some b \<Rightarrow> mt\<lparr>mt_map_table := map (\<lambda>row. row ! b) (mt_br_snapshots mt)\<rparr>)"

definition int_allocate_pdst :: "RenameFreeListState \<Rightarrow> u8 \<times> RenameFreeListState" where
  "int_allocate_pdst fl =
    (if fl_count fl = 0 then (0, fl)
     else let pdst = fl_free_list fl ! unat (fl_head fl)
          in (pdst, fl\<lparr>fl_head := inc_mod INT_PHYS_REGS (fl_head fl), fl_count := fl_count fl - 1,
                fl_busy_table := (fl_busy_table fl)[unat pdst := True]\<rparr>))"

definition int_free_pdst :: "RenameFreeListState \<Rightarrow> u8 \<Rightarrow> RenameFreeListState" where
  "int_free_pdst fl pdst =
    (if pdst = 0 then fl
     else if \<not> fl_busy_table fl ! unat pdst then fl
     else fl\<lparr>fl_busy_table := (fl_busy_table fl)[unat pdst := False],
             fl_free_list := (fl_free_list fl)[unat (fl_tail fl) := pdst],
             fl_tail := inc_mod INT_PHYS_REGS (fl_tail fl), fl_count := fl_count fl + 1\<rparr>)"

definition int_is_busy :: "RenameFreeListState \<Rightarrow> u8 \<Rightarrow> bool" where
  "int_is_busy fl pdst = fl_busy_table fl ! unat pdst"

section \<open>Renaming\<close>

definition all_rename_sources :: "u8 list \<Rightarrow> RenameFreeListState \<Rightarrow> MicroOp \<Rightarrow> MicroOp" where
  "all_rename_sources m fl u =
    (let ri = uop_rename u; p1 = m ! unat (ri_lrs1 ri); p2 = m ! unat (ri_lrs2 ri); p3 = m ! unat (ri_lrs3 ri)
     in u\<lparr>uop_rename := ri\<lparr>ri_prs1 := p1, ri_prs2 := p2, ri_prs3 := p3, ri_stale_pdst := m ! unat (ri_ldst ri),
            ri_prs1_busy := int_is_busy fl p1, ri_prs2_busy := int_is_busy fl p2, ri_prs3_busy := int_is_busy fl p3\<rparr>\<rparr>)"

definition all_rename_dest :: "MicroOp \<Rightarrow> RenameMapTableState \<Rightarrow> RenameFreeListState
    \<Rightarrow> MicroOp \<times> RenameMapTableState \<times> RenameFreeListState" where
  "all_rename_dest u mt fl =
    (let ri = uop_rename u
     in if ri_dst_rtype ri = DST_INT then
          if ri_ldst ri \<noteq> 0 then
            (let (new_pdst, fl) = int_allocate_pdst fl
             in (u\<lparr>uop_rename := ri\<lparr>ri_pdst := new_pdst\<rparr>\<rparr>,
                 mt\<lparr>mt_map_table := (mt_map_table mt)[unat (ri_ldst ri) := new_pdst]\<rparr>, fl))
          else (u\<lparr>uop_rename := ri\<lparr>ri_pdst := 0\<rparr>\<rparr>, mt, fl)
        else if ri_dst_rtype ri = DST_X0 then (u\<lparr>uop_rename := ri\<lparr>ri_pdst := 0, ri_ldst := 0\<rparr>\<rparr>, mt, fl)
        else (u\<lparr>uop_rename := ri\<lparr>ri_pdst := 0\<rparr>\<rparr>, mt, fl))"

text \<open>The branch tag comes from the function's static counter, which wraps at the tag count.\<close>

definition all_rename_branch :: "MicroOp \<Rightarrow> RenameMapTableState \<Rightarrow> u8 \<Rightarrow> MicroOp \<times> RenameMapTableState \<times> u8" where
  "all_rename_branch u mt next_br_tag =
    (let b = uop_branch u
     in if is_control u then
          (u\<lparr>uop_branch := b\<lparr>bi_br_tag := next_br_tag, bi_br_mask := push_bit (unat next_br_tag) 1\<rparr>\<rparr>,
           int_map_table_snapshot mt next_br_tag, inc_mod MAX_BRANCH_COUNT next_br_tag)
        else (u, mt, next_br_tag))"

definition all_rename_uop :: "MicroOp \<Rightarrow> RenameMapTableState \<Rightarrow> RenameFreeListState \<Rightarrow> u8
    \<Rightarrow> MicroOp \<times> RenameMapTableState \<times> RenameFreeListState \<times> u8" where
  "all_rename_uop u mt fl tag =
    (let u = all_rename_sources (mt_map_table mt) fl u;
         (u, mt, fl) = all_rename_dest u mt fl;
         (u, mt, tag) = all_rename_branch u mt tag
     in (u, mt, fl, tag))"

definition all_rename_lane :: "DecodeState \<Rightarrow> nat \<Rightarrow> RenameState \<times> u8 \<Rightarrow> RenameState \<times> u8" where
  "all_rename_lane dec i st =
    (case st of (ren, tag) \<Rightarrow>
       if \<not> dec_valids dec ! i then (ren, tag)
       else
         let (u, mt, fl, tag) = all_rename_uop (dec_uops dec ! i) (ren_int_map_table ren) (ren_int_free_list ren) tag
         in (ren\<lparr>ren_int_map_table := mt, ren_int_free_list := fl,
                 ren_renamed_uops := (ren_renamed_uops ren)[i := u],
                 ren_renamed_valids := (ren_renamed_valids ren)[i := True]\<rparr>, tag))"

definition all_rename_module :: "bool \<Rightarrow> BranchUpdate \<Rightarrow> DecodeState \<Rightarrow> RenameState \<Rightarrow> u8 \<Rightarrow> RenameState \<times> u8" where
  "all_rename_module global_flush brupdate dec ren tag =
    (let ren = ren\<lparr>ren_renamed_valids := replicate DISPATCH_WIDTH False,
                   ren_renamed_uops := replicate DISPATCH_WIDTH MicroOp0\<rparr>
     in if global_flush then (ren, tag)
        else
          let ren = (if bu_valid brupdate \<and> bu_mispredict brupdate
                     then ren\<lparr>ren_int_map_table := int_map_table_restore (ren_int_map_table ren) (bu_mispredict_mask brupdate)\<rparr>
                     else ren)
          in fold (all_rename_lane dec) [0..<DISPATCH_WIDTH] (ren, tag))"

section \<open>Issue queues\<close>

abbreviation (input) ISSUE_QUEUE_MEM_DEPTH :: nat where "ISSUE_QUEUE_MEM_DEPTH \<equiv> 8"

definition iq_enqueue :: "IssueQueueState \<Rightarrow> MicroOp \<Rightarrow> IssueQueueState" where
  "iq_enqueue iq u =
    (if unat (iq_count iq) \<ge> ISSUE_QUEUE_MEM_DEPTH then iq
     else let ri = uop_rename u;
              slot = (iq_entries iq ! unat (iq_tail iq))
                \<lparr>is_valid := True, is_request := True, is_granted := False, is_killed := False, is_uop := u,
                 is_pdst_busy := ri_ppred_busy ri, is_prs1_busy := ri_prs1_busy ri, is_prs2_busy := ri_prs2_busy ri,
                 is_prs3_busy := ri_prs3_busy ri, is_prs1_data := 0, is_prs2_data := 0, is_prs3_data := 0\<rparr>
          in iq\<lparr>iq_entries := (iq_entries iq)[unat (iq_tail iq) := slot],
                iq_tail := inc_mod ISSUE_QUEUE_MEM_DEPTH (iq_tail iq), iq_count := iq_count iq + 1\<rparr>)"

definition iq_wakeup_slot :: "u8 \<Rightarrow> IssueSlotEntry \<Rightarrow> IssueSlotEntry" where
  "iq_wakeup_slot pdst e =
    (if \<not> is_valid e then e
     else let ri = uop_rename (is_uop e);
              e = (if ri_prs1 ri = pdst then e\<lparr>is_prs1_busy := False\<rparr> else e);
              e = (if ri_prs2 ri = pdst then e\<lparr>is_prs2_busy := False\<rparr> else e)
          in if ri_prs3 ri = pdst then e\<lparr>is_prs3_busy := False\<rparr> else e)"

definition iq_wakeup :: "u8 \<Rightarrow> IssueQueueState \<Rightarrow> IssueQueueState" where
  "iq_wakeup pdst iq = iq\<lparr>iq_entries := map (iq_wakeup_slot pdst) (iq_entries iq)\<rparr>"

definition iq_is_ready :: "IssueSlotEntry \<Rightarrow> bool" where
  "iq_is_ready e =
    (if \<not> is_valid e \<or> \<not> is_request e \<or> is_killed e then False
     else \<not> is_prs1_busy e \<and> \<not> is_prs2_busy e \<and> \<not> is_prs3_busy e \<and> \<not> is_pdst_busy e)"

text \<open>\<open>iq_select\<close>: the index of the first ready slot, none for \<open>-1\<close>.\<close>

definition iq_select :: "IssueQueueState \<Rightarrow> nat option" where
  "iq_select iq = find (\<lambda>i. iq_is_ready (iq_entries iq ! i)) [0..<ISSUE_QUEUE_MEM_DEPTH]"

definition iq_grant :: "IssueQueueState \<Rightarrow> nat \<Rightarrow> IssueQueueState" where
  "iq_grant iq i =
    (if i \<ge> ISSUE_QUEUE_MEM_DEPTH then iq
     else iq\<lparr>iq_entries := (iq_entries iq)[i := (iq_entries iq ! i)\<lparr>is_granted := True, is_request := False\<rparr>]\<rparr>)"

definition iq_compress :: "IssueQueueState \<Rightarrow> IssueQueueState" where
  "iq_compress iq =
    (let kept = filter (\<lambda>e. is_valid e \<and> \<not> is_granted e) (iq_entries iq); w = length kept
     in iq\<lparr>iq_entries := kept @ replicate (ISSUE_QUEUE_MEM_DEPTH - w) (IssueSlotEntry0\<lparr>is_valid := False\<rparr>),
           iq_head := 0, iq_tail := word_of_nat (w mod ISSUE_QUEUE_MEM_DEPTH), iq_count := word_of_nat w\<rparr>)"

definition iq_kill_by_mask :: "u8 \<Rightarrow> IssueQueueState \<Rightarrow> IssueQueueState" where
  "iq_kill_by_mask br_mask iq = iq\<lparr>iq_entries := map (\<lambda>e.
     if is_valid e \<and> bi_br_mask (uop_branch (is_uop e)) AND br_mask \<noteq> 0 then e\<lparr>is_killed := True\<rparr> else e) (iq_entries iq)\<rparr>"

definition iq_flush :: "IssueQueueState \<Rightarrow> IssueQueueState" where
  "iq_flush iq = iq\<lparr>iq_entries := map (\<lambda>e. e\<lparr>is_valid := False, is_killed := False, is_granted := False, is_request := False\<rparr>)
     (iq_entries iq), iq_head := 0, iq_tail := 0, iq_count := 0\<rparr>"

text \<open>The Boolean result of \<open>iq_dispatch\<close> is not used by its callers; it comes second.\<close>

definition iq_dispatch :: "IssueQueueState \<Rightarrow> IqType \<Rightarrow> MicroOp \<Rightarrow> IssueQueueState \<times> bool" where
  "iq_dispatch iq type u =
    (if uop_iq_type u \<noteq> type then (iq, False)
     else if unat (iq_count iq) \<ge> ISSUE_QUEUE_MEM_DEPTH then (iq, False)
     else (iq_enqueue iq u, True))"

text \<open>
  Two of the three queues are fields this file assumes \<open>IssueState\<close> to have besides
  \<open>alu_iq\<close>; they extend the record.
\<close>

record AllIssueState = IssueState +
  aiss_mem_iq :: IssueQueueState
  aiss_fpu_iq :: IssueQueueState

definition map_queues :: "(IssueQueueState \<Rightarrow> IssueQueueState) \<Rightarrow> AllIssueState \<Rightarrow> AllIssueState" where
  "map_queues f iss = iss\<lparr>aiss_mem_iq := f (aiss_mem_iq iss), iss_alu_iq := f (iss_alu_iq iss), aiss_fpu_iq := f (aiss_fpu_iq iss)\<rparr>"

definition all_issue_dispatch :: "RenameState \<Rightarrow> nat \<Rightarrow> AllIssueState \<Rightarrow> AllIssueState" where
  "all_issue_dispatch ren i iss =
    (if ren_renamed_valids ren ! i then
       let u = ren_renamed_uops ren ! i
       in case uop_iq_type u of
            IQ_MEM \<Rightarrow> iss\<lparr>aiss_mem_iq := fst (iq_dispatch (aiss_mem_iq iss) IQ_MEM u)\<rparr>
          | IQ_ALU \<Rightarrow> iss\<lparr>iss_alu_iq := fst (iq_dispatch (iss_alu_iq iss) IQ_ALU u)\<rparr>
          | IQ_FPU \<Rightarrow> iss\<lparr>aiss_fpu_iq := fst (iq_dispatch (aiss_fpu_iq iss) IQ_FPU u)\<rparr>
     else iss)"

text \<open>
  \<open>for (i = 0; i < ISSUE_QUEUE_MEM_DEPTH && issued < ISSUE_WIDTH; i++)\<close> over one queue:
  the queue, the number issued, and the two output arrays.
\<close>

fun iq_issue :: "nat list \<Rightarrow> IssueQueueState \<times> nat \<times> MicroOp list \<times> bool list \<Rightarrow> IssueQueueState \<times> nat \<times> MicroOp list \<times> bool list" where
  "iq_issue [] st = st"
| "iq_issue (i # is) (iq, issued, uops, valids) =
    (if \<not> issued < ISSUE_WIDTH then (iq, issued, uops, valids)
     else if iq_is_ready (iq_entries iq ! i) then
       let iq = iq_grant iq i
       in iq_issue is (iq, issued + 1, uops[issued := is_uop (iq_entries iq ! i)], valids[issued := True])
     else iq_issue is (iq, issued, uops, valids))"

definition all_issue_select :: "AllIssueState \<Rightarrow> AllIssueState" where
  "all_issue_select iss =
    (let slots = [0..<ISSUE_QUEUE_MEM_DEPTH];
         (mem, n, uops, valids) = iq_issue slots (aiss_mem_iq iss, 0, iss_issued_uops iss, iss_issued_valids iss);
         (alu, n, uops, valids) = iq_issue slots (iss_alu_iq iss, n, uops, valids);
         (fpu, n, uops, valids) = iq_issue slots (aiss_fpu_iq iss, n, uops, valids)
     in iss\<lparr>aiss_mem_iq := mem, iss_alu_iq := alu, aiss_fpu_iq := fpu, iss_issued_uops := uops, iss_issued_valids := valids\<rparr>)"

definition iq_remove_killed :: "IssueQueueState \<Rightarrow> IssueQueueState" where
  "iq_remove_killed iq = iq\<lparr>iq_entries := map (\<lambda>e. if is_killed e then e\<lparr>is_valid := False\<rparr> else e) (iq_entries iq)\<rparr>"

definition all_issue_module :: "bool \<Rightarrow> BranchUpdate \<Rightarrow> RenameState \<Rightarrow> AluResult list \<Rightarrow> AllIssueState \<Rightarrow> AllIssueState" where
  "all_issue_module global_flush brupdate ren alu_results iss =
    (let iss = iss\<lparr>iss_issued_valids := replicate ISSUE_WIDTH False, iss_issued_uops := replicate ISSUE_WIDTH MicroOp0\<rparr>
     in if global_flush then map_queues iq_flush iss
        else
          let iss = (if bu_valid brupdate \<and> bu_mispredict brupdate
                     then map_queues (iq_kill_by_mask (bu_mispredict_mask brupdate)) iss else iss);
              iss = fold (\<lambda>i iss. if ar_valid (alu_results ! i)
                       then map_queues (iq_wakeup (ri_pdst (uop_rename (ar_uop (alu_results ! i))))) iss else iss)
                     [0..<DISPATCH_WIDTH] iss;
              iss = fold (all_issue_dispatch ren) [0..<DISPATCH_WIDTH] iss;
              iss = all_issue_select iss;
              iss = map_queues iq_compress iss
          in map_queues iq_remove_killed iss)"

section \<open>Branch snapshots\<close>

definition map_table_ok :: "RenameMapTableState \<Rightarrow> bool" where
  "map_table_ok mt = (length (mt_map_table mt) = 32 \<and> length (mt_br_snapshots mt) = 32
     \<and> list_all (\<lambda>row. length row = 8) (mt_br_snapshots mt))"

definition snapshot_of :: "nat \<Rightarrow> RenameMapTableState \<Rightarrow> u8 list" where
  "snapshot_of b mt = map (\<lambda>row. row ! b) (mt_br_snapshots mt)"

lemma find_upto: "(\<forall>i. P i \<longleftrightarrow> i = b) \<Longrightarrow> b < n \<Longrightarrow> find P [0..<n] = Some b"
  by (simp add: find_Some_iff) (rule exI [of _ b]; simp)

lemma restore_single:
  "b < 8 \<Longrightarrow> mt_map_table (int_map_table_restore mt (push_bit b 1)) = snapshot_of b mt"
proof -
  assume b: "b < 8"
  have "find (bit (push_bit b 1 :: u8)) [0..<8] = Some b"
    using b by (intro find_upto) (auto simp: bit_simps)
  then show ?thesis by (simp add: int_map_table_restore_def snapshot_of_def)
qed

lemma snapshot_taken:
  assumes "map_table_ok mt" "unat tag < 8"
  shows "snapshot_of b (int_map_table_snapshot mt tag) = (if b = unat tag then mt_map_table mt else snapshot_of b mt)"
    "map_table_ok (int_map_table_snapshot mt tag)" "mt_map_table (int_map_table_snapshot mt tag) = mt_map_table mt"
  using assms
  by (auto simp: snapshot_of_def map_table_ok_def int_map_table_snapshot_def list_all_length intro!: nth_equalityI)

text \<open>One renamed micro-operation: the tables stay well formed, and only its own tag's column changes.\<close>

lemma rename_uop_snapshots:
  assumes "map_table_ok mt" "unat tag < 8" "all_rename_uop u mt fl tag = (u', mt', fl', tag')"
  shows "map_table_ok mt'"
    "snapshot_of b mt' = (if is_control u \<and> b = unat tag then mt_map_table mt' else snapshot_of b mt)"
    "unat tag' = (if is_control u then (unat tag + 1) mod 8 else unat tag)"
    "is_control u \<Longrightarrow> bi_br_mask (uop_branch u') = push_bit (unat tag) 1"
proof -
  let ?s = "all_rename_sources (mt_map_table mt) fl u"
  obtain v m f where d: "all_rename_dest ?s mt fl = (v, m, f)" by (metis prod_cases3)
  have v: "uop_branch v = uop_branch u" and m: "map_table_ok m" "mt_br_snapshots m = mt_br_snapshots mt"
    using d assms(1)
    by (auto simp: all_rename_dest_def all_rename_sources_def map_table_ok_def Let_def split: if_splits prod.splits)
  have c: "is_control v = is_control u" by (simp add: is_control_def v)
  have e: "snapshot_of b m = snapshot_of b mt" for b by (simp add: snapshot_of_def m)
  note t = snapshot_taken [OF m(1) assms(2)]
  show "map_table_ok mt'" "snapshot_of b mt' = (if is_control u \<and> b = unat tag then mt_map_table mt' else snapshot_of b mt)"
    "unat tag' = (if is_control u then (unat tag + 1) mod 8 else unat tag)"
    "is_control u \<Longrightarrow> bi_br_mask (uop_branch u') = push_bit (unat tag) 1"
    using assms(3) t m(1) e [of b] by (auto simp: all_rename_uop_def all_rename_branch_def d c Let_def split: if_splits)
qed

text \<open>Renaming a sequence, one micro-operation after another.\<close>

fun all_rename_seq :: "MicroOp list \<Rightarrow> RenameMapTableState \<times> RenameFreeListState \<times> u8 \<Rightarrow> RenameMapTableState \<times> RenameFreeListState \<times> u8" where
  "all_rename_seq [] st = st"
| "all_rename_seq (u # us) (mt, fl, tag) = all_rename_seq us (snd (all_rename_uop u mt fl tag))"

lemma snapshot_survives:
  assumes "map_table_ok mt" "unat tag = (b + k) mod 8" "b < 8" "0 < k" "k + length (filter is_control us) \<le> 8"
  shows "snapshot_of b (fst (all_rename_seq us (mt, fl, tag))) = snapshot_of b mt"
  using assms
proof (induction us arbitrary: mt fl tag k)
  case Nil
  then show ?case by simp
next
  case (Cons u us)
  obtain u' mt' fl' tag' where r: "all_rename_uop u mt fl tag = (u', mt', fl', tag')" by (metis prod_cases4)
  have t: "unat tag < 8" using Cons.prems(2) by simp
  note n = rename_uop_snapshots [OF Cons.prems(1) t r]
  show ?case
  proof (cases "is_control u")
    case True
    then have k: "k < 8" "Suc k + length (filter is_control us) \<le> 8" using Cons.prems(5) by simp_all
    have "unat tag \<noteq> b" using Cons.prems(2-4) k(1) by (cases "b + k < 8") (auto simp: le_mod_geq)
    moreover have "unat tag' = (b + Suc k) mod 8" using n(3) True Cons.prems(2) by (simp add: mod_Suc_eq)
    ultimately show ?thesis using Cons.IH [OF n(1) _ Cons.prems(3) _ k(2)] n(2) [of b] True by (simp add: r)
  next
    case False
    then show ?thesis using Cons.IH [OF n(1), of tag' k fl'] Cons.prems n(2) [of b] n(3) by (simp add: r)
  qed
qed

text \<open>
  C38: In the single-file core a mispredicted branch gets its map table back: after a control
  instruction is renamed, and then any instructions with at most seven further control
  instructions among them, restoring with the branch's mask gives the map table as it was
  right after the branch. (The eighth one reuses the tag, which nothing checks.)
\<close>
theorem snapshots_restore:
  assumes "map_table_ok mt" "unat tag < 8" "is_control u" "length (filter is_control us) \<le> 7"
    "all_rename_uop u mt fl tag = (u', mt', fl', tag')"
  shows "mt_map_table (int_map_table_restore (fst (all_rename_seq us (mt', fl', tag'))) (bi_br_mask (uop_branch u')))
    = mt_map_table mt'"
proof -
  note n = rename_uop_snapshots [OF assms(1,2,5)]
  have "snapshot_of (unat tag) (fst (all_rename_seq us (mt', fl', tag'))) = snapshot_of (unat tag) mt'"
    by (rule snapshot_survives [where k = 1, OF n(1)]) (use n(3) assms in simp_all)
  then show ?thesis
    using n(2) [of "unat tag"] n(4) assms(2,3) by (simp only: restore_single) simp
qed

lemma snapshots_restore_witness:
  "case all_rename_uop (decode_one 0x010000EF 0) RenameMapTableState0 RenameFreeListState0 7 of (u', mt', st) \<Rightarrow>
     mt_map_table (int_map_table_restore (fst (all_rename_seq [decode_one 0x00500093 16, decode_one 0x00208463 20] (mt', st)))
       (bi_br_mask (uop_branch u'))) = mt_map_table mt' \<and> mt_map_table mt' ! 1 = 1"
proof -
  obtain u' mt' fl' tag' where r: "all_rename_uop (decode_one 0x010000EF 0) RenameMapTableState0 RenameFreeListState0 7 = (u', mt', fl', tag')"
    by (metis prod_cases4)
  have c: "is_control (decode_one 0x010000EF 0)" by code_simp
  have n: "length (filter is_control [decode_one 0x00500093 16, decode_one 0x00208463 20]) \<le> 7" by code_simp
  have m: "map_table_ok RenameMapTableState0" by code_simp
  have "mt_map_table (fst (snd (all_rename_uop (decode_one 0x010000EF 0) RenameMapTableState0 RenameFreeListState0 7))) ! 1 = 1"
    by code_simp
  then have "mt_map_table mt' ! 1 = 1" by (simp add: r)
  then show ?thesis using snapshots_restore [OF m _ c n r] by (simp add: r del: all_rename_seq.simps)
qed

end
