(* ===== verification/AllExecute.thy ===== *)
theory AllExecute
  imports AllDecode Branch
begin

text \<open>
  The execute stage of the core in one file, src/boom_all.cpp: its arithmetic, the iterative
  divider and the lane loop, and its branch resolution. \<open>div_state\<close>, a static variable of
  the file, is passed as a state; conversions between signed and unsigned keep the bits, and
  signed overflow wraps as in \<open>Execute\<close>. \<open>sext32\<close> is the function of \<open>Execute\<close>.
\<close>

section \<open>Arithmetic\<close>

definition all_sext :: "u64 \<Rightarrow> nat \<Rightarrow> u64" where
  "all_sext v bits =
     (if bits \<ge> 64 then v
      else let m = push_bit bits 1 - 1
           in if v AND push_bit (bits - 1) 1 \<noteq> 0 then v OR NOT m else v AND m)"

definition compute_alu :: "u8 \<Rightarrow> u64 \<Rightarrow> u64 \<Rightarrow> u64" where
  "compute_alu op_fcn op1 op2 =
     (if op_fcn = 0 then op1 + op2
      else if op_fcn = 1 then push_bit (unat (op2 AND 0x3F)) op1
      else if op_fcn = 2 then (if op1 <s op2 then 1 else 0)
      else if op_fcn = 3 then (if op1 < op2 then 1 else 0)
      else if op_fcn = 4 then op1 XOR op2
      else if op_fcn = 5 then op2 - op1
      else if op_fcn = 6 then drop_bit (unat (op2 AND 0x3F)) op1
      else if op_fcn = 7 then signed_drop_bit (unat (op2 AND 0x3F)) op1
      else if op_fcn = 8 then op1 OR op2
      else if op_fcn = 9 then op1 AND op2
      else 0)"

text \<open>The upper half of a product, as the three cases of \<open>compute_mul\<close> compute it.\<close>

definition mul_hi :: "u64 \<Rightarrow> u64 \<Rightarrow> u64" where
  "mul_hi a b =
     (let a_hi = drop_bit 32 a; a_lo = a AND 0xFFFFFFFF; b_hi = drop_bit 32 b; b_lo = b AND 0xFFFFFFFF
      in a_hi * b_hi + drop_bit 32 (a_hi * b_lo) + drop_bit 32 (a_lo * b_hi))"

definition mul_hi_signed :: "bool \<Rightarrow> u64 \<Rightarrow> u64 \<Rightarrow> u64" where
  "mul_hi_signed neg a b =
     (let hi = mul_hi a b
      in if neg then NOT hi + (if (a AND 0xFFFFFFFF) * (b AND 0xFFFFFFFF) = 0 then 0 else 1) else hi)"

definition compute_mul :: "u8 \<Rightarrow> u64 \<Rightarrow> u64 \<Rightarrow> u64" where
  "compute_mul op_fcn op1 op2 =
     (if op_fcn = 0 then op1 * op2
      else if op_fcn = 1 then
        let neg = ((op1 <s 0) \<noteq> (op2 <s 0));
            a = (if op1 <s 0 then - op1 else op1);
            b = (if op2 <s 0 then - op2 else op2)
        in mul_hi_signed neg a b
      else if op_fcn = 2 then
        let a = (if op1 <s 0 then - op1 else op1)
        in mul_hi_signed (op1 <s 0) a op2
      else if op_fcn = 3 then mul_hi op1 op2
      else 0)"

section \<open>The divider\<close>

record DividerState =
  dv_busy :: bool
  dv_is_signed :: bool
  dv_is_word :: bool
  dv_dividend :: u64
  dv_divisor :: u64
  dv_pdst :: u8
  dv_rob_idx :: u8
  dv_count :: u32
  dv_quotient :: u64
  dv_remainder :: u64
  dv_uop :: MicroOp

definition DividerState0 :: DividerState where
  "DividerState0 = \<lparr>dv_busy = False, dv_is_signed = False, dv_is_word = False, dv_dividend = 0, dv_divisor = 0,
     dv_pdst = 0, dv_rob_idx = 0, dv_count = 0, dv_quotient = 0, dv_remainder = 0, dv_uop = MicroOp0\<rparr>"

definition divider_start :: "MicroOp \<Rightarrow> u64 \<Rightarrow> u64 \<Rightarrow> DividerState \<Rightarrow> DividerState" where
  "divider_start u rs1 rs2 d =
     (let c = uop_uopc u;
          d = d\<lparr>dv_busy := True, dv_uop := u, dv_dividend := rs1, dv_divisor := rs2,
                dv_pdst := ri_pdst (uop_rename u), dv_rob_idx := qi_rob_idx (uop_queue u),
                dv_quotient := 0, dv_remainder := 0, dv_count := 0,
                dv_is_word := (c = UOPC_DIVW \<or> c = UOPC_DIVUW \<or> c = UOPC_REMW \<or> c = UOPC_REMUW)\<rparr>;
          is_signed = (c = UOPC_DIV \<or> c = UOPC_REM \<or> c = UOPC_DIVW \<or> c = UOPC_REMW);
          d = d\<lparr>dv_is_signed := is_signed\<rparr>
      in if is_signed \<and> dv_is_word d
         then d\<lparr>dv_dividend := scast (low32 rs1), dv_divisor := scast (low32 rs2)\<rparr> else d)"

text \<open>One step while \<open>count < 64\<close>.\<close>

definition divider_iterate :: "DividerState \<Rightarrow> DividerState" where
  "divider_iterate d =
     (if dv_divisor d = 0 then
        d\<lparr>dv_quotient := (if dv_is_signed d \<and> dv_dividend d <s 0 then 1 else NOT 0),
          dv_remainder := dv_dividend d, dv_count := 64\<rparr>
      else
        let d = (if dv_count d = 0 then
                   (let d = (if dv_is_signed d then
                               (let d = (if dv_dividend d <s 0 then d\<lparr>dv_dividend := - dv_dividend d\<rparr> else d)
                                in if dv_divisor d <s 0 then d\<lparr>dv_divisor := - dv_divisor d\<rparr> else d)
                             else d)
                    in d\<lparr>dv_remainder := 0\<rparr>)
                 else d)
        in d\<lparr>dv_count := dv_count d + 1\<rparr>)"

text \<open>The value returned when \<open>count\<close> has reached 64.\<close>

definition divider_value :: "DividerState \<Rightarrow> u64" where
  "divider_value d =
     (let c = uop_uopc (dv_uop d);
          is_rem = (c = UOPC_REM \<or> c = UOPC_REMU \<or> c = UOPC_REMW \<or> c = UOPC_REMUW);
          is_unsigned = (c = UOPC_DIVU \<or> c = UOPC_REMU \<or> c = UOPC_DIVUW \<or> c = UOPC_REMUW);
          v = (if dv_divisor d = 0 then
                 if is_rem then dv_dividend d
                 else if is_unsigned then NOT 0
                 else if dv_dividend d = 0x8000000000000000 then dv_dividend d else NOT 0
               else if is_rem then dv_dividend d mod dv_divisor d else dv_dividend d div dv_divisor d)
      in if \<not> is_unsigned \<and> \<not> is_rem then dv_quotient d else v)"

text \<open>
  \<open>execute_divider_step\<close>: the result record and the busy flag, both reference parameters,
  and \<open>div_state\<close>.
\<close>

definition execute_divider_step :: "AluResult \<Rightarrow> DividerState \<Rightarrow> AluResult \<times> bool \<times> DividerState" where
  "execute_divider_step r d =
     (if \<not> dv_busy d then (r\<lparr>ar_valid := False\<rparr>, False, d)
      else
        let r = r\<lparr>ar_valid := False\<rparr>;
            d = (if dv_count d <s 64 then divider_iterate d else d)
        in if 64 \<le>s dv_count d
           then (r\<lparr>ar_result := divider_value d, ar_valid := True, ar_uop := dv_uop d, ar_exception := False,
                   ar_mispredict := False\<rparr>, False, d\<lparr>dv_busy := False\<rparr>)
           else (r, True, d))"

section \<open>The arithmetic unit\<close>

definition all_op1 :: "MicroOp \<Rightarrow> u64 \<Rightarrow> u64 \<Rightarrow> u64" where
  "all_op1 u rs1 pc = (if dc_op1_sel (uop_ctrl u) = OP1_PC then pc
     else if dc_op1_sel (uop_ctrl u) = OP1_IMU then 0 else rs1)"

definition all_op2 :: "MicroOp \<Rightarrow> u64 \<Rightarrow> u64" where
  "all_op2 u rs2 = (if dc_op2_sel (uop_ctrl u) = OP2_IMM \<or> dc_op2_sel (uop_ctrl u) = OP2_IMZ then scast (uop_imm_packed u)
     else if dc_op2_sel (uop_ctrl u) = OP2_IMU then ucast (uop_imm_packed u) else rs2)"

definition all_branch :: "MicroOp \<Rightarrow> u64 \<Rightarrow> bool \<Rightarrow> AluResult \<Rightarrow> AluResult" where
  "all_branch u pc taken r = r\<lparr>ar_mispredict := taken, ar_redirect_pc := pc + scast (uop_imm_packed u)\<rparr>"

definition is_divide :: "u8 \<Rightarrow> bool" where
  "is_divide c = (c = UOPC_DIV \<or> c = UOPC_DIVU \<or> c = UOPC_REM \<or> c = UOPC_REMU
     \<or> c = UOPC_DIVW \<or> c = UOPC_DIVUW \<or> c = UOPC_REMW \<or> c = UOPC_REMUW)"

text \<open>The \<open>switch\<close> of \<open>execute_alu_unit\<close> but for its divisions, which touch \<open>div_state\<close>.\<close>

definition all_execute_switch :: "MicroOp \<Rightarrow> u64 \<Rightarrow> u64 \<Rightarrow> u64 \<Rightarrow> AluResult \<Rightarrow> AluResult" where
  "all_execute_switch u rs1 rs2 pc r =
    (let op1 = all_op1 u rs1 pc; op2 = all_op2 u rs2; imm = uop_imm_packed u; c = uop_uopc u
     in if c = UOPC_ADD \<or> c = UOPC_ADDI \<or> c = UOPC_AUIPC then r\<lparr>ar_result := op1 + op2\<rparr>
        else if c = UOPC_SUB then r\<lparr>ar_result := op1 - op2\<rparr>
        else if c = UOPC_ADDW \<or> c = UOPC_ADDIW then r\<lparr>ar_result := sext32 (scast (low32 rs1 + imm))\<rparr>
        else if c = UOPC_SUBW then r\<lparr>ar_result := sext32 (scast (low32 rs1 - low32 rs2))\<rparr>
        else if c = UOPC_SLL \<or> c = UOPC_SLLI then r\<lparr>ar_result := push_bit (unat (op2 AND 0x3F)) op1\<rparr>
        else if c = UOPC_SLLW \<or> c = UOPC_SLLIW then
          r\<lparr>ar_result := sext32 (scast (push_bit (unat (imm AND 0x1F)) (low32 rs1)))\<rparr>
        else if c = UOPC_SRL \<or> c = UOPC_SRLI then r\<lparr>ar_result := drop_bit (unat (op2 AND 0x3F)) op1\<rparr>
        else if c = UOPC_SRLW \<or> c = UOPC_SRLIW then
          r\<lparr>ar_result := sext32 (ucast (drop_bit (unat (imm AND 0x1F)) (low32 rs1)))\<rparr>
        else if c = UOPC_SRA \<or> c = UOPC_SRAI then r\<lparr>ar_result := signed_drop_bit (unat (op2 AND 0x3F)) op1\<rparr>
        else if c = UOPC_SRAW \<or> c = UOPC_SRAIW then
          r\<lparr>ar_result := sext32 (scast (signed_drop_bit (unat (imm AND 0x1F)) (low32 rs1)))\<rparr>
        else if c = UOPC_SLT \<or> c = UOPC_SLTI then r\<lparr>ar_result := (if op1 <s op2 then 1 else 0)\<rparr>
        else if c = UOPC_SLTU \<or> c = UOPC_SLTIU then r\<lparr>ar_result := (if op1 < op2 then 1 else 0)\<rparr>
        else if c = UOPC_XOR \<or> c = UOPC_XORI then r\<lparr>ar_result := op1 XOR op2\<rparr>
        else if c = UOPC_OR \<or> c = UOPC_ORI then r\<lparr>ar_result := op1 OR op2\<rparr>
        else if c = UOPC_AND \<or> c = UOPC_ANDI then r\<lparr>ar_result := op1 AND op2\<rparr>
        else if c = UOPC_LUI then r\<lparr>ar_result := ucast imm\<rparr>
        else if c = UOPC_MUL \<or> c = UOPC_MULW then r\<lparr>ar_result := scast (low32 rs1) * scast (low32 rs2)\<rparr>
        else if c = UOPC_MULH then r\<lparr>ar_result := compute_mul 1 rs1 rs2\<rparr>
        else if c = UOPC_MULHSU then r\<lparr>ar_result := compute_mul 2 rs1 rs2\<rparr>
        else if c = UOPC_MULHU then r\<lparr>ar_result := compute_mul 3 rs1 rs2\<rparr>
        else if c = UOPC_JAL then
          r\<lparr>ar_result := pc + 4, ar_redirect_pc := pc + scast imm, ar_mispredict := True\<rparr>
        else if c = UOPC_JALR then
          r\<lparr>ar_result := pc + 4, ar_redirect_pc := (rs1 + scast imm) AND NOT 1, ar_mispredict := True\<rparr>
        else if c = UOPC_BEQ then all_branch u pc (rs1 = rs2) r
        else if c = UOPC_BNE then all_branch u pc (rs1 \<noteq> rs2) r
        else if c = UOPC_BLT then all_branch u pc (rs1 <s rs2) r
        else if c = UOPC_BGE then all_branch u pc (rs2 \<le>s rs1) r
        else if c = UOPC_BLTU then all_branch u pc (rs1 < rs2) r
        else if c = UOPC_BGEU then all_branch u pc (rs2 \<le> rs1) r
        else r\<lparr>ar_result := 0\<rparr>)"

definition execute_alu_unit :: "AluResult \<Rightarrow> MicroOp \<Rightarrow> u64 \<Rightarrow> u64 \<Rightarrow> u64 \<Rightarrow> bool \<Rightarrow> DividerState
    \<Rightarrow> AluResult \<times> bool \<times> DividerState" where
  "execute_alu_unit r u rs1 rs2 pc div_busy d =
    (let r = r\<lparr>ar_valid := True, ar_uop := u, ar_result := 0, ar_exception := False, ar_exc_cause := 0,
               ar_mispredict := False, ar_redirect_pc := 0\<rparr>;
         c = uop_uopc u
     in if is_divide c then (r\<lparr>ar_valid := False\<rparr>, True, if \<not> dv_busy d then divider_start u rs1 rs2 d else d)
        else
          let r = all_execute_switch u rs1 rs2 pc r
          in (if c = UOPC_ADDW \<or> c = UOPC_SUBW \<or> c = UOPC_ADDIW \<or> c = UOPC_SLLW \<or> c = UOPC_SRLW \<or> c = UOPC_SRAW
                \<or> c = UOPC_SLLIW \<or> c = UOPC_SRLIW \<or> c = UOPC_SRAIW
              then r\<lparr>ar_result := sext32 (ar_result r)\<rparr> else r, div_busy, d))"

section \<open>The lane loop\<close>

text \<open>
  The file assigns fields of \<open>ExecuteState\<close> that include/boom_state.hpp no longer declares;
  they extend the record.
\<close>

record AllExecuteState = ExecuteState +
  aexe_fp_issued_valids :: "bool list"
  aexe_fp_issued_uops :: "MicroOp list"
  aexe_fp_busy :: bool

definition set_result :: "nat \<Rightarrow> (AluResult \<Rightarrow> AluResult) \<Rightarrow> AllExecuteState \<Rightarrow> AllExecuteState" where
  "set_result ri f exe = exe\<lparr>exe_alu_results := (exe_alu_results exe)[ri := f (exe_alu_results exe ! ri)]\<rparr>"

text \<open>One issued lane: the state, \<open>result_idx\<close>, \<open>div_busy\<close> and \<open>div_state\<close>.\<close>

definition all_execute_lane :: "u64 list \<Rightarrow> 'a IssueState_scheme \<Rightarrow> nat \<Rightarrow> AllExecuteState \<times> nat \<times> bool \<times> DividerState
    \<Rightarrow> AllExecuteState \<times> nat \<times> bool \<times> DividerState" where
  "all_execute_lane int_rf iss i st =
    (case st of (exe, ri, div_busy, d) \<Rightarrow>
       let u = iss_issued_uops iss ! i; c = uop_uopc u
       in if c = UOPC_ILLEGAL then
            (set_result ri (\<lambda>r. r\<lparr>ar_valid := True, ar_uop := u, ar_exception := True, ar_exc_cause := uop_exc_cause u\<rparr>) exe,
             ri + 1, div_busy, d)
          else if uop_iq_type u = IQ_FPU then
            (exe\<lparr>aexe_fp_issued_valids := (aexe_fp_issued_valids exe)[i := iss_issued_valids iss ! i],
                 aexe_fp_issued_uops := (aexe_fp_issued_uops exe)[i := u]\<rparr>, ri, div_busy, d)
          else
            let rs1 = int_rf ! unat (ri_prs1 (uop_rename u)); rs2 = int_rf ! unat (ri_prs2 (uop_rename u));
                pc = uop_debug_pc u
            in if uop_fu_code u = FU_CSR then
                 (set_result ri (\<lambda>r. r\<lparr>ar_valid := True, ar_uop := u, ar_result := 0\<rparr>) exe, ri + 1, div_busy, d)
               else if uop_fu_code u = FU_MEM then
                 (set_result ri (\<lambda>r. r\<lparr>ar_valid := True, ar_uop := u, ar_result := rs1 + scast (uop_imm_packed u)\<rparr>) exe,
                  ri + 1, div_busy, d)
               else
                 let (r, div_busy, d) = execute_alu_unit (exe_alu_results exe ! ri) u rs1 rs2 pc div_busy d;
                     exe = set_result ri (\<lambda>_. r) exe
                 in if is_divide c then (exe, if \<not> div_busy then ri + 1 else ri, div_busy, d)
                    else (exe, if ar_valid (exe_alu_results exe ! ri) then ri + 1 else ri, div_busy, d))"

text \<open>\<open>for (i = 0; i < ISSUE_WIDTH && result_idx < DISPATCH_WIDTH; i++)\<close>\<close>

fun all_execute_lanes :: "u64 list \<Rightarrow> 'a IssueState_scheme \<Rightarrow> nat list \<Rightarrow> AllExecuteState \<times> nat \<times> bool \<times> DividerState
    \<Rightarrow> AllExecuteState \<times> nat \<times> bool \<times> DividerState" where
  "all_execute_lanes int_rf iss [] st = st"
| "all_execute_lanes int_rf iss (i # is) st =
    (if \<not> fst (snd st) < DISPATCH_WIDTH then st
     else if iss_issued_valids iss ! i then all_execute_lanes int_rf iss is (all_execute_lane int_rf iss i st)
     else all_execute_lanes int_rf iss is st)"

text \<open>\<open>div_result\<close> is default-constructed, so the divider steps on every call.\<close>

definition all_execute_module :: "u64 list \<Rightarrow> 'a IssueState_scheme \<Rightarrow> AllExecuteState \<Rightarrow> DividerState
    \<Rightarrow> AllExecuteState \<times> DividerState" where
  "all_execute_module int_rf iss exe d =
    (let exe = exe\<lparr>exe_alu_results := map (\<lambda>r. r\<lparr>ar_valid := False\<rparr>) (exe_alu_results exe)\<rparr>;
         (exe, ri, div_busy, d) = all_execute_lanes int_rf iss [0..<ISSUE_WIDTH] (exe, 0, False, d);
         (div_result, div_busy, d) = execute_divider_step AluResult0 d;
         exe = (if ar_valid div_result \<and> ri < DISPATCH_WIDTH then set_result ri (\<lambda>_. div_result) exe else exe)
     in (exe\<lparr>aexe_fp_busy := False\<rparr>, d))"

section \<open>Branch resolution\<close>

definition all_branch_lane :: "AluResult \<Rightarrow> BranchUpdate \<Rightarrow> BranchUpdate" where
  "all_branch_lane r b =
    (if \<not> ar_valid r then b
     else let u = ar_uop r
       in if is_control u then
            let b = b\<lparr>bu_valid := True, bu_uop := u\<rparr>
            in if ar_mispredict r then
                 b\<lparr>bu_mispredict := True, bu_taken := True, bu_jalr_target := ar_redirect_pc r,
                   bu_br_tag := bi_br_tag (uop_branch u), bu_mispredict_mask := bi_br_mask (uop_branch u),
                   bu_resolve_mask := bi_br_mask (uop_branch u), bu_target_offset := ar_redirect_pc r - uop_debug_pc u\<rparr>
               else b
          else b)"

definition all_branch_module :: "AllExecuteState \<Rightarrow> BranchUpdate" where
  "all_branch_module exe =
    fold (\<lambda>i. all_branch_lane (exe_alu_results exe ! i)) [0..<DISPATCH_WIDTH]
      (BranchUpdate0\<lparr>bu_valid := False, bu_mispredict := False\<rparr>)"

section \<open>The upper half of a product\<close>

text \<open>The four partial products, over the integers.\<close>

lemma upper_half_split:
  fixes ah al bh bl :: nat
  assumes "al < 2 ^ 32" "bl < 2 ^ 32"
  defines "hi \<equiv> ah * bh + ah * bl div 2 ^ 32 + al * bh div 2 ^ 32"
  defines "p \<equiv> (ah * 2 ^ 32 + al) * (bh * 2 ^ 32 + bl)"
  shows "hi \<le> p div 2 ^ 64" "p div 2 ^ 64 \<le> hi + 2"
proof -
  define x qx y qy where "x = ah * bl mod 2 ^ 32" and "qx = ah * bl div 2 ^ 32"
    and "y = al * bh mod 2 ^ 32" and "qy = al * bh div 2 ^ 32"
  have x: "ah * bl = qx * 2 ^ 32 + x" and y: "al * bh = qy * 2 ^ 32 + y"
    by (simp_all only: x_def qx_def y_def qy_def div_mult_mod_eq)
  have xy: "x < 2 ^ 32" "y < 2 ^ 32" by (simp_all add: x_def y_def)
  have "al * bl \<le> (2 ^ 32 - 1) * (2 ^ 32 - 1)" using assms(1,2) by (intro mult_le_mono) simp_all
  then have l: "al * bl < 2 ^ 64" by simp
  have "p = ah * bh * 2 ^ 64 + (ah * bl) * 2 ^ 32 + (al * bh) * 2 ^ 32 + al * bl"
    by (simp add: p_def algebra_simps)
  moreover have "hi = ah * bh + qx + qy" by (simp only: hi_def qx_def qy_def)
  ultimately have p: "p = hi * 2 ^ 64 + ((x + y) * 2 ^ 32 + al * bl)"
    by (simp only: x y) (simp add: algebra_simps)
  have r: "(x + y) * 2 ^ 32 + al * bl < 3 * 2 ^ 64" using xy l by (simp add: algebra_simps)
  show "hi \<le> p div 2 ^ 64" unfolding p by simp
  have "((x + y) * 2 ^ 32 + al * bl) div 2 ^ 64 < 3" using r by (simp add: less_mult_imp_div_less)
  then show "p div 2 ^ 64 \<le> hi + 2" unfolding p by simp
qed

lemma unat_low_high: "unat (drop_bit 32 (a :: u64)) = unat a div 2 ^ 32" "unat (a AND 0xFFFFFFFF) = unat a mod 2 ^ 32"
proof -
  have m: "a AND 0xFFFFFFFF = take_bit 32 a" by (simp add: take_bit_eq_mask mask_eq_exp_minus_1)
  show "unat (drop_bit 32 a) = unat a div 2 ^ 32" unfolding unat_drop_bit_eq by (rule drop_bit_eq_div)
  show "unat (a AND 0xFFFFFFFF) = unat a mod 2 ^ 32" unfolding m unsigned_take_bit_eq by (rule take_bit_eq_mod)
qed

lemma unat_add_fits: "unat x + unat y < 2 ^ 64 \<Longrightarrow> unat (x + y) = unat x + unat (y :: u64)"
  by (simp add: unat_word_ariths)

lemma unat_mult_fits: "unat x * unat y < 2 ^ 64 \<Longrightarrow> unat (x * y) = unat x * unat (y :: u64)"
  by (simp add: unat_word_ariths)

lemma unat_mul_hi: "unat (mul_hi a b) = (unat a div 2 ^ 32) * (unat b div 2 ^ 32)
    + (unat a div 2 ^ 32) * (unat b mod 2 ^ 32) div 2 ^ 32 + (unat a mod 2 ^ 32) * (unat b div 2 ^ 32) div 2 ^ 32"
proof -
  have bound: "unat a < 2 ^ 64" "unat b < 2 ^ 64"
    using unsigned_less [of a, where ?'a = nat] unsigned_less [of b, where ?'a = nat] by simp_all
  have h: "unat a div 2 ^ 32 \<le> 2 ^ 32 - 1" "unat b div 2 ^ 32 \<le> 2 ^ 32 - 1" using bound by simp_all
  have l: "unat a mod 2 ^ 32 \<le> 2 ^ 32 - 1" "unat b mod 2 ^ 32 \<le> 2 ^ 32 - 1" by simp_all
  have prod: "x * y \<le> (2 ^ 32 - 1) * (2 ^ 32 - 1)" if "x \<le> 2 ^ 32 - 1" "y \<le> 2 ^ 32 - 1" for x y :: nat
    using that by (rule mult_le_mono)
  note ps = prod [OF h] prod [OF h(1) l(2)] prod [OF l(1) h(2)]
  have e: "unat (drop_bit 32 a * drop_bit 32 b) = (unat a div 2 ^ 32) * (unat b div 2 ^ 32)"
    "unat (drop_bit 32 a * (b AND 0xFFFFFFFF)) = (unat a div 2 ^ 32) * (unat b mod 2 ^ 32)"
    "unat ((a AND 0xFFFFFFFF) * drop_bit 32 b) = (unat a mod 2 ^ 32) * (unat b div 2 ^ 32)"
    using ps by (subst unat_mult_fits; simp only: unat_low_high; simp)+
  have s: "(unat a div 2 ^ 32) * (unat b mod 2 ^ 32) div 2 ^ 32 \<le> 2 ^ 32 - 2" "(unat a mod 2 ^ 32) * (unat b div 2 ^ 32) div 2 ^ 32 \<le> 2 ^ 32 - 2"
    using div_le_mono [OF ps(2), of "2 ^ 32"] div_le_mono [OF ps(3), of "2 ^ 32"] by simp_all
  have sum: "unat (drop_bit 32 a * drop_bit 32 b + drop_bit 32 (drop_bit 32 a * (b AND 0xFFFFFFFF)))
      = (unat a div 2 ^ 32) * (unat b div 2 ^ 32) + (unat a div 2 ^ 32) * (unat b mod 2 ^ 32) div 2 ^ 32"
    using ps(1) s by (subst unat_add_fits) (simp_all only: unat_low_high(1) e; simp)+
  show ?thesis unfolding mul_hi_def Let_def using ps(1) s
    by (subst unat_add_fits; simp only: sum unat_low_high(1) e; simp)
qed

text \<open>
  The single-file core's MULHU falls short of the upper half of the product by at most two:
  it adds the upper halves of the partial products and drops the carries between them.
\<close>
lemma mulhu_within_two:
  "unat (compute_mul 3 a b) \<le> unat a * unat b div 2 ^ 64 \<and> unat a * unat b div 2 ^ 64 \<le> unat (compute_mul 3 a b) + 2"
proof -
  have s: "x div 2 ^ 32 * 2 ^ 32 + x mod 2 ^ 32 = x" for x :: nat by simp
  have "compute_mul 3 a b = mul_hi a b" by (simp add: compute_mul_def)
  then show ?thesis
    using upper_half_split [of "unat a mod 2 ^ 32" "unat b mod 2 ^ 32" "unat a div 2 ^ 32" "unat b div 2 ^ 32"]
    by (simp only: unat_mul_hi s) simp
qed

section \<open>The divider ends\<close>

text \<open>The divider's state after \<open>n\<close> calls, and the result the code returns for a division.\<close>

fun divider_after :: "nat \<Rightarrow> DividerState \<Rightarrow> DividerState" where
  "divider_after 0 d = d"
| "divider_after (Suc n) d = snd (snd (execute_divider_step AluResult0 (divider_after n d)))"

definition word_abs :: "u64 \<Rightarrow> u64" where
  "word_abs v = (if v <s 0 then - v else v)"

definition divide_result :: "u8 \<Rightarrow> u64 \<Rightarrow> u64 \<Rightarrow> u64" where
  "divide_result c a b =
     (let is_word = (c = UOPC_DIVW \<or> c = UOPC_REMW);
          sa = (if is_word then scast (low32 a) else a); sb = (if is_word then scast (low32 b) else b)
      in if c = UOPC_DIVU \<or> c = UOPC_DIVUW then if b = 0 then NOT 0 else a div b
         else if c = UOPC_REMU \<or> c = UOPC_REMUW then if b = 0 then a else a mod b
         else if c = UOPC_REM \<or> c = UOPC_REMW then if sb = 0 then sa else word_abs sa mod word_abs sb
         else if sb = 0 then if sa <s 0 then 1 else NOT 0
         else 0)"

definition divider_normal :: "DividerState \<Rightarrow> DividerState" where
  "divider_normal d = (if dv_is_signed d
     then d\<lparr>dv_dividend := word_abs (dv_dividend d), dv_divisor := word_abs (dv_divisor d), dv_remainder := 0\<rparr>
     else d\<lparr>dv_remainder := 0\<rparr>)"

lemma word_abs_zero [simp]: "word_abs v = 0 \<longleftrightarrow> v = 0"
  by (simp add: word_abs_def)

lemma divider_normal_fields [simp]:
  "dv_busy (divider_normal d) = dv_busy d" "dv_count (divider_normal d) = dv_count d"
  "dv_uop (divider_normal d) = dv_uop d" "dv_quotient (divider_normal d) = dv_quotient d"
  "dv_divisor (divider_normal d) = 0 \<longleftrightarrow> dv_divisor d = 0"
  "dv_is_signed (divider_normal d) = dv_is_signed d"
  by (simp_all add: divider_normal_def)

lemma sless_count: "k \<le> 64 \<Longrightarrow> (word_of_nat k :: u32) <s 64 \<longleftrightarrow> k < 64" "k \<le> 64 \<Longrightarrow> 64 \<le>s (word_of_nat k :: u32) \<longleftrightarrow> k = 64"
proof -
  assume "k \<le> 64"
  then have "sint (word_of_nat k :: u32) = int k"
    by (simp add: signed_of_nat signed_take_bit_int_eq_self)
  then show "(word_of_nat k :: u32) <s 64 \<longleftrightarrow> k < 64" "64 \<le>s (word_of_nat k :: u32) \<longleftrightarrow> k = 64"
    using \<open>k \<le> 64\<close> by (auto simp: word_sless_alt word_sle_eq)
qed

lemma iterate_first: "dv_count d = 0 \<Longrightarrow> dv_divisor d \<noteq> 0 \<Longrightarrow> divider_iterate d = divider_normal (d\<lparr>dv_count := 1\<rparr>)"
  by (simp add: divider_iterate_def divider_normal_def word_abs_def Let_def)

lemma iterate_later: "dv_count d \<noteq> 0 \<Longrightarrow> dv_divisor d \<noteq> 0 \<Longrightarrow> divider_iterate d = d\<lparr>dv_count := dv_count d + 1\<rparr>"
  by (simp add: divider_iterate_def Let_def)

text \<open>While the count is below 63 a call only counts; the next one returns.\<close>

lemma divider_step_counts:
  assumes "dv_busy d" "dv_divisor d \<noteq> 0" "dv_count d = word_of_nat k" "0 < k" "k < 63"
  shows "execute_divider_step r d = (r\<lparr>ar_valid := False\<rparr>, True, d\<lparr>dv_count := word_of_nat (Suc k)\<rparr>)"
proof -
  have "(word_of_nat k :: u32) \<noteq> 0" using assms(4,5) by (simp add: word_of_nat_eq_0_iff nat_dvd_not_less)
  then show ?thesis
    using assms sless_count(1) [of k] sless_count(2) [of "Suc k"]
    by (simp add: execute_divider_step_def iterate_later Let_def add.commute)
qed

lemma step_first:
  assumes "dv_busy d" "dv_divisor d \<noteq> 0" "dv_count d = 0"
  shows "execute_divider_step r d = (r\<lparr>ar_valid := False\<rparr>, True, divider_normal (d\<lparr>dv_count := 1\<rparr>))"
  using assms sless_count(1) [of 0] sless_count(2) [of 1]
  by (simp add: execute_divider_step_def iterate_first Let_def)

lemma divider_after_counts:
  assumes "dv_busy d" "dv_divisor d \<noteq> 0" "dv_count d = 0" "k < 63"
  shows "divider_after (Suc k) d = divider_normal (d\<lparr>dv_count := word_of_nat (Suc k)\<rparr>)"
  using assms(4)
proof (induction k)
  case 0
  then show ?case using step_first [OF assms(1-3)] by simp
next
  case (Suc k)
  have e: "(divider_normal (d\<lparr>dv_count := x\<rparr>))\<lparr>dv_count := y\<rparr> = divider_normal (d\<lparr>dv_count := y\<rparr>)" for x y
    by (simp add: divider_normal_def)
  have "divider_after (Suc k) d = divider_normal (d\<lparr>dv_count := word_of_nat (Suc k)\<rparr>)" using Suc by simp
  moreover have "execute_divider_step AluResult0 (divider_normal (d\<lparr>dv_count := word_of_nat (Suc k)\<rparr>))
      = (AluResult0\<lparr>ar_valid := False\<rparr>, True, divider_normal (d\<lparr>dv_count := word_of_nat (Suc (Suc k))\<rparr>))"
    using Suc.prems assms by (subst divider_step_counts [where k = "Suc k"]) (simp_all add: e)
  ultimately show ?case by (simp only: divider_after.simps(2) [of "Suc k"]) simp
qed

lemma step_last:
  assumes "dv_busy d" "dv_divisor d \<noteq> 0" "dv_count d = 63"
  shows "execute_divider_step r d = (r\<lparr>ar_valid := True, ar_result := divider_value d, ar_uop := dv_uop d,
     ar_exception := False, ar_mispredict := False\<rparr>, False, d\<lparr>dv_count := 64, dv_busy := False\<rparr>)"
proof -
  have "divider_value (d\<lparr>dv_count := 64\<rparr>) = divider_value d" by (simp add: divider_value_def Let_def)
  then show ?thesis using assms sless_count(1) [of 63]
    by (simp add: execute_divider_step_def iterate_later Let_def)
qed

lemma step_by_zero:
  assumes "dv_busy d" "dv_divisor d = 0" "dv_count d = 0"
  shows "execute_divider_step r d = (r\<lparr>ar_valid := True, ar_result := divider_value (divider_iterate d), ar_uop := dv_uop d,
     ar_exception := False, ar_mispredict := False\<rparr>, False, (divider_iterate d)\<lparr>dv_busy := False\<rparr>)"
proof -
  have "dv_count (divider_iterate d) = 64" "dv_uop (divider_iterate d) = dv_uop d"
    using assms by (simp_all add: divider_iterate_def)
  then show ?thesis using assms sless_count(1) [of 0]
    by (simp add: execute_divider_step_def Let_def)
qed

lemma divider_start_fields [simp]:
  "dv_busy (divider_start u a b d)" "dv_count (divider_start u a b d) = 0" "dv_uop (divider_start u a b d) = u"
  by (simp_all add: divider_start_def Let_def)

text \<open>The value computed from the initial state, by zero and otherwise.\<close>

lemma value_by_zero:
  assumes "is_divide (uop_uopc u)" "dv_divisor (divider_start u a b d) = 0"
  shows "divider_value (divider_iterate (divider_start u a b d)) = divide_result (uop_uopc u) a b"
  using assms unfolding is_divide_def
  by (elim disjE; simp add: divider_value_def divider_iterate_def divider_start_def divide_result_def Let_def)

lemma value_otherwise:
  assumes "is_divide (uop_uopc u)" "dv_divisor (divider_start u a b d) \<noteq> 0"
  shows "divider_value (divider_normal ((divider_start u a b d)\<lparr>dv_count := n\<rparr>)) = divide_result (uop_uopc u) a b"
  using assms unfolding is_divide_def
  by (elim disjE; simp add: divider_value_def divider_normal_def divider_start_def divide_result_def Let_def)

text \<open>
  C37: The iterative divider always ends: started with a division, it reports busy and no result
  for 63 calls (none when the divisor is zero) and returns on the next. What it returns is the
  unsigned quotient and remainder of the instruction set for DIVU and REMU, the remainder of
  the absolute values for REM, and for DIV by a nonzero divisor always 0: the quotient field
  that DIV returns is never computed.
\<close>
theorem divider_finishes:
  assumes "is_divide (uop_uopc u)"
  shows "let d = divider_start u a b d0; n = (if dv_divisor d = 0 then 0 else 63)
    in (\<forall>k < n. execute_divider_step AluResult0 (divider_after k d) = (AluResult0, True, divider_after (Suc k) d))
     \<and> execute_divider_step AluResult0 (divider_after n d)
        = (AluResult0\<lparr>ar_valid := True, ar_result := divide_result (uop_uopc u) a b, ar_uop := u\<rparr>, False, divider_after (Suc n) d)
     \<and> \<not> dv_busy (divider_after (Suc n) d)"
proof -
  let ?d = "divider_start u a b d0"
  have z: "AluResult0\<lparr>ar_valid := False\<rparr> = AluResult0"
    "AluResult0\<lparr>ar_valid := True, ar_result := x, ar_uop := v, ar_exception := False, ar_mispredict := False\<rparr>
       = AluResult0\<lparr>ar_valid := True, ar_result := x, ar_uop := v\<rparr>" for x v
    by (simp_all add: AluResult0_def)
  show ?thesis
  proof (cases "dv_divisor ?d = 0")
    case True
    then show ?thesis using value_by_zero [OF assms True]
      by (simp add: step_by_zero z)
  next
    case False
    note after = divider_after_counts [of ?d, OF _ False]
    have "execute_divider_step AluResult0 (divider_after k ?d) = (AluResult0, True, divider_after (Suc k) ?d)" if "k < 63" for k
      using that False after step_first [of ?d AluResult0] divider_step_counts [of "divider_after k ?d" k AluResult0]
      by (cases k) (simp_all add: z)
    moreover have "divider_after 63 ?d = divider_normal (?d\<lparr>dv_count := 63\<rparr>)"
      using after [of 62] by simp
    moreover have "execute_divider_step AluResult0 (divider_normal (?d\<lparr>dv_count := 63\<rparr>))
        = (AluResult0\<lparr>ar_valid := True, ar_result := divide_result (uop_uopc u) a b, ar_uop := u\<rparr>, False,
           (divider_normal (?d\<lparr>dv_count := 63\<rparr>))\<lparr>dv_count := 64, dv_busy := False\<rparr>)"
      using False value_otherwise [OF assms False, of 63] by (subst step_last) (simp_all add: z)
    ultimately show ?thesis using False by (simp add: Let_def)
  qed
qed

lemma divider_finishes_witness:
  "ar_result (fst (execute_divider_step AluResult0 (divider_after 63 (divider_start (MicroOp0\<lparr>uop_uopc := UOPC_DIVU\<rparr>) 100 7 DividerState0)))) = 14
   \<and> ar_result (fst (execute_divider_step AluResult0 (divider_after 63 (divider_start (MicroOp0\<lparr>uop_uopc := UOPC_DIV\<rparr>) 100 7 DividerState0)))) = 0"
proof -
  have d: "dv_divisor (divider_start (MicroOp0\<lparr>uop_uopc := UOPC_DIVU\<rparr>) 100 7 DividerState0) \<noteq> 0"
    "dv_divisor (divider_start (MicroOp0\<lparr>uop_uopc := UOPC_DIV\<rparr>) 100 7 DividerState0) \<noteq> 0"
    by (simp_all add: divider_start_def Let_def)
  have r: "divide_result UOPC_DIVU 100 7 = 14" "divide_result UOPC_DIV 100 7 = 0" by code_simp+
  have "ar_result (fst (execute_divider_step AluResult0 (divider_after 63 (divider_start u a b d0)))) = divide_result (uop_uopc u) a b"
    if "is_divide (uop_uopc u)" "dv_divisor (divider_start u a b d0) \<noteq> 0" for u a b d0
    using divider_finishes [OF that(1), of a b d0] that(2) by (simp add: Let_def del: divider_after.simps)
  from this [OF _ d(1)] this [OF _ d(2)] show ?thesis using r by (simp add: is_divide_def)
qed

end
