(* ===== verification/AllCsr.thy ===== *)
theory AllCsr
  imports AllExecute
begin

text \<open>
  The control and status registers of the core in one file, src/boom_all.cpp: reading and
  writing by address, the read-and-modify operations, and \<open>csr_module\<close>.
\<close>

abbreviation (input) CSR_MSTATUS :: u16 where "CSR_MSTATUS \<equiv> 0x300"
abbreviation (input) CSR_MISA :: u16 where "CSR_MISA \<equiv> 0x301"
abbreviation (input) CSR_MIE :: u16 where "CSR_MIE \<equiv> 0x304"
abbreviation (input) CSR_MTVEC :: u16 where "CSR_MTVEC \<equiv> 0x305"
abbreviation (input) CSR_MSCRATCH :: u16 where "CSR_MSCRATCH \<equiv> 0x340"
abbreviation (input) CSR_MEPC :: u16 where "CSR_MEPC \<equiv> 0x341"
abbreviation (input) CSR_MCAUSE :: u16 where "CSR_MCAUSE \<equiv> 0x342"
abbreviation (input) CSR_MTVAL :: u16 where "CSR_MTVAL \<equiv> 0x343"
abbreviation (input) CSR_MIP :: u16 where "CSR_MIP \<equiv> 0x344"
abbreviation (input) CSR_SATP :: u16 where "CSR_SATP \<equiv> 0x180"
abbreviation (input) CSR_CYCLE :: u16 where "CSR_CYCLE \<equiv> 0xC00"
abbreviation (input) CSR_CYCLEH :: u16 where "CSR_CYCLEH \<equiv> 0xC80"
abbreviation (input) CSR_INSTRET :: u16 where "CSR_INSTRET \<equiv> 0xC02"
abbreviation (input) CSR_INSTRETH :: u16 where "CSR_INSTRETH \<equiv> 0xC82"
abbreviation (input) UOPC_SRET :: u8 where "UOPC_SRET \<equiv> 119"

section \<open>Access by address\<close>

definition csr_read :: "CsrState \<Rightarrow> u16 \<Rightarrow> u64" where
  "csr_read csr addr =
    (if addr = CSR_MSTATUS then csr_mstatus csr
     else if addr = CSR_MISA then csr_misa csr
     else if addr = CSR_MIE then csr_mie csr
     else if addr = CSR_MTVEC then csr_mtvec csr
     else if addr = CSR_MSCRATCH then csr_mscratch csr
     else if addr = CSR_MEPC then csr_mepc csr
     else if addr = CSR_MCAUSE then csr_mcause csr
     else if addr = CSR_MTVAL then csr_mtval csr
     else if addr = CSR_MIP then csr_mip csr
     else if addr = CSR_SATP then csr_satp csr
     else if addr = CSR_CYCLE then csr_cycle csr AND 0xFFFFFFFF
     else if addr = CSR_CYCLEH then drop_bit 32 (csr_cycle csr) AND 0xFFFFFFFF
     else if addr = CSR_INSTRET then csr_instret csr AND 0xFFFFFFFF
     else if addr = CSR_INSTRETH then drop_bit 32 (csr_instret csr) AND 0xFFFFFFFF
     else 0)"

definition csr_write :: "CsrState \<Rightarrow> u16 \<Rightarrow> u64 \<Rightarrow> CsrState" where
  "csr_write csr addr data =
    (if addr = CSR_MSTATUS then csr\<lparr>csr_mstatus := data\<rparr>
     else if addr = CSR_MISA then csr
     else if addr = CSR_MIE then csr\<lparr>csr_mie := data\<rparr>
     else if addr = CSR_MTVEC then csr\<lparr>csr_mtvec := data\<rparr>
     else if addr = CSR_MSCRATCH then csr\<lparr>csr_mscratch := data\<rparr>
     else if addr = CSR_MEPC then csr\<lparr>csr_mepc := data\<rparr>
     else if addr = CSR_MCAUSE then csr\<lparr>csr_mcause := data\<rparr>
     else if addr = CSR_MTVAL then csr\<lparr>csr_mtval := data\<rparr>
     else if addr = CSR_MIP then csr\<lparr>csr_mip := data\<rparr>
     else if addr = CSR_SATP then csr\<lparr>csr_satp := data\<rparr>
     else csr)"

text \<open>The value read, and the file afterwards.\<close>

definition csr_rw_op :: "CsrState \<Rightarrow> MicroOp \<Rightarrow> u64 \<Rightarrow> u64 \<times> CsrState" where
  "csr_rw_op csr u rs1_data =
    (let addr = uop_csr_addr u; old_val = csr_read csr addr; c = uop_uopc u;
         ldst = ri_ldst (uop_rename u); imm = ucast (uop_imm_packed u) :: u64
     in (old_val,
         if c = UOPC_CSRRW then if ldst \<noteq> 0 then csr_write csr addr rs1_data else csr
         else if c = UOPC_CSRRS then if rs1_data \<noteq> 0 \<or> ldst \<noteq> 0 then csr_write csr addr (old_val OR rs1_data) else csr
         else if c = UOPC_CSRRC then if rs1_data \<noteq> 0 \<or> ldst \<noteq> 0 then csr_write csr addr (old_val AND NOT rs1_data) else csr
         else if c = UOPC_CSRRWI then if ldst \<noteq> 0 then csr_write csr addr imm else csr
         else if c = UOPC_CSRRSI then if uop_imm_packed u \<noteq> 0 \<or> ldst \<noteq> 0 then csr_write csr addr (old_val OR imm) else csr
         else if c = UOPC_CSRRCI then
           if uop_imm_packed u \<noteq> 0 \<or> ldst \<noteq> 0 then csr_write csr addr (old_val AND NOT imm) else csr
         else csr))"

section \<open>The stage\<close>

definition is_csr_access :: "u8 \<Rightarrow> bool" where
  "is_csr_access c = (c = UOPC_CSRRW \<or> c = UOPC_CSRRS \<or> c = UOPC_CSRRC \<or> c = UOPC_CSRRWI \<or> c = UOPC_CSRRSI \<or> c = UOPC_CSRRCI)"

definition all_csr_lane :: "u64 list \<Rightarrow> AluResult \<Rightarrow> CsrState \<Rightarrow> CsrState" where
  "all_csr_lane int_rf r csr =
    (let u = ar_uop r; c = uop_uopc u
     in if \<not> ar_valid r then csr
        else if uop_fu_code u \<noteq> FU_CSR then csr
        else if is_csr_access c then snd (csr_rw_op csr u (int_rf ! unat (ri_prs1 (uop_rename u))))
        else if c = UOPC_MRET then csr\<lparr>csr_priv := ucast (drop_bit 11 (csr_mstatus csr) AND 0x3)\<rparr>
        else if c = UOPC_SRET then csr\<lparr>csr_priv := ucast (drop_bit 8 (csr_mstatus csr) AND 0x1)\<rparr>
        else csr)"

definition all_csr_module :: "AllExecuteState \<Rightarrow> u64 list \<Rightarrow> CsrState \<Rightarrow> CsrState" where
  "all_csr_module exe int_rf csr =
    fold (\<lambda>i. all_csr_lane int_rf (exe_alu_results exe ! i)) [0..<DISPATCH_WIDTH] (csr\<lparr>csr_cycle := csr_cycle csr + 1\<rparr>)"

section \<open>The register file as a map from addresses\<close>

definition csr_writable :: "u16 \<Rightarrow> bool" where
  "csr_writable a = (a \<in> {CSR_MSTATUS, CSR_MIE, CSR_MTVEC, CSR_MSCRATCH, CSR_MEPC, CSR_MCAUSE, CSR_MTVAL, CSR_MIP, CSR_SATP})"

lemma csr_read_write: "csr_read (csr_write csr a v) b = (if a = b \<and> csr_writable a then v else csr_read csr b)"
proof (cases "csr_writable a")
  case True
  then show ?thesis unfolding csr_writable_def
    by (elim insertE emptyE; simp add: csr_write_def; simp add: csr_read_def)
next
  case False
  then have "csr_write csr a v = csr" by (simp add: csr_write_def csr_writable_def)
  then show ?thesis using False by simp
qed

text \<open>The value an access writes, and when the instruction set has it write.\<close>

definition csr_new_value :: "MicroOp \<Rightarrow> u64 \<Rightarrow> u64 \<Rightarrow> u64" where
  "csr_new_value u old rs1_data =
    (let c = uop_uopc u; imm = ucast (uop_imm_packed u)
     in if c = UOPC_CSRRW then rs1_data else if c = UOPC_CSRRS then old OR rs1_data
        else if c = UOPC_CSRRC then old AND NOT rs1_data else if c = UOPC_CSRRWI then imm
        else if c = UOPC_CSRRSI then old OR imm else old AND NOT imm)"

text \<open>
  C39: A CSR access of the single-file core returns the old value and updates exactly the
  addressed register: it then reads as the written, set or cleared value, and every other
  address reads as before; the read-only and unknown addresses never change. The exception is
  CSRRW and CSRRWI with destination x0, which the instruction set has write the register and
  which this code drops.
\<close>
theorem csr_access_updates:
  assumes "is_csr_access (uop_uopc u)"
  shows "fst (csr_rw_op csr u v) = csr_read csr (uop_csr_addr u)
    \<and> csr_read (snd (csr_rw_op csr u v)) b =
        (if b = uop_csr_addr u \<and> csr_writable b \<and> \<not> (uop_uopc u \<in> {UOPC_CSRRW, UOPC_CSRRWI} \<and> ri_ldst (uop_rename u) = 0)
         then csr_new_value u (csr_read csr b) v else csr_read csr b)"
  using assms unfolding is_csr_access_def
  by (elim disjE) (auto simp: csr_rw_op_def csr_new_value_def csr_read_write Let_def)

lemma csr_access_updates_witness:
  "csr_read (snd (csr_rw_op CsrState0 (MicroOp0\<lparr>uop_uopc := UOPC_CSRRS, uop_csr_addr := CSR_MSCRATCH\<rparr>) 5)) CSR_MSCRATCH = 5"
proof -
  have o: "csr_read CsrState0 CSR_MSCRATCH = 0" by code_simp
  show ?thesis
    using csr_access_updates [of "MicroOp0\<lparr>uop_uopc := UOPC_CSRRS, uop_csr_addr := CSR_MSCRATCH\<rparr>" CsrState0 5 CSR_MSCRATCH] o
    by (simp add: is_csr_access_def csr_writable_def csr_new_value_def)
qed

end
