(* ===== verification/AllCore.thy ===== *)
theory AllCore
  imports AllRename AllCsr
begin

text \<open>
  The reorder buffer, commit and the cycle of the core in one file, src/boom_all.cpp:
  \<open>rob_module\<close>, \<open>commit_module\<close> and \<open>boom_core_step\<close>. The two static variables of the
  file (\<open>div_state\<close> and the branch tag counter) are part of the state; a reset, which assigns
  a new \<open>BoomCoreState\<close>, leaves them alone. Fields that this file uses and
  include/boom_state.hpp does not declare extend the records; as their initial values are not
  in the repository, the state a reset assigns is an argument of the step.
\<close>

section \<open>Reorder buffer\<close>

record AllRobState = RobInternalState +
  arob_pnr :: u8
  arob_xcpt_uop :: MicroOp
  arob_xcpt_badvaddr :: u64
  arob_flush_frontend :: bool

definition rob_full :: "AllRobState \<Rightarrow> bool" where
  "rob_full rob = (rob_head rob = rob_tail rob \<and> rob_maybe_full rob)"

definition rob_empty :: "AllRobState \<Rightarrow> bool" where
  "rob_empty rob = (rob_head rob = rob_tail rob \<and> \<not> rob_maybe_full rob)"

definition set_entry :: "u8 \<Rightarrow> (RobEntry \<Rightarrow> RobEntry) \<Rightarrow> AllRobState \<Rightarrow> AllRobState" where
  "set_entry i f rob = rob\<lparr>rob_entries := (rob_entries rob)[unat i := f (rob_entries rob ! unat i)]\<rparr>"

definition all_rob_allocate :: "RenameState \<Rightarrow> nat \<Rightarrow> AllRobState \<Rightarrow> AllRobState" where
  "all_rob_allocate ren i rob =
    (if ren_renamed_valids ren ! i \<and> \<not> rob_full rob then
       let u = ren_renamed_uops ren ! i; t = rob_tail rob;
           rob = set_entry t (\<lambda>e. e\<lparr>re_valid := True, re_busy := True, re_unsafe := False,
                   re_uop := u\<lparr>uop_queue := (uop_queue u)\<lparr>qi_rob_idx := t\<rparr>\<rparr>\<rparr>) rob;
           rob = rob\<lparr>rob_tail := inc_mod ROB_DEPTH t\<rparr>
       in if rob_tail rob = rob_head rob then rob\<lparr>rob_maybe_full := True\<rparr> else rob
     else rob)"

definition all_rob_complete :: "AluResult \<Rightarrow> AllRobState \<Rightarrow> AllRobState" where
  "all_rob_complete r rob =
    (let idx = qi_rob_idx (uop_queue (ar_uop r))
     in if \<not> ar_valid r then rob
        else if unat idx < ROB_DEPTH \<and> re_valid (rob_entries rob ! unat idx) then
          set_entry idx (\<lambda>e. if ar_exception r
            then e\<lparr>re_busy := False, re_exception := True,
                   re_uop := (re_uop e)\<lparr>uop_exception := True, uop_exc_cause := ar_exc_cause r\<rparr>\<rparr>
            else e\<lparr>re_busy := False\<rparr>) rob
        else rob)"

text \<open>The commit part: the buffer and the committed map table of \<open>state.rename\<close>.\<close>

definition all_rob_commit :: "AllRobState \<Rightarrow> u8 list \<Rightarrow> AllRobState \<times> u8 list" where
  "all_rob_commit rob committed =
    (let h = rob_head rob; e = rob_entries rob ! unat h; ri = uop_rename (re_uop e)
     in if rob_empty rob \<or> \<not> re_valid e \<or> re_busy e then (rob, committed)
        else if re_exception e then
          (rob\<lparr>rob_state := ROB_EXCEPTION, arob_xcpt_uop := re_uop e, arob_xcpt_badvaddr := 0, arob_flush_frontend := True\<rparr>, committed)
        else
          ((set_entry h (\<lambda>e. e\<lparr>re_valid := False\<rparr>) rob)\<lparr>rob_head := inc_mod ROB_DEPTH h, rob_maybe_full := False\<rparr>,
           if ri_dst_rtype ri = DST_INT \<and> ri_pdst ri \<noteq> 0 \<and> ri_stale_pdst ri \<noteq> 0 \<and> ri_stale_pdst ri \<noteq> ri_pdst ri
           then committed[unat (ri_ldst ri) := ri_pdst ri] else committed))"

definition all_rob_mispredict :: "BranchUpdate \<Rightarrow> AllRobState \<Rightarrow> AllRobState" where
  "all_rob_mispredict br rob =
    (if bu_valid br \<and> bu_mispredict br then
       rob\<lparr>rob_entries := map (\<lambda>e. if re_valid e \<and> bi_br_mask (uop_branch (re_uop e)) AND bu_mispredict_mask br \<noteq> 0
                 then e\<lparr>re_valid := False, re_busy := False\<rparr> else e) (rob_entries rob),
           rob_tail := inc_mod ROB_DEPTH (rob_head rob), rob_maybe_full := False, rob_state := ROB_NORMAL\<rparr>
     else rob)"

definition all_rob_module :: "RenameState \<Rightarrow> AluResult list \<Rightarrow> BranchUpdate \<Rightarrow> AllRobState \<Rightarrow> AllRobState \<times> u8 list" where
  "all_rob_module ren alu_results br rob =
    (let rob = rob\<lparr>arob_flush_frontend := False\<rparr>; committed = mt_committed_map_table (ren_int_map_table ren)
     in case rob_state rob of
          ROB_INIT \<Rightarrow> (rob\<lparr>rob_state := ROB_NORMAL\<rparr>, committed)
        | ROB_NORMAL \<Rightarrow>
            (let rob = fold (all_rob_allocate ren) [0..<DISPATCH_WIDTH] rob;
                 rob = fold (\<lambda>i. all_rob_complete (alu_results ! i)) [0..<DISPATCH_WIDTH] rob;
                 (rob, committed) = all_rob_commit rob committed
             in (all_rob_mispredict br rob, committed))
        | ROB_FLUSH \<Rightarrow>
            (rob\<lparr>rob_entries := map (\<lambda>e. e\<lparr>re_valid := False, re_busy := False, re_exception := False\<rparr>) (rob_entries rob),
                 rob_head := 0, rob_tail := 0, rob_maybe_full := False, arob_pnr := 0, rob_state := ROB_NORMAL\<rparr>, committed)
        | ROB_EXCEPTION \<Rightarrow> (rob\<lparr>arob_flush_frontend := True\<rparr>, committed))"

section \<open>The state\<close>

record AllFrontendState = FrontendState +
  afe_icache_resp_ready :: bool
  afe_icache_resp_data :: u64

record AllCoreState =
  acs_frontend :: AllFrontendState
  acs_decode :: DecodeState
  acs_rename :: RenameState
  acs_issue :: AllIssueState
  acs_execute :: AllExecuteState
  acs_rob :: AllRobState
  acs_csr :: CsrState
  acs_lsu :: LsuState
  acs_int_rf :: "u64 list"
  acs_fp_rf :: "u64 list"
  acs_brupdate :: BranchUpdate
  acs_global_flush :: bool
  acs_div_state :: DividerState
  acs_next_br_tag :: u8

section \<open>Commit\<close>

definition all_commit_write :: "AluResult \<Rightarrow> u64 list \<Rightarrow> u64 list" where
  "all_commit_write r rf =
    (let ri = uop_rename (ar_uop r); p = ri_pdst ri
     in if ar_valid r \<and> ri_dst_rtype ri = DST_INT \<and> p \<noteq> 0 \<and> unat p < INT_PHYS_REGS then rf[unat p := ar_result r] else rf)"

definition all_commit_free :: "RenameInfo \<Rightarrow> RenameState \<Rightarrow> RenameState" where
  "all_commit_free ri ren =
    (let stale = ri_stale_pdst ri; mt = ren_int_map_table ren; fl = ren_int_free_list ren
     in if ri_dst_rtype ri = DST_INT \<and> ri_pdst ri \<noteq> 0 \<and> stale \<noteq> 0 \<and> unat stale < INT_PHYS_REGS then
          let mt = mt\<lparr>mt_committed_map_table := (mt_committed_map_table mt)[unat (ri_ldst ri) := ri_pdst ri]\<rparr>;
              fl = fl\<lparr>fl_busy_table := (fl_busy_table fl)[unat stale := False]\<rparr>;
              fl = (if unat (fl_count fl) < INT_PHYS_REGS
                    then fl\<lparr>fl_free_list := (fl_free_list fl)[unat (fl_tail fl) := stale],
                            fl_tail := inc_mod INT_PHYS_REGS (fl_tail fl), fl_count := fl_count fl + 1\<rparr>
                    else fl)
          in ren\<lparr>ren_int_map_table := mt, ren_int_free_list := fl\<rparr>
        else ren)"

definition all_commit_module :: "AllCoreState \<Rightarrow> AllCoreState" where
  "all_commit_module s =
    (let s = s\<lparr>acs_int_rf := fold (\<lambda>i. all_commit_write (exe_alu_results (acs_execute s) ! i)) [0..<DISPATCH_WIDTH] (acs_int_rf s)\<rparr>;
         rob = acs_rob s; h = rob_head rob; e = rob_entries rob ! unat h
     in if rob_state rob = ROB_NORMAL \<and> \<not> rob_empty rob \<and> re_valid e \<and> \<not> re_busy e then
          if re_exception e then
            s\<lparr>acs_rob := rob\<lparr>rob_state := ROB_EXCEPTION, arob_xcpt_uop := re_uop e, arob_flush_frontend := True\<rparr>\<rparr>
          else
            s\<lparr>acs_rename := all_commit_free (uop_rename (re_uop e)) (acs_rename s),
              acs_rob := (set_entry h (\<lambda>e. e\<lparr>re_valid := False\<rparr>) rob)\<lparr>rob_head := inc_mod ROB_DEPTH h, rob_maybe_full := False\<rparr>\<rparr>
        else s)"

section \<open>The cycle\<close>

definition all_decode_stage :: "AllCoreState \<Rightarrow> AllCoreState" where
  "all_decode_stage s =
    (let fe = acs_frontend s;
         dec = (acs_decode s)\<lparr>dec_valids := (dec_valids (acs_decode s))[0 := False], dec_uops := (dec_uops (acs_decode s))[0 := MicroOp0]\<rparr>
     in s\<lparr>acs_decode :=
          (case all_decode_module (acs_global_flush s) (fe_stalled fe) (fe_pc fe) (afe_icache_resp_ready fe) (afe_icache_resp_data fe) of
             None \<Rightarrow> dec
           | Some u \<Rightarrow> dec\<lparr>dec_valids := (dec_valids dec)[0 := True], dec_uops := (dec_uops dec)[0 := u]\<rparr>)\<rparr>)"

definition all_rename_stage :: "AllCoreState \<Rightarrow> AllCoreState" where
  "all_rename_stage s =
    (case all_rename_module (acs_global_flush s) (acs_brupdate s) (acs_decode s) (acs_rename s) (acs_next_br_tag s) of
       (ren, tag) \<Rightarrow> s\<lparr>acs_rename := ren, acs_next_br_tag := tag\<rparr>)"

definition all_issue_stage :: "AllCoreState \<Rightarrow> AllCoreState" where
  "all_issue_stage s = s\<lparr>acs_issue := all_issue_module (acs_global_flush s) (acs_brupdate s) (acs_rename s)
     (exe_alu_results (acs_execute s)) (acs_issue s)\<rparr>"

definition all_execute_stage :: "AllCoreState \<Rightarrow> AllCoreState" where
  "all_execute_stage s =
    (case all_execute_module (acs_int_rf s) (acs_issue s) (acs_execute s) (acs_div_state s) of
       (exe, d) \<Rightarrow> s\<lparr>acs_execute := exe, acs_div_state := d\<rparr>)"

text \<open>
  \<open>boom_core_step\<close> on the state and \<open>output.io_success\<close>; \<open>frontend_module\<close> and
  \<open>lsu_module\<close> copy their state, and \<open>rob_module\<close> is not called.
\<close>

definition all_boom_core_step :: "AllCoreState \<Rightarrow> bool \<Rightarrow> AllCoreState \<times> bool \<Rightarrow> AllCoreState \<times> bool" where
  "all_boom_core_step reset_state reset st =
    (case st of (s, io_success) \<Rightarrow>
       if reset then (reset_state\<lparr>acs_div_state := acs_div_state s, acs_next_br_tag := acs_next_br_tag s\<rparr>, False)
       else
         let s = s\<lparr>acs_brupdate := all_branch_module (acs_execute s)\<rparr>;
             s = all_execute_stage (all_issue_stage (all_rename_stage (all_decode_stage s)));
             s = all_commit_module s
         in (s\<lparr>acs_csr := all_csr_module (acs_execute s) (acs_int_rf s) (acs_csr s)\<rparr>, io_success))"

section \<open>Nothing retires\<close>

definition all_boom_run :: "AllCoreState \<Rightarrow> bool list \<Rightarrow> AllCoreState \<times> bool \<Rightarrow> AllCoreState \<times> bool" where
  "all_boom_run reset_state resets = fold (all_boom_core_step reset_state) resets"

lemma rename_keeps_committed:
  "mt_committed_map_table (ren_int_map_table (fst (all_rename_module gf br dec ren tag))) = mt_committed_map_table (ren_int_map_table ren)"
proof -
  have "mt_committed_map_table (ren_int_map_table (fst (all_rename_lane dec i (r, t)))) = mt_committed_map_table (ren_int_map_table r)" for i r t
    by (simp add: all_rename_lane_def all_rename_uop_def all_rename_dest_def all_rename_branch_def int_map_table_snapshot_def
        Let_def split: prod.split)
  then show ?thesis
    by (simp add: all_rename_module_def int_map_table_restore_def Let_def split: option.split)
qed

definition stuck_in_init :: "AllRobState \<Rightarrow> u8 list \<Rightarrow> AllCoreState \<Rightarrow> bool" where
  "stuck_in_init rob committed s = (acs_rob s = rob \<and> mt_committed_map_table (ren_int_map_table (acs_rename s)) = committed)"

lemma step_keeps_stuck:
  assumes "rob_state rob = ROB_INIT" "stuck_in_init rob committed r" "stuck_in_init rob committed (fst st)"
  shows "stuck_in_init rob committed (fst (all_boom_core_step r reset st))"
proof (cases st)
  case (Pair s io)
  have c: "all_commit_module t = t\<lparr>acs_int_rf := acs_int_rf (all_commit_module t)\<rparr>" if "acs_rob t = rob" for t
    using assms(1) that by (simp add: all_commit_module_def Let_def)
  have rob: "acs_rob (all_execute_stage t) = acs_rob t" "acs_rename (all_execute_stage t) = acs_rename t"
    "acs_rob (all_issue_stage t) = acs_rob t" "acs_rename (all_issue_stage t) = acs_rename t"
    "acs_rob (all_rename_stage t) = acs_rob t" "acs_rob (all_decode_stage t) = acs_rob t"
    "acs_rename (all_decode_stage t) = acs_rename t"
    "mt_committed_map_table (ren_int_map_table (acs_rename (all_rename_stage t))) = mt_committed_map_table (ren_int_map_table (acs_rename t))" for t
    using rename_keeps_committed [of "acs_global_flush t" "acs_brupdate t" "acs_decode t" "acs_rename t" "acs_next_br_tag t"]
    by (auto simp: all_execute_stage_def all_issue_stage_def all_rename_stage_def all_decode_stage_def Let_def split: prod.split)
  let ?t = "all_execute_stage (all_issue_stage (all_rename_stage (all_decode_stage (s\<lparr>acs_brupdate := all_branch_module (acs_execute s)\<rparr>))))"
  have t: "acs_rob ?t = rob" "mt_committed_map_table (ren_int_map_table (acs_rename ?t)) = committed"
    using assms(3) by (simp_all add: rob stuck_in_init_def Pair)
  have "acs_rob (all_commit_module ?t) = rob" "acs_rename (all_commit_module ?t) = acs_rename ?t"
    using t(1) by (subst c [OF t(1)]; simp)+
  then show ?thesis using assms(2) t(2) by (simp add: all_boom_core_step_def stuck_in_init_def Pair Let_def)
qed

lemma run_keeps_stuck:
  assumes "rob_state rob = ROB_INIT" "stuck_in_init rob committed r" "stuck_in_init rob committed (fst st)"
  shows "stuck_in_init rob committed (fst (all_boom_run r resets st))"
  using assms(3)
proof (induction resets arbitrary: st)
  case Nil
  then show ?case by (simp add: all_boom_run_def)
next
  case (Cons x resets)
  then show ?case using step_keeps_stuck [OF assms(1,2)] by (simp add: all_boom_run_def)
qed

text \<open>
  C40: The single-file core never retires an instruction: its cycle never calls \<open>rob_module\<close>, so
  from a reset, whatever is fetched and whenever it is reset again, the reorder buffer keeps
  its initial state (empty, in ROB_INIT, which \<open>commit_module\<close> skips) and the committed map
  table never changes.
\<close>
theorem single_file_never_retires:
  assumes "rob_state (acs_rob r) = ROB_INIT"
  shows "acs_rob (fst (all_boom_run r resets (all_boom_core_step r True st))) = acs_rob r
    \<and> mt_committed_map_table (ren_int_map_table (acs_rename (fst (all_boom_run r resets (all_boom_core_step r True st)))))
        = mt_committed_map_table (ren_int_map_table (acs_rename r))"
proof -
  let ?st = "all_boom_core_step r True st"
  have "stuck_in_init (acs_rob r) (mt_committed_map_table (ren_int_map_table (acs_rename r))) (fst ?st)"
    by (simp add: stuck_in_init_def all_boom_core_step_def split: prod.split)
  then show ?thesis
    using run_keeps_stuck [OF assms, of _ r ?st resets] by (simp add: stuck_in_init_def)
qed

text \<open>A reset state with the declared fields as constructed and the others zero, for evaluation.\<close>

definition ExampleReset :: AllCoreState where
  "ExampleReset = \<lparr>
     acs_frontend = FrontendState.extend FrontendState0 \<lparr>afe_icache_resp_ready = True, afe_icache_resp_data = 0x00500093\<rparr>,
     acs_decode = DecodeState0, acs_rename = RenameState0,
     acs_issue = IssueState.extend IssueState0 \<lparr>aiss_mem_iq = IssueQueueState0, aiss_fpu_iq = IssueQueueState0\<rparr>,
     acs_execute = ExecuteState.extend ExecuteState0 \<lparr>aexe_fp_issued_valids = replicate ISSUE_WIDTH False,
       aexe_fp_issued_uops = replicate ISSUE_WIDTH MicroOp0, aexe_fp_busy = False\<rparr>,
     acs_rob = RobInternalState.extend RobInternalState0 \<lparr>arob_pnr = 0, arob_xcpt_uop = MicroOp0, arob_xcpt_badvaddr = 0,
       arob_flush_frontend = False\<rparr>,
     acs_csr = CsrState0, acs_lsu = LsuState0, acs_int_rf = replicate INT_PHYS_REGS 0, acs_fp_rf = replicate FP_PHYS_REGS 0,
     acs_brupdate = BranchUpdate0, acs_global_flush = False, acs_div_state = DividerState0, acs_next_br_tag = 0\<rparr>"

lemma single_file_never_retires_witness:
  "rob_empty (acs_rob (fst (all_boom_run ExampleReset [False, False, False] (all_boom_core_step ExampleReset True (ExampleReset, False)))))"
proof -
  have e: "rob_state (acs_rob ExampleReset) = ROB_INIT" "rob_empty (acs_rob ExampleReset)" by code_simp+
  show ?thesis using single_file_never_retires [OF e(1), of "[False, False, False]"] e(2) by simp
qed

end
