(* ===== verification/Spec2Isabelle.thy ===== *)
theory Spec2Isabelle
  imports LsuSystem RegressionTests WellFormed Divergence HlsIsa AllCore
begin

text \<open>
  \<^bold>\<open>The program.\<close> A cycle-level C++ model of a small out-of-order RV64I core (a cut-down
  BOOM), written for high-level synthesis, and the benches that run it and compare its
  traces with those of the generated BOOM. One call of \<open>boom_core_step\<close> is one clock cycle:
  it copies the flush flag and clears it, counts the cycle, computes the branch update of
  the previous results, and calls the load/store unit, fetch, decode, rename, reorder buffer
  allocation, issue, execute and commit on one shared state, in this order. The surroundings
  see five bounded streams: fetch requests and responses, data requests and responses, and
  the commit trace. The benches answer the requests, stop on a condition of their own and
  read or print the commit trace; the trace tools read the printed lines back.

  \<^bold>\<open>The theories and the code they model.\<close> Each definition has the name of the function or
  type it translates, or of the guarded block of it.
  \<^item> \<open>Prelude\<close>: integer types and promotions, ring buffers, the interface \<open>fifo\<close>.
  \<^item> \<open>BoomTypes\<close>: include/boom_config.hpp, include/boom_types.hpp, include/boom_interfaces.hpp
    (structs as records, enums as datatypes, \<open>hls::stream\<close> as a list with the bound its
    \<open>full()\<close> reports). \<open>BoomState\<close>: include/boom_state.hpp, with the constructors' values.
  \<^item> \<open>Decode\<close>, \<open>Execute\<close>, \<open>Branch\<close>, \<open>Frontend\<close>, \<open>Rename\<close>, \<open>Issue\<close>, \<open>Lsu\<close>: the
    files of those names under src/. \<open>Rob\<close>: \<open>rob_allocate\<close> and \<open>rob_commit_module\<close> of
    src/boom_core_step.cpp. \<open>CoreStep\<close>: src/csr.cpp, \<open>boom_core_step\<close>, and one iteration of
    the endless loop of src/boom_core_top.cpp.
  \<^item> \<open>Asm\<close>: the instruction encoders of tb/tb_boom_core.cpp and
    tb/differential/lsu_minimal_tests.cpp. \<open>System\<close>: the memory and the loop of
    tb/tb_boom_core.cpp, and the loop around src/boom_core_top.cpp. \<open>Programs\<close>: the test
    programs, the verdict and \<open>main\<close> of tb/tb_boom_core.cpp.
  \<^item> \<open>LsuTests\<close>: tb/differential/lsu_minimal_tests.cpp, its data memory, its loop and its
    tests. \<open>RegressionTests\<close>: directed_tests.cpp and gate1_regression_tests.cpp there.
  \<^item> \<open>TraceText\<close>: searching and printing, and the flat JSON object of a trace line.
    \<open>TraceTools\<close>: tb/differential/trace_json_util.hpp, trace_compare.cpp, cycle_normalizer.cpp
    and partial_order_matcher.cpp there, tb/trace_reader.cpp and tb/trace_compare.cpp.
  \<^item> \<open>RefMemory\<close> and \<open>RefTracer\<close>: reference/verilator_trace/standalone_boom_trace.cpp, its
    memory (an AXI slave) and its tracer, arguments and main loop.
  \<^item> \<open>HlsTb\<close>: tb/differential/hls_prefix_trace_tb.cpp, which runs \<open>boom_core_step\<close> on the
    reference programs and prints the trace.
  \<^item> \<open>AllDecode\<close>, \<open>AllRename\<close>, \<open>AllExecute\<close>, \<open>AllCsr\<close>, \<open>AllCore\<close>: src/boom_all.cpp, an
    older core in one file with branch snapshots, wakeup, a divider and a CSR file, which no
    build uses. It assigns fields that include/boom_state.hpp no longer declares: they extend
    the records, and what a reset gives them is an argument of the step. Its two static
    variables are part of the state.

  \<^bold>\<open>What is shown.\<close>
  \<^item> \<open>Isa\<close> states the RV64I instructions independently, in integer arithmetic, with their
    encodings. Decoding and executing computes them on every supported instruction;
    \<open>Divergence\<close> says what the core computes on the others. The immediate extractors invert
    the encoders. \<open>Decode\<close> lists exactly which words raise with which cause, and shows that
    control bits are consistent.
  \<^item> \<open>Stages\<close>, \<open>Refine\<close> and \<open>System\<close> compose the stages: from reset the top-level loop, and
    the bench's loop, execute every supported program as the instruction set says, in
    registers, commit trace, stores and counters, two cycles per instruction. \<open>Ecall\<close>
    follows the environment call; with it the five programs of \<open>Programs\<close> pass.
  \<^item> \<open>MemIsa\<close>, \<open>Loads\<close> and \<open>LsuSystem\<close> extend this to loads and a byte memory: \<open>MemIsa\<close>
    states what the data memory of \<open>LsuTests\<close> reads and writes, byte by byte, \<open>Loads\<close> follows
    a load from issue to retirement while its successor enters the core, and \<open>LsuSystem\<close>
    shows that the core closed with both memories executes loads and stores as the
    instruction set says, and that a program ends the loop with an environment call or, as
    the loop is run by default, with its first store to tohost. Two conditions of these
    theorems are limits of the core, not of the model: the memory answers in the next cycle,
    because the core has no busy bit for a register a load is still fetching, and no jump is
    taken right behind a load, because a mispredict discards the load as well.
  \<^item> \<open>HlsIsa\<close> carries the execution without loads through the HLS bench: on a supported
    straight program the lines it prints are those of the instruction set's own run.
  \<^item> \<open>WellFormed\<close>: an invariant on all array lengths, ring indices and register numbers,
    kept by every stage, so every subscript of the code is in range in every reachable state.
  \<^item> \<open>Queues\<close>: the reorder buffer, the free list and the streams are FIFO queues
    (interpretations of \<open>fifo\<close>); renaming and retiring keep the partition of the physical
    registers; the free list miscounts in every history from its initial state.
  \<^item> \<open>Rob\<close>: exactly when the head retires and with which record, stores only at retirement and
    with which request, exceptions at the head and how a mispredict in the same cycle loses
    them. \<open>Issue\<close>: the issue queue against an abstract bag in age order. \<open>Lsu\<close>: one load at a
    time whatever stale responses arrive, none past an older store, the value a load returns.
    \<open>Frontend\<close>: what each cycle sends, redirects and late responses, stopping.
  \<^item> \<open>CoreStep\<close> runs the core on arbitrary stream contents (\<open>core_run\<close>): the identifiers of the
    fetch requests of a run, when the next one is sent, and how the queues of the load/store
    unit fill and never drain.
  \<^item> \<open>RefMemoryLaws\<close>: reading after writing, termination of the read loop, the order of burst
    responses in every run, completion of write bursts, the image loader. \<open>RefTracer\<close>: the
    main loop ends, and what its exit code means.
  \<^item> \<open>TraceTools\<close>: what a passing comparison says of the two traces. \<open>HlsTrace\<close>: the printed
    trace read back is the core's commit stream; when the records of the two benches compare
    equal; both image loaders agree; a store to tohost the Verilator bench does not see.
  \<^item> \<open>AllDecode\<close>: on which words the two decoders differ. \<open>AllExecute\<close>: the divider ends, with
    which results; how far MULHU is off. \<open>AllRename\<close>: a mispredict restores the branch's map
    table. \<open>AllCsr\<close>: a CSR access as an update of a map. \<open>AllCore\<close>: nothing ever retires.

  \<^bold>\<open>Integers, bounds and fuel.\<close> Every integer has the width of its C++ type and wraps; where
  C++ promotes, the promotion is written out. Arrays are lists of the declared length.
  \<open>tb_run\<close>, \<open>lsu_run_loop\<close> and \<open>hls_loop\<close> recurse on the loop bound of the source (\<open>max_cycles\<close>;
  \<open>kMaxCycles\<close> = 500), so nothing is cut short. Streams hold 1024 entries, the bound
  \<open>full()\<close> tests; the bench that never drains its data requests is followed for 1024
  instructions. The read loop of a burst counts up to and including the burst length in 32
  bits and does not end for the greatest one: it is a \<open>partial_function\<close>, and its theorem
  says for which lengths it returns. The main loop of the Verilator bench is total by its
  cycle limit, for every generated model.

  \<^bold>\<open>Not modelled.\<close> src/boom_core_merged.cpp is generated by scripts/generate_merged.sh from
  the files above.
  src/commit.cpp and src/rob.cpp are empty. The generated model \<open>VTestHarness\<close> is not
  in the repository: it is the record of functions \<open>Harness\<close>, an argument of the main loop.
  Console messages and the opening of files are left out: a file is the list of its lines.
\<close>

end
